(* ===== verification/Prelude.thy ===== *)
theory Prelude
  imports Complex_Main "HOL-Library.Multiset" "HOL-Library.Sublist"
begin

text \<open>
  What every component shares: the collections of rewrite rules, JavaScript strings as
  lists of UTF-16 code units, and the array idioms of the code base.

  Strings are lists of code units, so that the Chinese texts of the pages are the lists the
  browser holds and \<open>length\<close> is the \<open>length\<close> of JavaScript. An ASCII literal is
  written \<open>js ''abc''\<close>.

  The loop \<open>for (i = 0; i < a.length; i++) if (p(a[i])) a.splice(i, 1)\<close> occurs in many of
  the sources. It is \<open>splice_scan\<close>, with the index that the loop keeps. It does not look
  at the element that moves into the freed position, so it is \<open>filter\<close> only on lists
  in which no two neighbours match.
\<close>

named_theorems page_defs \<open>definitions of the page operations, unfolded by the frame proofs\<close>
named_theorems str_simps \<open>rewrite rules of the string library\<close>
named_theorems scan_simps \<open>when a splice loop is a filter\<close>

type_synonym jstring = "nat list"

definition js :: "string \<Rightarrow> jstring" where
  "js s = map of_char s"

lemma js_Nil [simp]: "js [] = []"
  by (simp add: js_def)

lemma js_append [simp]: "js (s @ t) = js s @ js t"
  by (simp add: js_def)

lemma js_inject [simp]: "js s = js t \<longleftrightarrow> s = t"
proof -
  have "inj (map (of_char :: char \<Rightarrow> nat))"
    by (rule inj_mapI) (rule inj_of_char)
  then show ?thesis by (simp add: js_def inj_eq)
qed

lemma js_eq_Nil [simp]: "js s = [] \<longleftrightarrow> s = []"
  by (simp add: js_def)

lemma Nil_eq_js [simp]: "[] = js s \<longleftrightarrow> s = []"
  by (auto simp: js_def)

lemma length_js [simp]: "length (js s) = length s"
  by (simp add: js_def)

subsection \<open>Arrays changed while they are scanned\<close>

definition splice1 :: "nat \<Rightarrow> 'a list \<Rightarrow> 'a list" where
  "splice1 i xs = take i xs @ drop (Suc i) xs"

function splice_scan_from :: "('a \<Rightarrow> bool) \<Rightarrow> 'a list \<Rightarrow> nat \<Rightarrow> 'a list" where
  "splice_scan_from P xs i =
     (if i < length xs
      then (if P (xs ! i) then splice_scan_from P (splice1 i xs) (Suc i)
            else splice_scan_from P xs (Suc i))
      else xs)"
  by pat_completeness auto
termination
  by (relation "measure (\<lambda>(P, xs, i). length xs - i)") (auto simp: splice1_def)

declare splice_scan_from.simps [simp del]

definition splice_scan :: "('a \<Rightarrow> bool) \<Rightarrow> 'a list \<Rightarrow> 'a list" where
  "splice_scan P xs = splice_scan_from P xs 0"

text \<open>The same loop by recursion on the list: after a removal one element is passed over.\<close>

fun skip_filter :: "('a \<Rightarrow> bool) \<Rightarrow> 'a list \<Rightarrow> 'a list" where
  "skip_filter P [] = []"
| "skip_filter P [x] = (if P x then [] else [x])"
| "skip_filter P (x # y # ys) =
     (if P x then y # skip_filter P ys else x # skip_filter P (y # ys))"

lemma splice1_at [simp]: "splice1 (length ps) (ps @ x # xs) = ps @ xs"
  by (simp add: splice1_def)

lemma splice_scan_from_append:
  "splice_scan_from P (ps @ xs) (length ps) = ps @ skip_filter P xs"
proof (induction P xs arbitrary: ps rule: skip_filter.induct)
  case (1 P)
  then show ?case by (simp add: splice_scan_from.simps)
next
  case (2 P x)
  have "splice_scan_from P ps (Suc (length ps)) = ps"
    by (simp add: splice_scan_from.simps)
  moreover have "splice_scan_from P (ps @ [x]) (Suc (length ps)) = ps @ [x]"
    by (simp add: splice_scan_from.simps)
  ultimately show ?case
    by (simp add: splice_scan_from.simps [of P "ps @ [x]" "length ps"])
next
  case (3 P x y ys)
  note u = splice_scan_from.simps [of P "ps @ x # y # ys" "length ps"]
  show ?case
  proof (cases "P x")
    case True
    with "3.IH"(1) [of "ps @ [y]"] u show ?thesis by simp
  next
    case False
    with "3.IH"(2) [of "ps @ [x]"] u show ?thesis by simp
  qed
qed

lemma splice_scan_eq: "splice_scan P xs = skip_filter P xs"
  using splice_scan_from_append [of P "[]" xs] by (simp add: splice_scan_def)

text \<open>No two neighbours match: the case in which the loop removes what it is meant to.\<close>

fun no_adjacent :: "('a \<Rightarrow> bool) \<Rightarrow> 'a list \<Rightarrow> bool" where
  "no_adjacent P (x # y # ys) \<longleftrightarrow> \<not> (P x \<and> P y) \<and> no_adjacent P (y # ys)"
| "no_adjacent P _ \<longleftrightarrow> True"

lemma no_adjacent_tl: "no_adjacent P (x # xs) \<Longrightarrow> no_adjacent P xs"
  by (cases xs) auto

lemma skip_filter_filter:
  "no_adjacent P xs \<Longrightarrow> skip_filter P xs = filter (\<lambda>x. \<not> P x) xs"
  by (induction P xs rule: skip_filter.induct) (auto dest: no_adjacent_tl)

lemma no_adjacent_single:
  assumes "length (filter P xs) \<le> 1"
  shows "no_adjacent P xs"
  using assms by (induction P xs rule: no_adjacent.induct) (auto split: if_splits)

lemma splice_scan_filter [scan_simps]:
  "no_adjacent P xs \<Longrightarrow> splice_scan P xs = filter (\<lambda>x. \<not> P x) xs"
  by (simp add: splice_scan_eq skip_filter_filter)

lemma filter_distinct_at_most_one:
  "distinct (map f xs) \<Longrightarrow> length (filter (\<lambda>x. f x = k) xs) \<le> 1"
proof (induction xs)
  case (Cons x xs)
  show ?case
  proof (cases "f x = k")
    case True
    with Cons.prems have "\<forall>y \<in> set xs. f y \<noteq> k"
      by (auto simp: image_iff)
    with True show ?thesis by (simp add: filter_empty_conv)
  qed (use Cons in auto)
qed simp

lemma splice_scan_distinct [scan_simps]:
  "distinct (map f xs) \<Longrightarrow> splice_scan (\<lambda>x. f x = k) xs = filter (\<lambda>x. f x \<noteq> k) xs"
  by (subst splice_scan_filter)
    (auto intro!: no_adjacent_single filter_distinct_at_most_one [unfolded One_nat_def])

lemma splice_scan_none [scan_simps]:
  "(\<And>x. x \<in> set xs \<Longrightarrow> \<not> P x) \<Longrightarrow> splice_scan P xs = xs"
  by (subst splice_scan_filter) (auto intro!: no_adjacent_single simp: filter_empty_conv)

lemma set_skip_filter: "set (skip_filter P xs) \<subseteq> set xs"
  by (induction P xs rule: skip_filter.induct) auto

lemma subseq_skip_filter: "subseq (skip_filter P xs) xs"
  by (induction P xs rule: skip_filter.induct) (auto intro: subseq_Cons')

lemma set_splice_scan: "set (splice_scan P xs) \<subseteq> set xs"
  by (simp add: splice_scan_eq set_skip_filter)

lemma length_splice_scan: "length (splice_scan P xs) \<le> length xs"
  using list_emb_length [OF subseq_skip_filter [of P xs]] by (simp add: splice_scan_eq)

lemma distinct_subseq: "subseq xs ys \<Longrightarrow> distinct ys \<Longrightarrow> distinct xs"
  by (induction rule: list_emb.induct) (auto dest: list_emb_set)

lemma distinct_map_splice_scan:
  "distinct (map f xs) \<Longrightarrow> distinct (map f (splice_scan P xs))"
  by (metis splice_scan_eq subseq_skip_filter distinct_subseq subseq_map)

lemma splice_scan_cong:
  "(\<And>x. x \<in> set xs \<Longrightarrow> P x = Q x) \<Longrightarrow> splice_scan P xs = splice_scan Q xs"
proof -
  assume "\<And>x. x \<in> set xs \<Longrightarrow> P x = Q x"
  then have "skip_filter P xs = skip_filter Q xs"
    by (induction P xs rule: skip_filter.induct) auto
  then show ?thesis by (simp add: splice_scan_eq)
qed

lemma distinct_map_filter_snoc:
  "distinct (map f xs) \<Longrightarrow> distinct (map f (filter (\<lambda>x. f x \<noteq> f y) xs @ [y]))"
  by (induction xs) auto

end
