(* ===== verification/JsString.thy ===== *)
theory JsString
  imports Prelude
begin

text \<open>
  The string functions of JavaScript that the sources call: \<open>indexOf\<close>, \<open>lastIndexOf\<close>,
  \<open>substr\<close>, \<open>substring\<close>, \<open>split\<close> and \<open>join\<close> with their round trips, \<open>replace\<close>
  with a string pattern (the replacement's dollar patterns included), white space, and
  \<open>encodeURIComponent\<close>.
\<close>

subsection \<open>Searching\<close>

fun find_sub :: "jstring \<Rightarrow> jstring \<Rightarrow> nat option" where
  "find_sub p [] = (if p = [] then Some 0 else None)"
| "find_sub p (x # xs) =
     (if prefix p (x # xs) then Some 0 else map_option Suc (find_sub p xs))"

definition indexOf :: "jstring \<Rightarrow> jstring \<Rightarrow> int" where
  "indexOf s p = (case find_sub p s of None \<Rightarrow> -1 | Some n \<Rightarrow> int n)"

fun find_last :: "nat \<Rightarrow> jstring \<Rightarrow> nat option" where
  "find_last c [] = None"
| "find_last c (x # xs) =
     (case find_last c xs of Some n \<Rightarrow> Some (Suc n) | None \<Rightarrow> if x = c then Some 0 else None)"

definition includes_str :: "jstring \<Rightarrow> jstring \<Rightarrow> bool" where
  "includes_str s p \<longleftrightarrow> find_sub p s \<noteq> None"

lemma find_sub_Some:
  "find_sub p s = Some n \<Longrightarrow> s = take n s @ p @ drop (n + length p) s"
proof (induction s arbitrary: n)
  case Nil
  then show ?case by (auto split: if_splits)
next
  case (Cons x xs)
  show ?case
  proof (cases "prefix p (x # xs)")
    case True
    with Cons.prems have "n = 0" by simp
    with True show ?thesis by (auto simp: prefix_def)
  next
    case False
    with Cons.prems obtain m where m: "find_sub p xs = Some m" "n = Suc m"
      by auto
    with Cons.IH [of m] show ?thesis by simp
  qed
qed

lemma find_sub_le: "find_sub p s = Some n \<Longrightarrow> n + length p \<le> length s"
proof (induction s arbitrary: n)
  case (Cons x xs)
  then show ?case by (auto split: if_splits dest: prefix_length_le)
qed (simp split: if_splits)

lemma find_sub_None: "find_sub p s = None \<longleftrightarrow> \<not> sublist p s"
proof (induction s)
  case (Cons x xs)
  then show ?case by (auto simp: sublist_Cons_right prefix_def)
qed simp

lemma find_sub_Ex: "(\<exists>n. find_sub p s = Some n) \<longleftrightarrow> sublist p s"
  using find_sub_None [of p s] by auto

lemma includes_str_sublist: "includes_str s p \<longleftrightarrow> sublist p s"
  by (simp add: includes_str_def find_sub_Ex)

lemma indexOf_neg [str_simps]: "indexOf s p = -1 \<longleftrightarrow> \<not> sublist p s"
  using find_sub_None [of p s] by (auto simp: indexOf_def split: option.splits)

lemma indexOf_nonneg [str_simps]: "indexOf s p \<ge> 0 \<longleftrightarrow> sublist p s"
  using find_sub_None [of p s] by (auto simp: indexOf_def split: option.splits)

lemma sublist_single [simp]: "sublist [c] s \<longleftrightarrow> c \<in> set s"
  by (induction s) (auto simp: sublist_Cons_right prefix_def)

lemma find_sub_chr_None: "find_sub [c] s = None \<longleftrightarrow> c \<notin> set s"
  by (simp add: find_sub_None)

lemma find_sub_chr: "c \<notin> set s \<Longrightarrow> find_sub [c] (s @ c # t) = Some (length s)"
  by (induction s) auto

lemma find_last_None: "find_last c s = None \<longleftrightarrow> c \<notin> set s"
  by (induction s) (auto split: option.splits)

lemma find_last_chr: "c \<notin> set t \<Longrightarrow> find_last c (s @ c # t) = Some (length s)"
proof (induction s)
  case Nil
  then have "find_last c t = None" by (simp add: find_last_None)
  then show ?case by simp
qed simp

subsection \<open>Splitting at one character and joining\<close>

fun split_chr :: "nat \<Rightarrow> jstring \<Rightarrow> jstring list" where
  "split_chr c [] = [[]]"
| "split_chr c (x # xs) =
     (if x = c then [] # split_chr c xs
      else (case split_chr c xs of [] \<Rightarrow> [[x]] | y # ys \<Rightarrow> (x # y) # ys))"

fun join :: "jstring \<Rightarrow> jstring list \<Rightarrow> jstring" where
  "join sep [] = []"
| "join sep [x] = x"
| "join sep (x # y # ys) = x @ sep @ join sep (y # ys)"

lemma split_chr_nonempty [simp]: "split_chr c s \<noteq> []"
  by (induction s) (auto split: list.splits)

lemma split_chr_no_sep: "x \<in> set (split_chr c s) \<Longrightarrow> c \<notin> set x"
proof (induction s arbitrary: x)
  case (Cons a s)
  then show ?case by (cases "split_chr c s") (auto split: if_splits)
qed simp

lemma split_chr_plain [simp]: "c \<notin> set s \<Longrightarrow> split_chr c s = [s]"
  by (induction s) auto

lemma split_chr_append [simp]:
  "c \<notin> set s \<Longrightarrow> split_chr c (s @ c # t) = s # split_chr c t"
  by (induction s) auto

lemma join_Cons: "xs \<noteq> [] \<Longrightarrow> join sep (x # xs) = x @ sep @ join sep xs"
  by (cases xs) auto

lemma join_snoc: "xs \<noteq> [] \<Longrightarrow> join sep (xs @ [x]) = join sep xs @ sep @ x"
proof (induction xs)
  case (Cons y ys)
  then show ?case by (cases "ys = []") (auto simp: join_Cons)
qed simp

lemma join_append:
  "xs \<noteq> [] \<Longrightarrow> ys \<noteq> [] \<Longrightarrow> join sep (xs @ ys) = join sep xs @ sep @ join sep ys"
proof (induction xs)
  case (Cons x xs)
  then show ?case by (cases "xs = []") (auto simp: join_Cons)
qed simp

lemma split_join:
  assumes "xs \<noteq> []" and "\<forall>x \<in> set xs. c \<notin> set x"
  shows "split_chr c (join [c] xs) = xs"
  using assms
proof (induction xs)
  case (Cons x xs)
  then show ?case by (cases "xs = []") (auto simp: join_Cons)
qed simp

lemma join_split: "join [c] (split_chr c s) = s"
proof (induction s)
  case (Cons x s)
  obtain y ys where "split_chr c s = y # ys"
    by (cases "split_chr c s") auto
  with Cons show ?case by (cases ys) (auto simp: join_Cons)
qed simp

lemma split_chr_eq_single_Nil: "split_chr c s = [[]] \<longleftrightarrow> s = []"
  by (metis join.simps(2) join_split split_chr.simps(1))

lemma join_eq_Nil: "join [c] xs = [] \<longleftrightarrow> xs = [] \<or> xs = [[]]"
  by (induction "[c]" xs rule: join.induct) auto

subsection \<open>Substrings\<close>

definition substring :: "jstring \<Rightarrow> nat \<Rightarrow> nat \<Rightarrow> jstring" where
  "substring s a b = (let lo = min a b; hi = max a b in drop lo (take hi s))"

lemma substring_ordered [str_simps]:
  "a \<le> b \<Longrightarrow> substring s a b = drop a (take b s)"
  by (simp add: substring_def min_absorb1 max_absorb2)

subsection \<open>Replacement of the first match of a string\<close>

text \<open>
  \<open>s.replace(p, r)\<close> expands the dollar patterns of \<open>r\<close>: a doubled dollar, the match
  (\<open>&\<close>), what precedes it (a backquote), what follows it (a quote). A dollar before
  anything else stays.
\<close>

fun expand_dollar :: "jstring \<Rightarrow> jstring \<Rightarrow> jstring \<Rightarrow> jstring \<Rightarrow> jstring" where
  "expand_dollar m b a [] = []"
| "expand_dollar m b a [x] = [x]"
| "expand_dollar m b a (x # y # r) =
     (if x \<noteq> 36 then x # expand_dollar m b a (y # r)
      else if y = 36 then 36 # expand_dollar m b a r
      else if y = 38 then m @ expand_dollar m b a r
      else if y = 96 then b @ expand_dollar m b a r
      else if y = 39 then a @ expand_dollar m b a r
      else x # expand_dollar m b a (y # r))"

definition replace_str :: "jstring \<Rightarrow> jstring \<Rightarrow> jstring \<Rightarrow> jstring" where
  "replace_str s p r =
     (case find_sub p s of
        None \<Rightarrow> s
      | Some n \<Rightarrow>
          (let b = take n s; a = drop (n + length p) s in b @ expand_dollar p b a r @ a))"

lemma expand_dollar_plain [str_simps]: "36 \<notin> set r \<Longrightarrow> expand_dollar m b a r = r"
  by (induction m b a r rule: expand_dollar.induct) auto

lemma replace_str_absent [str_simps]: "\<not> sublist p s \<Longrightarrow> replace_str s p r = s"
  by (simp add: replace_str_def find_sub_None [symmetric])

lemma replace_str_prefix: "replace_str (p @ s) p [] = s"
proof -
  have "prefix p (p @ s)" by simp
  then have "find_sub p (p @ s) = Some 0" by (cases "p @ s") auto
  then show ?thesis by (simp add: replace_str_def)
qed

subsection \<open>White space\<close>

definition is_ws :: "nat \<Rightarrow> bool" where
  "is_ws c \<longleftrightarrow>
     c \<in> {9, 10, 11, 12, 13, 32, 160, 0x1680, 0x2028, 0x2029, 0x202F, 0x205F, 0x3000, 0xFEFF}
     \<or> (0x2000 \<le> c \<and> c \<le> 0x200A)"

definition strip_ws :: "jstring \<Rightarrow> jstring" where
  "strip_ws s = filter (\<lambda>c. \<not> is_ws c) s"

definition trim_left :: "jstring \<Rightarrow> jstring" where
  "trim_left s = dropWhile is_ws s"

definition trim :: "jstring \<Rightarrow> jstring" where
  "trim s = rev (dropWhile is_ws (rev (trim_left s)))"

lemma trim_idle: "s = [] \<or> \<not> is_ws (hd s) \<and> \<not> is_ws (last s) \<Longrightarrow> trim s = s"
proof (cases s)
  case (Cons x xs)
  assume "s = [] \<or> \<not> is_ws (hd s) \<and> \<not> is_ws (last s)"
  with Cons have h: "\<not> is_ws x" "\<not> is_ws (hd (rev s))" by (auto simp: hd_rev simp del: rev.simps)
  then have "dropWhile is_ws (rev s) = rev s" by (cases "rev s") auto
  with h Cons show ?thesis by (simp add: trim_def trim_left_def)
qed (simp add: trim_def trim_left_def)

lemma set_trim: "set (trim s) \<subseteq> set s"
  by (auto simp: trim_def trim_left_def dest!: set_dropWhileD)

subsection \<open>encodeURIComponent\<close>

definition uri_unreserved :: "nat \<Rightarrow> bool" where
  "uri_unreserved c \<longleftrightarrow>
     (48 \<le> c \<and> c \<le> 57) \<or> (65 \<le> c \<and> c \<le> 90) \<or> (97 \<le> c \<and> c \<le> 122)
     \<or> c \<in> {45, 95, 46, 33, 126, 42, 39, 40, 41}"

definition hex_digit :: "nat \<Rightarrow> nat" where
  "hex_digit n = (if n < 10 then 48 + n else 55 + n)"

definition pct :: "nat \<Rightarrow> jstring" where
  "pct b = [37, hex_digit (b div 16), hex_digit (b mod 16)]"

definition utf8 :: "nat \<Rightarrow> nat list" where
  "utf8 c =
     (if c < 0x80 then [c]
      else if c < 0x800 then [0xC0 + c div 64, 0x80 + c mod 64]
      else if c < 0x10000
      then [0xE0 + c div 4096, 0x80 + c div 64 mod 64, 0x80 + c mod 64]
      else [0xF0 + c div 262144, 0x80 + c div 4096 mod 64, 0x80 + c div 64 mod 64,
            0x80 + c mod 64])"

text \<open>A lone surrogate raises \<open>URIError\<close>: the result is \<open>None\<close>.\<close>

fun encodeURIComponent :: "jstring \<Rightarrow> jstring option" where
  "encodeURIComponent [] = Some []"
| "encodeURIComponent (c # s) =
     (if uri_unreserved c then map_option ((#) c) (encodeURIComponent s)
      else if 0xD800 \<le> c \<and> c < 0xDC00 then
        (case s of
           d # s' \<Rightarrow>
             if 0xDC00 \<le> d \<and> d < 0xE000
             then map_option ((@) (concat (map pct
                     (utf8 ((c - 0xD800) * 0x400 + (d - 0xDC00) + 0x10000)))))
                   (encodeURIComponent s')
             else None
         | [] \<Rightarrow> None)
      else if 0xDC00 \<le> c \<and> c < 0xE000 then None
      else map_option ((@) (concat (map pct (utf8 c)))) (encodeURIComponent s))"

definition uri_out :: "nat \<Rightarrow> bool" where
  "uri_out c \<longleftrightarrow> uri_unreserved c \<or> c = 37"

lemma hex_digit_out: "n < 16 \<Longrightarrow> uri_out (hex_digit n)"
  by (auto simp: hex_digit_def uri_out_def uri_unreserved_def)

lemma pct_out: "b < 256 \<Longrightarrow> c \<in> set (pct b) \<Longrightarrow> uri_out c"
  using hex_digit_out [of "b mod 16"] hex_digit_out [of "b div 16"]
  by (auto simp: pct_def uri_out_def)

lemma utf8_bytes: "c < 0x110000 \<Longrightarrow> b \<in> set (utf8 c) \<Longrightarrow> b < 256"
  by (auto simp: utf8_def split: if_splits)

lemma pcts_out:
  "c < 0x110000 \<Longrightarrow> x \<in> set (concat (map pct (utf8 c))) \<Longrightarrow> uri_out x"
  by (auto dest: utf8_bytes intro: pct_out)

lemma encodeURIComponent_out:
  assumes "encodeURIComponent s = Some e" and "\<forall>c \<in> set s. c < 0x10000"
  shows "\<forall>c \<in> set e. uri_out c"
  using assms
proof (induction s arbitrary: e rule: encodeURIComponent.induct)
  case (2 c s)
  from "2.prems"(2) have c: "c < 0x110000" by simp
  consider (plain) "uri_unreserved c"
    | (pair) "\<not> uri_unreserved c" "0xD800 \<le> c" "c < 0xDC00"
    | (low) "\<not> uri_unreserved c" "0xDC00 \<le> c" "c < 0xE000"
    | (other) "\<not> uri_unreserved c" "c < 0xD800 \<or> 0xE000 \<le> c"
    by linarith
  then show ?case
  proof cases
    case plain
    with "2.IH"(1) "2.prems" show ?thesis by (auto simp: uri_out_def)
  next
    case pair
    with "2.prems" obtain d s' e' where s: "s = d # s'" "0xDC00 \<le> d" "d < 0xE000"
      "encodeURIComponent s' = Some e'"
      "e = concat (map pct (utf8 ((c - 0xD800) * 0x400 + (d - 0xDC00) + 0x10000))) @ e'"
      by (auto split: list.splits if_splits)
    with pair "2.IH"(2) [of d s' e'] "2.prems"(2) have "\<forall>c \<in> set e'. uri_out c"
      by auto
    moreover have "(c - 0xD800) * 0x400 + (d - 0xDC00) + 0x10000 < 0x110000"
      using pair s by linarith
    ultimately show ?thesis unfolding s(5) set_append by (blast dest: pcts_out)
  next
    case low
    with "2.prems" show ?thesis by simp
  next
    case other
    with "2.prems" obtain e' where e: "encodeURIComponent s = Some e'"
      "e = concat (map pct (utf8 c)) @ e'"
      by (auto split: if_splits)
    with other "2.IH"(3) "2.prems"(2) have "\<forall>c \<in> set e'. uri_out c" by auto
    with c show ?thesis unfolding e(2) set_append by (blast dest: pcts_out)
  qed
qed simp

end
