(* ===== verification/JsValue.thy ===== *)
theory JsValue
  imports JsString
begin

text \<open>
  The JavaScript values that reach the modelled code, and the conversions the code relies on
  without saying so: \<open>==\<close> between a number and a string, the number a string denotes in a
  comparison, \<open>isNaN\<close>, \<open>parseInt\<close>, the truth value in a condition, and the text in a
  concatenation. The numbers held in data (identifiers, counts, positions) are integers; the
  number a string converts to is exact (a rational), not rounded to a double.
\<close>

datatype jsval = JUndef | JNull | JBool bool | JInt int | JStr jstring

datatype jnum = NaN | Infinite bool | Fin rat  \<comment> \<open>\<open>Infinite True\<close> is the negative one\<close>

subsection \<open>Integers as text\<close>

fun nat_to_str :: "nat \<Rightarrow> jstring" where
  "nat_to_str n = (if n < 10 then [48 + n] else nat_to_str (n div 10) @ [48 + n mod 10])"

declare nat_to_str.simps [simp del]

definition int_to_str :: "int \<Rightarrow> jstring" where
  "int_to_str i = (if i < 0 then 45 # nat_to_str (nat (- i)) else nat_to_str (nat i))"

definition is_digit :: "nat \<Rightarrow> bool" where
  "is_digit c \<longleftrightarrow> 48 \<le> c \<and> c \<le> 57"

definition digits_val :: "jstring \<Rightarrow> nat" where
  "digits_val s = foldl (\<lambda>a c. 10 * a + (c - 48)) 0 s"

lemma nat_to_str_digits: "\<forall>c \<in> set (nat_to_str n). is_digit c"
proof (induction n rule: nat_to_str.induct)
  case (1 n)
  then show ?case
    by (cases "n < 10") (auto simp: nat_to_str.simps [of n] is_digit_def)
qed

lemma nat_to_str_nonempty [simp]: "nat_to_str n \<noteq> []"
  by (subst nat_to_str.simps) simp

lemma digits_val_nat_to_str [simp]: "digits_val (nat_to_str n) = n"
proof (induction n rule: nat_to_str.induct)
  case (1 n)
  then show ?case
    by (cases "n < 10") (auto simp: nat_to_str.simps [of n] digits_val_def)
qed

lemma nat_to_str_inject [simp]: "nat_to_str m = nat_to_str n \<longleftrightarrow> m = n"
  by (metis digits_val_nat_to_str)

lemma hd_nat_to_str: "is_digit (hd (nat_to_str n))" "is_digit (last (nat_to_str n))"
  using nat_to_str_digits [of n] by (auto intro: hd_in_set last_in_set)

lemma int_to_str_inject [simp]: "int_to_str i = int_to_str j \<longleftrightarrow> i = j"
proof -
  have "hd (nat_to_str n) \<noteq> 45" for n
    using hd_nat_to_str [of n] by (auto simp: is_digit_def)
  then have "nat_to_str n \<noteq> 45 # s" for n s
    by (metis list.sel(1))
  then show ?thesis by (auto simp: int_to_str_def) (metis)+
qed

lemma int_to_str_nonempty [simp]: "int_to_str i \<noteq> []"
  by (simp add: int_to_str_def)

lemma int_to_str_chars: "c \<in> set (int_to_str i) \<Longrightarrow> is_digit c \<or> c = 45"
  using nat_to_str_digits by (auto simp: int_to_str_def split: if_splits)

lemma int_to_str_no_comma: "44 \<notin> set (int_to_str i)"
  using int_to_str_chars [of 44 i] by (auto simp: is_digit_def)

subsection \<open>The number a string denotes\<close>

definition hex_val :: "nat \<Rightarrow> nat option" where
  "hex_val c =
     (if is_digit c then Some (c - 48)
      else if 97 \<le> c \<and> c \<le> 102 then Some (c - 87)
      else if 65 \<le> c \<and> c \<le> 70 then Some (c - 55) else None)"

definition hex_number :: "jstring \<Rightarrow> nat" where
  "hex_number s = foldl (\<lambda>a c. 16 * a + (case hex_val c of Some d \<Rightarrow> d | None \<Rightarrow> 0)) 0 s"

text \<open>The exponent part: empty, or \<open>e\<close>, a sign and digits up to the end.\<close>

definition exponent :: "jstring \<Rightarrow> rat option" where
  "exponent s =
     (case s of
        [] \<Rightarrow> Some 1
      | e # r \<Rightarrow>
          if e \<noteq> 101 \<and> e \<noteq> 69 then None
          else (let neg = (r \<noteq> [] \<and> hd r = 45);
                    ds = (if r \<noteq> [] \<and> (hd r = 45 \<or> hd r = 43) then tl r else r)
                in if ds = [] \<or> \<not> list_all is_digit ds then None
                   else Some (if neg then 1 / 10 ^ digits_val ds else 10 ^ digits_val ds)))"

definition unsigned_decimal :: "jstring \<Rightarrow> jnum" where
  "unsigned_decimal s =
     (if s = js ''Infinity'' then Infinite False
      else let ip = takeWhile is_digit s; r = dropWhile is_digit s;
               dot = (r \<noteq> [] \<and> hd r = 46);
               fp = (if dot then takeWhile is_digit (tl r) else []);
               r' = (if dot then dropWhile is_digit (tl r) else r)
           in if ip = [] \<and> fp = [] then NaN
              else (case exponent r' of
                      None \<Rightarrow> NaN
                    | Some e \<Rightarrow>
                        Fin ((of_nat (digits_val ip)
                              + of_nat (digits_val fp) / 10 ^ length fp) * e)))"

definition neg_num :: "jnum \<Rightarrow> jnum" where
  "neg_num x = (case x of NaN \<Rightarrow> NaN | Infinite b \<Rightarrow> Infinite (\<not> b) | Fin r \<Rightarrow> Fin (- r))"

definition is_hex_literal :: "jstring \<Rightarrow> bool" where
  "is_hex_literal t \<longleftrightarrow>
     length t > 2 \<and> t ! 0 = 48 \<and> (t ! 1 = 120 \<or> t ! 1 = 88)
     \<and> list_all (\<lambda>c. hex_val c \<noteq> None) (drop 2 t)"

definition to_number :: "jstring \<Rightarrow> jnum" where
  "to_number s =
     (let t = trim s
      in if t = [] then Fin 0
         else if is_hex_literal t then Fin (of_nat (hex_number (drop 2 t)))
         else if hd t = 45 then neg_num (unsigned_decimal (tl t))
         else if hd t = 43 then unsigned_decimal (tl t)
         else unsigned_decimal t)"

definition isNaN :: "jstring \<Rightarrow> bool" where
  "isNaN s \<longleftrightarrow> to_number s = NaN"

text \<open>\<open>s < n\<close> and \<open>s > n\<close> for a string and a number: false when the string is no number.\<close>

definition str_lt :: "jstring \<Rightarrow> rat \<Rightarrow> bool" where
  "str_lt s n \<longleftrightarrow>
     (case to_number s of NaN \<Rightarrow> False | Infinite neg \<Rightarrow> neg | Fin r \<Rightarrow> r < n)"

definition str_gt :: "jstring \<Rightarrow> rat \<Rightarrow> bool" where
  "str_gt s n \<longleftrightarrow>
     (case to_number s of NaN \<Rightarrow> False | Infinite neg \<Rightarrow> \<not> neg | Fin r \<Rightarrow> r > n)"

lemma takeWhile_all: "\<forall>c \<in> set s. P c \<Longrightarrow> takeWhile P s = s \<and> dropWhile P s = []"
  by (induction s) auto

lemma unsigned_decimal_nat [simp]: "unsigned_decimal (nat_to_str n) = Fin (of_nat n)"
proof -
  have d: "takeWhile is_digit (nat_to_str n) = nat_to_str n"
    "dropWhile is_digit (nat_to_str n) = []"
    using takeWhile_all [OF nat_to_str_digits] by auto
  have "hd (nat_to_str n) \<noteq> hd (js ''Infinity'')"
    using hd_nat_to_str [of n] by (auto simp: is_digit_def js_def)
  then have "nat_to_str n \<noteq> js ''Infinity''" by metis
  then show ?thesis
    by (simp add: unsigned_decimal_def d exponent_def Let_def digits_val_def [of "[]"])
qed

lemma is_ws_digit: "is_digit c \<Longrightarrow> \<not> is_ws c"
  by (auto simp: is_digit_def is_ws_def)

lemma trim_int_to_str [simp]: "trim (int_to_str i) = int_to_str i"
  using hd_nat_to_str
  by (intro trim_idle) (auto simp: int_to_str_def is_ws_digit is_ws_def [of 45])

lemma not_hex_int_to_str [simp]: "\<not> is_hex_literal (int_to_str i)"
proof
  assume h: "is_hex_literal (int_to_str i)"
  then have "int_to_str i ! 1 \<in> set (int_to_str i)"
    by (intro nth_mem) (simp add: is_hex_literal_def)
  with h show False
    using int_to_str_chars [of "int_to_str i ! 1" i]
    by (auto simp: is_hex_literal_def is_digit_def)
qed

lemma to_number_int_to_str [simp]: "to_number (int_to_str i) = Fin (of_int i)"
proof -
  have "hd (nat_to_str n) \<noteq> 45" "hd (nat_to_str n) \<noteq> 43" for n
    using hd_nat_to_str [of n] by (auto simp: is_digit_def)
  then show ?thesis
    by (simp add: to_number_def Let_def) (simp add: int_to_str_def neg_num_def of_nat_nat)
qed

subsection \<open>parseInt\<close>

text \<open>Leading digits after white space and a sign; \<open>None\<close> is \<open>NaN\<close>.\<close>

definition parse_int :: "jstring \<Rightarrow> int option" where
  "parse_int s =
     (let t = trim_left s;
          neg = (t \<noteq> [] \<and> hd t = 45);
          u = (if t \<noteq> [] \<and> (hd t = 45 \<or> hd t = 43) then tl t else t);
          hex = (length u \<ge> 2 \<and> u ! 0 = 48 \<and> (u ! 1 = 120 \<or> u ! 1 = 88));
          ds = (if hex then takeWhile (\<lambda>c. hex_val c \<noteq> None) (drop 2 u)
                else takeWhile is_digit u);
          n = (if hex then hex_number ds else digits_val ds)
      in if ds = [] then None else Some (if neg then - int n else int n))"

lemma parse_int_int_to_str [simp]: "parse_int (int_to_str i) = Some i"
proof -
  have d: "takeWhile is_digit (nat_to_str n) = nat_to_str n" for n
    using takeWhile_all [OF nat_to_str_digits] by auto
  have h: "hd (nat_to_str n) \<noteq> 45" "hd (nat_to_str n) \<noteq> 43"
    "trim_left (nat_to_str n) = nat_to_str n" for n
    using hd_nat_to_str [of n]
    by (cases "nat_to_str n"; auto simp: is_digit_def trim_left_def is_ws_def)+
  have x: "\<not> (length (nat_to_str n) \<ge> 2 \<and> nat_to_str n ! 0 = 48
      \<and> (nat_to_str n ! 1 = 120 \<or> nat_to_str n ! 1 = 88))" for n
    using nat_to_str_digits [of n] nth_mem [of 1 "nat_to_str n"]
    by (fastforce simp: is_digit_def)
  have m: "trim_left (45 # s) = 45 # s" for s
    by (simp add: trim_left_def is_ws_def)
  show ?thesis
    unfolding parse_int_def int_to_str_def Let_def
    using x by (auto simp: d h m)
qed

subsection \<open>Text, truth, equality\<close>

definition to_str :: "jsval \<Rightarrow> jstring" where
  "to_str v = (case v of JUndef \<Rightarrow> js ''undefined'' | JNull \<Rightarrow> js ''null''
     | JBool b \<Rightarrow> (if b then js ''true'' else js ''false'') | JInt i \<Rightarrow> int_to_str i | JStr s \<Rightarrow> s)"

text \<open>What \<open>Array.join\<close> writes: nothing for \<open>undefined\<close> and \<open>null\<close>.\<close>

definition elem_str :: "jsval \<Rightarrow> jstring" where
  "elem_str v = (if v = JUndef \<or> v = JNull then [] else to_str v)"

definition truthy :: "jsval \<Rightarrow> bool" where
  "truthy v = (case v of JUndef \<Rightarrow> False | JNull \<Rightarrow> False | JBool b \<Rightarrow> b | JInt i \<Rightarrow> i \<noteq> 0
     | JStr s \<Rightarrow> s \<noteq> [])"

definition prim_num :: "jsval \<Rightarrow> jnum" where
  "prim_num v = (case v of JUndef \<Rightarrow> NaN | JNull \<Rightarrow> Fin 0 | JBool b \<Rightarrow> Fin (if b then 1 else 0)
     | JInt i \<Rightarrow> Fin (of_int i) | JStr s \<Rightarrow> to_number s)"

definition num_eq :: "jnum \<Rightarrow> jnum \<Rightarrow> bool" where
  "num_eq x y \<longleftrightarrow> x = y \<and> x \<noteq> NaN"

definition js_eq :: "jsval \<Rightarrow> jsval \<Rightarrow> bool" where
  "js_eq v w =
     (if v = JUndef \<or> v = JNull then w = JUndef \<or> w = JNull
      else if w = JUndef \<or> w = JNull then False
      else (case (v, w) of (JStr s, JStr t) \<Rightarrow> s = t | _ \<Rightarrow> num_eq (prim_num v) (prim_num w)))"

lemma js_eq_str [simp]: "js_eq (JStr s) (JStr t) \<longleftrightarrow> s = t"
  by (simp add: js_eq_def)

lemma js_eq_int [simp]: "js_eq (JInt i) (JInt j) \<longleftrightarrow> i = j"
  by (auto simp: js_eq_def num_eq_def prim_num_def)

lemma js_eq_undef [simp]:
  "js_eq JUndef (JStr s) = False" "js_eq (JStr s) JUndef = False"
  "js_eq JUndef (JInt i) = False" "js_eq (JInt i) JUndef = False"
  by (simp_all add: js_eq_def)

lemma js_eq_int_str: "js_eq (JInt i) (JStr s) \<longleftrightarrow> to_number s = Fin (of_int i)"
  by (auto simp: js_eq_def num_eq_def prim_num_def)

lemma js_eq_sym: "js_eq v w = js_eq w v"
  by (cases v; cases w) (auto simp: js_eq_def num_eq_def)

text \<open>
  Values on which \<open>==\<close> is equality of the texts: integers, and strings that are not another
  spelling of an integer. The identifiers the pages carry are of this kind.
\<close>

definition canonical :: "jsval \<Rightarrow> bool" where
  "canonical v = (case v of JInt i \<Rightarrow> True
     | JStr s \<Rightarrow> (case to_number s of
                   Fin r \<Rightarrow> r \<in> \<int> \<longrightarrow> s = int_to_str \<lfloor>r\<rfloor> | _ \<Rightarrow> True)
     | _ \<Rightarrow> False)"

lemma canonical_int [simp]: "canonical (JInt i)"
  by (simp add: canonical_def)

lemma canonical_int_str: "canonical (JStr (int_to_str i))"
  by (simp add: canonical_def)

lemma canonical_str_eq_int:
  "canonical (JStr s) \<Longrightarrow> to_number s = Fin (of_int i) \<longleftrightarrow> s = int_to_str i"
  by (auto simp: canonical_def)

lemma js_eq_canonical:
  "canonical v \<Longrightarrow> canonical w \<Longrightarrow> js_eq v w \<longleftrightarrow> to_str v = to_str w"
proof -
  assume c: "canonical v" "canonical w"
  then consider i j where "v = JInt i" "w = JInt j" | i s where "v = JInt i" "w = JStr s"
    | i s where "v = JStr s" "w = JInt i" | s t where "v = JStr s" "w = JStr t"
    by (cases v; cases w) (auto simp: canonical_def)
  then show ?thesis
    using c by cases (auto simp: to_str_def js_eq_int_str canonical_str_eq_int
        js_eq_sym [of "JStr _" "JInt _"])
qed

lemma elem_str_canonical: "canonical v \<Longrightarrow> elem_str v = to_str v"
  by (auto simp: elem_str_def canonical_def)

subsection \<open>Rows: arrays of values, read at any index\<close>

type_synonym row = "jsval list"

definition cell :: "row \<Rightarrow> nat \<Rightarrow> jsval" where
  "cell r k = (if k < length r then r ! k else JUndef)"

lemma cell_simps [simp]:
  "cell [] k = JUndef" "cell (v # r) 0 = v" "cell (v # r) (Suc k) = cell r k"
  by (simp_all add: cell_def)

lemma cell_numerals [simp]:
  "cell (v # r) 1 = cell r 0" "cell (v # r) 2 = cell r 1"
  by (simp_all add: cell_def numeral_2_eq_2)

text \<open>Texts of digits as numbers.\<close>

lemma trim_digits: "list_all is_digit v \<Longrightarrow> trim v = v"
proof (cases v)
  case (Cons c w)
  assume d: "list_all is_digit v"
  then have "is_digit (last v)" using Cons last_in_set [of v] by (auto simp: list_all_iff)
  with d Cons show ?thesis by (intro trim_idle) (auto simp: is_ws_digit)
qed (simp add: trim_def trim_left_def)

lemma to_number_digits:
  assumes "list_all is_digit v" "v \<noteq> []"
  shows "to_number v = Fin (of_nat (digits_val v))"
proof -
  have d: "\<forall>c \<in> set v. is_digit c" using assms(1) by (simp add: list_all_iff)
  obtain c w where v: "v = c # w" using assms(2) by (cases v) auto
  have c: "is_digit c" using d v by simp
  then have "c \<noteq> 45" "c \<noteq> 43" "v \<noteq> js ''Infinity''" by (auto simp: v is_digit_def js_def)
  moreover have "\<not> is_hex_literal v"
  proof
    assume h: "is_hex_literal v"
    then have "is_digit (v ! 1)" using d by (auto simp: is_hex_literal_def)
    with h show False by (auto simp: is_hex_literal_def is_digit_def)
  qed
  moreover have "unsigned_decimal v = Fin (of_nat (digits_val v))" if "v \<noteq> js ''Infinity''"
    by (simp add: unsigned_decimal_def exponent_def Let_def digits_val_def [of "[]"] takeWhile_all [OF d] that assms(2))
  ultimately show ?thesis
    using trim_digits [OF assms(1)] by (simp add: to_number_def Let_def v)
qed

end
