(* ===== verification/Url.thy ===== *)
theory Url
  imports JsValue
begin

text \<open>
  The URL and file-name functions: \<open>getEncode\<close>, \<open>suff\<close> and \<open>getFilePath\<close> of
  \<open>static/js/common/base.js\<close>, \<open>pageNo_fun\<close> of \<open>static/js/common/pagination.js\<close>.
  An exception (a URL without query, a lone surrogate) is \<open>None\<close>.
\<close>

subsection \<open>Encoding the values of a query\<close>

definition value_start :: "jstring \<Rightarrow> nat" where
  "value_start p = nat (indexOf p (js ''='') + 1)"

definition encode_param :: "jstring \<Rightarrow> jstring option" where
  "encode_param p =
     (let val = drop (value_start p) p
      in map_option (replace_str p val) (encodeURIComponent val))"

fun encode_params :: "jstring list \<Rightarrow> jstring list option" where
  "encode_params [] = Some []"
| "encode_params (p # ps) =
     (case encode_param p of
        None \<Rightarrow> None
      | Some q \<Rightarrow> map_option ((#) q) (encode_params ps))"

definition getEncode :: "jstring \<Rightarrow> jstring option" where
  "getEncode url =
     (case split_chr 63 url of
        a # q # rest \<Rightarrow>
          (case encode_params (split_chr 38 q) of
             None \<Rightarrow> None
           | Some qs \<Rightarrow> Some (join [63] (a # join [38] qs # rest)))
      | _ \<Rightarrow> None)"

definition render_query :: "(jstring \<times> jstring) list \<Rightarrow> jstring" where
  "render_query kvs = join [38] (map (\<lambda>(k, v). k @ 61 # v) kvs)"

lemma value_start_eq: "61 \<notin> set k \<Longrightarrow> value_start (k @ 61 # v) = Suc (length k)"
  by (simp add: value_start_def indexOf_def js_def find_sub_chr nat_add_distrib)

lemma uri_out_no_special:
  "\<forall>c \<in> set e. uri_out c \<Longrightarrow> 36 \<notin> set e \<and> 38 \<notin> set e \<and> 61 \<notin> set e \<and> 63 \<notin> set e"
  by (auto simp: uri_out_def uri_unreserved_def)

text \<open>The value is the first place where its own text occurs in the parameter.\<close>

definition value_first :: "jstring \<Rightarrow> jstring \<Rightarrow> bool" where
  "value_first k v \<longleftrightarrow> v = [] \<or> find_sub v (k @ 61 # v) = Some (Suc (length k))"

definition units :: "jstring \<Rightarrow> bool" where
  "units s \<longleftrightarrow> (\<forall>c \<in> set s. c < 0x10000)"

lemma encode_param_eq:
  assumes k: "61 \<notin> set k" and f: "value_first k v" and u: "units v"
    and e: "encodeURIComponent v = Some e"
  shows "encode_param (k @ 61 # v) = Some (k @ 61 # e)"
proof (cases "v = []")
  case True
  have "find_sub [] p = Some 0" for p by (cases p) auto
  with True k e value_start_eq [OF k, of "[]"] show ?thesis
    by (simp add: encode_param_def replace_str_def)
next
  case False
  have "36 \<notin> set e"
    using encodeURIComponent_out [OF e] u uri_out_no_special by (auto simp: units_def)
  then have "replace_str (k @ 61 # v) v e = k @ 61 # e"
    using f False by (simp add: replace_str_def value_first_def expand_dollar_plain)
  with k e show ?thesis by (simp add: encode_param_def value_start_eq)
qed

definition plain_param :: "jstring \<times> jstring \<Rightarrow> bool" where
  "plain_param kv \<longleftrightarrow>
     (case kv of (k, v) \<Rightarrow> 61 \<notin> set k \<and> 38 \<notin> set k \<and> 63 \<notin> set k \<and> 38 \<notin> set v \<and> 63 \<notin> set v
        \<and> units v \<and> value_first k v \<and> encodeURIComponent v \<noteq> None)"

definition encode_kv :: "jstring \<times> jstring \<Rightarrow> jstring \<times> jstring" where
  "encode_kv kv = (fst kv, the (encodeURIComponent (snd kv)))"

lemma encode_params_eq:
  "\<forall>kv \<in> set kvs. plain_param kv \<Longrightarrow>
   encode_params (map (\<lambda>(k, v). k @ 61 # v) kvs)
     = Some (map (\<lambda>(k, v). k @ 61 # v) (map encode_kv kvs))"
proof (induction kvs)
  case (Cons kv kvs)
  then show ?case
    by (cases kv) (auto simp: plain_param_def encode_kv_def encode_param_eq)
qed simp

lemma join_no_chr: "c \<notin> set sep \<Longrightarrow> \<forall>x \<in> set xs. c \<notin> set x \<Longrightarrow> c \<notin> set (join sep xs)"
  by (induction sep xs rule: join.induct) auto

lemma getEncode_eq:
  assumes "63 \<notin> set path" and "kvs \<noteq> []" and "\<forall>kv \<in> set kvs. plain_param kv"
  shows "getEncode (path @ 63 # render_query kvs)
    = Some (path @ 63 # render_query (map encode_kv kvs))"
proof -
  let ?r = "\<lambda>(k, v). k @ 61 # v"
  from assms(3) have "63 \<notin> set (render_query kvs)"
    unfolding render_query_def by (intro join_no_chr) (auto simp: plain_param_def)
  moreover from assms have "split_chr 38 (render_query kvs) = map ?r kvs"
    unfolding render_query_def by (intro split_join) (auto simp: plain_param_def)
  ultimately show ?thesis
    using assms encode_params_eq [of kvs] by (simp add: getEncode_def render_query_def)
qed

lemma getEncode_no_query: "63 \<notin> set url \<Longrightarrow> getEncode url = None"
  by (simp add: getEncode_def)

subsection \<open>File names\<close>

fun collapse_bs :: "jstring \<Rightarrow> jstring" where
  "collapse_bs [] = []"
| "collapse_bs [x] = (if x = 92 then [35] else [x])"
| "collapse_bs (x # y # r) =
     (if x = 92 then (if y = 92 then collapse_bs (y # r) else 35 # collapse_bs (y # r))
      else x # collapse_bs (y # r))"

definition suff :: "jstring \<Rightarrow> jstring \<Rightarrow> bool" where
  "suff path suffs =
     (let name = collapse_bs path;
          one = split_chr 35 name;
          two = last one;
          three = split_chr 46 two;
          ext = last three
      in indexOf suffs ext \<ge> 0)"

lemma collapse_bs_plain: "92 \<notin> set s \<Longrightarrow> collapse_bs s = s"
  by (induction s rule: collapse_bs.induct) auto

lemma collapse_bs_append:
  "s \<noteq> [] \<Longrightarrow> last s \<noteq> 92 \<Longrightarrow> collapse_bs (s @ t) = collapse_bs s @ collapse_bs t"
proof (induction s rule: collapse_bs.induct)
  case (2 x)
  then show ?case by (cases t) auto
qed auto

lemma split_chr_append_sep: "split_chr c (s @ c # t) = split_chr c s @ split_chr c t"
proof (induction s)
  case (Cons x s)
  then show ?case by (cases "split_chr c s") auto
qed simp

lemma split_last: "c \<notin> set t \<Longrightarrow> last (split_chr c (s @ c # t)) = t"
  by (simp add: split_chr_append_sep)

lemma last_split_append:
  "c \<notin> set t \<Longrightarrow> \<exists>p. last (split_chr c (s @ t)) = p @ t"
proof (induction s)
  case Nil
  then show ?case by simp
next
  case (Cons x s)
  then obtain p where p: "last (split_chr c (s @ t)) = p @ t" by blast
  obtain y ys where ys: "split_chr c (s @ t) = y # ys" by (cases "split_chr c (s @ t)") auto
  show ?case
  proof (cases "ys = []")
    case True
    with p ys have "y = p @ t" by simp
    then have "last (split_chr c ((x # s) @ t)) = (if x = c then p else x # p) @ t"
      using ys True by simp
    then show ?thesis by blast
  qed (use p ys in auto)
qed

lemma suff_eq:
  assumes "e \<noteq> []" and "46 \<notin> set e" and "92 \<notin> set e" and "35 \<notin> set e"
  shows "suff (p @ 46 # e) suffs \<longleftrightarrow> sublist e suffs"
proof -
  have "collapse_bs (p @ 46 # e) = collapse_bs (p @ [46]) @ e"
    using collapse_bs_append [of "p @ [46]" e] collapse_bs_plain [of e] assms by simp
  also have "collapse_bs (p @ [46]) = butlast (collapse_bs (p @ [46])) @ [46]"
    by (induction p rule: collapse_bs.induct) auto
  finally have "collapse_bs (p @ 46 # e) = butlast (collapse_bs (p @ [46])) @ (46 # e)"
    by simp
  then obtain q where "last (split_chr 35 (collapse_bs (p @ 46 # e))) = q @ 46 # e"
    using last_split_append [of 35 "46 # e" "butlast (collapse_bs (p @ [46]))"] assms by auto
  then have "last (split_chr 46 (last (split_chr 35 (collapse_bs (p @ 46 # e))))) = e"
    using split_last [of 46 e q] assms by simp
  then show ?thesis by (simp add: suff_def Let_def indexOf_nonneg)
qed

definition is_line_end :: "nat \<Rightarrow> bool" where
  "is_line_end c \<longleftrightarrow> c \<in> {10, 13, 0x2028, 0x2029}"

text \<open>\<open>value.replace(/.*\\/i, '')\<close>: up to the last backslash of the first line that has one.\<close>

function getFilePath :: "jstring \<Rightarrow> jstring" where
  "getFilePath s =
     (let line = takeWhile (\<lambda>c. \<not> is_line_end c) s
      in case find_last 92 line of
           Some n \<Rightarrow> drop (Suc n) s
         | None \<Rightarrow>
             (case dropWhile (\<lambda>c. \<not> is_line_end c) s of
                [] \<Rightarrow> s
              | c # r \<Rightarrow> line @ c # getFilePath r))"
  by pat_completeness auto
termination
proof (relation "measure length")
  fix s line c r
  assume "dropWhile (\<lambda>c. \<not> is_line_end c) s = c # r"
  then have "length (c # r) \<le> length s"
    using length_dropWhile_le [of "\<lambda>c. \<not> is_line_end c" s] by simp
  then show "(r, s) \<in> measure length" by simp
qed auto

declare getFilePath.simps [simp del]

lemma getFilePath_name:
  assumes "\<forall>c \<in> set (dir @ name). \<not> is_line_end c" and "92 \<notin> set name"
  shows "getFilePath (dir @ 92 # name) = name"
proof -
  have "\<not> is_line_end 92" by (simp add: is_line_end_def)
  with assms have w: "takeWhile (\<lambda>c. \<not> is_line_end c) (dir @ 92 # name) = dir @ 92 # name"
    by (intro takeWhile_all [THEN conjunct1]) auto
  have f: "find_last 92 (dir @ 92 # name) = Some (length dir)"
    using assms(2) by (rule find_last_chr)
  show ?thesis
    unfolding getFilePath.simps [of "dir @ 92 # name"] Let_def w f by simp
qed

subsection \<open>The address of another page of a list\<close>

definition hex4 :: "jstring \<Rightarrow> nat option" where
  "hex4 s = (if list_all (\<lambda>c. hex_val c \<noteq> None) s then Some (hex_number s) else None)"

fun unescape :: "jstring \<Rightarrow> jstring" where
  "unescape [] = []"
| "unescape (c # s) =
     (if c = 37 \<and> length s \<ge> 5 \<and> hd s = 117 \<and> hex4 (take 4 (tl s)) \<noteq> None
      then the (hex4 (take 4 (tl s))) # unescape (drop 5 s)
      else if c = 37 \<and> length s \<ge> 2 \<and> hex4 (take 2 s) \<noteq> None
      then the (hex4 (take 2 s)) # unescape (drop 2 s)
      else c # unescape s)"

lemma unescape_eq_Nil [simp]: "unescape s = [] \<longleftrightarrow> s = []"
  by (cases s) auto

fun page_loop :: "jstring \<Rightarrow> jstring list \<Rightarrow> jstring \<Rightarrow> bool \<Rightarrow> jstring \<times> bool" where
  "page_loop pno [] url has = (url, has)"
| "page_loop pno (param # ps) url has =
     (case find_sub (js ''='') param of
        None \<Rightarrow> page_loop pno ps url has
      | Some n \<Rightarrow>
          (let key = substring param 0 n; val = drop (n + 1) param
           in if key = js ''pageNo''
              then page_loop pno ps (url @ key @ js ''='' @ pno @ js ''&'') True
              else if unescape val \<noteq> []
              then page_loop pno ps (url @ key @ js ''='' @ val @ js ''&'') has
              else page_loop pno ps url has))"

definition pageNo_fun :: "jstring \<Rightarrow> jstring \<Rightarrow> jstring \<Rightarrow> jstring \<Rightarrow> jstring" where
  "pageNo_fun host pathname search pno =
     (let url = js ''http://'' @ host @ pathname @ js ''?'';
          query = drop 1 search;
          (url, hasPageNo) = page_loop pno (split_chr 38 query) url False;
          url = (if hasPageNo then url else url @ js ''pageNo='' @ pno)
      in if drop (length url) url = js ''&'' then take (length url - 1) url else url)"

text \<open>The parameters of a query: the parts between ampersands that have an equals sign.\<close>

definition parse_param :: "jstring \<Rightarrow> (jstring \<times> jstring) option" where
  "parse_param p = map_option (\<lambda>n. (take n p, drop (Suc n) p)) (find_sub [61] p)"

definition parse_query :: "jstring \<Rightarrow> (jstring \<times> jstring) list" where
  "parse_query q = List.map_filter parse_param (split_chr 38 q)"

definition page_key :: jstring where
  "page_key = js ''pageNo''"

text \<open>What the function is for: replace the page number, drop empty parameters, add the
  page number if there was none.\<close>

definition set_page :: "jstring \<Rightarrow> (jstring \<times> jstring) list \<Rightarrow> (jstring \<times> jstring) list" where
  "set_page pno ps =
     map (\<lambda>(k, v). if k = page_key then (k, pno) else (k, v))
       (filter (\<lambda>(k, v). k = page_key \<or> v \<noteq> []) ps)
     @ (if page_key \<in> fst ` set ps then [] else [(page_key, pno)])"

lemma page_loop_eq:
  "page_loop pno ps url has =
     (let kvs = List.map_filter parse_param ps
      in (url @ concat (map (\<lambda>(k, v). k @ [61] @ v @ [38])
             (map (\<lambda>(k, v). if k = page_key then (k, pno) else (k, v))
               (filter (\<lambda>(k, v). k = page_key \<or> v \<noteq> []) kvs))),
          has \<or> page_key \<in> fst ` set kvs))"
proof (induction pno ps url has rule: page_loop.induct)
  case (2 pno p ps url has)
  have e: "js ''='' = [61]" "js ''&'' = [38]" "js ''pageNo'' = page_key"
    by (simp_all add: js_def page_key_def)
  show ?case
  proof (cases "find_sub [61] p")
    case None
    with "2.IH"(1) show ?thesis by (simp add: e List.map_filter_simps parse_param_def)
  next
    case (Some n)
    note i = "2.IH"(2-4) [unfolded e, OF Some refl refl]
    with Some show ?thesis
      by (cases "take n p = page_key"; cases "drop (Suc n) p = []")
        (simp_all add: e List.map_filter_simps parse_param_def substring_def Let_def)
  qed
qed (simp add: List.map_filter_simps)

lemma parse_param_kv: "61 \<notin> set k \<Longrightarrow> parse_param (k @ 61 # v) = Some (k, v)"
  by (simp add: parse_param_def find_sub_chr)

lemma parse_param_key: "parse_param p = Some (k, v) \<Longrightarrow> 61 \<notin> set k \<and> p = k @ 61 # v"
proof -
  assume a: "parse_param p = Some (k, v)"
  then obtain n where n: "find_sub [61] p = Some n" "k = take n p" "v = drop (Suc n) p"
    by (auto simp: parse_param_def)
  have "61 \<notin> set (take n p)" using n(1)
  proof (induction p arbitrary: n)
    case (Cons x p)
    then show ?case by (auto split: if_splits)
  qed simp
  with n find_sub_Some [OF n(1)] show ?thesis by simp
qed

lemma parse_query_rendered:
  assumes "\<forall>(k, v) \<in> set kvs. 61 \<notin> set k \<and> 38 \<notin> set k \<and> 38 \<notin> set v"
    and "\<forall>(k, v) \<in> set tail. 61 \<notin> set k \<and> 38 \<notin> set k \<and> 38 \<notin> set v" and "length tail \<le> 1"
  shows "parse_query (concat (map (\<lambda>(k, v). k @ [61] @ v @ [38]) kvs) @
           concat (map (\<lambda>(k, v). k @ [61] @ v) tail)) = kvs @ tail"
  using assms(1)
proof (induction kvs)
  case Nil
  show ?case
  proof (cases tail)
    case Nil
    then show ?thesis by (simp add: parse_query_def List.map_filter_simps parse_param_def)
  next
    case (Cons kv t)
    with assms(2,3) show ?thesis
      by (cases kv) (auto simp: parse_query_def List.map_filter_simps parse_param_kv)
  qed
next
  case (Cons kv kvs)
  obtain k v where kv: "kv = (k, v)" by (cases kv)
  with Cons.prems have n: "61 \<notin> set k" "38 \<notin> set (k @ 61 # v)" by auto
  have "split_chr 38 ((k @ 61 # v) @ 38 # r) = (k @ 61 # v) # split_chr 38 r" for r
    using n(2) by (rule split_chr_append)
  then have "parse_query (k @ 61 # v @ 38 # r) = (k, v) # parse_query r" for r
    using n(1) by (simp add: parse_query_def List.map_filter_simps parse_param_kv)
  with Cons kv show ?case by simp
qed

lemma parse_query_no_amp:
  "kv \<in> set (parse_query q) \<Longrightarrow> 61 \<notin> set (fst kv) \<and> 38 \<notin> set (fst kv) \<and> 38 \<notin> set (snd kv)"
proof -
  assume "kv \<in> set (parse_query q)"
  then obtain p where p: "p \<in> set (split_chr 38 q)" "parse_param p = Some kv"
    by (auto simp: parse_query_def List.map_filter_def)
  then have "38 \<notin> set p" by (blast dest: split_chr_no_sep)
  with p(2) parse_param_key [of p "fst kv" "snd kv"] show ?thesis by auto
qed

definition url_base :: "jstring \<Rightarrow> jstring \<Rightarrow> jstring" where
  "url_base host pathname = js ''http://'' @ host @ pathname @ js ''?''"

lemma pageNo_fun_eq:
  "pageNo_fun host pathname search pno = url_base host pathname @
     (let kvs = parse_query (drop 1 search)
      in concat (map (\<lambda>(k, v). k @ [61] @ v @ [38])
           (map (\<lambda>(k, v). if k = page_key then (k, pno) else (k, v))
              (filter (\<lambda>(k, v). k = page_key \<or> v \<noteq> []) kvs)))
         @ (if page_key \<in> fst ` set kvs then [] else page_key @ [61] @ pno))"
proof -
  have "js ''pageNo='' = page_key @ [61]" by (simp add: page_key_def js_def)
  then show ?thesis
    by (simp add: pageNo_fun_def page_loop_eq parse_query_def url_base_def Let_def)
qed

lemma pageNo_fun_refines:
  assumes "38 \<notin> set pno"
  shows "\<exists>q. pageNo_fun host pathname search pno = url_base host pathname @ q
    \<and> parse_query q = set_page pno (parse_query (drop 1 search))"
proof -
  let ?kvs = "parse_query (drop 1 search)"
  let ?main = "map (\<lambda>(k, v). if k = page_key then (k, pno) else (k, v))
      (filter (\<lambda>(k, v). k = page_key \<or> v \<noteq> []) ?kvs)"
  let ?tail = "if page_key \<in> fst ` set ?kvs then [] else [(page_key, pno)]"
  have key: "61 \<notin> set page_key" "38 \<notin> set page_key" by (simp_all add: page_key_def js_def)
  have "\<forall>(k, v) \<in> set ?main. 61 \<notin> set k \<and> 38 \<notin> set k \<and> 38 \<notin> set v"
    using parse_query_no_amp [of _ "drop 1 search"] assms key
    by (auto split: if_splits)
  moreover have "\<forall>(k, v) \<in> set ?tail. 61 \<notin> set k \<and> 38 \<notin> set k \<and> 38 \<notin> set v"
    using key assms by auto
  ultimately have m: "parse_query (concat (map (\<lambda>(k, v). k @ [61] @ v @ [38]) ?main) @
      concat (map (\<lambda>(k, v). k @ [61] @ v) ?tail)) = ?main @ ?tail"
    by (rule parse_query_rendered) simp
  have t: "concat (map (\<lambda>(k, v). k @ [61] @ v) ?tail)
      = (if page_key \<in> fst ` set ?kvs then [] else page_key @ [61] @ pno)"
    by simp
  show ?thesis
    unfolding pageNo_fun_eq set_page_def Let_def
    by (rule exI, rule conjI, rule refl) (rule m [unfolded t])
qed

subsection \<open>Properties\<close>

text \<open>\<open>getEncode\<close> percent-encodes the value of every parameter and leaves path, names and
  order as they are, for parameters whose value has no text occurrence before its own position.\<close>

lemma getEncode_encodes_values:
  assumes "63 \<notin> set path" and "kvs \<noteq> []" and "\<forall>kv \<in> set kvs. plain_param kv"
  shows "getEncode (path @ 63 # render_query kvs)
    = Some (path @ 63 # render_query (map encode_kv kvs))"
  using assms by (rule getEncode_eq)

text \<open>The link to another page of a list has the parameters of the current address with the
  page number replaced by the wanted one, the empty parameters dropped, and a page number added
  at the end when there was none.\<close>

lemma pageNo_fun_sets_page:
  assumes "38 \<notin> set pno"
  shows "\<exists>q. pageNo_fun host pathname search pno = url_base host pathname @ q
    \<and> parse_query q = set_page pno (parse_query (drop 1 search))"
  using assms by (rule pageNo_fun_refines)

text \<open>A file passes the extension test when what follows the last point of its name is a
  contiguous part of the list of allowed extensions, whatever directories precede the name.\<close>

lemma suff_tests_extension:
  assumes "e \<noteq> []" and "46 \<notin> set e" and "92 \<notin> set e" and "35 \<notin> set e"
  shows "suff (p @ 46 # e) suffs \<longleftrightarrow> sublist e suffs"
  using assms by (rule suff_eq)

text \<open>The name shown for a chosen file is what follows the last backslash of its path.\<close>

lemma getFilePath_file_name:
  assumes "\<forall>c \<in> set (dir @ name). \<not> is_line_end c" and "92 \<notin> set name"
  shows "getFilePath (dir @ 92 # name) = name"
  using assms by (rule getFilePath_name)

end
