(* ===== verification/Ui.thy ===== *)
theory Ui
  imports Url
begin

text \<open>
  The page furniture of \<open>static/js/common/base.js\<close>: the loading mask, the message box with
  its timer, the pop-up boxes and their cover, the message window, the drop-down frame, and
  the stacking order. The state is an extensible record; the pages extend it with their own
  fields, so every operation below also acts on a page.

  Elements are kept as the document keeps them: a list or a number of elements where the code
  appends and removes, because an id selector finds the first element only and a class
  selector finds all of them. Layout (sizes of windows and boxes) and the clock are the
  \<open>browser\<close> argument. An argument that a caller leaves out is 0 or the empty string: each
  test the code makes on it answers as it does on \<open>undefined\<close>.
\<close>

record browser =
  win_w :: int
  win_h :: int
  scroll_top :: int
  scroll_left :: int
  msie6 :: bool
  now :: nat
  box_w :: "jstring \<Rightarrow> int"
  box_h :: "jstring \<Rightarrow> int"
  is_popbox :: "jstring \<Rightarrow> bool"

datatype timeout = GoTo jstring | FadeErr

record err_box =
  eb_class :: jstring
  eb_html :: jstring
  eb_top :: rat
  eb_left :: rat
  eb_visible :: bool

record ui =
  timers :: "(nat \<times> timeout \<times> int) list"
  t_time :: "nat option"
  next_timer :: nat
  err_boxes :: "err_box list"
  loading_bgs :: nat
  msg_bgs :: nat
  covers :: nat
  shown :: "jstring \<Rightarrow> bool"
  html :: "jstring \<Rightarrow> jstring"
  sized :: "jstring \<Rightarrow> (int \<times> int) option"
  pos :: "jstring \<Rightarrow> (rat \<times> rat)"
  loads :: "(jstring \<times> jstring) list"
  max_index :: "int option"
  z_index :: "jstring \<Rightarrow> int"
  select_id :: jstring
  doc_handlers :: "jstring list"
  navs :: "jstring list"
  focused :: "jstring option"
  input_obj :: jstring

subsection \<open>Elementary effects\<close>

definition show_el :: "jstring \<Rightarrow> 'a ui_scheme \<Rightarrow> 'a ui_scheme" where
  "show_el k u = u\<lparr>shown := (shown u)(k := True)\<rparr>"

definition hide_el :: "jstring \<Rightarrow> 'a ui_scheme \<Rightarrow> 'a ui_scheme" where
  "hide_el k u = u\<lparr>shown := (shown u)(k := False)\<rparr>"

definition set_html :: "jstring \<Rightarrow> jstring \<Rightarrow> 'a ui_scheme \<Rightarrow> 'a ui_scheme" where
  "set_html k h u = u\<lparr>html := (html u)(k := h)\<rparr>"

definition focus_el :: "jstring \<Rightarrow> 'a ui_scheme \<Rightarrow> 'a ui_scheme" where
  "focus_el k u = u\<lparr>focused := Some k\<rparr>"

definition go_to :: "jstring \<Rightarrow> 'a ui_scheme \<Rightarrow> 'a ui_scheme" where
  "go_to url u = u\<lparr>navs := navs u @ [url]\<rparr>"

definition clearTimeout :: "nat option \<Rightarrow> 'a ui_scheme \<Rightarrow> 'a ui_scheme" where
  "clearTimeout h u = u\<lparr>timers := filter (\<lambda>t. Some (fst t) \<noteq> h) (timers u)\<rparr>"

definition setTimeout :: "timeout \<Rightarrow> int \<Rightarrow> 'a ui_scheme \<Rightarrow> 'a ui_scheme" where
  "setTimeout c d u =
     u\<lparr>timers := timers u @ [(next_timer u, c, d)], t_time := Some (next_timer u),
       next_timer := Suc (next_timer u)\<rparr>"

lemmas effect_defs [page_defs] =
  show_el_def hide_el_def set_html_def focus_el_def go_to_def clearTimeout_def setTimeout_def

subsection \<open>Stacking order\<close>

text \<open>
  \<open>__maxIndex = defined ? __maxIndex++ : 10000000\<close> assigns the old value back: the counter
  moves only in the loop over the elements.
\<close>

definition setMaxIndex :: "jstring list \<Rightarrow> 'a ui_scheme \<Rightarrow> 'a ui_scheme" where
  "setMaxIndex els u =
     (let m = (case max_index u of Some m \<Rightarrow> m | None \<Rightarrow> 10000000)
      in fold (\<lambda>e u. u\<lparr>z_index := (z_index u)(e := the (max_index u)),
                       max_index := Some (the (max_index u) + 1)\<rparr>)
           els (u\<lparr>max_index := Some m\<rparr>))"

subsection \<open>Loading mask\<close>

definition loading :: "browser \<Rightarrow> jstring \<Rightarrow> 'a ui_scheme \<Rightarrow> 'a ui_scheme" where
  "loading b show_id u =
     (let show_id = (if show_id \<noteq> [] then show_id else js ''.load_img'');
          u = u\<lparr>loading_bgs := Suc (loading_bgs u)\<rparr>;
          u = (if msie6 b
               then u\<lparr>sized := (sized u)(js ''.loading_bg'' := Some (win_w b, win_h b))\<rparr> else u)
      in show_el show_id u)"

definition del_loading :: "browser \<Rightarrow> jstring \<Rightarrow> 'a ui_scheme \<Rightarrow> 'a ui_scheme" where
  "del_loading b hide_id u =
     (let hide_id = (if hide_id \<noteq> [] then hide_id else js ''.load_img'');
          u = (if msie6 b
               then u\<lparr>sized := (sized u)(js ''.loading_bg'' := Some (0, 0))\<rparr> else u)
      in hide_el hide_id (u\<lparr>loading_bgs := 0\<rparr>))"

definition chkfrm_find :: "browser \<Rightarrow> 'a ui_scheme \<Rightarrow> 'a ui_scheme" where
  "chkfrm_find b u = loading b [] u"

subsection \<open>Drop-down frame\<close>

definition closeSelectDiv :: "'a ui_scheme \<Rightarrow> 'a ui_scheme" where
  "closeSelectDiv u =
     (hide_el (js ''.select_div'') (u\<lparr>select_id := []\<rparr>))
       \<lparr>doc_handlers := filter (\<lambda>h. h \<noteq> js ''mousedown.select'') (doc_handlers u)\<rparr>"

text \<open>
  \<open>categoryId_fun\<close> stores the chosen value and title, closes the frame and then evaluates
  the page's own statement, the argument \<open>ho_fun\<close>.
\<close>

definition categoryId_fun ::
  "(jstring \<Rightarrow> 'a ui_scheme \<Rightarrow> 'a ui_scheme) \<Rightarrow> jstring \<Rightarrow> jstring \<Rightarrow> jstring
     \<Rightarrow> ('a ui_scheme \<Rightarrow> 'a ui_scheme) \<Rightarrow> 'a ui_scheme \<Rightarrow> 'a ui_scheme" where
  "categoryId_fun set_val tit1 id2 tit2 ho_fun u =
     (let u = set_val tit1 u;
          u = set_html id2 tit2 u;
          u = hide_el (js ''.select_div'') (u\<lparr>select_id := []\<rparr>)
      in ho_fun u)"

subsection \<open>Message window\<close>

definition centred :: "int \<Rightarrow> int \<Rightarrow> rat" where
  "centred outer inner = (of_int outer - of_int inner) / 2"

definition with_rnd :: "browser \<Rightarrow> jstring \<Rightarrow> jstring" where
  "with_rnd b url =
     (if indexOf url (js ''?'') > 0 then url @ js ''&rnd='' @ nat_to_str (now b)
      else url @ js ''?rnd='' @ nat_to_str (now b))"

definition open_msg_shown :: "browser \<Rightarrow> 'a ui_scheme \<Rightarrow> 'a ui_scheme" where
  "open_msg_shown b u =
     (let u = show_el (js ''#msg_bg'') (setMaxIndex [js ''#msg_bg''] u)
      in u\<lparr>pos := (pos u)(js ''#msg'' :=
              (fst (pos u (js ''#msg'')), centred (win_h b) (box_h b (js ''#msg''))))\<rparr>)"

definition open_msg :: "browser \<Rightarrow> jstring \<Rightarrow> int \<Rightarrow> 'a ui_scheme \<Rightarrow> 'a ui_scheme" where
  "open_msg b content type u =
     (let u = (if msg_bgs u < 1 then u\<lparr>msg_bgs := Suc (msg_bgs u)\<rparr> else u);
          u = (if msie6 b
               then u\<lparr>sized := (sized u)(js ''#msg_bg'' := Some (win_w b, win_h b))\<rparr> else u)
      in if type = 1 then open_msg_shown b (set_html (js ''#msg'') content u)
         else u\<lparr>loads := loads u @ [(js ''#msg'', with_rnd b content)]\<rparr>)"

definition close_msg :: "browser \<Rightarrow> 'a ui_scheme \<Rightarrow> 'a ui_scheme" where
  "close_msg b u =
     (let u = (if msie6 b
               then u\<lparr>sized := (sized u)(js ''#msg_bg'' := Some (0, 0))\<rparr> else u)
      in u\<lparr>msg_bgs := msg_bgs u - 1\<rparr>)"

definition reset_msg :: "browser \<Rightarrow> 'a ui_scheme \<Rightarrow> 'a ui_scheme" where
  "reset_msg b u =
     u\<lparr>pos := (pos u)(js ''#msg'' :=
          (fst (pos u (js ''#msg'')), centred (win_h b) (box_h b (js ''#msg''))))\<rparr>"

subsection \<open>The message box\<close>

definition err_class :: "int \<Rightarrow> jstring" where
  "err_class bg = (if bg = 1 then js ''err2'' else if bg = 10 then js ''err10'' else js ''err1'')"

text \<open>\<open>$('#err_mess')\<close> is the first element with that id, for reading and for writing.\<close>

definition map_first :: "('a \<Rightarrow> 'a) \<Rightarrow> 'a list \<Rightarrow> 'a list" where
  "map_first f xs = (case xs of [] \<Rightarrow> [] | x # xs \<Rightarrow> f x # xs)"

definition error_message ::
  "browser \<Rightarrow> jstring \<Rightarrow> int \<Rightarrow> int \<Rightarrow> int \<Rightarrow> jstring \<Rightarrow> 'a ui_scheme \<Rightarrow> 'a ui_scheme" where
  "error_message b mess bg top_num time url u =
     (let u = clearTimeout (t_time u) u;
          u = (if length (err_boxes u) > 0 then u\<lparr>err_boxes := tl (err_boxes u)\<rparr> else u);
          u = u\<lparr>err_boxes := err_boxes u @ [\<lparr>eb_class = err_class bg, eb_html = [],
                eb_top = 0, eb_left = 0, eb_visible = False\<rparr>]\<rparr>;
          u = u\<lparr>err_boxes := map_first (\<lambda>e. e\<lparr>eb_html := mess\<rparr>) (err_boxes u)\<rparr>;
          top = (if top_num > 0 then of_int top_num
                 else centred (win_h b) (box_h b (js ''#err_mess'')) + of_int (scroll_top b));
          left = centred (win_w b) (box_w b (js ''#err_mess'')) + of_int (scroll_left b);
          u = u\<lparr>err_boxes :=
                map_first (\<lambda>e. e\<lparr>eb_top := top, eb_left := left\<rparr>) (err_boxes u)\<rparr>;
          u = setMaxIndex [js ''#err_mess''] u;
          u = u\<lparr>err_boxes := map_first (\<lambda>e. e\<lparr>eb_visible := True\<rparr>) (err_boxes u)\<rparr>
      in if time > 0 then setTimeout (GoTo url) time u
         else if bg = 10 then u
         else setTimeout FadeErr 2500 u)"

definition err_mess_div :: "'a ui_scheme \<Rightarrow> 'a ui_scheme" where
  "err_mess_div u =
     u\<lparr>err_boxes := map_first (\<lambda>e. e\<lparr>eb_visible := False\<rparr>) (err_boxes u)\<rparr>"

text \<open>A timer that fires leaves the list and runs its statement.\<close>

definition fire :: "nat \<times> timeout \<times> int \<Rightarrow> 'a ui_scheme \<Rightarrow> 'a ui_scheme" where
  "fire t u =
     (let u = u\<lparr>timers := remove1 t (timers u)\<rparr>
      in case fst (snd t) of GoTo url \<Rightarrow> go_to url u | FadeErr \<Rightarrow> err_mess_div u)"

text \<open>The shapes in which the pages call it.\<close>

abbreviation fail_message :: "browser \<Rightarrow> jstring \<Rightarrow> 'a ui_scheme \<Rightarrow> 'a ui_scheme" where
  "fail_message b m \<equiv> error_message b m 1 0 0 []"

abbreviation ok_message :: "browser \<Rightarrow> jstring \<Rightarrow> 'a ui_scheme \<Rightarrow> 'a ui_scheme" where
  "ok_message b m \<equiv> error_message b m 0 0 0 []"

subsection \<open>Pop-up boxes\<close>

definition openCover :: "browser \<Rightarrow> 'a ui_scheme \<Rightarrow> 'a ui_scheme" where
  "openCover b u =
     (let u = (if covers u < 1 then u\<lparr>covers := Suc (covers u)\<rparr> else u);
          u = (if msie6 b
               then u\<lparr>sized := (sized u)(js ''#msg_bg2'' := Some (win_w b, win_h b))\<rparr> else u)
      in show_el (js ''#msg_bg2'') u)"

definition place_box :: "browser \<Rightarrow> jstring \<Rightarrow> 'a ui_scheme \<Rightarrow> 'a ui_scheme" where
  "place_box b box u =
     show_el box (u\<lparr>pos := (pos u)(box :=
       (centred (win_w b) (box_w b box),
        of_int (scroll_top b) + centred (win_h b) (box_h b box)))\<rparr>)"

definition closeDialog :: "browser \<Rightarrow> 'a ui_scheme \<Rightarrow> 'a ui_scheme" where
  "closeDialog b u =
     u\<lparr>shown := (\<lambda>k. if is_popbox b k then False else shown u k), covers := covers u - 1\<rparr>"

text \<open>
  The branch of \<open>openPop\<close> without address, which is how the pages call it, and the branch
  with one. \<open>obj\<close> is the row whose input field the pop-up fills, kept in \<open>$inputObj\<close>.
\<close>

definition openPop_box :: "browser \<Rightarrow> jstring \<Rightarrow> 'a ui_scheme \<Rightarrow> 'a ui_scheme" where
  "openPop_box b boxEle u =
     (let box = (if boxEle \<noteq> [] then boxEle else js ''.popBox'')
      in place_box b box (openCover b u))"

definition openPop_loaded :: "browser \<Rightarrow> jstring \<Rightarrow> 'a ui_scheme \<Rightarrow> 'a ui_scheme" where
  "openPop_loaded b box u = place_box b box u"

definition openPop ::
  "browser \<Rightarrow> jstring \<Rightarrow> jstring \<Rightarrow> jstring \<Rightarrow> 'a ui_scheme \<Rightarrow> 'a ui_scheme option" where
  "openPop b url obj boxEle u =
     (let box = (if boxEle \<noteq> [] then boxEle else js ''.popBox'');
          u = (if obj \<noteq> [] then u\<lparr>input_obj := obj\<rparr> else u)
      in if url \<noteq> []
         then map_option (\<lambda>e. (openCover b u)\<lparr>loads := loads u @ [(box, e)]\<rparr>)
                (getEncode (with_rnd b url))
         else Some (openPop_box b boxEle u))"

definition popTips :: "browser \<Rightarrow> jstring \<Rightarrow> jstring \<Rightarrow> 'a ui_scheme \<Rightarrow> 'a ui_scheme" where
  "popTips b boxId message u =
     (let u = (if message \<noteq> [] then set_html (boxId @ js '' .al_center'') message u else u)
      in openPop_box b boxId u)"

subsection \<open>Deleting the checked rows of a table\<close>

definition checked_csv :: "(bool \<times> jstring) list \<Rightarrow> jstring" where
  "checked_csv boxes = concat (map (\<lambda>(c, v). if c then v @ js '','' else []) boxes)"

definition del_tab ::
  "browser \<Rightarrow> (bool \<times> jstring) list \<Rightarrow> jstring \<Rightarrow> jstring \<Rightarrow> int \<Rightarrow> 'a ui_scheme \<Rightarrow> 'a ui_scheme"
where
  "del_tab b boxes title url type u =
     (let checkedIds = checked_csv boxes
      in if checkedIds = [] then fail_message b title u
         else let location = (if indexOf url (js ''?'') \<noteq> -1
                              then url @ js ''&checkedIds='' @ checkedIds
                              else url @ js ''?checkedIds='' @ checkedIds)
              in open_msg b location type u)"

subsection \<open>Is an element inside another\<close>

text \<open>The walk up the tree, over the nodes from the element to the root with their tags.\<close>

fun isParent :: "('n \<times> jstring) list \<Rightarrow> 'n \<Rightarrow> bool" where
  "isParent [] p = False"
| "isParent ((n, tag) # up) p =
     (if tag = js ''BODY'' then False else if n = p then True else isParent up p)"

lemma isParent_iff:
  "isParent path p \<longleftrightarrow> p \<in> fst ` set (takeWhile (\<lambda>n. snd n \<noteq> js ''BODY'') path)"
proof (induction path p rule: isParent.induct)
  case (2 n tag up p)
  then show ?case by (auto simp: image_iff) force
qed simp

lemmas ui_defs [page_defs] =
  setMaxIndex_def loading_def del_loading_def chkfrm_find_def closeSelectDiv_def
  categoryId_fun_def open_msg_shown_def open_msg_def close_msg_def reset_msg_def
  error_message_def err_mess_div_def map_first_def openCover_def place_box_def
  closeDialog_def openPop_box_def openPop_loaded_def openPop_def popTips_def del_tab_def
  Let_def

subsection \<open>Moving a box, the placeholder text, the page height\<close>

record drag_state =
  dragging :: bool
  drag_x :: int
  drag_y :: int
  off_left :: int
  off_top :: int

definition drag_mousedown :: "int \<Rightarrow> int \<Rightarrow> drag_state \<Rightarrow> drag_state" where
  "drag_mousedown px py d = d\<lparr>dragging := True, drag_x := px, drag_y := py\<rparr>"

definition drag_mousemove :: "int \<Rightarrow> int \<Rightarrow> drag_state \<Rightarrow> drag_state" where
  "drag_mousemove px py d =
     (let diffx = drag_x d - px; diffy = drag_y d - py
      in if dragging d
         then d\<lparr>off_left := off_left d - diffx, off_top := off_top d - diffy,
                drag_x := px, drag_y := py\<rparr>
         else d)"

definition drag_mouseup :: "drag_state \<Rightarrow> drag_state" where
  "drag_mouseup d = d\<lparr>dragging := False\<rparr>"

record text_field =
  tf_val :: jstring
  tf_colour :: jstring

definition placeholder_init :: "bool \<Rightarrow> jstring \<Rightarrow> text_field \<Rightarrow> text_field" where
  "placeholder_init native ph t =
     (if native then t
      else if tf_val t = [] then t\<lparr>tf_val := ph, tf_colour := js ''#999''\<rparr> else t)"

definition placeholder_focus :: "jstring \<Rightarrow> jstring \<Rightarrow> text_field \<Rightarrow> text_field" where
  "placeholder_focus ph orig t =
     (if tf_val t = ph then t\<lparr>tf_val := [], tf_colour := orig\<rparr> else t)"

definition placeholder_blur :: "jstring \<Rightarrow> text_field \<Rightarrow> text_field" where
  "placeholder_blur ph t =
     (if tf_val t = [] then t\<lparr>tf_val := ph, tf_colour := js ''#999''\<rparr> else t)"


subsection \<open>What the page furniture guarantees\<close>

text \<open>
  \<open>ui_ok\<close>: at most one message box, cover and message window; at most one pending message
  timer, and \<open>t_time\<close> is its handle; every stacking index given out is below the counter.
\<close>

definition ui_ok :: "'a ui_scheme \<Rightarrow> bool" where
  "ui_ok u \<longleftrightarrow>
     length (err_boxes u) \<le> 1 \<and> covers u \<le> 1 \<and> msg_bgs u \<le> 1 \<and> length (timers u) \<le> 1
     \<and> (\<forall>t \<in> set (timers u). t_time u = Some (fst t) \<and> fst t < next_timer u)
     \<and> (\<forall>k. z_index u k < (case max_index u of Some m \<Rightarrow> m | None \<Rightarrow> 10000000))"

lemma setMaxIndex_single:
  "setMaxIndex [e] u =
     (let m = (case max_index u of Some m \<Rightarrow> m | None \<Rightarrow> 10000000)
      in u\<lparr>z_index := (z_index u)(e := m), max_index := Some (m + 1)\<rparr>)"
  by (simp add: setMaxIndex_def Let_def)

lemma setMaxIndex_frame [simp]:
  "err_boxes (setMaxIndex [e] u) = err_boxes u" "timers (setMaxIndex [e] u) = timers u"
  "t_time (setMaxIndex [e] u) = t_time u" "next_timer (setMaxIndex [e] u) = next_timer u"
  "covers (setMaxIndex [e] u) = covers u" "msg_bgs (setMaxIndex [e] u) = msg_bgs u"
  "loading_bgs (setMaxIndex [e] u) = loading_bgs u" "navs (setMaxIndex [e] u) = navs u"
  "shown (setMaxIndex [e] u) = shown u" "focused (setMaxIndex [e] u) = focused u"
  "ui.more (setMaxIndex [e] u) = ui.more u"
  by (simp_all add: setMaxIndex_single Let_def)

lemma setMaxIndex_ok: "ui_ok u \<Longrightarrow> ui_ok (setMaxIndex [e] u)"
  by (auto simp: ui_ok_def setMaxIndex_single Let_def split: option.splits)
    (smt (verit, ccfv_threshold))+

lemma setMaxIndex_top:
  "ui_ok u \<Longrightarrow> k \<noteq> e \<Longrightarrow> z_index (setMaxIndex [e] u) k < z_index (setMaxIndex [e] u) e"
  by (auto simp: ui_ok_def setMaxIndex_single Let_def split: option.splits)

lemma clearTimeout_ok: "ui_ok u \<Longrightarrow> timers (clearTimeout (t_time u) u) = []"
  by (auto simp: ui_ok_def clearTimeout_def filter_empty_conv)

lemma length_le_one: "length xs \<le> 1 \<Longrightarrow> (if length xs > 0 then tl xs else xs) = []"
  by (cases xs) auto

definition message_box :: "browser \<Rightarrow> jstring \<Rightarrow> int \<Rightarrow> int \<Rightarrow> err_box" where
  "message_box b mess bg top_num =
     \<lparr>eb_class = err_class bg, eb_html = mess,
      eb_top = (if top_num > 0 then of_int top_num
                else centred (win_h b) (box_h b (js ''#err_mess'')) + of_int (scroll_top b)),
      eb_left = centred (win_w b) (box_w b (js ''#err_mess'')) + of_int (scroll_left b),
      eb_visible = True\<rparr>"

lemma error_message_boxes:
  "ui_ok u \<Longrightarrow> err_boxes (error_message b mess bg top_num time url u)
     = [message_box b mess bg top_num]"
proof -
  assume "ui_ok u"
  then have "err_boxes u = [] \<or> (\<exists>e. err_boxes u = [e])"
    by (cases "err_boxes u") (auto simp: ui_ok_def)
  then show ?thesis
    by (auto simp: error_message_def Let_def clearTimeout_def setTimeout_def map_first_def
        message_box_def)
qed

lemma error_message_timers:
  "ui_ok u \<Longrightarrow> timers (error_message b mess bg top_num time url u) =
     (if time > 0 then [(next_timer u, GoTo url, time)]
      else if bg = 10 then [] else [(next_timer u, FadeErr, 2500)])"
  by (frule clearTimeout_ok)
    (auto simp: error_message_def Let_def setTimeout_def clearTimeout_def)

lemma error_message_frame [simp]:
  "covers (error_message b m bg t d url u) = covers u"
  "msg_bgs (error_message b m bg t d url u) = msg_bgs u"
  "loading_bgs (error_message b m bg t d url u) = loading_bgs u"
  "navs (error_message b m bg t d url u) = navs u"
  "shown (error_message b m bg t d url u) = shown u"
  "focused (error_message b m bg t d url u) = focused u"
  "select_id (error_message b m bg t d url u) = select_id u"
  "html (error_message b m bg t d url u) = html u"
  "loads (error_message b m bg t d url u) = loads u"
  "ui.more (error_message b m bg t d url u) = ui.more u"
  by (auto simp: error_message_def Let_def setTimeout_def clearTimeout_def setMaxIndex_single)

lemma error_message_handle:
  "t_time (error_message b m bg t d url u) =
     (if d > 0 \<or> bg \<noteq> 10 then Some (next_timer u) else t_time u)"
  "next_timer (error_message b m bg t d url u) =
     (if d > 0 \<or> bg \<noteq> 10 then Suc (next_timer u) else next_timer u)"
  by (auto simp: error_message_def Let_def setTimeout_def clearTimeout_def)

lemma error_message_z:
  "z_index (error_message b m bg t d url u) = z_index (setMaxIndex [js ''#err_mess''] u)"
  "max_index (error_message b m bg t d url u) = max_index (setMaxIndex [js ''#err_mess''] u)"
  by (auto simp: error_message_def Let_def setTimeout_def clearTimeout_def setMaxIndex_single)

lemma error_message_ok: "ui_ok u \<Longrightarrow> ui_ok (error_message b m bg t d url u)"
  using setMaxIndex_ok [of u "js ''#err_mess''"]
    error_message_boxes [of u b m bg t d url] error_message_timers [of u b m bg t d url]
  by (auto simp: ui_ok_def error_message_handle error_message_z)

lemma loading_simps [simp]:
  "loading_bgs (loading b k u) = Suc (loading_bgs u)"
  "loading_bgs (del_loading b k u) = 0"
  "err_boxes (loading b k u) = err_boxes u" "err_boxes (del_loading b k u) = err_boxes u"
  "timers (loading b k u) = timers u" "timers (del_loading b k u) = timers u"
  "navs (loading b k u) = navs u" "navs (del_loading b k u) = navs u"
  "covers (loading b k u) = covers u" "covers (del_loading b k u) = covers u"
  "focused (loading b k u) = focused u" "focused (del_loading b k u) = focused u"
  "html (loading b k u) = html u" "html (del_loading b k u) = html u"
  "loads (loading b k u) = loads u" "loads (del_loading b k u) = loads u"
  "select_id (loading b k u) = select_id u" "select_id (del_loading b k u) = select_id u"
  "ui.more (loading b k u) = ui.more u" "ui.more (del_loading b k u) = ui.more u"
  by (simp_all add: loading_def del_loading_def show_el_def hide_el_def Let_def)

lemma ui_ok_cong:
  assumes "err_boxes v = err_boxes u" "covers v = covers u" "msg_bgs v = msg_bgs u"
    "timers v = timers u" "t_time v = t_time u" "next_timer v = next_timer u"
    "z_index v = z_index u" "max_index v = max_index u"
  shows "ui_ok v = ui_ok u"
  using assms by (simp add: ui_ok_def)

lemma ui_ok_effects [simp]:
  "ui_ok (show_el k u) = ui_ok u" "ui_ok (hide_el k u) = ui_ok u"
  "ui_ok (set_html k h u) = ui_ok u" "ui_ok (focus_el k u) = ui_ok u"
  "ui_ok (go_to url u) = ui_ok u" "ui_ok (loading b k u) = ui_ok u"
  "ui_ok (del_loading b k u) = ui_ok u" "ui_ok (closeSelectDiv u) = ui_ok u"
  "ui_ok (place_box b k u) = ui_ok u" "ui_ok (reset_msg b u) = ui_ok u"
  by (rule ui_ok_cong; simp add: effect_defs loading_def del_loading_def closeSelectDiv_def
      place_box_def reset_msg_def Let_def)+

lemma ui_ok_updates [simp]:
  "ui_ok (u\<lparr>loads := x1\<rparr>) = ui_ok u" "ui_ok (u\<lparr>sized := x2\<rparr>) = ui_ok u"
  "ui_ok (u\<lparr>pos := x3\<rparr>) = ui_ok u" "ui_ok (u\<lparr>shown := x4\<rparr>) = ui_ok u"
  "ui_ok (u\<lparr>html := x5\<rparr>) = ui_ok u" "ui_ok (u\<lparr>navs := x6\<rparr>) = ui_ok u"
  "ui_ok (u\<lparr>select_id := x7\<rparr>) = ui_ok u" "ui_ok (u\<lparr>doc_handlers := x8\<rparr>) = ui_ok u"
  "ui_ok (u\<lparr>input_obj := x9\<rparr>) = ui_ok u" "ui_ok (u\<lparr>loading_bgs := n\<rparr>) = ui_ok u"
  by (rule ui_ok_cong; simp)+

lemma openCover_ok: "ui_ok u \<Longrightarrow> ui_ok (openCover b u)"
  by (auto simp: openCover_def ui_ok_def show_el_def Let_def)

lemma closeDialog_ok: "ui_ok u \<Longrightarrow> ui_ok (closeDialog b u)"
  by (auto simp: closeDialog_def ui_ok_def)

lemma close_msg_ok: "ui_ok u \<Longrightarrow> ui_ok (close_msg b u)"
  by (auto simp: close_msg_def ui_ok_def Let_def)

lemma openPop_box_ok: "ui_ok u \<Longrightarrow> ui_ok (openPop_box b k u)"
  by (simp add: openPop_box_def Let_def openCover_ok)

lemma popTips_ok: "ui_ok u \<Longrightarrow> ui_ok (popTips b k m u)"
  by (simp add: popTips_def Let_def openPop_box_ok)

lemma open_msg_shown_ok: "ui_ok u \<Longrightarrow> ui_ok (open_msg_shown b u)"
  by (simp add: open_msg_shown_def Let_def setMaxIndex_ok)

lemma msg_window_ok:
  "ui_ok u \<Longrightarrow> ui_ok (if msg_bgs u < 1 then u\<lparr>msg_bgs := Suc (msg_bgs u)\<rparr> else u)"
  by (auto simp: ui_ok_def)

lemma open_msg_ok: "ui_ok u \<Longrightarrow> ui_ok (open_msg b c type u)"
  by (cases "type = 1"; cases "msie6 b")
    (simp_all only: open_msg_def Let_def simp_thms if_True if_False ui_ok_updates ui_ok_effects msg_window_ok
      open_msg_shown_ok)

lemmas ui_ok_intros =
  error_message_ok openCover_ok closeDialog_ok close_msg_ok openPop_box_ok popTips_ok
  open_msg_ok open_msg_shown_ok

lemma fire_ok: "ui_ok u \<Longrightarrow> t \<in> set (timers u) \<Longrightarrow> ui_ok (fire t u)"
proof -
  assume u: "ui_ok u" "t \<in> set (timers u)"
  then have "timers u = [t]"
    by (cases "timers u"; cases "tl (timers u)") (auto simp: ui_ok_def)
  with u show ?thesis
    by (auto simp: fire_def ui_ok_def go_to_def err_mess_div_def map_first_def Let_def
        split: timeout.splits list.splits)
qed

subsection \<open>The page as a state machine\<close>

text \<open>Every way in which the functions above are called on a page, with a timer that fires and
  the answer of a loaded box as steps of their own.\<close>

inductive ui_step :: "browser \<Rightarrow> 'a ui_scheme \<Rightarrow> 'a ui_scheme \<Rightarrow> bool" for b where
  message: "ui_step b u (error_message b m bg t d url u)"
| timer: "t \<in> set (timers u) \<Longrightarrow> ui_step b u (fire t u)"
| err_div: "ui_step b u (err_mess_div u)"
| window: "ui_step b u (open_msg b c ty u)"
| window_loaded: "(js ''#msg'', l) \<in> set (loads u) \<Longrightarrow> ui_step b u (open_msg_shown b u)"
| window_reset: "ui_step b u (reset_msg b u)"
| window_close: "ui_step b u (close_msg b u)"
| delete_rows: "ui_step b u (del_tab b boxes title l ty u)"
| cover: "ui_step b u (openCover b u)"
| popup: "openPop b l obj box u = Some v \<Longrightarrow> ui_step b u v"
| popup_loaded: "(box, l) \<in> set (loads u) \<Longrightarrow> ui_step b u (openPop_loaded b box u)"
| tips: "ui_step b u (popTips b box m u)"
| dialog_close: "ui_step b u (closeDialog b u)"
| mask: "ui_step b u (loading b k u)"
| mask_off: "ui_step b u (del_loading b k u)"
| search_mask: "ui_step b u (chkfrm_find b u)"
| frame_close: "ui_step b u (closeSelectDiv u)"
| raise: "ui_step b u (setMaxIndex [e] u)"

inductive_cases ui_stepE: "ui_step b u v"

definition ui_start :: "'a ui_scheme \<Rightarrow> bool" where
  "ui_start u \<longleftrightarrow> err_boxes u = [] \<and> covers u = 0 \<and> msg_bgs u = 0 \<and> timers u = []
     \<and> max_index u = None \<and> (\<forall>k. z_index u k < 10000000)"

inductive ui_reach :: "browser \<Rightarrow> 'a ui_scheme \<Rightarrow> bool" for b where
  start: "ui_start u \<Longrightarrow> ui_reach b u"
| step: "ui_reach b u \<Longrightarrow> ui_step b u v \<Longrightarrow> ui_reach b v"

lemma err_mess_div_ok: "ui_ok u \<Longrightarrow> ui_ok (err_mess_div u)"
  by (auto simp: err_mess_div_def ui_ok_def map_first_def split: list.splits)

lemma del_tab_ok: "ui_ok u \<Longrightarrow> ui_ok (del_tab b boxes title l ty u)"
  by (simp add: del_tab_def Let_def ui_ok_intros)

lemma openPop_ok: "ui_ok u \<Longrightarrow> openPop b l obj box u = Some v \<Longrightarrow> ui_ok v"
  by (cases "obj = []") (auto simp: openPop_def Let_def ui_ok_intros split: if_splits)

lemma ui_step_ok: "ui_step b u v \<Longrightarrow> ui_ok u \<Longrightarrow> ui_ok v"
  by (induction rule: ui_step.induct)
    (simp_all add: ui_ok_intros fire_ok err_mess_div_ok del_tab_ok openPop_ok setMaxIndex_ok
      openPop_loaded_def chkfrm_find_def)

lemma ui_reach_ok: "ui_reach b u \<Longrightarrow> ui_ok u"
  by (induction rule: ui_reach.induct) (auto simp: ui_start_def ui_ok_def dest: ui_step_ok [unfolded ui_ok_def])

subsection \<open>The checked rows, the mouse\<close>

lemma checked_csv_Nil: "checked_csv boxes = [] \<longleftrightarrow> (\<forall>(c, v) \<in> set boxes. \<not> c)"
  by (auto simp: checked_csv_def)

lemma checked_csv_split:
  assumes "\<forall>(c, v) \<in> set boxes. 44 \<notin> set v"
  shows "split_chr 44 (checked_csv boxes) = map snd (filter fst boxes) @ [[]]"
  using assms
proof (induction boxes)
  case (Cons x xs)
  then show ?case by (cases x) (auto simp: checked_csv_def js_def)
qed (simp add: checked_csv_def)

definition drag_moves :: "(int \<times> int) list \<Rightarrow> drag_state \<Rightarrow> drag_state" where
  "drag_moves ps d = fold (\<lambda>(x, y). drag_mousemove x y) ps d"

lemma drag_moves_eq:
  "dragging d \<Longrightarrow> drag_moves ps d =
     (let (x, y) = last ((drag_x d, drag_y d) # ps)
      in d\<lparr>off_left := off_left d + (x - drag_x d), off_top := off_top d + (y - drag_y d),
           drag_x := x, drag_y := y\<rparr>)"
proof (induction ps arbitrary: d)
  case Nil
  then show ?case by (simp add: drag_moves_def)
next
  case (Cons p ps)
  obtain x y where p: "p = (x, y)" by (cases p)
  have "drag_moves (p # ps) d = drag_moves ps (drag_mousemove x y d)"
    by (simp add: drag_moves_def p)
  also have "\<dots> = (let (x', y') = last ((x, y) # ps)
      in d\<lparr>off_left := off_left d + (x' - drag_x d), off_top := off_top d + (y' - drag_y d),
           drag_x := x', drag_y := y'\<rparr>)"
    using Cons by (simp add: drag_mousemove_def Let_def split: prod.splits)
  finally show ?case by (simp add: p)
qed

lemma drag_moves_idle: "\<not> dragging d \<Longrightarrow> drag_moves ps d = d"
  by (induction ps) (auto simp: drag_moves_def drag_mousemove_def Let_def)

subsection \<open>Properties\<close>

text \<open>A browser and a page as it is when it has been loaded, for the concrete instances.\<close>

definition browser0 :: browser where
  "browser0 = \<lparr>win_w = 1000, win_h = 600, scroll_top = 0, scroll_left = 0, msie6 = False, now = 5,
     box_w = (\<lambda>k. 200), box_h = (\<lambda>k. 100), is_popbox = (\<lambda>k. True)\<rparr>"

definition page0 :: ui where
  "page0 = \<lparr>timers = [], t_time = None, next_timer = 1, err_boxes = [], loading_bgs = 0,
     msg_bgs = 0, covers = 0, shown = (\<lambda>k. False), html = (\<lambda>k. []), sized = (\<lambda>k. None),
     pos = (\<lambda>k. (0, 0)), loads = [], max_index = None, z_index = (\<lambda>k. 0), select_id = [],
     doc_handlers = [], navs = [], focused = None, input_obj = []\<rparr>"

lemma page0_ok [simp]: "ui_start page0" "ui_ok page0"
  by (simp_all add: page0_def ui_start_def ui_ok_def)

text \<open>C2: On every page that the shared functions can reach from a freshly loaded one, whatever
  the order of messages, timers, pop-ups, windows and masks, there is at most one message box,
  one cover and one message window, at most one pending message timer (whose handle is in
  \<open>tTime\<close>), and every stacking index given out is below the counter.\<close>

theorem reachable_page_ok: "ui_reach b u \<Longrightarrow> ui_ok u"
  by (rule ui_reach_ok)

theorem reachable_page_ok_witness:
  "ui_ok (error_message browser0 [65] 1 0 0 [] page0)"
  by (rule reachable_page_ok [OF ui_reach.step [OF ui_reach.start ui_step.message]]) simp

text \<open>C29: A new message replaces the old one together with its timer. Afterwards the box on the
  page is exactly the new one, visible and centred, nothing else is pending but the timer of this
  message (the redirect when a time is given, the fade-out otherwise, none for the waiting style
  10), and the box lies above every other element.\<close>

theorem new_message_replaces_old:
  assumes "ui_ok u" and "v = error_message b mess bg top_num time url u"
  shows "err_boxes v = [message_box b mess bg top_num]
    \<and> timers v = (if time > 0 then [(next_timer u, GoTo url, time)]
                  else if bg = 10 then [] else [(next_timer u, FadeErr, 2500)])
    \<and> navs v = navs u
    \<and> (\<forall>k. k \<noteq> js ''#err_mess'' \<longrightarrow> z_index v k < z_index v (js ''#err_mess''))"
  by (simp add: assms error_message_boxes error_message_timers error_message_z setMaxIndex_top)

theorem new_message_replaces_old_witness:
  "timers (error_message browser0 [66] 1 0 0 [] (error_message browser0 [65] 0 0 1000 [47] page0))
     = [(2, FadeErr, 2500)]"
proof -
  let ?u = "error_message browser0 [65] 0 0 1000 [47] page0"
  have "next_timer ?u = 2" by (simp add: error_message_handle page0_def)
  then show ?thesis
    using new_message_replaces_old [OF error_message_ok [OF page0_ok(2)] refl,
        of browser0 "[66]" 1 0 0 "[]" browser0 "[65]" 0 0 1000 "[47]"] by simp
qed

text \<open>The timers of a page run to their end: the one set first fires first.\<close>

function run_timers :: "'a ui_scheme \<Rightarrow> 'a ui_scheme" where
  "run_timers u = (case timers u of [] \<Rightarrow> u | t # _ \<Rightarrow> run_timers (fire t u))"
  by pat_completeness auto

lemma fire_timers [simp]: "timers (fire t u) = remove1 t (timers u)"
  by (simp add: fire_def go_to_def err_mess_div_def Let_def split: timeout.split)

termination run_timers
  by (relation "measure (\<lambda>u. length (timers u))") auto

declare run_timers.simps [simp del]

text \<open>A message that is seen has a timer to come, or announces that something is waited for, or the
  page is being left.\<close>

definition passing :: "'a ui_scheme \<Rightarrow> bool" where
  "passing u \<longleftrightarrow> (\<forall>e \<in> set (err_boxes u). eb_visible e \<longrightarrow>
     eb_class e = err_class 10 \<or> timers u \<noteq> [] \<or> navs u \<noteq> [])"

definition messages :: "'a ui_scheme \<Rightarrow> err_box list \<times> (nat \<times> timeout \<times> int) list \<times> jstring list" where
  "messages u = (err_boxes u, timers u, navs u)"

lemma passing_cong: "messages v = messages u \<Longrightarrow> passing u \<Longrightarrow> passing v"
  by (simp add: passing_def messages_def)

lemma messages_effects [simp]:
  "messages (show_el k u) = messages u" "messages (hide_el k u) = messages u"
  "messages (set_html k m u) = messages u" "messages (setMaxIndex [k] u) = messages u"
  "messages (loading b k u) = messages u" "messages (del_loading b k u) = messages u"
  by (simp_all add: messages_def show_el_def hide_el_def set_html_def)

lemma messages_frame [simp]:
  "messages (open_msg_shown b u) = messages u" "messages (open_msg b c ty u) = messages u"
  "messages (reset_msg b u) = messages u" "messages (close_msg b u) = messages u"
  "messages (openCover b u) = messages u" "messages (place_box b k u) = messages u"
  "messages (closeDialog b u) = messages u" "messages (closeSelectDiv u) = messages u"
  by (simp_all add: messages_def open_msg_def open_msg_shown_def reset_msg_def close_msg_def openCover_def
      place_box_def closeDialog_def closeSelectDiv_def show_el_def hide_el_def set_html_def Let_def)

lemma messages_popups [simp]:
  "messages (openPop_box b k u) = messages u" "messages (openPop_loaded b k u) = messages u"
  "messages (popTips b k m u) = messages u" "messages (chkfrm_find b u) = messages u"
  by (simp_all add: openPop_box_def openPop_loaded_def popTips_def chkfrm_find_def Let_def)

lemma messages_openPop: "openPop b l obj box u = Some v \<Longrightarrow> messages v = messages u"
proof -
  have "messages (u\<lparr>input_obj := x\<rparr>) = messages u" "messages (u\<lparr>loads := y\<rparr>) = messages u" for u :: "'a ui_scheme" and x y
    by (simp_all add: messages_def)
  then show "openPop b l obj box u = Some v \<Longrightarrow> messages v = messages u"
    by (auto simp: openPop_def Let_def split: if_splits)
qed

lemma passing_message: "ui_ok u \<Longrightarrow> passing (error_message b m bg t d url u)"
  by (simp add: passing_def error_message_boxes error_message_timers message_box_def)

lemma passing_fire:
  assumes "ui_ok u" and "passing u" and "t \<in> set (timers u)"
  shows "passing (fire t u)"
proof -
  have "length (err_boxes u) \<le> 1" using assms(1) by (simp add: ui_ok_def)
  then have "err_boxes u = [] \<or> (\<exists>e. err_boxes u = [e])" by (cases "err_boxes u") auto
  then show ?thesis
    by (auto simp: passing_def fire_def go_to_def err_mess_div_def map_first_def Let_def split: timeout.split)
qed

lemma passing_step: "ui_step b u v \<Longrightarrow> ui_ok u \<Longrightarrow> passing u \<Longrightarrow> passing v"
proof (induction rule: ui_step.induct)
  case (err_div u)
  then show ?case by (cases "err_boxes u") (auto simp: passing_def err_mess_div_def map_first_def)
next
  case (delete_rows u boxes title l ty)
  then show ?case by (simp add: del_tab_def Let_def passing_message passing_cong [of "open_msg _ _ _ _" u])
next
  case (popup l obj box u v)
  then show ?case by (blast intro: passing_cong messages_openPop)
qed (simp_all add: passing_message passing_fire passing_cong [of _ _])

lemma passing_reach: "ui_reach b u \<Longrightarrow> passing u"
proof (induction rule: ui_reach.induct)
  case (step u v)
  then show ?case by (blast intro: passing_step ui_reach_ok)
qed (simp add: ui_start_def passing_def)

lemma run_timers_ends:
  assumes "ui_ok u" and "passing u"
  shows "timers (run_timers u) = [] \<and> passing (run_timers u)"
  using assms
proof (induction u rule: run_timers.induct)
  case (1 u)
  then show ?case
    by (cases "timers u") (auto simp: run_timers.simps [of u] fire_ok passing_fire)
qed

text \<open>C23: No message stays. From any page that can be reached, letting the pending timers fire comes
  to an end, and then every message box has disappeared, unless it is the box that says something
  is being waited for or the page is already on its way to another address.\<close>

theorem messages_go_away:
  assumes "ui_reach b u"
  shows "timers (run_timers u) = []
    \<and> (\<forall>e \<in> set (err_boxes (run_timers u)). eb_visible e \<longrightarrow>
         eb_class e = err_class 10 \<or> navs (run_timers u) \<noteq> [])"
  using run_timers_ends [OF ui_reach_ok [OF assms] passing_reach [OF assms]] by (auto simp: passing_def)

theorem messages_go_away_witness:
  "timers (run_timers (error_message browser0 [65] 1 0 0 [] page0)) = []
    \<and> filter (\<lambda>e. eb_visible e \<and> eb_class e \<noteq> err_class 10 \<and> navs (run_timers (error_message browser0 [65] 1 0 0 [] page0)) = [])
        (err_boxes (run_timers (error_message browser0 [65] 1 0 0 [] page0))) = []"
proof -
  have "ui_reach browser0 (error_message browser0 [65] 1 0 0 [] page0)"
    by (rule ui_reach.step [OF ui_reach.start ui_step.message]) simp
  from messages_go_away [OF this] show ?thesis by (auto simp: filter_empty_conv)
qed

text \<open>Dragging moves a box by exactly the way the mouse went between the press and the last
  move, however many moves lie between, and a mouse that is not pressed moves nothing.\<close>

lemma drag_follows_mouse:
  "drag_moves (ps @ [(x, y)]) (drag_mousedown x0 y0 d)
     = d\<lparr>dragging := True, drag_x := x, drag_y := y, off_left := off_left d + (x - x0),
         off_top := off_top d + (y - y0)\<rparr>
   \<and> drag_moves ps (drag_mouseup d) = drag_mouseup d"
  by (simp add: drag_moves_eq drag_moves_idle drag_mousedown_def drag_mouseup_def)

text \<open>The rows a user checked are what the deletion asks for: the message window is sent to
  the address with a \<open>checkedIds\<close> parameter whose parts are the checked values in table order
  (and one empty part after the last comma); with nothing checked it is not opened and the error
  text is shown.\<close>

lemma del_tab_sends_checked:
  assumes "\<forall>(c, v) \<in> set boxes. 44 \<notin> set v" and "ui_ok u"
  shows "if filter fst boxes = []
    then err_boxes (del_tab b boxes title url 2 u) = [message_box b title 1 0]
         \<and> loads (del_tab b boxes title url 2 u) = loads u
    else (\<exists>csv. loads (del_tab b boxes title url 2 u) = loads u @
             [(js ''#msg'', with_rnd b (url @ (if 63 \<in> set url then js ''&checkedIds=''
                else js ''?checkedIds='') @ csv))]
           \<and> split_chr 44 csv = map snd (filter fst boxes) @ [[]])"
proof -
  have n: "checked_csv boxes = [] \<longleftrightarrow> filter fst boxes = []"
    by (auto simp: checked_csv_Nil filter_empty_conv)
  have q: "indexOf url (js ''?'') = -1 \<longleftrightarrow> 63 \<notin> set url"
    by (simp add: indexOf_neg js_def)
  have "loads (open_msg b l 2 u) = loads u @ [(js ''#msg'', with_rnd b l)]" for l
    by (simp add: open_msg_def Let_def)
  then show ?thesis
    using assms n checked_csv_split [OF assms(1)]
    by (auto simp: del_tab_def Let_def error_message_boxes q)
qed

end
