(* ===== verification/Selection.thy ===== *)
theory Selection
  imports Ui
begin

text \<open>
  The helpers of \<open>static/js/common/base.js\<close> that keep a multiple choice: an array of rows
  \<open>[id, title, ...]\<close> behind a text area that shows the titles and a hidden field that
  holds the ids. \<open>picker\<close> is such a text area with its hidden neighbour and the array
  stored under \<open>data('subArr')\<close>.
\<close>

record anchor =
  an_id :: "jstring option"  \<comment> \<open>\<open>attr('data-id')\<close>\<close>
  an_data :: jsval  \<comment> \<open>\<open>data('id')\<close>, a number where the attribute is numeric\<close>
  an_text :: jstring
  an_info :: "jstring option"
  an_type :: "jstring option"
  an_selected :: bool

record picker =
  pk_text :: jstring
  pk_value :: jstring
  pk_sub :: "row list"
  pk_height :: "int option"  \<comment> \<open>\<open>parseInt(style.height)\<close>\<close>
  pk_disabled :: bool

definition row_id :: "row \<Rightarrow> jstring" where
  "row_id r = to_str (cell r 0)"

definition row_title :: "row \<Rightarrow> jstring" where
  "row_title r = to_str (cell r 1)"

subsection \<open>Arrays of rows\<close>

definition removeArrItem :: "jstring \<Rightarrow> row list \<Rightarrow> row list" where
  "removeArrItem title arr = splice_scan (\<lambda>r. js_eq (cell r 1) (JStr title)) arr"

fun filterArr_from :: "row list \<Rightarrow> row \<Rightarrow> nat \<Rightarrow> nat \<Rightarrow> row list" where
  "filterArr_from arr new i 0 = arr @ [new]"
| "filterArr_from arr new i (Suc n) =
     (if js_eq (cell (arr ! i) 0) (cell new 0) then splice1 i arr @ [new]
      else filterArr_from arr new (Suc i) n)"

definition filterArr :: "row list \<Rightarrow> row \<Rightarrow> row list" where
  "filterArr arr new = filterArr_from arr new 0 (length arr)"

fun findArrItem_from :: "row list \<Rightarrow> nat \<Rightarrow> jsval \<Rightarrow> int \<Rightarrow> int" where
  "findArrItem_from [] k txt i = -1"
| "findArrItem_from (r # rs) k txt i =
     (if js_eq (cell r k) txt then i else findArrItem_from rs k txt (i + 1))"

definition findArrItem :: "row list \<Rightarrow> nat \<Rightarrow> jsval \<Rightarrow> int" where
  "findArrItem arr k txt = findArrItem_from arr k txt 0"

definition isEmptyArr :: "jsval list \<Rightarrow> bool" where
  "isEmptyArr arr = list_all (\<lambda>v. js_eq v (JInt 0)) arr"

text \<open>
  \<open>isRepeat\<close> uses a plain object as its table. What the object inherits answers as an entry
  that is already there.
\<close>

definition proto_keys :: "jstring list" where
  "proto_keys = map js [''constructor'', ''toString'', ''toLocaleString'', ''valueOf'',
     ''hasOwnProperty'', ''isPrototypeOf'', ''propertyIsEnumerable'', ''__proto__'',
     ''__defineGetter__'', ''__defineSetter__'', ''__lookupGetter__'', ''__lookupSetter__'']"

fun isRepeat_from :: "jstring list \<Rightarrow> jstring list \<Rightarrow> bool" where
  "isRepeat_from hash [] = False"
| "isRepeat_from hash (k # ks) =
     (if k \<in> set hash \<or> k \<in> set proto_keys then True else isRepeat_from (k # hash) ks)"

definition isRepeat :: "jsval list \<Rightarrow> bool" where
  "isRepeat arr = isRepeat_from [] (map to_str arr)"

text \<open>
  \<open>insertJsonItem\<close> walks the keys of its argument but changes the page's \<open>catedata\<close>. A key
  that \<open>catedata\<close> lacks raises an exception, \<open>None\<close>.
\<close>

fun insertJsonItem ::
  "jstring list \<Rightarrow> 'i \<Rightarrow> jstring \<Rightarrow> (jstring \<rightharpoonup> 'i list) \<Rightarrow> (jstring \<rightharpoonup> 'i list) option" where
  "insertJsonItem [] item keyString catedata = Some catedata"
| "insertJsonItem (key # ks) item keyString catedata =
     (if key = keyString
      then (case catedata key of
              None \<Rightarrow> None
            | Some xs \<Rightarrow> insertJsonItem ks item keyString (catedata(key \<mapsto> item # xs)))
      else insertJsonItem ks item keyString catedata)"

subsection \<open>The field under a picker\<close>

definition addItemInput ::
  "(jstring \<Rightarrow> int) \<Rightarrow> (picker \<Rightarrow> picker) \<Rightarrow> row list \<Rightarrow> picker \<Rightarrow> picker" where
  "addItemInput scrollHeight posfix parentArr p =
     (let valArr = map (\<lambda>r. elem_str (cell r 0)) parentArr;
          txtArr = map (\<lambda>r. elem_str (cell r 1)) parentArr;
          p = p\<lparr>pk_text := join (js '', '') txtArr\<rparr>;
          p = (case pk_height p of
                 Some h \<Rightarrow> if scrollHeight (pk_text p) > h
                           then posfix (p\<lparr>pk_height := Some (scrollHeight (pk_text p))\<rparr>) else p
               | None \<Rightarrow> p);
          p = (if pk_text p = [] then posfix (p\<lparr>pk_height := Some 28\<rparr>) else p)
      in p\<lparr>pk_value := join (js '','') valArr\<rparr>)"

definition pickData :: "anchor \<Rightarrow> picker \<Rightarrow> picker" where
  "pickData a p =
     p\<lparr>pk_text := an_text a, pk_value := (case an_id a of Some s \<Rightarrow> s | None \<Rightarrow> [])\<rparr>"

definition pickArr ::
  "(jstring \<Rightarrow> int) \<Rightarrow> (picker \<Rightarrow> picker) \<Rightarrow> anchor \<Rightarrow> picker \<Rightarrow> picker" where
  "pickArr sh posfix a p =
     (let new_arr = [an_data a, JStr (an_text a)];
          arr = filterArr (pk_sub p) new_arr
      in addItemInput sh posfix arr (p\<lparr>pk_sub := arr\<rparr>))"

subsection \<open>The item at the cursor\<close>

text \<open>
  \<open>getCursorPosition\<close>: the selection where the browser has one, else the loop over a text
  range, which steps back to the start \<open>moves\<close> times and counts a line break twice.
\<close>

datatype cursor = W3C nat nat | IE nat

fun ie_cursor :: "jstring \<Rightarrow> nat \<Rightarrow> nat \<Rightarrow> nat" where
  "ie_cursor v i 0 = i"
| "ie_cursor v i (Suc moves) =
     ie_cursor v (Suc (if i < length v \<and> v ! i = 10 then Suc i else i)) moves"

definition getCursorPosition :: "jstring \<Rightarrow> cursor \<Rightarrow> nat" where
  "getCursorPosition v c = (case c of W3C s e \<Rightarrow> s | IE moves \<Rightarrow> ie_cursor v 0 moves)"

definition getDeleteItem :: "jstring \<Rightarrow> nat \<Rightarrow> jstring" where
  "getDeleteItem v position =
     (let leftStr = take position v;
          rightStr = drop position v;
          upto = (\<lambda>s. take (the (find_sub (js '','') s)) s);
          from_last = (\<lambda>s. drop (the (find_last 44 s)) s)
      in if 44 \<notin> set leftStr
         then (if 44 \<notin> set rightStr then leftStr @ rightStr else leftStr @ upto rightStr)
         else (if 44 \<notin> set rightStr
               then replace_str (from_last leftStr @ rightStr) (js '', '') []
               else replace_str (from_last leftStr @ upto rightStr) (js '', '') []))"

text \<open>\<open>reduceArr\<close>: the key handler of a picker. The flag says that the key was swallowed.\<close>

definition reduceArr ::
  "(jstring \<Rightarrow> int) \<Rightarrow> (picker \<Rightarrow> picker) \<Rightarrow> (picker \<Rightarrow> picker) \<Rightarrow> nat \<Rightarrow> cursor \<Rightarrow> picker
     \<Rightarrow> picker \<times> bool" where
  "reduceArr sh posfix fn keyCode c p =
     (if keyCode = 37 \<or> keyCode = 38 \<or> keyCode = 39 \<or> keyCode = 40 then (p, False)
      else if keyCode = 8
      then (let item = getDeleteItem (pk_text p) (getCursorPosition (pk_text p) c);
                arr = removeArrItem item (pk_sub p)
            in (fn (addItemInput sh posfix arr (p\<lparr>pk_sub := arr\<rparr>)), True))
      else (p, True))"

subsection \<open>The number of recipients of a choice\<close>

record tag =
  tag_id :: jsval
  tag_count :: jsval

text \<open>A count that is no number makes the sum \<open>NaN\<close>: \<open>None\<close>.\<close>

definition add_num :: "int option \<Rightarrow> int option \<Rightarrow> int option" where
  "add_num x y = (case (x, y) of (Some a, Some b) \<Rightarrow> Some (a + b) | _ \<Rightarrow> None)"

definition sub_num :: "int option \<Rightarrow> int option \<Rightarrow> int option" where
  "sub_num x y = (case (x, y) of (Some a, Some b) \<Rightarrow> Some (a - b) | _ \<Rightarrow> None)"

definition count_num :: "tag \<Rightarrow> int option" where
  "count_num t = parse_int (to_str (tag_count t))"

definition person_step ::
  "row list \<Rightarrow> row list \<Rightarrow> tag \<Rightarrow> int option \<Rightarrow> int option" where
  "person_step enArr outArr t s =
     (let s = fold (\<lambda>e s. if js_eq (cell e 0) (tag_id t) then add_num s (count_num t) else s)
                enArr s
      in fold (\<lambda>out s.
                fold (\<lambda>e s. if js_eq (cell out 0) (cell e 0)
                            then (if js_eq (cell out 0) (tag_id t)
                                  then sub_num s (count_num t) else s)
                            else s) enArr s) outArr s)"

definition reloadPersonSum ::
  "(jstring \<times> tag list) list \<Rightarrow> row list \<Rightarrow> row list \<Rightarrow> int option" where
  "reloadPersonSum json enArr outArr =
     fold (\<lambda>(key, obj) s. fold (person_step enArr outArr) obj s) json (Some 0)"

subsection \<open>Lemmas: the cursor in a joined list\<close>

lemma split_chr_cursor:
  "split_chr c (l @ r) =
     butlast (split_chr c l) @ (last (split_chr c l) @ hd (split_chr c r)) # tl (split_chr c r)"
proof (induction l)
  case Nil
  then show ?case by (cases "split_chr c r") auto
next
  case (Cons x l)
  obtain y ys where l: "split_chr c l = y # ys" by (cases "split_chr c l") auto
  show ?case
  proof (cases "ys = []")
    case True
    with Cons l show ?thesis by (cases "split_chr c r") auto
  next
    case False
    with Cons l show ?thesis by auto
  qed
qed

lemma length_split_chr: "length (split_chr c s) = Suc (length (filter (\<lambda>x. x = c) s))"
proof (induction s)
  case (Cons x s)
  then show ?case by (cases "split_chr c s") auto
qed simp

lemma nth_split_cursor:
  "split_chr c (l @ r) ! length (filter (\<lambda>x. x = c) l) =
     last (split_chr c l) @ hd (split_chr c r)"
proof -
  have "length (butlast (split_chr c l)) = length (filter (\<lambda>x. x = c) l)"
    by (simp add: length_split_chr)
  then show ?thesis by (metis split_chr_cursor nth_append_length)
qed

lemma hd_split_find:
  assumes "c \<in> set s"
  shows "take (the (find_sub [c] s)) s = hd (split_chr c s)"
proof -
  from assms obtain a b where "s = a @ c # b" "c \<notin> set a"
    by (metis split_list_first)
  then show ?thesis by (simp add: find_sub_chr)
qed

lemma last_split_find:
  assumes "c \<in> set s"
  shows "drop (the (find_last c s)) s = c # last (split_chr c s)"
proof -
  from assms obtain a b where "s = a @ c # b" "c \<notin> set b"
    by (metis split_list_last)
  then show ?thesis by (simp add: find_last_chr split_last)
qed

text \<open>A joined list of titles splits at its commas into the titles, all but the first
  with the blank before them.\<close>

definition segment :: "nat \<Rightarrow> jstring \<Rightarrow> jstring" where
  "segment i t = (if i = 0 then t else 32 # t)"

lemma split_titles:
  assumes "ts \<noteq> []" and "\<forall>t \<in> set ts. 44 \<notin> set t"
  shows "split_chr 44 (join (js '', '') ts) = hd ts # map ((#) 32) (tl ts)"
  using assms
proof (induction ts)
  case (Cons t ts)
  have sep: "js '', '' = [44, 32]" by (simp add: js_def)
  show ?case
  proof (cases ts)
    case Nil
    with Cons show ?thesis by simp
  next
    case (Cons u us)
    then have "split_chr 44 (32 # join (js '', '') ts) = (32 # u) # map ((#) 32) us"
      using Cons.IH Cons.prems by simp
    with Cons.prems Cons show ?thesis by (simp add: sep)
  qed
qed simp

lemma getDeleteItem_segment:
  "getDeleteItem (l @ r) (length l) =
     (if 44 \<notin> set l then last (split_chr 44 l) @ hd (split_chr 44 r)
      else replace_str (44 # last (split_chr 44 l) @ hd (split_chr 44 r)) (js '', '') [])"
proof -
  have comma: "js '','' = [44]" by (simp add: js_def)
  show ?thesis
    by (cases "44 \<in> set l"; cases "44 \<in> set r")
      (simp_all add: getDeleteItem_def comma hd_split_find last_split_find)
qed

lemma getDeleteItem_title:
  assumes ts: "ts \<noteq> []" "\<forall>t \<in> set ts. 44 \<notin> set t"
    and pos: "position \<le> length (join (js '', '') ts)"
  defines "k \<equiv> length (filter (\<lambda>c. c = 44) (take position (join (js '', '') ts)))"
  shows "k < length ts \<and> getDeleteItem (join (js '', '') ts) position = ts ! k"
proof -
  let ?v = "join (js '', '') ts"
  define l r where "l = take position ?v" and "r = drop position ?v"
  have v: "?v = l @ r" "position = length l" using pos by (simp_all add: l_def r_def)
  have sp: "split_chr 44 (l @ r) = hd ts # map ((#) 32) (tl ts)"
    using split_titles [OF ts] v by simp
  have k: "k = length (filter (\<lambda>x. x = 44) l)" by (simp add: k_def l_def)
  have "length (split_chr 44 (l @ r)) = length ts" using sp ts(1) by simp
  then have kl: "k < length ts" by (simp add: length_split_chr k)
  have seg: "last (split_chr 44 l) @ hd (split_chr 44 r) = segment k (ts ! k)"
    using nth_split_cursor [of 44 l r] sp kl ts(1)
    by (cases ts; cases k) (auto simp: k segment_def)
  have e: "getDeleteItem ?v position =
    (if 44 \<notin> set l then segment k (ts ! k) else replace_str (44 # segment k (ts ! k)) (js '', '') [])"
    unfolding v(1) v(2) getDeleteItem_segment seg by simp
  have z: "44 \<notin> set l \<longleftrightarrow> k = 0" by (auto simp: k filter_empty_conv)
  have "replace_str (44 # 32 # ts ! k) (js '', '') [] = ts ! k"
    using replace_str_prefix [of "js '', ''" "ts ! k"] by (simp add: js_def)
  with e z kl show ?thesis by (auto simp: segment_def)
qed

subsection \<open>Lemmas: arrays of rows with distinct ids\<close>

fun drop_first :: "('a \<Rightarrow> bool) \<Rightarrow> 'a list \<Rightarrow> 'a list" where
  "drop_first P [] = []"
| "drop_first P (x # xs) = (if P x then xs else x # drop_first P xs)"

lemma filterArr_from_append:
  "filterArr_from (ps @ xs) new (length ps) (length xs)
     = ps @ drop_first (\<lambda>r. js_eq (cell r 0) (cell new 0)) xs @ [new]"
proof (induction xs arbitrary: ps)
  case (Cons x xs)
  from Cons [of "ps @ [x]"] show ?case by simp
qed simp

lemma filterArr_eq:
  "filterArr arr new = drop_first (\<lambda>r. js_eq (cell r 0) (cell new 0)) arr @ [new]"
  using filterArr_from_append [of "[]" arr new] by (simp add: filterArr_def)

lemma drop_first_filter:
  "length (filter P xs) \<le> 1 \<Longrightarrow> drop_first P xs = filter (\<lambda>x. \<not> P x) xs"
  by (induction xs) (auto simp: filter_empty_conv filter_id_conv)

definition rows_ok :: "row list \<Rightarrow> bool" where
  "rows_ok arr \<longleftrightarrow> (\<forall>r \<in> set arr. canonical (cell r 0)) \<and> distinct (map row_id arr)"

definition row_good :: "row \<Rightarrow> bool" where
  "row_good r \<longleftrightarrow> canonical (cell r 0)"

lemma filterArr_filter:
  assumes "rows_ok arr" and "row_good new"
  shows "filterArr arr new = filter (\<lambda>r. row_id r \<noteq> row_id new) arr @ [new]"
proof -
  let ?P = "\<lambda>r. js_eq (cell r 0) (cell new 0)"
  have "\<forall>r \<in> set arr. ?P r \<longleftrightarrow> row_id r = row_id new"
    using assms by (auto simp: rows_ok_def row_good_def row_id_def js_eq_canonical)
  then have e: "filter ?P arr = filter (\<lambda>r. row_id r = row_id new) arr"
    "filter (\<lambda>r. \<not> ?P r) arr = filter (\<lambda>r. row_id r \<noteq> row_id new) arr"
    by (auto intro!: filter_cong)
  moreover have "length (filter (\<lambda>r. row_id r = row_id new) arr) \<le> 1"
    using assms(1) by (intro filter_distinct_at_most_one) (simp add: rows_ok_def)
  ultimately show ?thesis by (simp add: filterArr_eq drop_first_filter)
qed

text \<open>
  The contract of a keyed choice: adding a row keeps the keys distinct, replaces the row
  with the same key and puts the new one last.
\<close>

locale keyed_choice =
  fixes ok :: "'r list \<Rightarrow> bool" and good :: "'r \<Rightarrow> bool" and key :: "'r \<Rightarrow> 'k"
    and add :: "'r list \<Rightarrow> 'r \<Rightarrow> 'r list"
  assumes add_ok: "ok xs \<Longrightarrow> good r \<Longrightarrow> ok (add xs r)"
    and ok_distinct: "ok xs \<Longrightarrow> distinct (map key xs)"
    and add_rows: "ok xs \<Longrightarrow> good r \<Longrightarrow> set (add xs r) = {x \<in> set xs. key x \<noteq> key r} \<union> {r}"
begin

lemma add_keys: "ok xs \<Longrightarrow> good r \<Longrightarrow> key ` set (add xs r) = insert (key r) (key ` set xs)"
  by (auto simp: add_rows)

lemma length_keys: "ok xs \<Longrightarrow> length xs = card (key ` set xs)"
  by (metis ok_distinct distinct_card length_map set_map)

lemma add_length:
  assumes "ok xs" and "good r"
  shows "length (add xs r) = (if key r \<in> key ` set xs then length xs else Suc (length xs))"
  using assms by (simp add: length_keys add_ok add_keys insert_absorb)

lemma run_ok: "ok xs \<Longrightarrow> \<forall>r \<in> set rs. good r \<Longrightarrow> ok (fold (\<lambda>r xs. add xs r) rs xs)"
  by (induction rs arbitrary: xs) (auto simp: add_ok)

lemma run_keys:
  "ok xs \<Longrightarrow> \<forall>r \<in> set rs. good r \<Longrightarrow>
   key ` set (fold (\<lambda>r xs. add xs r) rs xs) = key ` set xs \<union> key ` set rs"
  by (induction rs arbitrary: xs) (auto simp: add_ok add_keys)

lemma run_length:
  assumes "ok xs" and "\<forall>r \<in> set rs. good r"
  shows "length (fold (\<lambda>r xs. add xs r) rs xs) = card (key ` set xs \<union> key ` set rs)"
  using length_keys [OF run_ok [OF assms]] run_keys [OF assms] by simp

end

lemma rows_ok_filterArr:
  assumes "rows_ok arr" and "row_good new"
  shows "rows_ok (filterArr arr new)"
  using assms distinct_map_filter_snoc [of row_id arr new]
  by (auto simp: filterArr_filter rows_ok_def row_good_def)

interpretation fa: keyed_choice rows_ok row_good row_id filterArr
proof unfold_locales
  show "rows_ok (filterArr xs r)" if "rows_ok xs" "row_good r" for xs r
    using that by (rule rows_ok_filterArr)
  show "distinct (map row_id xs)" if "rows_ok xs" for xs
    using that by (simp add: rows_ok_def)
  show "set (filterArr xs r) = {x \<in> set xs. row_id x \<noteq> row_id r} \<union> {r}"
    if "rows_ok xs" "row_good r" for xs r
    using that by (auto simp: filterArr_filter)
qed

lemma rows_ok_splice_scan: "rows_ok arr \<Longrightarrow> rows_ok (splice_scan P arr)"
  using set_splice_scan [of P arr]
  by (auto simp: rows_ok_def distinct_map_splice_scan)

lemma rows_ok_removeArrItem: "rows_ok arr \<Longrightarrow> rows_ok (removeArrItem t arr)"
  by (simp add: removeArrItem_def rows_ok_splice_scan)

lemma rows_ok_Nil [simp]: "rows_ok []"
  by (simp add: rows_ok_def)

text \<open>Rows whose titles are strings, as the pages build them.\<close>

definition titled :: "row list \<Rightarrow> bool" where
  "titled arr \<longleftrightarrow> (\<forall>r \<in> set arr. \<exists>t. cell r 1 = JStr t)"

lemma titled_title: "titled arr \<Longrightarrow> r \<in> set arr \<Longrightarrow> cell r (Suc 0) = JStr (row_title r)"
  by (auto simp: titled_def row_title_def to_str_def)

lemma titled_elem: "titled arr \<Longrightarrow> r \<in> set arr \<Longrightarrow> elem_str (cell r (Suc 0)) = row_title r"
  by (auto simp: titled_def elem_str_def row_title_def to_str_def)

lemma removeArrItem_filter:
  assumes "titled arr" and "distinct (map row_title arr)"
  shows "removeArrItem t arr = filter (\<lambda>r. row_title r \<noteq> t) arr"
proof -
  have "removeArrItem t arr = splice_scan (\<lambda>r. row_title r = t) arr"
    unfolding removeArrItem_def by (rule splice_scan_cong) (simp add: titled_title [OF assms(1)])
  then show ?thesis using assms(2) by (simp add: splice_scan_distinct)
qed

lemma filter_neq_nth:
  assumes "distinct (map f xs)" and "k < length xs"
  shows "filter (\<lambda>x. f x \<noteq> f (xs ! k)) xs = take k xs @ drop (Suc k) xs"
proof -
  have x: "xs = take k xs @ xs ! k # drop (Suc k) xs" using assms(2) by (rule id_take_nth_drop)
  have "distinct (map f (take k xs @ xs ! k # drop (Suc k) xs))"
    using assms(1) by (rule subst [OF x])
  then have "f (xs ! k) \<notin> f ` set (take k xs)" "f (xs ! k) \<notin> f ` set (drop (Suc k) xs)"
    by (simp_all only: map_append list.map distinct_append distinct.simps set_map) auto
  then have "filter (\<lambda>x. f x \<noteq> f (xs ! k)) (take k xs) = take k xs"
    "filter (\<lambda>x. f x \<noteq> f (xs ! k)) (drop (Suc k) xs) = drop (Suc k) xs"
    by (auto intro!: filter_True simp: image_iff)
  then have "filter (\<lambda>x. f x \<noteq> f (xs ! k)) (take k xs @ xs ! k # drop (Suc k) xs)
      = take k xs @ drop (Suc k) xs"
    by (simp only: filter_append filter.simps) simp
  then show ?thesis by (rule trans [OF arg_cong [OF x, of "filter _"]])
qed

lemma removeArrItem_nth:
  assumes "titled arr" and "distinct (map row_title arr)" and "k < length arr"
  shows "removeArrItem (row_title (arr ! k)) arr = take k arr @ drop (Suc k) arr"
  using assms by (simp add: removeArrItem_filter filter_neq_nth)

subsection \<open>Lemmas: the field shows the array\<close>

definition layout_only :: "(picker \<Rightarrow> picker) \<Rightarrow> bool" where
  "layout_only f \<longleftrightarrow> (\<forall>p. pk_text (f p) = pk_text p \<and> pk_value (f p) = pk_value p
     \<and> pk_sub (f p) = pk_sub p \<and> pk_disabled (f p) = pk_disabled p)"

definition picker_sync :: "picker \<Rightarrow> bool" where
  "picker_sync p \<longleftrightarrow>
     pk_text p = join (js '', '') (map (\<lambda>r. elem_str (cell r 1)) (pk_sub p))
     \<and> pk_value p = join (js '','') (map (\<lambda>r. elem_str (cell r 0)) (pk_sub p))"

lemma addItemInput_fields:
  assumes "layout_only posfix"
  shows "pk_text (addItemInput sh posfix arr p) = join (js '', '') (map (\<lambda>r. elem_str (cell r 1)) arr)"
    "pk_value (addItemInput sh posfix arr p) = join (js '','') (map (\<lambda>r. elem_str (cell r 0)) arr)"
    "pk_sub (addItemInput sh posfix arr p) = pk_sub p"
    "pk_disabled (addItemInput sh posfix arr p) = pk_disabled p"
  using assms by (auto simp: addItemInput_def Let_def layout_only_def split: option.splits)

lemma addItemInput_sync:
  "layout_only posfix \<Longrightarrow> picker_sync (addItemInput sh posfix arr (p\<lparr>pk_sub := arr\<rparr>))"
  by (simp add: picker_sync_def addItemInput_fields)

lemma pickArr_sub:
  "layout_only posfix \<Longrightarrow>
   pk_sub (pickArr sh posfix a p) = filterArr (pk_sub p) [an_data a, JStr (an_text a)]"
  by (simp add: pickArr_def Let_def addItemInput_fields)

lemma pickArr_sync: "layout_only posfix \<Longrightarrow> picker_sync (pickArr sh posfix a p)"
  by (simp add: pickArr_def Let_def addItemInput_sync)

lemma isRepeat_from_iff:
  "\<forall>k \<in> set ks. k \<notin> set proto_keys \<Longrightarrow>
   isRepeat_from hash ks \<longleftrightarrow> \<not> distinct ks \<or> set hash \<inter> set ks \<noteq> {}"
  by (induction hash ks rule: isRepeat_from.induct) auto

lemma findArrItem_from_iff:
  "findArrItem_from arr k v i = -1 \<longleftrightarrow> (\<forall>r \<in> set arr. \<not> js_eq (cell r k) v)" if "i \<ge> 0"
  using that by (induction arr k v i rule: findArrItem_from.induct) auto

lemma findArrItem_iff:
  "findArrItem arr k v = -1 \<longleftrightarrow> (\<forall>r \<in> set arr. \<not> js_eq (cell r k) v)"
  by (simp add: findArrItem_def findArrItem_from_iff)

lemma reduceArr_backspace:
  assumes lay: "layout_only posfix" and sync: "picker_sync p"
    and t: "titled (pk_sub p)" "distinct (map row_title (pk_sub p))"
    and comma: "\<forall>r \<in> set (pk_sub p). 44 \<notin> set (row_title r)"
    and ne: "pk_sub p \<noteq> []" and pos: "s \<le> length (pk_text p)"
  defines "k \<equiv> length (filter (\<lambda>c. c = 44) (take s (pk_text p)))"
  shows "k < length (pk_sub p)"
    "pk_sub (fst (reduceArr sh posfix id 8 (W3C s e) p)) = take k (pk_sub p) @ drop (Suc k) (pk_sub p)"
    "picker_sync (fst (reduceArr sh posfix id 8 (W3C s e) p))"
proof -
  let ?ts = "map row_title (pk_sub p)"
  have "map (\<lambda>r. elem_str (cell r 1)) (pk_sub p) = ?ts"
    using titled_elem [OF t(1)] by simp
  then have shows_titles: "pk_text p = join (js '', '') ?ts"
    using sync by (simp only: picker_sync_def)
  have g: "k < length ?ts \<and> getDeleteItem (pk_text p) s = ?ts ! k"
    using getDeleteItem_title [of ?ts s] ne comma pos unfolding k_def shows_titles by auto
  then show kl: "k < length (pk_sub p)" by simp
  have "removeArrItem (?ts ! k) (pk_sub p) = take k (pk_sub p) @ drop (Suc k) (pk_sub p)"
    using removeArrItem_nth [OF t kl] kl by simp
  with g show "pk_sub (fst (reduceArr sh posfix id 8 (W3C s e) p))
      = take k (pk_sub p) @ drop (Suc k) (pk_sub p)"
    by (simp add: reduceArr_def getCursorPosition_def Let_def addItemInput_fields [OF lay])
  show "picker_sync (fst (reduceArr sh posfix id 8 (W3C s e) p))"
    by (simp add: reduceArr_def Let_def addItemInput_sync [OF lay])
qed

subsection \<open>Lemmas: the recipient count\<close>

lemma fold_add_num:
  "fold (\<lambda>e s. if P e then add_num s (Some c) else s) xs (Some v)
     = Some (v + c * int (length (filter P xs)))"
  by (induction xs arbitrary: v) (auto simp: add_num_def algebra_simps)

lemma fold_sub_num:
  "fold (\<lambda>e s. if P e then (if Q then sub_num s (Some c) else s) else s) xs (Some v)
     = Some (v - (if Q then c * int (length (filter P xs)) else 0))"
  by (induction xs arbitrary: v) (auto simp: sub_num_def algebra_simps)

lemma fold_sub_num2:
  "fold (\<lambda>out s. fold (\<lambda>e s. if P out e then (if Q out then sub_num s (Some c) else s) else s) xs s)
      ys (Some v)
     = Some (v - (\<Sum>out \<leftarrow> ys. if Q out then c * int (length (filter (P out) xs)) else 0))"
  by (induction ys arbitrary: v) (auto simp: fold_sub_num)

lemma length_filter_distinct:
  "distinct (map f xs) \<Longrightarrow> length (filter (\<lambda>x. f x = k) xs) = (if k \<in> f ` set xs then 1 else 0)"
proof -
  assume d: "distinct (map f xs)"
  then have "length (filter (\<lambda>x. f x = k) xs) \<le> 1" by (rule filter_distinct_at_most_one)
  moreover have "length (filter (\<lambda>x. f x = k) xs) = 0 \<longleftrightarrow> k \<notin> f ` set xs"
    by (auto simp: filter_empty_conv)
  ultimately show ?thesis by (cases "length (filter (\<lambda>x. f x = k) xs)") auto
qed

definition tag_key :: "tag \<Rightarrow> jstring" where
  "tag_key t = to_str (tag_id t)"

definition ids_of :: "row list \<Rightarrow> jstring set" where
  "ids_of arr = row_id ` set arr"

lemma person_step_eq:
  assumes en: "rows_ok en" and out: "rows_ok out"
    and t: "canonical (tag_id t)" "count_num t = Some c"
  shows "person_step en out t (Some v)
    = Some (v + (if tag_key t \<in> ids_of en - ids_of out then c else 0))"
proof -
  have c: "js_eq (cell r 0) (tag_id t) \<longleftrightarrow> row_id r = tag_key t" if "r \<in> set en \<union> set out" for r
    using that en out t(1) by (auto simp: rows_ok_def row_id_def tag_key_def js_eq_canonical)
  have m: "filter (\<lambda>e. js_eq (cell o' 0) (cell e 0)) en = filter (\<lambda>e. row_id e = row_id o') en"
    if "o' \<in> set out" for o'
    using that en out by (auto simp: rows_ok_def row_id_def js_eq_canonical intro!: filter_cong)
  have n: "length (filter (\<lambda>e. js_eq (cell o' 0) (cell e 0)) en) = (if row_id o' \<in> ids_of en then 1 else 0)"
    if "o' \<in> set out" for o'
    using that en by (simp add: m length_filter_distinct rows_ok_def ids_of_def)
  have "filter (\<lambda>e. js_eq (cell e 0) (tag_id t)) en = filter (\<lambda>e. row_id e = tag_key t) en"
    using c by (auto intro!: filter_cong)
  then have a: "length (filter (\<lambda>e. js_eq (cell e 0) (tag_id t)) en)
      = (if tag_key t \<in> ids_of en then 1 else 0)"
    using en by (simp add: length_filter_distinct rows_ok_def ids_of_def)
  have "(\<Sum>o' \<leftarrow> out. if js_eq (cell o' 0) (tag_id t)
        then c * int (length (filter (\<lambda>e. js_eq (cell o' 0) (cell e 0)) en)) else 0)
      = (\<Sum>o' \<leftarrow> out. if row_id o' = tag_key t then (if tag_key t \<in> ids_of en then c else 0) else 0)"
    using c n by (intro arg_cong [where f = sum_list] map_cong) auto
  also have "\<dots> = (if tag_key t \<in> ids_of en then c else 0)
      * int (length (filter (\<lambda>o'. row_id o' = tag_key t) out))"
    by (induction out) (auto simp: algebra_simps)
  finally have s: "(\<Sum>o' \<leftarrow> out. if js_eq (cell o' 0) (tag_id t)
        then c * int (length (filter (\<lambda>e. js_eq (cell o' 0) (cell e 0)) en)) else 0)
      = (if tag_key t \<in> ids_of en \<and> tag_key t \<in> ids_of out then c else 0)"
    using out by (auto simp: length_filter_distinct rows_ok_def ids_of_def)
  show ?thesis
    unfolding person_step_def Let_def t(2) fold_add_num fold_sub_num2 a s by auto
qed

lemma reloadPersonSum_eq:
  assumes "rows_ok en" and "rows_ok out"
    and "\<forall>t \<in> set (concat (map snd json)). canonical (tag_id t) \<and> count_num t = Some (cnt t)"
  shows "reloadPersonSum json en out
    = Some (\<Sum>t \<leftarrow> concat (map snd json). if tag_key t \<in> ids_of en - ids_of out then cnt t else 0)"
proof -
  have step: "fold (person_step en out) ts (Some v)
      = Some (v + (\<Sum>t \<leftarrow> ts. if tag_key t \<in> ids_of en - ids_of out then cnt t else 0))"
    if "\<forall>t \<in> set ts. canonical (tag_id t) \<and> count_num t = Some (cnt t)" for ts v
    using that by (induction ts arbitrary: v) (auto simp: person_step_eq [OF assms(1,2)])
  have all: "fold (\<lambda>(key, obj) s. fold (person_step en out) obj s) cs (Some v)
      = Some (v + (\<Sum>t \<leftarrow> concat (map snd cs). if tag_key t \<in> ids_of en - ids_of out then cnt t else 0))"
    if "\<forall>t \<in> set (concat (map snd cs)). canonical (tag_id t) \<and> count_num t = Some (cnt t)" for cs v
    using that by (induction cs arbitrary: v) (auto simp: step)
  show ?thesis using all [OF assms(3), of 0] by (simp add: reloadPersonSum_def)
qed

subsection \<open>Properties\<close>

definition picker0 :: picker where
  "picker0 = \<lparr>pk_text = js ''ab, cd'', pk_value = js ''1,2'', pk_sub =
     [[JInt 1, JStr (js ''ab'')], [JInt 2, JStr (js ''cd'')]], pk_height = Some 28,
     pk_disabled = False\<rparr>"


lemma picker0_sync: "picker_sync picker0"
  by code_simp


text \<open>Any sequence of choices keeps the ids of a chooser distinct; the chosen ids are those
  there before and those added, each once.\<close>

lemma filterArr_run:
  assumes "rows_ok arr" and "\<forall>r \<in> set rs. row_good r"
  shows "rows_ok (fold (\<lambda>r xs. filterArr xs r) rs arr)
    \<and> row_id ` set (fold (\<lambda>r xs. filterArr xs r) rs arr) = row_id ` set arr \<union> row_id ` set rs
    \<and> length (fold (\<lambda>r xs. filterArr xs r) rs arr) = card (row_id ` set arr \<union> row_id ` set rs)"
  using fa.run_ok [OF assms] fa.run_keys [OF assms] fa.run_length [OF assms] by simp

text \<open>After every choice the visible text is the titles of the chosen rows joined by a comma
  and a blank, the hidden field their ids joined by commas, and the new row replaces the one with
  the same id.\<close>

lemma pickArr_keeps_sync:
  assumes "layout_only posfix" and "rows_ok (pk_sub p)" and "canonical (an_data a)"
  shows "picker_sync (pickArr sh posfix a p) \<and> rows_ok (pk_sub (pickArr sh posfix a p))
    \<and> pk_sub (pickArr sh posfix a p)
        = filter (\<lambda>r. row_id r \<noteq> to_str (an_data a)) (pk_sub p) @ [[an_data a, JStr (an_text a)]]"
proof -
  have g: "row_good [an_data a, JStr (an_text a)]" using assms(3) by (simp add: row_good_def cell_def)
  show ?thesis
    using pickArr_sync [OF assms(1)] filterArr_filter [OF assms(2) g] rows_ok_filterArr [OF assms(2) g]
    by (simp add: pickArr_sub [OF assms(1)] row_id_def cell_def)
qed

text \<open>For texts that are not names an object inherits, \<open>isRepeat\<close> answers whether two
  entries are written the same.\<close>

lemma isRepeat_detects_duplicates:
  assumes "\<forall>v \<in> set arr. to_str v \<notin> set proto_keys"
  shows "isRepeat arr \<longleftrightarrow> \<not> distinct (map to_str arr)"
  using assms by (simp add: isRepeat_def isRepeat_from_iff)

text \<open>The number of recipients shown for a choice is the sum of the counts of the tags that
  are included and not excluded, whatever category the tags are listed under.\<close>

lemma reloadPersonSum_counts:
  assumes "rows_ok en" and "rows_ok out"
    and "\<forall>t \<in> set (concat (map snd json)). canonical (tag_id t) \<and> count_num t = Some (cnt t)"
  shows "reloadPersonSum json en out
    = Some (\<Sum>t \<leftarrow> concat (map snd json). if tag_key t \<in> ids_of en - ids_of out then cnt t else 0)"
  using assms by (rule reloadPersonSum_eq)

end
