(* ===== verification/Forms.thy ===== *)
theory Forms
  imports Selection
begin

text \<open>
  The forms of the pages are checked field by field before they are sent. Each check of the
  sources is an \<open>if\<close> that shows a message, may move the focus, takes the loading mask away
  and returns \<open>false\<close>; a \<open>rule\<close> is such an \<open>if\<close>, a check is the list of its rules in
  the order of the code, and the answer of the server is a \<open>reply\<close>.
\<close>

datatype rule = Rule (failed: bool) (rule_msg: jstring) (rule_focus: "jstring option")

definition reject :: "browser \<Rightarrow> rule \<Rightarrow> 'a ui_scheme \<Rightarrow> 'a ui_scheme" where
  "reject b r u =
     (let u = fail_message b (rule_msg r) u;
          u = (case rule_focus r of None \<Rightarrow> u | Some k \<Rightarrow> focus_el k u)
      in del_loading b [] u)"

text \<open>\<open>Inl\<close>: the check returned \<open>false\<close>; \<open>Inr\<close>: it went through.\<close>

fun check_rules :: "browser \<Rightarrow> rule list \<Rightarrow> 'a ui_scheme \<Rightarrow> 'a ui_scheme + 'a ui_scheme" where
  "check_rules b [] u = Inr u"
| "check_rules b (r # rs) u = (if failed r then Inl (reject b r u) else check_rules b rs u)"

record reply =
  code :: jsval
  message :: jstring

definition accepted :: "reply \<Rightarrow> bool" where
  "accepted d \<longleftrightarrow> js_eq (code d) (JInt 1)"

text \<open>The check answers with the first rule that fails.\<close>

lemma check_rules_eq:
  "check_rules b rs u = (case find failed rs of None \<Rightarrow> Inr u | Some r \<Rightarrow> Inl (reject b r u))"
  by (induction rs) auto

lemma check_rules_pass: "check_rules b rs u = Inr v \<longleftrightarrow> v = u \<and> (\<forall>r \<in> set rs. \<not> failed r)"
  by (induction rs) auto

lemma find_failed_Some: "find failed rs = Some r \<Longrightarrow> r \<in> set rs \<and> failed r"
  by (auto simp: find_Some_iff)

lemma reject_frame [simp]:
  "loading_bgs (reject b r u) = 0" "ui.more (reject b r u) = ui.more u"
  "navs (reject b r u) = navs u" "loads (reject b r u) = loads u"
  "covers (reject b r u) = covers u"
  by (simp_all add: reject_def Let_def focus_el_def split: option.split)

lemma reject_ok: "ui_ok u \<Longrightarrow> ui_ok (reject b r u)"
  by (simp add: reject_def Let_def error_message_ok split: option.split)

lemma reject_box:
  "ui_ok u \<Longrightarrow> err_boxes (reject b r u) = [message_box b (rule_msg r) 1 0]"
  by (simp add: reject_def Let_def error_message_boxes focus_el_def split: option.split)

text \<open>
  What a form check promises its page. The locale is about any check that is a list of rules
  behind a loading mask; each form of the pages is an instance.
\<close>

definition guarded :: "browser \<Rightarrow> rule list \<Rightarrow> 'a ui_scheme \<Rightarrow> 'a ui_scheme + 'a ui_scheme" where
  "guarded b rs u = check_rules b rs (loading b [] u)"

locale form_check =
  fixes check :: "'a ui_scheme \<Rightarrow> 'a ui_scheme + 'a ui_scheme"
    and rules :: "'a ui_scheme \<Rightarrow> rule list" and b :: browser
  assumes check_eq: "check u = guarded b (rules u) u"
begin

lemma passes: "(\<exists>v. check u = Inr v) \<longleftrightarrow> (\<forall>r \<in> set (rules u). \<not> failed r)"
  by (auto simp: check_eq guarded_def check_rules_pass)

lemma keeps_fields: "check u = Inl v \<or> check u = Inr v \<Longrightarrow> ui.more v = ui.more u"
  by (auto simp: check_eq guarded_def check_rules_eq split: option.splits)

lemma no_mask_left: "check u = Inl v \<Longrightarrow> loading_bgs v = 0"
  by (auto simp: check_eq guarded_def check_rules_eq split: option.splits)

lemma mask_while_sending: "check u = Inr v \<Longrightarrow> loading_bgs v = Suc (loading_bgs u)"
  by (auto simp: check_eq guarded_def check_rules_eq split: option.splits)

lemma first_message:
  assumes "ui_ok u" and "check u = Inl v"
  shows "\<exists>r. find failed (rules u) = Some r \<and> err_boxes v = [message_box b (rule_msg r) 1 0]"
  using assms
  by (auto simp: check_eq guarded_def check_rules_eq reject_box split: option.splits)

lemma check_ok: "ui_ok u \<Longrightarrow> check u = Inl v \<or> check u = Inr v \<Longrightarrow> ui_ok v"
  by (auto simp: check_eq guarded_def check_rules_eq reject_ok split: option.splits)

end

end
