(* ===== verification/Task.thy ===== *)
theory Task
  imports Forms
begin

text \<open>
  The page that creates a mailing task: \<open>static/js/mailing.task.common.js\<close> (choices of the
  form, send modes, periods) and \<open>static/js/mailing.task.add.js\<close> (tags to include and to
  exclude, the checks before the recipients are counted, drafts, the answers of the server).

  A chooser field with its hidden value is a \<open>picker\<close>. The layout arguments \<open>sh\<close> and
  \<open>posfix\<close> are the scroll height of a text and the positioning of the drop-down.
\<close>

record task_page = ui +
  f_taskName :: jstring
  f_subject :: jstring
  f_senderName :: jstring
  f_sms :: jstring
  f_bindCorp :: jstring
  f_jobTime :: jstring
  f_taskId :: jstring
  f_planId :: jstring
  f_orgTaskName :: jstring
  f_fileId :: jstring
  has_bindCorp :: bool
  has_sms :: bool
  has_assProp :: bool
  p_template :: picker
  p_sender :: picker
  p_include :: picker
  p_exclude :: picker
  p_camp :: picker
  p_robot :: picker
  p_assProp :: picker
  send_code :: jstring
  schedule_off :: bool
  plan_off :: bool
  schedule_grey :: bool
  plan_grey :: bool
  camp_grey :: bool
  remind_off :: bool
  prop_rows :: "(jstring \<times> jstring \<times> bool) list"
  sent :: "(jstring \<times> jstring) list"

definition cate_interest :: jstring where
  "cate_interest = [0x884C, 0x4E1A, 0x5174, 0x8DA3]"

subsection \<open>Send modes\<close>

definition has_camp :: "'a task_page_scheme \<Rightarrow> bool" where
  "has_camp t \<longleftrightarrow> pk_value (p_camp t) \<noteq> []"

definition has_file :: "'a task_page_scheme \<Rightarrow> bool" where
  "has_file t \<longleftrightarrow> indexOf (pk_value (p_include t)) (js ''EXPORT'') > -1"

definition set_schedule :: "bool \<Rightarrow> 'a task_page_scheme \<Rightarrow> 'a task_page_scheme" where
  "set_schedule off t = t\<lparr>schedule_off := off, schedule_grey := off\<rparr>"

definition set_plan :: "bool \<Rightarrow> 'a task_page_scheme \<Rightarrow> 'a task_page_scheme" where
  "set_plan off t = t\<lparr>plan_off := off, plan_grey := off\<rparr>"

definition testSendCode :: "'a task_page_scheme \<Rightarrow> 'a task_page_scheme" where
  "testSendCode t =
     (let hasCamp = has_camp t; hasFile = has_file t
      in if hasCamp = False \<and> hasFile = False then set_plan False (set_schedule False t)
         else if hasCamp = False \<and> hasFile = True then set_plan True (set_schedule True t)
         else if hasCamp = True \<and> hasFile = False then set_plan True (set_schedule False t)
         else if hasCamp = True \<and> hasFile = True then set_plan True (set_schedule True t)
         else t)"

definition sendCode_change :: "jstring \<Rightarrow> 'a task_page_scheme \<Rightarrow> 'a task_page_scheme" where
  "sendCode_change selectVal t =
     (let t = t\<lparr>send_code := selectVal\<rparr>;
          t = (if selectVal = js ''schedule'' then show_el (js ''#jobTime'') t
               else hide_el (js ''#jobTime'') (t\<lparr>f_jobTime := []\<rparr>))
      in if selectVal = js ''plan''
         then show_el (js ''#periodOption'')
                (t\<lparr>p_camp := (p_camp t)\<lparr>pk_disabled := True\<rparr>, camp_grey := True\<rparr>)
         else hide_el (js ''#periodOption'')
                (t\<lparr>p_camp := (p_camp t)\<lparr>pk_disabled := False\<rparr>, camp_grey := False\<rparr>))"

definition disPeriod :: "anchor \<Rightarrow> 'a task_page_scheme \<Rightarrow> 'a task_page_scheme" where
  "disPeriod a t =
     (let t = t\<lparr>p_camp := pickData a (p_camp t)\<rparr>
      in if pk_value (p_camp t) \<noteq> [] then set_plan True t else t)"

text \<open>The key handlers given to the template and the campaign chooser.\<close>

definition template_key :: "nat \<Rightarrow> 'a task_page_scheme \<Rightarrow> 'a task_page_scheme" where
  "template_key keyCode t =
     (if keyCode = 8
      then t\<lparr>p_template := (p_template t)\<lparr>pk_text := [], pk_value := []\<rparr>, f_subject := []\<rparr>
      else t)"

definition camp_key :: "nat \<Rightarrow> 'a task_page_scheme \<Rightarrow> 'a task_page_scheme" where
  "camp_key keyCode t =
     (if keyCode = 8
      then testSendCode (t\<lparr>p_camp := (p_camp t)\<lparr>pk_text := [], pk_value := []\<rparr>\<rparr>)
      else t)"

subsection \<open>Template subject and sender name\<close>

record template_item =
  ti_id :: jsval
  ti_subject :: jstring

definition postSubject ::
  "template_item list \<Rightarrow> anchor \<Rightarrow> 'a task_page_scheme \<Rightarrow> 'a task_page_scheme" where
  "postSubject templateData a t =
     (let t = t\<lparr>p_template := pickData a (p_template t)\<rparr>;
          tid = pk_value (p_template t)
      in fold (\<lambda>d t. if js_eq (ti_id d) (JStr tid) then t\<lparr>f_subject := ti_subject d\<rparr> else t)
           templateData t)"

record sender_item =
  si_title :: jstring
  si_info :: jstring

text \<open>\<open>postName()\<close> without arguments, at page load, picks nothing.\<close>

definition postName ::
  "sender_item list \<Rightarrow> anchor option \<Rightarrow> 'a task_page_scheme \<Rightarrow> 'a task_page_scheme" where
  "postName sender_list obj t =
     (let t = (case obj of None \<Rightarrow> t | Some a \<Rightarrow> t\<lparr>p_sender := pickData a (p_sender t)\<rparr>);
          email = pk_value (p_sender t)
      in fold (\<lambda>s t. if si_title s = email then t\<lparr>f_senderName := si_info s\<rparr> else t)
           sender_list t)"

definition reloadSender_success ::
  "(jstring \<times> jstring) list option \<Rightarrow> sender_item list \<Rightarrow> sender_item list" where
  "reloadSender_success senderMaps sender_list =
     (case senderMaps of
        None \<Rightarrow> sender_list
      | Some kvs \<Rightarrow> map (\<lambda>(k, v). \<lparr>si_title = k, si_info = v\<rparr>) kvs)"

subsection \<open>Associated properties\<close>

text \<open>The category of an id: the \<open>data-info\<close> of the first anchor with that \<open>data-id\<close>.\<close>

definition info_of :: "(jstring \<times> jstring \<times> bool) list \<Rightarrow> jstring \<Rightarrow> jstring option" where
  "info_of rows i = map_option (\<lambda>(_, info, _). info) (find (\<lambda>(j, _, _). j = i) rows)"

definition addPropSelect :: "'a task_page_scheme \<Rightarrow> 'a task_page_scheme" where
  "addPropSelect t =
     (let t = t\<lparr>prop_rows := map (\<lambda>(i, c, _). (i, c, False)) (prop_rows t)\<rparr>;
          ids = pk_value (p_assProp t)
      in if ids = [] then t
         else t\<lparr>prop_rows := map (\<lambda>(i, c, s). (i, c, s \<or> i \<in> set (split_chr 44 ids)))
                  (prop_rows t)\<rparr>)"

definition tagLimit :: nat where
  "tagLimit = 10"

definition addAssProp ::
  "browser \<Rightarrow> (jstring \<Rightarrow> int) \<Rightarrow> (picker \<Rightarrow> picker) \<Rightarrow> anchor \<Rightarrow> 'a task_page_scheme
     \<Rightarrow> 'a task_page_scheme" where
  "addAssProp b sh posfix a t =
     (let itemArr = pk_sub (p_assProp t);
          cate_info = an_info a;
          val = (case an_id a of Some s \<Rightarrow> JStr s | None \<Rightarrow> JUndef);
          finish = (\<lambda>arr. addPropSelect
             (t\<lparr>p_assProp := addItemInput sh posfix arr ((p_assProp t)\<lparr>pk_sub := arr\<rparr>)\<rparr>))
      in if an_selected a then finish (removeArrItem (an_text a) itemArr)
         else if length itemArr \<ge> tagLimit
         then fail_message b ([0x9009, 0x62E9, 0x6807, 0x7B7E, 0x6570, 0x4E0D, 0x80FD, 0x5927, 0x4E8E] @ nat_to_str tagLimit @ [0x4E2A, 0xFF01]) t
         else if cate_info = Some cate_interest
         then finish (filterArr itemArr [val, JStr (an_text a), JStr cate_interest])
         else finish (filterArr
                (splice_scan (\<lambda>r. info_of (prop_rows t) (to_str (cell r 0)) = cate_info) itemArr)
                [val, JStr (an_text a)]))"

definition removeProp ::
  "(jstring \<Rightarrow> int) \<Rightarrow> (picker \<Rightarrow> picker) \<Rightarrow> jstring \<Rightarrow> 'a task_page_scheme \<Rightarrow> 'a task_page_scheme"
where
  "removeProp sh posfix item t =
     (let arr = removeArrItem item (pk_sub (p_assProp t))
      in addPropSelect
           (t\<lparr>p_assProp := addItemInput sh posfix arr ((p_assProp t)\<lparr>pk_sub := arr\<rparr>)\<rparr>))"

subsection \<open>Network senders: one of them excludes all others\<close>

definition pickExclusion ::
  "browser \<Rightarrow> (jstring \<Rightarrow> int) \<Rightarrow> (picker \<Rightarrow> picker) \<Rightarrow> nat option \<Rightarrow> anchor
     \<Rightarrow> 'a task_page_scheme \<Rightarrow> 'a task_page_scheme" where
  "pickExclusion b sh posfix limit a t =
     (let parentArr = pk_sub (p_robot t)
      in if (case limit of Some n \<Rightarrow> length parentArr \<ge> n | None \<Rightarrow> False)
         then fail_message b ([0x4E0D, 0x80FD, 0x8D85, 0x8FC7] @ nat_to_str (the limit) @ [0x4E2A]) t
         else let val = an_data a;
                  arr = (if js_eq val (JInt (-1)) then []
                         else splice_scan (\<lambda>r. js_eq (cell r 0) (JInt (-1))) parentArr);
                  arr = filterArr arr [val, JStr (an_text a)]
              in t\<lparr>p_robot := addItemInput sh posfix arr ((p_robot t)\<lparr>pk_sub := arr\<rparr>)\<rparr>)"

subsection \<open>Periods\<close>

definition two_digits :: "nat \<Rightarrow> jstring" where
  "two_digits i = (if i < 10 then js ''0'' @ nat_to_str i else nat_to_str i)"

definition hour_list :: "(jstring \<times> jstring) list" where
  "hour_list = concat (map (\<lambda>i. let i2 = two_digits i
     in [(i2 @ js '':00'', i2 @ js '':00''), (i2 @ js '':30'', i2 @ js '':30'')]) [0..<24])"

definition day_list :: "(jstring \<times> jstring) list" where
  "day_list = map (\<lambda>i. (nat_to_str i, two_digits i @ [0x65E5])) [1..<32]
     @ [(js ''last_day'', [0x6700, 0x540E, 0x4E00, 0x5929])]"

definition switchPeriod :: "jstring list \<Rightarrow> jstring \<Rightarrow> 'a ui_scheme \<Rightarrow> 'a ui_scheme" where
  "switchPeriod pads label u =
     (let u = fold hide_el pads u
      in if label @ js ''_pad'' \<in> set pads then show_el (label @ js ''_pad'') u else u)"

subsection \<open>Tags to include and to exclude\<close>

definition is_file_row :: "row \<Rightarrow> bool" where
  "is_file_row r \<longleftrightarrow> js_eq (cell r 2) (JStr (js ''file''))"

definition msg_no_file_scheduled :: jstring where
  "msg_no_file_scheduled = [0x5982, 0x679C, 0x9009, 0x62E9, 0x4E86, 0x3010, 0x5B9A, 0x65F6, 0x53D1, 0x9001, 0x3011, 0x548C, 0x3010, 0x5468, 0x671F, 0x53D1, 0x9001, 0x3011, 0xFF0C, 0x5305, 0x542B, 0x6807, 0x7B7E, 0x7981, 0x7528, 0x4E34, 0x65F6, 0x6587, 0x4EF6]"

definition pickIncludes ::
  "browser \<Rightarrow> (jstring \<Rightarrow> int) \<Rightarrow> (picker \<Rightarrow> picker) \<Rightarrow> nat option \<Rightarrow> anchor
     \<Rightarrow> 'a task_page_scheme \<Rightarrow> 'a task_page_scheme" where
  "pickIncludes b sh posfix limit a t =
     (let parentArr = pk_sub (p_include t)
      in if (case limit of Some n \<Rightarrow> length parentArr \<ge> n | None \<Rightarrow> False)
         then fail_message b ([0x4E0D, 0x80FD, 0x8D85, 0x8FC7] @ nat_to_str (the limit) @ [0x4E2A]) t
         else let finish = (\<lambda>arr t. testSendCode
                (t\<lparr>p_include := addItemInput sh posfix arr ((p_include t)\<lparr>pk_sub := arr\<rparr>)\<rparr>))
              in if an_type a = Some (js ''file'')
                 then if send_code t = js ''schedule'' \<or> send_code t = js ''plan''
                      then fail_message b msg_no_file_scheduled t
                      else finish (filterArr [] [an_data a, JStr (an_text a), JStr (js ''file'')])
                             (t\<lparr>p_exclude := (p_exclude t)\<lparr>pk_disabled := True, pk_text := [],
                                  pk_value := []\<rparr>\<rparr>)
                 else finish (filterArr (splice_scan is_file_row parentArr)
                        [an_data a, JStr (an_text a)])
                        (t\<lparr>p_exclude := (p_exclude t)\<lparr>pk_disabled := False\<rparr>\<rparr>))"

definition pickExcludes ::
  "browser \<Rightarrow> (jstring \<Rightarrow> int) \<Rightarrow> (picker \<Rightarrow> picker) \<Rightarrow> nat option \<Rightarrow> anchor
     \<Rightarrow> 'a task_page_scheme \<Rightarrow> 'a task_page_scheme" where
  "pickExcludes b sh posfix limit a t =
     (if (case limit of Some n \<Rightarrow> length (pk_sub (p_exclude t)) \<ge> n | None \<Rightarrow> False)
      then fail_message b ([0x4E0D, 0x80FD, 0x8D85, 0x8FC7] @ nat_to_str (the limit) @ [0x4E2A]) t
      else t\<lparr>p_exclude := pickArr sh posfix a (p_exclude t)\<rparr>)"

definition include_key ::
  "(jstring \<Rightarrow> int) \<Rightarrow> (picker \<Rightarrow> picker) \<Rightarrow> nat \<Rightarrow> cursor \<Rightarrow> 'a task_page_scheme \<Rightarrow> 'a task_page_scheme"
where
  "include_key sh posfix keyCode c t =
     (let t = t\<lparr>p_include := fst (reduceArr sh posfix id keyCode c (p_include t))\<rparr>
      in if pk_value (p_include t) = []
         then testSendCode (t\<lparr>p_exclude := (p_exclude t)\<lparr>pk_disabled := False\<rparr>\<rparr>)
         else t)"

text \<open>The last statement of \<open>initTag\<close>: a file among the loaded tags disables the exclusion.\<close>

definition initTag_exclude :: "'a task_page_scheme \<Rightarrow> 'a task_page_scheme" where
  "initTag_exclude t =
     (if findArrItem (pk_sub (p_include t)) 2 (JStr (js ''file'')) > -1
      then t\<lparr>p_exclude := (p_exclude t)\<lparr>pk_disabled := True\<rparr>\<rparr> else t)"

subsection \<open>Counting the recipients, saving, drafts\<close>

definition no_interest :: "'a task_page_scheme \<Rightarrow> bool" where
  "no_interest t \<longleftrightarrow> has_assProp t \<and> pk_text (p_assProp t) \<noteq> []
     \<and> findArrItem (pk_sub (p_assProp t)) 2 (JStr cate_interest) = -1"

definition sum_rules :: "'a task_page_scheme \<Rightarrow> rule list" where
  "sum_rules t =
     [Rule (f_taskName t = []) [0x8BF7, 0x8F93, 0x5165, 0x4EFB, 0x52A1, 0x540D, 0x79F0] (Some (js ''taskName'')),
      Rule (pk_value (p_template t) = []) [0x8BF7, 0x9009, 0x62E9, 0x90AE, 0x4EF6, 0x6A21, 0x677F] None,
      Rule (f_subject t = []) [0x8BF7, 0x8F93, 0x5165, 0x90AE, 0x4EF6, 0x4E3B, 0x9898] (Some (js ''subject'')),
      Rule (has_bindCorp t \<and> f_bindCorp t = []) [0x8BF7, 0x9009, 0x62E9, 0x6240, 0x5C5E, 0x4F01, 0x4E1A] None,
      Rule (pk_value (p_sender t) = []) [0x8BF7, 0x9009, 0x62E9, 0x53D1, 0x4EF6, 0x4EBA, 0x90AE, 0x7BB1] None,
      Rule (pk_value (p_include t) = []) [0x8BF7, 0x9009, 0x62E9, 0x6240, 0x5C5E, 0x6807, 0x7B7E] None,
      Rule (has_sms t \<and> f_sms t = []) [0x8BF7, 0x9009, 0x62E9, 0x77ED, 0x4FE1, 0x901A, 0x77E5] None,
      Rule (no_interest t) [0x8BF7, 0x9009, 0x62E9, 0x5173, 0x8054, 0x5C5E, 0x6027, 0x7684, 0x884C, 0x4E1A, 0x5174, 0x8DA3] None]"

definition msg_counting :: jstring where
  "msg_counting = [0x3C, 0x70, 0x3E, 0x3C, 0x69, 0x6D, 0x67, 0x20, 0x73, 0x72, 0x63, 0x3D, 0x27, 0x2F, 0x73, 0x74, 0x61, 0x74, 0x69, 0x63, 0x2F, 0x69, 0x6D, 0x67, 0x2F, 0x6C, 0x6F, 0x61, 0x64, 0x69, 0x6E, 0x67, 0x32, 0x2E, 0x67, 0x69, 0x66, 0x27, 0x20, 0x73, 0x74, 0x79, 0x6C, 0x65, 0x3D, 0x27, 0x6D, 0x61, 0x72, 0x67, 0x69, 0x6E, 0x2D, 0x62, 0x6F, 0x74, 0x74, 0x6F, 0x6D, 0x3A, 0x2D, 0x35, 0x70, 0x78, 0x3B, 0x27, 0x20, 0x2F, 0x3E, 0x26, 0x6E, 0x62, 0x73, 0x70, 0x3B, 0x26, 0x6E, 0x62, 0x73, 0x70, 0x3B, 0x6B63, 0x5728, 0x7B5B, 0x9009, 0x6536, 0x4EF6, 0x4EBA, 0xFF0C, 0x8BF7, 0x7A0D, 0x5019, 0x2E, 0x2E, 0x2E, 0x3C, 0x2F, 0x70, 0x3E]"

definition sum_check ::
  "browser \<Rightarrow> 'a task_page_scheme \<Rightarrow> 'a task_page_scheme + 'a task_page_scheme" where
  "sum_check b t = check_rules b (sum_rules t) (loading b [] t)"

definition getAjaxSum :: "browser \<Rightarrow> 'a task_page_scheme \<Rightarrow> 'a task_page_scheme" where
  "getAjaxSum b t =
     (case sum_check b t of
        Inl v \<Rightarrow> v
      | Inr t \<Rightarrow>
          (let t = popTips b (js ''#remindCustom'') msg_counting t;
               t = t\<lparr>remind_off := True\<rparr>
           in t\<lparr>sent := sent t @ [(pk_value (p_include t), pk_value (p_exclude t))]\<rparr>))"

record selection_reply = reply +
  sel_fileId :: jstring
  sel_count :: jstring

definition getAjaxSum_success ::
  "browser \<Rightarrow> selection_reply \<Rightarrow> 'a task_page_scheme \<Rightarrow> 'a task_page_scheme" where
  "getAjaxSum_success b d t =
     (let t = (if accepted (reply.truncate d)
               then popTips b (js ''#remindCustom'')
                      ([0x3C, 0x70, 0x3E, 0x7B5B, 0x9009, 0x6210, 0x529F, 0xFF1A, 0x5F53, 0x524D, 0x5171, 0x7B5B, 0x9009, 0x3C, 0x73, 0x70, 0x61, 0x6E, 0x20, 0x63, 0x6C, 0x61, 0x73, 0x73, 0x3D, 0x27, 0x72, 0x65, 0x64, 0x27, 0x3E] @ sel_count d @
                       [0x3C, 0x2F, 0x73, 0x70, 0x61, 0x6E, 0x3E, 0x4E2A, 0x6536, 0x4EF6, 0x4EBA, 0x3C, 0x73, 0x70, 0x61, 0x6E, 0x20, 0x63, 0x6C, 0x61, 0x73, 0x73, 0x3D, 0x22, 0x66, 0x36, 0x36, 0x36, 0x22, 0x3E, 0xFF08, 0x5DF2, 0x53BB, 0x91CD, 0xFF09, 0x3C, 0x2F, 0x73, 0x70, 0x61, 0x6E, 0x3E, 0x3C, 0x2F, 0x70, 0x3E])
                      (t\<lparr>f_fileId := sel_fileId d\<rparr>)
               else popTips b (js ''#remindCustom'')
                      ([0x3C, 0x70, 0x3E, 0x7B5B, 0x9009, 0x5931, 0x8D25, 0xFF1A] @ message d @ js ''</p>'') t)
      in del_loading b [] (t\<lparr>remind_off := False\<rparr>))"

definition getAjaxSum_error :: "browser \<Rightarrow> 'a task_page_scheme \<Rightarrow> 'a task_page_scheme" where
  "getAjaxSum_error b t =
     del_loading b []
       ((popTips b (js ''#remindCustom'') [0x7B5B, 0x9009, 0x6536, 0x4EF6, 0x4EBA, 0x5931, 0x8D25, 0xFF01] t)\<lparr>remind_off := False\<rparr>)"

definition add_success :: "browser \<Rightarrow> reply \<Rightarrow> 'a task_page_scheme \<Rightarrow> 'a task_page_scheme" where
  "add_success b d t =
     del_loading b []
       (if accepted d then error_message b (message d) 0 0 1000 (js ''/mailing/task/page'') t
        else fail_message b (message d) t)"

definition drafted_rules :: "'a task_page_scheme \<Rightarrow> rule list" where
  "drafted_rules t =
     [Rule (f_taskName t = []) [0x8BF7, 0x8F93, 0x5165, 0x4EFB, 0x52A1, 0x540D, 0x79F0] (Some (js ''taskName'')),
      Rule (pk_value (p_template t) = []) [0x8BF7, 0x9009, 0x62E9, 0x90AE, 0x4EF6, 0x6A21, 0x677F] None,
      Rule (f_subject t = []) [0x8BF7, 0x8F93, 0x5165, 0x90AE, 0x4EF6, 0x4E3B, 0x9898] (Some (js ''subject'')),
      Rule (pk_value (p_sender t) = []) [0x8BF7, 0x8F93, 0x5165, 0x53D1, 0x4EF6, 0x4EBA, 0x90AE, 0x7BB1] None,
      Rule (pk_value (p_include t) = []) [0x8BF7, 0x9009, 0x62E9, 0x6240, 0x5C5E, 0x6807, 0x7B7E] None,
      Rule (has_sms t \<and> f_sms t = []) [0x8BF7, 0x9009, 0x62E9, 0x77ED, 0x4FE1, 0x901A, 0x77E5] None,
      Rule (no_interest t) [0x8BF7, 0x9009, 0x62E9, 0x5173, 0x8054, 0x5C5E, 0x6027, 0x7684, 0x884C, 0x4E1A, 0x5174, 0x8DA3] None]"

definition drafted_check ::
  "browser \<Rightarrow> 'a task_page_scheme \<Rightarrow> 'a task_page_scheme + 'a task_page_scheme" where
  "drafted_check b t = check_rules b (drafted_rules t) (loading b [] t)"

record draft_reply = reply +
  d_taskId :: jstring
  d_planId :: jstring
  d_taskName :: jstring

definition drafted_success ::
  "browser \<Rightarrow> draft_reply \<Rightarrow> 'a task_page_scheme \<Rightarrow> 'a task_page_scheme" where
  "drafted_success b d t =
     del_loading b []
       (if accepted (reply.truncate d)
        then ok_message b (message d)
               (t\<lparr>f_taskId := d_taskId d, f_planId := d_planId d, f_orgTaskName := d_taskName d\<rparr>)
        else fail_message b (message d) t)"

subsection \<open>Lemmas: what the shared functions leave alone\<close>

lemma task_fields_more:
  assumes "ui.more v = ui.more u"
  shows "p_include v = p_include u" "p_exclude v = p_exclude u" "p_camp v = p_camp u"
    "p_robot v = p_robot u" "p_assProp v = p_assProp u" "send_code v = send_code u"
    "schedule_off v = schedule_off u" "plan_off v = plan_off u" "prop_rows v = prop_rows u"
    "sent v = sent u" "remind_off v = remind_off u" "f_fileId v = f_fileId u"
  using assms by (cases u; cases v; simp)+

lemma task_message [simp]:
  "p_include (error_message b m bg d e url t) = p_include t"
  "p_exclude (error_message b m bg d e url t) = p_exclude t"
  "p_camp (error_message b m bg d e url t) = p_camp t"
  "p_robot (error_message b m bg d e url t) = p_robot t"
  "p_assProp (error_message b m bg d e url t) = p_assProp t"
  "send_code (error_message b m bg d e url t) = send_code t"
  "schedule_off (error_message b m bg d e url t) = schedule_off t"
  "plan_off (error_message b m bg d e url t) = plan_off t"
  "prop_rows (error_message b m bg d e url t) = prop_rows t"
  "sent (error_message b m bg d e url t) = sent t"
  by (simp_all add: task_fields_more [OF error_message_frame(10)])

lemma task_show [simp]:
  "p_include (show_el k t) = p_include t" "p_include (hide_el k t) = p_include t"
  "p_camp (show_el k t) = p_camp t" "p_camp (hide_el k t) = p_camp t"
  "send_code (show_el k t) = send_code t" "send_code (hide_el k t) = send_code t"
  "schedule_off (show_el k t) = schedule_off t" "schedule_off (hide_el k t) = schedule_off t"
  "plan_off (show_el k t) = plan_off t" "plan_off (hide_el k t) = plan_off t"
  by (simp_all add: show_el_def hide_el_def)

subsection \<open>Lemmas: send modes and the include list\<close>

lemma testSendCode_simps [simp]:
  "schedule_off (testSendCode t) = has_file t"
  "plan_off (testSendCode t) = (has_camp t \<or> has_file t)"
  "p_include (testSendCode t) = p_include t" "p_exclude (testSendCode t) = p_exclude t"
  "p_camp (testSendCode t) = p_camp t" "send_code (testSendCode t) = send_code t"
  by (auto simp: testSendCode_def Let_def set_plan_def set_schedule_def)

lemma sublist_append_sep:
  assumes "c \<notin> set p" and "p \<noteq> []"
  shows "sublist p (a @ c # b) \<longleftrightarrow> sublist p a \<or> sublist p b"
proof
  assume "sublist p (a @ c # b)"
  then obtain x y where x: "a @ c # b = x @ p @ y" by (auto simp: sublist_def)
  then consider z where "a = x @ z" "z @ c # b = p @ y" | z where "x = a @ z" "c # b = z @ p @ y"
    by (auto simp: append_eq_append_conv2)
  then show "sublist p a \<or> sublist p b"
  proof cases
    case 1
    then obtain w where "z = p @ w \<or> p = z @ w \<and> c # b = w @ y"
      by (auto simp: append_eq_append_conv2)
    with 1 assms have "(\<exists>w. z = p @ w) \<or> sublist p b"
      by (cases w) auto
    with 1 show ?thesis by (metis sublist_appendI)
  next
    case 2
    with assms show ?thesis by (cases z) (auto simp: sublist_def Cons_eq_append_conv)
  qed
next
  assume "sublist p a \<or> sublist p b"
  then show "sublist p (a @ c # b)"
    unfolding sublist_def by (metis append.assoc append_Cons)
qed

lemma sublist_join:
  assumes "c \<notin> set p" and "p \<noteq> []"
  shows "sublist p (join [c] xs) \<longleftrightarrow> (\<exists>x \<in> set xs. sublist p x)"
proof (induction xs)
  case (Cons x xs)
  then show ?case
    using sublist_append_sep [OF assms, of x "join [c] xs"] assms
    by (cases "xs = []") (auto simp: join_Cons)
qed (use assms in auto)

definition id_is_file :: "jsval \<Rightarrow> bool" where
  "id_is_file v \<longleftrightarrow> sublist (js ''EXPORT'') (elem_str v)"

text \<open>The identifiers the server gives to temporary files, and only those, contain EXPORT.\<close>

definition include_anchor :: "anchor \<Rightarrow> bool" where
  "include_anchor a \<longleftrightarrow> canonical (an_data a) \<and> (an_type a = Some (js ''file'') \<longleftrightarrow> id_is_file (an_data a))"

definition include_ok :: "picker \<Rightarrow> bool" where
  "include_ok p \<longleftrightarrow> picker_sync p \<and> rows_ok (pk_sub p)
     \<and> (\<forall>r \<in> set (pk_sub p). is_file_row r = id_is_file (cell r 0))
     \<and> (\<forall>r \<in> set (pk_sub p). is_file_row r \<longrightarrow> pk_sub p = [r])"

lemma has_file_rows:
  assumes "include_ok (p_include t)"
  shows "has_file t \<longleftrightarrow> (\<exists>r \<in> set (pk_sub (p_include t)). is_file_row r)"
proof -
  have "44 \<notin> set (js ''EXPORT'')" "js '','' = [44]" by (simp_all add: js_def)
  then have "sublist (js ''EXPORT'') (pk_value (p_include t))
      \<longleftrightarrow> (\<exists>r \<in> set (pk_sub (p_include t)). id_is_file (cell r 0))"
    using assms by (simp add: include_ok_def picker_sync_def sublist_join id_is_file_def)
  moreover have "has_file t \<longleftrightarrow> sublist (js ''EXPORT'') (pk_value (p_include t))"
    using indexOf_nonneg [of "pk_value (p_include t)" "js ''EXPORT''"]
    unfolding has_file_def by linarith
  ultimately show ?thesis using assms by (auto simp: include_ok_def)
qed

lemma is_file_row_simps [simp]:
  "is_file_row [v, t] \<longleftrightarrow> False" "is_file_row [v, t, JStr s] \<longleftrightarrow> s = js ''file''"
  by (simp_all add: is_file_row_def)

lemma pickIncludes_fields:
  assumes "layout_only posfix"
  shows "p_camp (pickIncludes b sh posfix limit a t) = p_camp t"
    "send_code (pickIncludes b sh posfix limit a t) = send_code t"
  by (simp_all add: pickIncludes_def Let_def)

lemma splice_file_rows:
  assumes "\<forall>r \<in> set rows. is_file_row r \<longrightarrow> rows = [r]"
  shows "splice_scan is_file_row rows = (if \<exists>r \<in> set rows. is_file_row r then [] else rows)"
proof (cases "\<exists>r \<in> set rows. is_file_row r")
  case True
  then obtain r where "is_file_row r" "rows = [r]" using assms by blast
  then show ?thesis by (simp add: splice_scan_eq)
qed (auto simp: splice_scan_none)

lemma include_ok_add:
  assumes "layout_only posfix" and "rows_ok rows" and "\<forall>r \<in> set rows. \<not> is_file_row r \<and> \<not> id_is_file (cell r 0)"
    and "include_anchor a" and "an_type a \<noteq> Some (js ''file'')"
  shows "include_ok (addItemInput sh posfix (filterArr rows [an_data a, JStr (an_text a)])
    (p\<lparr>pk_sub := filterArr rows [an_data a, JStr (an_text a)]\<rparr>))"
proof -
  have g: "row_good [an_data a, JStr (an_text a)]"
    using assms(4) by (simp add: row_good_def include_anchor_def)
  have "\<forall>r \<in> set (filterArr rows [an_data a, JStr (an_text a)]). \<not> is_file_row r \<and> \<not> id_is_file (cell r 0)"
    using assms(3-5) by (auto simp: filterArr_filter [OF assms(2) g] include_anchor_def)
  with rows_ok_filterArr [OF assms(2) g] addItemInput_sync [OF assms(1)]
  show ?thesis by (auto simp: include_ok_def addItemInput_fields [OF assms(1)])
qed

lemma include_ok_file:
  assumes "layout_only posfix" and "include_anchor a" and "an_type a = Some (js ''file'')"
  shows "include_ok (addItemInput sh posfix (filterArr [] [an_data a, JStr (an_text a), JStr (js ''file'')])
    (p\<lparr>pk_sub := filterArr [] [an_data a, JStr (an_text a), JStr (js ''file'')]\<rparr>))"
proof -
  have "filterArr [] r = [r]" for r by (simp add: filterArr_eq)
  with assms addItemInput_sync [OF assms(1)] show ?thesis
    by (simp add: include_ok_def addItemInput_fields [OF assms(1)] include_anchor_def rows_ok_def)
qed

lemma include_ok_pick:
  assumes lay: "layout_only posfix" and ok: "include_ok (p_include t)" and a: "include_anchor a"
  shows "include_ok (p_include (pickIncludes b sh posfix limit a t))"
proof -
  let ?rows = "splice_scan is_file_row (pk_sub (p_include t))"
  have "\<forall>r \<in> set ?rows. \<not> is_file_row r \<and> \<not> id_is_file (cell r 0)"
    using ok by (subst splice_file_rows) (auto simp: include_ok_def)
  moreover have "rows_ok ?rows" using ok by (simp add: include_ok_def rows_ok_splice_scan)
  ultimately show ?thesis
    using ok include_ok_add [OF lay, of ?rows a] include_ok_file [OF lay a] a
    by (simp add: pickIncludes_def Let_def)
qed

lemma include_ok_remove:
  assumes "layout_only posfix" and "include_ok p"
  shows "include_ok (addItemInput sh posfix (removeArrItem x (pk_sub p)) (p\<lparr>pk_sub := removeArrItem x (pk_sub p)\<rparr>))"
proof -
  have s: "set (removeArrItem x (pk_sub p)) \<subseteq> set (pk_sub p)"
    by (simp add: removeArrItem_def set_splice_scan)
  have "removeArrItem x (pk_sub p) = [r]" if "r \<in> set (removeArrItem x (pk_sub p))" "is_file_row r" for r
  proof -
    from that s assms(2) have "pk_sub p = [r]" by (auto simp: include_ok_def)
    with that length_splice_scan [of "\<lambda>r. js_eq (cell r 1) (JStr x)" "pk_sub p"] show ?thesis
      by (cases "removeArrItem x (pk_sub p)") (auto simp: removeArrItem_def)
  qed
  with s assms rows_ok_removeArrItem [of "pk_sub p" x] addItemInput_sync [OF assms(1)] show ?thesis
    by (auto simp: include_ok_def addItemInput_fields [OF assms(1)])
qed

lemma reduceArr_include_ok:
  assumes "layout_only posfix" and "include_ok p"
  shows "include_ok (fst (reduceArr sh posfix id k c p))"
  using assms include_ok_remove [OF assms] by (simp add: reduceArr_def Let_def)

lemma reduceArr_sub:
  "layout_only posfix \<Longrightarrow> set (pk_sub (fst (reduceArr sh posfix id k c p))) \<subseteq> set (pk_sub p)"
  by (auto simp: reduceArr_def Let_def addItemInput_fields removeArrItem_def
      dest!: set_splice_scan [THEN subsetD])

subsection \<open>The form as a state machine\<close>

text \<open>
  The choices that bear on the send mode: tags to include, the campaign, the mode itself. A
  disabled radio button cannot be chosen and a disabled campaign field opens no list.
\<close>

inductive mode_step ::
  "browser \<Rightarrow> (jstring \<Rightarrow> int) \<Rightarrow> (picker \<Rightarrow> picker) \<Rightarrow> 'a task_page_scheme \<Rightarrow> 'a task_page_scheme \<Rightarrow> bool"
for b sh posfix where
  pick: "include_anchor a \<Longrightarrow> mode_step b sh posfix t (pickIncludes b sh posfix limit a t)"
| key: "mode_step b sh posfix t (include_key sh posfix k c t)"
| campaign: "\<not> pk_disabled (p_camp t) \<Longrightarrow> an_id a \<noteq> None \<Longrightarrow> an_id a \<noteq> Some [] \<Longrightarrow>
    mode_step b sh posfix t (disPeriod a t)"
| campaign_key: "mode_step b sh posfix t (camp_key k t)"
| mode: "(v = js ''schedule'' \<longrightarrow> \<not> schedule_off t) \<Longrightarrow> (v = js ''plan'' \<longrightarrow> \<not> plan_off t) \<Longrightarrow>
    mode_step b sh posfix t (sendCode_change v t)"
| exclude: "mode_step b sh posfix t (pickExcludes b sh posfix limit a t)"

definition mode_ok :: "'a task_page_scheme \<Rightarrow> bool" where
  "mode_ok t \<longleftrightarrow> include_ok (p_include t)
     \<and> schedule_off t = has_file t \<and> plan_off t = (has_camp t \<or> has_file t)
     \<and> (send_code t = js ''schedule'' \<longrightarrow> \<not> has_file t)
     \<and> (send_code t = js ''plan'' \<longrightarrow> \<not> has_file t \<and> \<not> has_camp t \<and> pk_disabled (p_camp t))"

lemma has_file_cong: "p_include v = p_include u \<Longrightarrow> has_file v = has_file u"
  by (simp add: has_file_def)

lemma has_camp_cong: "p_camp v = p_camp u \<Longrightarrow> has_camp v = has_camp u"
  by (simp add: has_camp_def)

lemma mode_ok_cong:
  assumes "p_include v = p_include u" "p_camp v = p_camp u" "send_code v = send_code u"
    "schedule_off v = schedule_off u" "plan_off v = plan_off u"
  shows "mode_ok v = mode_ok u"
  using assms by (simp add: mode_ok_def has_file_cong [OF assms(1)] has_camp_cong [OF assms(2)])

text \<open>After \<open>testSendCode\<close> only the mode itself is left to check.\<close>

lemma mode_ok_tested:
  assumes "include_ok (p_include t)" and "send_code t = js ''schedule'' \<longrightarrow> \<not> has_file t"
    and "send_code t = js ''plan'' \<longrightarrow> \<not> has_file t \<and> \<not> has_camp t \<and> pk_disabled (p_camp t)"
  shows "mode_ok (testSendCode t)"
proof -
  have "has_file (testSendCode t) = has_file t" "has_camp (testSendCode t) = has_camp t"
    by (simp_all add: has_file_def has_camp_def)
  with assms show ?thesis by (simp add: mode_ok_def)
qed

lemma pickIncludes_tested:
  assumes "layout_only posfix" and "include_ok (p_include t)" and "include_anchor a"
  obtains (refused) "p_include (pickIncludes b sh posfix limit a t) = p_include t"
      "schedule_off (pickIncludes b sh posfix limit a t) = schedule_off t"
      "plan_off (pickIncludes b sh posfix limit a t) = plan_off t"
  | (taken) t' where "pickIncludes b sh posfix limit a t = testSendCode t'"
      "include_ok (p_include t')" "p_camp t' = p_camp t" "send_code t' = send_code t"
      "has_file t' \<Longrightarrow> send_code t \<noteq> js ''schedule'' \<and> send_code t \<noteq> js ''plan''"
proof (cases "(case limit of Some n \<Rightarrow> length (pk_sub (p_include t)) \<ge> n | None \<Rightarrow> False)
    \<or> (an_type a = Some (js ''file'') \<and> (send_code t = js ''schedule'' \<or> send_code t = js ''plan''))")
  case True
  then show ?thesis by (intro refused) (auto simp: pickIncludes_def Let_def)
next
  case False
  note inc = include_ok_pick [OF assms, of b sh limit]
  from False have "\<exists>t'. pickIncludes b sh posfix limit a t = testSendCode t'
      \<and> p_camp t' = p_camp t \<and> send_code t' = send_code t"
    by (cases "an_type a = Some (js ''file'')")
      (simp_all add: pickIncludes_def Let_def, (rule exI, rule conjI, rule refl, simp)+)
  then obtain t' where t': "pickIncludes b sh posfix limit a t = testSendCode t'"
    "p_camp t' = p_camp t" "send_code t' = send_code t"
    by blast
  show ?thesis
  proof (rule taken [OF t'(1) _ t'(2,3)])
    show "include_ok (p_include t')" using inc t'(1) by simp
    assume f: "has_file t'"
    with has_file_rows [of t'] inc t'(1)
    have "\<exists>r \<in> set (pk_sub (p_include (pickIncludes b sh posfix limit a t))). is_file_row r" by simp
    moreover have "\<not> (\<exists>r \<in> set (pk_sub (p_include (pickIncludes b sh posfix limit a t))). is_file_row r)"
      if "an_type a \<noteq> Some (js ''file'')"
    proof -
      have g: "row_good [an_data a, JStr (an_text a)]"
        using assms(3) by (simp add: row_good_def include_anchor_def)
      have r: "rows_ok (splice_scan is_file_row (pk_sub (p_include t)))"
        using assms(2) by (simp add: include_ok_def rows_ok_splice_scan)
      have "\<forall>r \<in> set (splice_scan is_file_row (pk_sub (p_include t))). \<not> is_file_row r"
        using assms(2) by (subst splice_file_rows) (auto simp: include_ok_def)
      with that False show ?thesis
        by (auto simp: pickIncludes_def Let_def addItemInput_fields [OF assms(1)] filterArr_filter [OF r g])
    qed
    ultimately have "an_type a = Some (js ''file'')" by blast
    with False show "send_code t \<noteq> js ''schedule'' \<and> send_code t \<noteq> js ''plan''" by simp
  qed
qed

lemma mode_ok_pick:
  assumes "layout_only posfix" and "mode_ok t" and "include_anchor a"
  shows "mode_ok (pickIncludes b sh posfix limit a t)"
proof -
  have "include_ok (p_include t)" using assms(2) by (simp add: mode_ok_def)
  from assms(1) this assms(3) show ?thesis
  proof (cases rule: pickIncludes_tested [where b = b and sh = sh and limit = limit])
    case refused
    with assms(2) pickIncludes_fields [OF assms(1)] show ?thesis by (subst mode_ok_cong) auto
  next
    case (taken t')
    have "mode_ok (testSendCode t')"
      using taken assms(2) has_camp_cong [OF taken(3)]
      by (intro mode_ok_tested) (auto simp: mode_ok_def)
    with taken(1) show ?thesis by simp
  qed
qed

lemma mode_ok_key:
  assumes "layout_only posfix" and "mode_ok t"
  shows "mode_ok (include_key sh posfix k c t)"
proof -
  let ?p = "fst (reduceArr sh posfix id k c (p_include t))"
  let ?t = "t\<lparr>p_include := ?p\<rparr>"
  have ok: "include_ok (p_include t)" using assms(2) by (simp add: mode_ok_def)
  have ok': "include_ok (p_include ?t)" using reduceArr_include_ok [OF assms(1) ok] by simp
  have sub: "set (pk_sub (p_include ?t)) \<subseteq> set (pk_sub (p_include t))"
    using reduceArr_sub [OF assms(1)] by simp
  then have less: "has_file ?t \<Longrightarrow> has_file t"
    unfolding has_file_rows [OF ok] has_file_rows [OF ok'] by blast
  show ?thesis
  proof (cases "pk_value ?p = []")
    case True
    let ?s = "?t\<lparr>p_exclude := (p_exclude ?t)\<lparr>pk_disabled := False\<rparr>\<rparr>"
    have "\<not> has_file ?s" "has_camp ?s = has_camp t"
      using True by (simp_all add: has_file_def has_camp_def indexOf_def js_def)
    moreover have "p_camp ?s = p_camp t" "send_code ?s = send_code t" "include_ok (p_include ?s)"
      using ok' by simp_all
    ultimately have "mode_ok (testSendCode ?s)"
      using assms(2) unfolding mode_ok_def [of t] by (intro mode_ok_tested) (simp_all only: simp_thms, blast)
    with True show ?thesis by (simp add: include_key_def Let_def)
  next
    case False
    then have ne: "pk_sub ?p \<noteq> []" using ok' by (auto simp: include_ok_def picker_sync_def)
    have "has_file t \<Longrightarrow> has_file ?t"
    proof -
      assume "has_file t"
      then obtain r where "pk_sub (p_include t) = [r]" "is_file_row r"
        using ok unfolding has_file_rows [OF ok] include_ok_def by blast
      with sub ne show "has_file ?t" unfolding has_file_rows [OF ok'] by (cases "pk_sub ?p") auto
    qed
    with less have "has_file ?t = has_file t" by blast
    moreover have "has_camp ?t = has_camp t" by (simp add: has_camp_def)
    ultimately have "mode_ok ?t" using ok' assms(2) by (simp add: mode_ok_def)
    with False show ?thesis by (simp add: include_key_def Let_def)
  qed
qed

lemma mode_ok_campaign:
  assumes "mode_ok t" and "\<not> pk_disabled (p_camp t)" and "an_id a \<noteq> None" and "an_id a \<noteq> Some []"
  shows "mode_ok (disPeriod a t)"
  using assms
  by (auto simp: disPeriod_def Let_def pickData_def mode_ok_def has_file_def has_camp_def set_plan_def)

lemma mode_ok_campaign_key: "mode_ok t \<Longrightarrow> mode_ok (camp_key k t)"
  unfolding camp_key_def
  by (auto intro!: mode_ok_tested simp: mode_ok_def has_file_def has_camp_def)

lemma mode_ok_exclude: "mode_ok t \<Longrightarrow> mode_ok (pickExcludes b sh posfix limit a t)"
  by (subst mode_ok_cong [of _ t]) (simp_all add: pickExcludes_def)

lemma sendCode_change_fields [simp]:
  "p_include (sendCode_change v t) = p_include t" "send_code (sendCode_change v t) = v"
  "schedule_off (sendCode_change v t) = schedule_off t" "plan_off (sendCode_change v t) = plan_off t"
  "p_camp (sendCode_change v t) = (p_camp t)\<lparr>pk_disabled := (v = js ''plan'')\<rparr>"
  by (simp_all add: sendCode_change_def Let_def)

lemma mode_ok_mode:
  assumes "mode_ok t" and "v = js ''schedule'' \<longrightarrow> \<not> schedule_off t" and "v = js ''plan'' \<longrightarrow> \<not> plan_off t"
  shows "mode_ok (sendCode_change v t)"
proof -
  have "has_file (sendCode_change v t) = has_file t" "has_camp (sendCode_change v t) = has_camp t"
    for v by (simp_all add: has_file_def has_camp_def)
  with assms show ?thesis by (simp add: mode_ok_def)
qed

lemma mode_step_ok:
  "mode_step b sh posfix t t' \<Longrightarrow> layout_only posfix \<Longrightarrow> mode_ok t \<Longrightarrow> mode_ok t'"
  by (induction rule: mode_step.induct)
    (simp_all add: mode_ok_pick mode_ok_key mode_ok_campaign mode_ok_campaign_key mode_ok_mode mode_ok_exclude)

subsection \<open>Lemmas: associated properties and network senders\<close>

definition prop_cat :: "'a task_page_scheme \<Rightarrow> row \<Rightarrow> jstring option" where
  "prop_cat t r = info_of (prop_rows t) (row_id r)"

text \<open>At most one chosen property of each category other than the interests.\<close>

definition props_ok :: "'a task_page_scheme \<Rightarrow> bool" where
  "props_ok t \<longleftrightarrow> rows_ok (pk_sub (p_assProp t)) \<and> length (pk_sub (p_assProp t)) \<le> tagLimit
     \<and> (\<forall>c. c \<noteq> Some cate_interest \<longrightarrow>
          length (filter (\<lambda>r. prop_cat t r = c) (pk_sub (p_assProp t))) \<le> 1)"

lemma info_of_flags:
  "(\<And>i c s. fst (f (i, c, s)) = i \<and> fst (snd (f (i, c, s))) = c) \<Longrightarrow>
   info_of (map f rows) i = info_of rows i"
proof (induction rows)
  case (Cons r rows)
  obtain i' c s where r: "r = (i', c, s)" by (cases r)
  obtain s' where "f (i', c, s) = (i', c, s')" using Cons.prems [of i' c s] by (cases "f (i', c, s)") auto
  with Cons r show ?case by (simp add: info_of_def)
qed (simp add: info_of_def)

lemma addPropSelect_fields [simp]:
  "p_assProp (addPropSelect t) = p_assProp t"
  "info_of (prop_rows (addPropSelect t)) i = info_of (prop_rows t) i"
proof -
  have a: "info_of (map (\<lambda>(i, c, s). (i, c, g i s)) rows) i = info_of rows i" for g rows
    by (rule info_of_flags) simp
  show "p_assProp (addPropSelect t) = p_assProp t"
    "info_of (prop_rows (addPropSelect t)) i = info_of (prop_rows t) i"
    using a [of "\<lambda>i s. False"] a [of "\<lambda>i s. s \<or> i \<in> set (split_chr 44 (pk_value (p_assProp t)))"]
    by (simp_all add: addPropSelect_def Let_def del: map_map)
qed

lemma prop_cat_addPropSelect [simp]: "prop_cat (addPropSelect t) r = prop_cat t r"
  by (simp add: prop_cat_def)

lemma prop_cat_assProp [simp]: "prop_cat (t\<lparr>p_assProp := p\<rparr>) r = prop_cat t r"
  by (simp add: prop_cat_def)

lemma filter_splice_scan_le: "length (filter Q (splice_scan P xs)) \<le> length (filter Q xs)"
  by (metis splice_scan_eq subseq_skip_filter subseq_filter list_emb_length)

lemma props_ok_removed:
  assumes "layout_only posfix" and "props_ok t"
  shows "props_ok (removeProp sh posfix item t)"
proof -
  let ?arr = "pk_sub (p_assProp t)"
  have "length (removeArrItem item ?arr) \<le> length ?arr"
    "length (filter Q (removeArrItem item ?arr)) \<le> length (filter Q ?arr)" for Q
    by (simp_all add: removeArrItem_def length_splice_scan filter_splice_scan_le)
  with assms(2) show ?thesis
    by (auto simp: props_ok_def removeProp_def Let_def addItemInput_fields [OF assms(1)]
        rows_ok_removeArrItem intro: le_trans)
qed

lemma filterArr_length_le: "length (filterArr arr r) \<le> Suc (length arr)"
proof -
  have "length (drop_first P xs) \<le> length xs" for P and xs :: "row list"
    by (induction xs) auto
  then show ?thesis by (simp add: filterArr_eq)
qed

text \<open>The properties offered, and the one picked is among them.\<close>

definition prop_anchor :: "'a task_page_scheme \<Rightarrow> anchor \<Rightarrow> bool" where
  "prop_anchor t a \<longleftrightarrow> (\<exists>i. an_id a = Some i \<and> canonical (JStr i) \<and> info_of (prop_rows t) i = an_info a)"

lemma props_ok_added:
  assumes lay: "layout_only posfix" and ok: "props_ok t" and a: "prop_anchor t a"
    and len: "\<not> length (pk_sub (p_assProp t)) \<ge> tagLimit"
    and rows: "rows_ok rows" "subseq rows (pk_sub (p_assProp t))"
    and own: "an_info a \<noteq> Some cate_interest \<Longrightarrow> \<forall>r \<in> set rows. prop_cat t r \<noteq> an_info a"
    and new: "new = JStr (the (an_id a)) # rest"
  shows "props_ok (addPropSelect (t\<lparr>p_assProp := addItemInput sh posfix (filterArr rows new)
    ((p_assProp t)\<lparr>pk_sub := filterArr rows new\<rparr>)\<rparr>))"
proof -
  from a obtain i where i: "an_id a = Some i" "canonical (JStr i)" "info_of (prop_rows t) i = an_info a"
    by (auto simp: prop_anchor_def)
  have g: "row_good new" using i new by (simp add: row_good_def)
  have cat: "prop_cat t new = an_info a" using i new by (simp add: prop_cat_def row_id_def to_str_def)
  have "length (filterArr rows new) \<le> tagLimit"
    using filterArr_length_le [of rows new] list_emb_length [OF rows(2)] len by simp
  moreover have "length (filter (\<lambda>r. prop_cat t r = c) (filterArr rows new)) \<le> 1"
    if c: "c \<noteq> Some cate_interest" for c
  proof -
    have "length (filter (\<lambda>r. prop_cat t r = c) (filter (\<lambda>r. row_id r \<noteq> row_id new) rows))
        \<le> length (filter (\<lambda>r. prop_cat t r = c) rows)"
      by (rule list_emb_length [OF subseq_filter [OF subseq_filter_left]])
    also have "\<dots> \<le> length (filter (\<lambda>r. prop_cat t r = c) (pk_sub (p_assProp t)))"
      by (rule list_emb_length [OF subseq_filter [OF rows(2)]])
    finally have "length (filter (\<lambda>r. prop_cat t r = c) (filter (\<lambda>r. row_id r \<noteq> row_id new) rows)) \<le> 1"
      using ok c by (auto simp: props_ok_def intro: le_trans)
    moreover have "filter (\<lambda>r. prop_cat t r = c) (filter (\<lambda>r. row_id r \<noteq> row_id new) rows) = []"
      if "c = an_info a" using own that c by (auto simp: filter_empty_conv)
    ultimately show ?thesis using cat by (auto simp: filterArr_filter [OF rows(1) g])
  qed
  ultimately show ?thesis
    using rows_ok_filterArr [OF rows(1) g] by (simp add: props_ok_def addItemInput_fields [OF lay])
qed

lemma props_ok_pick:
  assumes lay: "layout_only posfix" and ok: "props_ok t" and a: "prop_anchor t a"
  shows "props_ok (addAssProp b sh posfix a t)"
proof -
  let ?arr = "pk_sub (p_assProp t)"
  let ?P = "\<lambda>r. info_of (prop_rows t) (to_str (cell r 0)) = an_info a"
  have r: "rows_ok ?arr" using ok by (simp add: props_ok_def)
  have own: "\<forall>r \<in> set (splice_scan ?P ?arr). prop_cat t r \<noteq> an_info a"
    if "an_info a \<noteq> Some cate_interest"
  proof -
    have "length (filter ?P ?arr) \<le> 1"
      using ok that by (simp add: props_ok_def prop_cat_def row_id_def)
    then show ?thesis
      by (simp add: splice_scan_filter no_adjacent_single prop_cat_def row_id_def)
  qed
  have sub: "subseq (splice_scan ?P ?arr) ?arr" by (simp add: splice_scan_eq subseq_skip_filter)
  from a obtain i where i: "an_id a = Some i" by (auto simp: prop_anchor_def)
  consider (off) "an_selected a" | (full) "\<not> an_selected a" "length ?arr \<ge> tagLimit"
    | (interest) "\<not> an_selected a" "\<not> length ?arr \<ge> tagLimit" "an_info a = Some cate_interest"
    | (other) "\<not> an_selected a" "\<not> length ?arr \<ge> tagLimit" "an_info a \<noteq> Some cate_interest"
    by blast
  then show ?thesis
  proof cases
    case off
    then show ?thesis using props_ok_removed [OF lay ok, of sh "an_text a"]
      by (simp add: addAssProp_def removeProp_def Let_def)
  next
    case full
    have "props_ok (error_message b m 1 0 0 [] t) = props_ok t" for m
      by (simp add: props_ok_def prop_cat_def)
    with full ok show ?thesis by (simp add: addAssProp_def Let_def)
  next
    case interest
    then show ?thesis
      using props_ok_added [OF lay ok a _ r] i by (simp add: addAssProp_def Let_def)
  next
    case other
    then show ?thesis
      using props_ok_added [OF lay ok a _ rows_ok_splice_scan [OF r] sub own] i
      by (simp add: addAssProp_def Let_def)
  qed
qed

definition is_all_row :: "row \<Rightarrow> bool" where
  "is_all_row r \<longleftrightarrow> js_eq (cell r 0) (JInt (-1))"

definition robots_ok :: "picker \<Rightarrow> bool" where
  "robots_ok p \<longleftrightarrow> (\<forall>r \<in> set (pk_sub p). is_all_row r \<longrightarrow> pk_sub p = [r])"

lemma splice_all_rows:
  assumes "robots_ok p"
  shows "\<forall>r \<in> set (splice_scan is_all_row (pk_sub p)). \<not> is_all_row r"
proof (cases "\<exists>r \<in> set (pk_sub p). is_all_row r")
  case True
  then obtain r where "is_all_row r" "pk_sub p = [r]" using assms by (auto simp: robots_ok_def)
  then show ?thesis by (simp add: splice_scan_eq)
qed (auto simp: splice_scan_none)

lemma set_drop_first: "set (drop_first P xs) \<subseteq> set xs"
  by (induction xs) auto

lemma set_filterArr: "set (filterArr arr r) \<subseteq> insert r (set arr)"
  using set_drop_first by (fastforce simp: filterArr_eq)

lemma pickExclusion_sub:
  assumes "layout_only posfix"
  shows "pk_sub (p_robot (pickExclusion b sh posfix limit a t)) =
    (if (case limit of Some n \<Rightarrow> length (pk_sub (p_robot t)) \<ge> n | None \<Rightarrow> False) then pk_sub (p_robot t)
     else filterArr (if js_eq (an_data a) (JInt (-1)) then [] else splice_scan is_all_row (pk_sub (p_robot t)))
            [an_data a, JStr (an_text a)])"
  using assms
  by (simp add: pickExclusion_def Let_def addItemInput_fields is_all_row_def [abs_def])

lemma robots_ok_pick:
  assumes "layout_only posfix" and "robots_ok (p_robot t)"
  shows "robots_ok (p_robot (pickExclusion b sh posfix limit a t))"
proof -
  let ?new = "[an_data a, JStr (an_text a)]" and ?arr = "splice_scan is_all_row (pk_sub (p_robot t))"
  have "is_all_row ?new \<longleftrightarrow> js_eq (an_data a) (JInt (-1))" by (simp add: is_all_row_def)
  moreover have "filterArr [] ?new = [?new]" by (simp add: filterArr_eq)
  moreover have "\<forall>r \<in> set (filterArr ?arr ?new). \<not> is_all_row r" if "\<not> is_all_row ?new"
    using that set_filterArr [of ?arr ?new] splice_all_rows [OF assms(2)] by blast
  ultimately show ?thesis
    using assms(2) by (auto simp: robots_ok_def pickExclusion_sub [OF assms(1)])
qed

subsection \<open>Lemmas: the checks of the form\<close>

interpretation sum_form: form_check "sum_check b" sum_rules b for b
  by unfold_locales (simp add: sum_check_def guarded_def)

interpretation draft_form: form_check "drafted_check b" drafted_rules b for b
  by unfold_locales (simp add: drafted_check_def guarded_def)

lemma openCover_more [simp]:
  "ui.more (openCover b u) = ui.more u" "loading_bgs (openCover b u) = loading_bgs u"
  "err_boxes (openCover b u) = err_boxes u"
  by (simp_all add: openCover_def show_el_def Let_def)

lemma popTips_more [simp]:
  "ui.more (popTips b k m u) = ui.more u" "loading_bgs (popTips b k m u) = loading_bgs u"
  "err_boxes (popTips b k m u) = err_boxes u"
  by (simp_all add: popTips_def openPop_box_def place_box_def set_html_def show_el_def Let_def)

lemma getAjaxSum_refused:
  assumes "ui_ok t" and "find failed (sum_rules t) = Some r"
  shows "sent (getAjaxSum b t) = sent t" "loading_bgs (getAjaxSum b t) = 0"
    "err_boxes (getAjaxSum b t) = [message_box b (rule_msg r) 1 0]"
proof -
  obtain v where v: "sum_check b t = Inl v"
    using assms(2) by (simp add: sum_check_def check_rules_eq)
  then have g: "getAjaxSum b t = v" by (simp add: getAjaxSum_def)
  show "sent (getAjaxSum b t) = sent t"
    unfolding g using sum_form.keeps_fields [of b t v] v by (intro task_fields_more) blast
  show "loading_bgs (getAjaxSum b t) = 0" using sum_form.no_mask_left [OF v] by (simp add: g)
  show "err_boxes (getAjaxSum b t) = [message_box b (rule_msg r) 1 0]"
    using sum_form.first_message [OF assms(1) v] assms(2) by (auto simp: g)
qed

lemma getAjaxSum_sent:
  assumes "\<forall>r \<in> set (sum_rules t). \<not> failed r"
  shows "sent (getAjaxSum b t) = sent t @ [(pk_value (p_include t), pk_value (p_exclude t))]"
    "loading_bgs (getAjaxSum b t) = Suc (loading_bgs t)" "remind_off (getAjaxSum b t)"
proof -
  obtain v where v: "sum_check b t = Inr v" using assms sum_form.passes [of b t] by blast
  have m: "ui.more (popTips b (js ''#remindCustom'') msg_counting v) = ui.more t"
    using sum_form.keeps_fields [of b t v] v by simp
  show "sent (getAjaxSum b t) = sent t @ [(pk_value (p_include t), pk_value (p_exclude t))]"
    using task_fields_more [OF m] by (simp add: getAjaxSum_def v Let_def)
  show "loading_bgs (getAjaxSum b t) = Suc (loading_bgs t)"
    using sum_form.mask_while_sending [OF v] by (simp add: getAjaxSum_def v Let_def)
  show "remind_off (getAjaxSum b t)" by (simp add: getAjaxSum_def v Let_def)
qed

lemma getAjaxSum_answered:
  "loading_bgs (getAjaxSum_success b d t) = 0" "\<not> remind_off (getAjaxSum_success b d t)"
  "loading_bgs (getAjaxSum_error b t) = 0" "\<not> remind_off (getAjaxSum_error b t)"
  by (simp_all add: getAjaxSum_success_def getAjaxSum_error_def Let_def
      task_fields_more(11) [OF loading_simps(20)])

subsection \<open>Lemmas: hours and days\<close>

lemma two_digits_val [simp]: "digits_val (two_digits i) = i"
proof -
  have "digits_val (48 # s) = digits_val s" for s by (simp add: digits_val_def)
  then show ?thesis by (simp add: two_digits_def js_def)
qed

lemma two_digits_inject [simp]: "two_digits i = two_digits j \<longleftrightarrow> i = j"
  by (metis two_digits_val)

lemma distinct_pairs:
  assumes "inj f" and "inj g" and "\<And>i j. f i \<noteq> g j" and "distinct xs"
  shows "distinct (concat (map (\<lambda>i. [f i, g i]) xs))"
  using assms(4)
proof (induction xs)
  case (Cons x xs)
  have "f x \<notin> set (concat (map (\<lambda>i. [f i, g i]) xs))" "g x \<notin> set (concat (map (\<lambda>i. [f i, g i]) xs))"
    using Cons.prems assms(1-3) by (auto simp: inj_eq) (metis assms(3))
  with Cons assms(3) show ?case by simp
qed simp

lemma hour_list_fst:
  "map fst hour_list = concat (map (\<lambda>i. [two_digits i @ js '':00'', two_digits i @ js '':30'']) [0..<24])"
  by (simp add: hour_list_def Let_def map_concat comp_def)

lemma hour_list_distinct: "distinct (map fst hour_list)"
  unfolding hour_list_fst by (rule distinct_pairs) (auto simp: inj_def js_def)

lemma hour_list_length: "length hour_list = 48"
  by (simp add: hour_list_def Let_def length_concat comp_def sum_list_triv)

lemma hour_list_same: "\<forall>(a, b) \<in> set hour_list. a = b"
  by (auto simp: hour_list_def Let_def)

lemma nat_to_str_not_last_day: "nat_to_str i \<noteq> js ''last_day''"
proof
  assume "nat_to_str i = js ''last_day''"
  then have "is_digit (hd (js ''last_day''))" using hd_nat_to_str(1) [of i] by simp
  then show False by (simp add: js_def is_digit_def)
qed

lemma day_list_facts: "length day_list = 32" "distinct (map fst day_list)"
  by (auto simp: day_list_def comp_def distinct_map inj_on_def nat_to_str_not_last_day [symmetric])

subsection \<open>Properties\<close>

definition picker_empty :: picker where
  "picker_empty = \<lparr>pk_text = [], pk_value = [], pk_sub = [], pk_height = Some 28, pk_disabled = False\<rparr>"

definition task0 :: task_page where
  "task0 = ui.extend page0 (task_page.fields (js ''t'') (js ''s'') [] [] [] [] [] [] [] [] False False False
     picker_empty picker_empty picker_empty picker_empty picker_empty picker_empty picker_empty
     (js ''now'') False False False False False False [(js ''1'', js ''city'', False)] [])"

lemma task0_fields [simp]:
  "p_include task0 = picker_empty" "p_camp task0 = picker_empty" "p_exclude task0 = picker_empty"
  "p_robot task0 = picker_empty" "p_assProp task0 = picker_empty" "send_code task0 = js ''now''"
  "schedule_off task0 = False" "plan_off task0 = False" "sent task0 = []"
  "prop_rows task0 = [(js ''1'', js ''city'', False)]" "f_taskName task0 = js ''t''"
  "p_template task0 = picker_empty"
  by (simp_all add: task0_def page0_def ui.defs task_page.defs)

lemma task0_ok [simp]: "ui_ok task0" "mode_ok task0" "layout_only (\<lambda>p. p)"
proof -
  show "ui_ok task0" by (simp add: task0_def page0_def ui.defs ui_ok_def)
  show "mode_ok task0" "layout_only (\<lambda>p. p)"
    by (simp_all add: mode_ok_def include_ok_def picker_sync_def picker_empty_def has_file_def
      has_camp_def indexOf_def layout_only_def)
qed

text \<open>C1: Whatever the user picks or deletes, in any order, a task that is sent at a set time never
  has a temporary file among its included tags, a periodic task has neither such a file nor a
  campaign, a temporary file is always the only included entry, and the buttons of the modes that
  the choice forbids are the disabled ones.\<close>

theorem task_modes_consistent:
  assumes "layout_only posfix" and "mode_ok t" and "rtranclp (mode_step b sh posfix) t t'"
  shows "mode_ok t'"
  using assms(3,2) by (induction rule: rtranclp_induct) (auto dest: mode_step_ok [OF _ assms(1)])

theorem task_modes_consistent_witness:
  "mode_ok (pickIncludes browser0 (\<lambda>s. 28) (\<lambda>p. p) (Some 10)
     \<lparr>an_id = None, an_data = JInt 7, an_text = js ''x'', an_info = None, an_type = None,
      an_selected = False\<rparr> task0)"
proof (rule task_modes_consistent [of "\<lambda>p. p" task0 browser0 "\<lambda>s. 28"])
  have "elem_str (JInt 7) = [55]" by (simp add: elem_str_def to_str_def int_to_str_def nat_to_str.simps)
  then have "\<not> id_is_file (JInt 7)" by (auto simp: id_is_file_def js_def sublist_Cons_right)
  then show "rtranclp (mode_step browser0 (\<lambda>s. 28) (\<lambda>p. p)) task0
     (pickIncludes browser0 (\<lambda>s. 28) (\<lambda>p. p) (Some 10)
     \<lparr>an_id = None, an_data = JInt 7, an_text = js ''x'', an_info = None, an_type = None,
      an_selected = False\<rparr> task0)"
    by (intro r_into_rtranclp mode_step.pick) (simp add: include_anchor_def)
qed simp_all

text \<open>Picking an associated property keeps the choice within its limit of ten and with at most
  one property of every category but the interests, of which there may be several; choosing a
  second property of such a category replaces the first.\<close>

lemma assProp_one_per_category:
  assumes "layout_only posfix" and "props_ok t" and "prop_anchor t a"
  shows "props_ok (addAssProp b sh posfix a t) \<and> props_ok (removeProp sh posfix item t)"
  using assms props_ok_pick props_ok_removed by blast

text \<open>The entry with id -1 (all senders) and any other network sender exclude each other: after
  every choice the entry -1 is either absent or the only one.\<close>

lemma pickExclusion_all_is_alone:
  assumes "layout_only posfix" and "robots_ok (p_robot t)"
  shows "robots_ok (p_robot (pickExclusion b sh posfix limit a t))"
  using assms by (rule robots_ok_pick)



text \<open>Whatever the server answers to the count, or if it does not answer at all, the loading mask
  is gone afterwards and the confirm button works again.\<close>

lemma getAjaxSum_always_unlocks:
  "loading_bgs (getAjaxSum_success b d t) = 0 \<and> \<not> remind_off (getAjaxSum_success b d t)
   \<and> loading_bgs (getAjaxSum_error b t) = 0 \<and> \<not> remind_off (getAjaxSum_error b t)"
  by (simp add: getAjaxSum_answered)

text \<open>The hours offered for a periodic task are the 48 half hours of a day, each once, and the
  days the 31 days of a month and the last day, each once.\<close>

lemma period_lists:
  "length hour_list = 48 \<and> distinct (map fst hour_list) \<and> (\<forall>i < 24. \<forall>m \<in> {js '':00'', js '':30''}.
     (two_digits i @ m, two_digits i @ m) \<in> set hour_list)
   \<and> length day_list = 32 \<and> distinct (map fst day_list)"
  using hour_list_length hour_list_distinct day_list_facts
  by (auto simp: hour_list_def Let_def)

end
