(* ===== verification/Regex.thy ===== *)
theory Regex
  imports JsString
begin

text \<open>
  Regular expressions as JavaScript runs them. \<open>match_at\<close> is the backtracking matcher:
  it gives the texts that remain after the pattern, in the order in which the engine tries
  them, so that the first one is the match the program sees. Its first argument is the length
  of the whole subject, by which \<open>^\<close> knows where it is. An iteration that consumes nothing
  ends a repetition, as the language definition demands; this is also why the matcher stops.
  Groups that are only numbered are left out: no modelled pattern reads them, apart from
  one group around a whole pattern.
\<close>

datatype re = Eps | Chr "nat \<Rightarrow> bool" | Seq re re | Alt re re | Star re | LazyStar re
  | NotAhead re | Bol | Eol

function match_at :: "nat \<Rightarrow> re \<Rightarrow> jstring \<Rightarrow> jstring list" where
  "match_at n Eps s = [s]"
| "match_at n (Chr P) s = (case s of [] \<Rightarrow> [] | c # r \<Rightarrow> if P c then [r] else [])"
| "match_at n (Seq a b) s =
     concat (map (\<lambda>r. if length r \<le> length s then match_at n b r else []) (match_at n a s))"
| "match_at n (Alt a b) s = match_at n a s @ match_at n b s"
| "match_at n (Star a) s =
     concat (map (\<lambda>r. if length r < length s then match_at n (Star a) r else []) (match_at n a s)) @ [s]"
| "match_at n (LazyStar a) s =
     s # concat (map (\<lambda>r. if length r < length s then match_at n (LazyStar a) r else [])
       (match_at n a s))"
| "match_at n (NotAhead a) s = (if match_at n a s = [] then [s] else [])"
| "match_at n Bol s = (if length s = n then [s] else [])"
| "match_at n Eol s = (if s = [] then [s] else [])"
  by pat_completeness auto
termination
  by (relation "measures [\<lambda>(n, e, s). length s, \<lambda>(n, e, s). size e]") auto

declare match_at.simps(3,5,6) [simp del]

text \<open>What a pattern can leave, as a relation.\<close>

lemma match_suffix: "r \<in> set (match_at n e s) \<Longrightarrow> suffix r s"
proof (induction n e s arbitrary: r rule: match_at.induct)
  case (2 n P s)
  then show ?case by (auto simp: suffix_def split: list.splits if_splits)
next
  case (3 n a b s)
  from "3.prems" obtain q where "q \<in> set (match_at n a s)" "length q \<le> length s" "r \<in> set (match_at n b q)"
    by (auto simp: match_at.simps(3) split: if_splits)
  with "3.IH" show ?case by (meson suffix_order.trans)
next
  case (5 n a s)
  from "5.prems" consider "r = s" | q where "q \<in> set (match_at n a s)" "length q < length s"
      "r \<in> set (match_at n (Star a) q)"
    by (auto simp: match_at.simps(5) [of n a s] split: if_splits)
  then show ?case by cases (use "5.IH" in \<open>auto intro: suffix_order.trans\<close>)
next
  case (6 n a s)
  from "6.prems" consider "r = s" | q where "q \<in> set (match_at n a s)" "length q < length s"
      "r \<in> set (match_at n (LazyStar a) q)"
    by (auto simp: match_at.simps(6) [of n a s] split: if_splits)
  then show ?case by cases (use "6.IH" in \<open>auto intro: suffix_order.trans\<close>)
qed (auto split: if_splits)

lemma match_length: "r \<in> set (match_at n e s) \<Longrightarrow> length r \<le> length s"
  by (blast dest: match_suffix suffix_length_le)

lemma match_Seq: "r \<in> set (match_at n (Seq a b) s) \<longleftrightarrow>
    (\<exists>q \<in> set (match_at n a s). r \<in> set (match_at n b q))"
  by (auto simp: match_at.simps(3) dest: match_length)

lemma match_Star: "r \<in> set (match_at n (Star a) s) \<longleftrightarrow>
    r = s \<or> (\<exists>q \<in> set (match_at n a s). length q < length s \<and> r \<in> set (match_at n (Star a) q))"
  by (auto simp: match_at.simps(5) [of n a s] split: if_splits)

subsection \<open>Patterns\<close>

definition lower :: "nat \<Rightarrow> nat" where
  "lower c = (if 65 \<le> c \<and> c \<le> 90 then c + 32 else c)"

text \<open>A literal, and a literal under the flag \<open>i\<close> (for letters outside ASCII the sources
  have no pattern).\<close>

fun lit :: "jstring \<Rightarrow> re" where
  "lit [] = Eps"
| "lit (c # s) = Seq (Chr (\<lambda>x. x = c)) (lit s)"

fun lit_i :: "jstring \<Rightarrow> re" where
  "lit_i [] = Eps"
| "lit_i (c # s) = Seq (Chr (\<lambda>x. lower x = lower c)) (lit_i s)"

definition dot :: re where
  "dot = Chr (\<lambda>c. c \<notin> {10, 13, 0x2028, 0x2029})"

definition digit :: re where
  "digit = Chr (\<lambda>c. 48 \<le> c \<and> c \<le> 57)"

definition opt :: "re \<Rightarrow> re" where
  "opt e = Alt e Eps"

fun times :: "nat \<Rightarrow> re \<Rightarrow> re" where
  "times 0 e = Eps"
| "times (Suc k) e = Seq e (times k e)"

definition plus :: "re \<Rightarrow> re" where
  "plus e = Seq e (Star e)"

fun upto_more :: "nat \<Rightarrow> re \<Rightarrow> re" where
  "upto_more 0 e = Eps"
| "upto_more (Suc k) e = Alt (Seq e (upto_more k e)) Eps"

definition eq_i :: "jstring \<Rightarrow> jstring \<Rightarrow> bool" where
  "eq_i s t \<longleftrightarrow> map lower s = map lower t"

lemma match_lit: "match_at n (lit p) s = (if prefix p s then [drop (length p) s] else [])"
proof (induction p arbitrary: s)
  case (Cons c p)
  then show ?case by (cases s) (auto simp: match_at.simps(3))
qed simp

lemma match_lit_i:
  "match_at n (lit_i p) s =
     (if length p \<le> length s \<and> eq_i p (take (length p) s) then [drop (length p) s] else [])"
proof (induction p arbitrary: s)
  case (Cons c p)
  then show ?case by (cases s) (auto simp: match_at.simps(3) eq_i_def)
qed (simp add: eq_i_def)

lemma match_Star_Chr: "r \<in> set (match_at n (Star (Chr P)) s) \<longleftrightarrow> (\<exists>p. s = p @ r \<and> (\<forall>c \<in> set p. P c))"
proof (induction s)
  case Nil
  then show ?case by (subst match_Star) auto
next
  case (Cons c s)
  have "r \<in> set (match_at n (Star (Chr P)) (c # s)) \<longleftrightarrow>
      r = c # s \<or> P c \<and> r \<in> set (match_at n (Star (Chr P)) s)"
    by (subst match_Star) auto
  also have "\<dots> \<longleftrightarrow> (\<exists>p. c # s = p @ r \<and> (\<forall>c \<in> set p. P c))"
    unfolding Cons by (auto simp: Cons_eq_append_conv)
  finally show ?case .
qed

subsection \<open>Searching and replacing\<close>

fun search_from :: "nat \<Rightarrow> re \<Rightarrow> jstring \<Rightarrow> bool" where
  "search_from n e [] \<longleftrightarrow> match_at n e [] \<noteq> []"
| "search_from n e (c # s) \<longleftrightarrow> match_at n e (c # s) \<noteq> [] \<or> search_from n e s"

text \<open>\<open>/e/.test(s)\<close>.\<close>

definition re_test :: "re \<Rightarrow> jstring \<Rightarrow> bool" where
  "re_test e s \<longleftrightarrow> search_from (length s) e s"

lemma search_from_iff: "search_from n e s \<longleftrightarrow> (\<exists>t. suffix t s \<and> match_at n e t \<noteq> [])"
proof (induction s)
  case (Cons c s)
  then show ?case by (auto simp: suffix_Cons)
qed simp

lemma re_test_iff: "re_test e s \<longleftrightarrow> (\<exists>a t. s = a @ t \<and> match_at (length s) e t \<noteq> [])"
  by (auto simp: re_test_def search_from_iff suffix_def)

text \<open>
  \<open>s.replace(/e/g, f)\<close>, where \<open>f\<close> gives the replacement from the text before the match, the
  match and the text after it. A match of the empty text is followed by the next character.
\<close>

function replace_g :: "nat \<Rightarrow> re \<Rightarrow> (jstring \<Rightarrow> jstring \<Rightarrow> jstring \<Rightarrow> jstring) \<Rightarrow> jstring \<Rightarrow> jstring \<Rightarrow> jstring"
where
  "replace_g n e f before s =
     (case match_at n e s of
        [] \<Rightarrow> (case s of [] \<Rightarrow> [] | c # r \<Rightarrow> c # replace_g n e f (before @ [c]) r)
      | q # _ \<Rightarrow>
          (let m = take (length s - length q) s
           in if length q < length s
              then f before m q @ replace_g n e f (before @ m) q
              else f before m q @
                     (case s of [] \<Rightarrow> [] | c # r \<Rightarrow> c # replace_g n e f (before @ [c]) r)))"
  by pat_completeness auto
termination
  by (relation "measure (\<lambda>(n, e, f, b, s). length s)") auto

declare replace_g.simps [simp del]

definition re_replace :: "re \<Rightarrow> (jstring \<Rightarrow> jstring \<Rightarrow> jstring \<Rightarrow> jstring) \<Rightarrow> jstring \<Rightarrow> jstring" where
  "re_replace e f s = replace_g (length s) e f [] s"

lemma replace_g_none:
  assumes "\<And>t. suffix t s \<Longrightarrow> match_at n e t = []"
  shows "replace_g n e f b s = s"
  using assms
proof (induction s arbitrary: b)
  case (Cons c s)
  then have "match_at n e (c # s) = []" by simp
  moreover have "replace_g n e f (b @ [c]) s = s"
    using Cons.prems by (intro Cons.IH) (simp add: suffix_Cons)
  ultimately show ?case by (simp add: replace_g.simps [of n e f b "c # s"])
qed (simp add: replace_g.simps)

lemma replace_g_skip:
  assumes "\<And>t. suffix t p \<Longrightarrow> t \<noteq> [] \<Longrightarrow> match_at n e (t @ s) = []"
  shows "replace_g n e f b (p @ s) = p @ replace_g n e f (b @ p) s"
  using assms
proof (induction p arbitrary: b)
  case (Cons c p)
  then have "match_at n e (c # p @ s) = []" using Cons.prems [of "c # p"] by simp
  moreover have "replace_g n e f (b @ [c]) (p @ s) = p @ replace_g n e f (b @ [c] @ p) s"
    using Cons.IH [of "b @ [c]"] Cons.prems by (simp add: suffix_Cons)
  ultimately show ?case by (simp add: replace_g.simps [of n e f b "c # p @ s"])
qed simp

lemma replace_g_match:
  assumes "match_at n e (m @ q) = q # rest" and "m \<noteq> []"
  shows "replace_g n e f b (m @ q) = f b m q @ replace_g n e f (b @ m) q"
  by (subst replace_g.simps) (simp add: assms Let_def)

text \<open>The replacement text of a pattern that is one group: \<open>$1\<close> is the match.\<close>

fun expand_group :: "jstring \<Rightarrow> jstring \<Rightarrow> jstring \<Rightarrow> jstring \<Rightarrow> jstring" where
  "expand_group b m a [] = []"
| "expand_group b m a [x] = [x]"
| "expand_group b m a (x # y # r) =
     (if x \<noteq> 36 then x # expand_group b m a (y # r)
      else if y = 36 then 36 # expand_group b m a r
      else if y = 38 \<or> y = 49 then m @ expand_group b m a r
      else if y = 96 then b @ expand_group b m a r
      else if y = 39 then a @ expand_group b m a r
      else if y = 48 \<and> r \<noteq> [] \<and> hd r = 49 then m @ expand_group b m a (tl r)
      else x # expand_group b m a (y # r))"

lemma expand_group_plain: "36 \<notin> set r \<Longrightarrow> expand_group b m a r = r"
  by (induction b m a r rule: expand_group.induct) auto

lemma expand_group_first: "36 \<notin> set r \<Longrightarrow> expand_group b m a (36 # 49 # r) = m @ r"
  by (simp add: expand_group_plain)

lemma expand_group_last: "36 \<notin> set r \<Longrightarrow> expand_group b m a (r @ [36, 49]) = r @ m"
proof (induction r)
  case (Cons x r)
  then show ?case by (cases r) auto
qed simp

subsection \<open>The language of a pattern\<close>

text \<open>
  A pattern without anchors denotes a set of texts when what it leaves is what follows one of
  them, whatever the order in which the engine tries.
\<close>

definition denotes :: "re \<Rightarrow> (jstring \<Rightarrow> bool) \<Rightarrow> bool" where
  "denotes e L \<longleftrightarrow> (\<forall>n s r. r \<in> set (match_at n e s) \<longleftrightarrow> (\<exists>p. s = p @ r \<and> L p))"

definition lang_seq :: "(jstring \<Rightarrow> bool) \<Rightarrow> (jstring \<Rightarrow> bool) \<Rightarrow> jstring \<Rightarrow> bool" where
  "lang_seq L M p \<longleftrightarrow> (\<exists>a b. p = a @ b \<and> L a \<and> M b)"

definition lang_star :: "(jstring \<Rightarrow> bool) \<Rightarrow> jstring \<Rightarrow> bool" where
  "lang_star L p \<longleftrightarrow> (\<exists>ps. p = concat ps \<and> list_all L ps)"

lemma denotes_Eps [intro]: "denotes Eps (\<lambda>p. p = [])"
  by (auto simp: denotes_def)

lemma denotes_Chr [intro]: "denotes (Chr P) (\<lambda>p. \<exists>c. p = [c] \<and> P c)"
  by (auto simp: denotes_def split: list.split)

lemma denotes_Seq [intro]: "denotes a L \<Longrightarrow> denotes b M \<Longrightarrow> denotes (Seq a b) (lang_seq L M)"
  unfolding denotes_def lang_seq_def match_Seq by (metis append.assoc)

lemma denotes_Alt [intro]: "denotes a L \<Longrightarrow> denotes b M \<Longrightarrow> denotes (Alt a b) (\<lambda>p. L p \<or> M p)"
  unfolding denotes_def by auto

lemma lang_star_Nil: "lang_star L []"
  unfolding lang_star_def by (intro exI [of _ "[]"]) simp

lemma lang_star_Cons: "L p \<Longrightarrow> lang_star L q \<Longrightarrow> lang_star L (p @ q)"
proof -
  assume "L p" and "lang_star L q"
  then obtain ps where "q = concat ps" "list_all L ps" by (auto simp: lang_star_def)
  with \<open>L p\<close> show ?thesis unfolding lang_star_def by (intro exI [of _ "p # ps"]) simp
qed

lemma denotes_Star_sound:
  assumes "denotes a L"
  shows "r \<in> set (match_at n (Star a) s) \<Longrightarrow> \<exists>p. s = p @ r \<and> lang_star L p"
proof (induction "length s" arbitrary: s rule: less_induct)
  case less
  from less.prems consider "r = s" | q where "q \<in> set (match_at n a s)" "length q < length s"
      "r \<in> set (match_at n (Star a) q)" by (subst (asm) match_Star) auto
  then show ?case
  proof cases
    case 1
    then show ?thesis using lang_star_Nil by auto
  next
    case 2
    obtain p where "s = p @ q" "L p" using assms 2(1) unfolding denotes_def by blast
    moreover obtain p' where "q = p' @ r" "lang_star L p'" using less.hyps [OF 2(2,3)] by blast
    ultimately show ?thesis using lang_star_Cons by (metis append.assoc)
  qed
qed

lemma denotes_Star_complete:
  assumes "denotes a L"
  shows "list_all L ps \<Longrightarrow> r \<in> set (match_at n (Star a) (concat ps @ r))"
proof (induction ps)
  case Nil
  then show ?case by (subst match_Star) simp
next
  case (Cons p ps)
  then have r: "r \<in> set (match_at n (Star a) (concat ps @ r))" and "L p" by simp_all
  have "concat ps @ r \<in> set (match_at n a (p @ concat ps @ r))"
    using assms \<open>L p\<close> unfolding denotes_def by blast
  then have "r \<in> set (match_at n (Star a) (p @ concat ps @ r))" if "p \<noteq> []"
    using r that by (subst match_Star) (intro disjI2 bexI [of _ "concat ps @ r"], simp_all)
  with r show ?case by (cases "p = []") simp_all
qed

lemma denotes_Star [intro]: "denotes a L \<Longrightarrow> denotes (Star a) (lang_star L)"
  unfolding denotes_def [of "Star a"]
  by (metis denotes_Star_sound denotes_Star_complete lang_star_def)

lemma denotes_cong: "denotes e L \<Longrightarrow> (\<And>p. L p = M p) \<Longrightarrow> denotes e M"
  by (simp add: denotes_def)

text \<open>A pattern between \<open>^\<close> and \<open>$\<close> tests whether the whole text is in its language.\<close>

definition whole :: "re \<Rightarrow> re" where
  "whole e = Seq Bol (Seq e Eol)"

lemma re_test_whole:
  assumes "denotes e L"
  shows "re_test (whole e) s \<longleftrightarrow> L s"
proof -
  have "match_at (length s) (whole e) t \<noteq> [] \<longleftrightarrow> t = s \<and> L s" if "s = a @ t" for a t
  proof -
    have "match_at (length s) (whole e) t \<noteq> [] \<longleftrightarrow> (\<exists>r. r \<in> set (match_at (length s) (whole e) t))"
      by (cases "match_at (length s) (whole e) t") auto
    also have "\<dots> \<longleftrightarrow> length t = length s \<and> [] \<in> set (match_at (length s) e t)"
      by (auto simp: whole_def match_Seq)
    also have "\<dots> \<longleftrightarrow> t = s \<and> L s" using assms that by (auto simp: denotes_def)
    finally show ?thesis .
  qed
  then show ?thesis unfolding re_test_iff by (metis append_Nil)
qed

lemma lang_seq_chr: "lang_seq (\<lambda>p. \<exists>c. p = [c] \<and> P c) M p \<longleftrightarrow> (\<exists>c w. p = c # w \<and> P c \<and> M w)"
  unfolding lang_seq_def by (metis append_Cons append_Nil)

lemma lang_star_chr: "lang_star (\<lambda>p. \<exists>c. p = [c] \<and> P c) p \<longleftrightarrow> list_all P p"
proof
  show "lang_star (\<lambda>p. \<exists>c. p = [c] \<and> P c) p \<Longrightarrow> list_all P p"
    by (fastforce simp: lang_star_def list_all_iff)
next
  assume "list_all P p"
  then show "lang_star (\<lambda>p. \<exists>c. p = [c] \<and> P c) p"
    unfolding lang_star_def by (intro exI [of _ "map (\<lambda>c. [c]) p"]) (auto simp: list_all_iff)
qed

lemma denotes_plus_Chr: "denotes (plus (Chr P)) (\<lambda>p. p \<noteq> [] \<and> list_all P p)"
proof (rule denotes_cong)
  show "denotes (plus (Chr P)) (lang_seq (\<lambda>p. \<exists>c. p = [c] \<and> P c) (lang_star (\<lambda>p. \<exists>c. p = [c] \<and> P c)))"
    unfolding plus_def by blast
  show "lang_seq (\<lambda>p. \<exists>c. p = [c] \<and> P c) (lang_star (\<lambda>p. \<exists>c. p = [c] \<and> P c)) p \<longleftrightarrow> p \<noteq> [] \<and> list_all P p" for p
    unfolding lang_seq_chr lang_star_chr by (cases p) auto
qed

text \<open>A lazy repetition tries the shorter texts first, but leaves the same.\<close>

lemma match_LazyStar: "set (match_at n (LazyStar a) s) = set (match_at n (Star a) s)"
proof (induction "length s" arbitrary: s rule: less_induct)
  case less
  then show ?case by (auto simp: match_at.simps(5) [of n a s] match_at.simps(6) [of n a s] split: if_splits)
qed

lemma denotes_LazyStar [intro]: "denotes a L \<Longrightarrow> denotes (LazyStar a) (lang_star L)"
  using denotes_Star by (simp add: denotes_def match_LazyStar)

lemma denotes_lit_i: "denotes (lit_i w) (\<lambda>p. length p = length w \<and> eq_i w p)"
  unfolding denotes_def match_lit_i by (auto intro!: exI [of _ "take (length w) _"])

text \<open>A pattern finds what is anywhere in the text.\<close>

lemma re_test_inside:
  assumes "denotes e L" and "L p"
  shows "re_test e (a @ p @ r)"
proof -
  have "r \<in> set (match_at (length (a @ p @ r)) e (p @ r))" using assms unfolding denotes_def by blast
  then have "match_at (length (a @ p @ r)) e (p @ r) \<noteq> []" by auto
  then show ?thesis unfolding re_test_iff by blast
qed

end
