(* ===== verification/Markup.thy ===== *)
theory Markup
  imports Regex JsValue
begin

text \<open>
  The page header and footer of a template in text mode:
  \<open>addHeader\<close>, \<open>delHeader\<close>, \<open>addFooter\<close>, \<open>delFooter\<close> and their variants for the phone
  page in \<open>static/js/mailing.template.common.js\<close>. Adding inserts a marked block after the
  opening or before the closing body tag, deleting removes every marked block with a regular
  expression; the main lemmas show that the second undoes the first.
\<close>

definition close_div :: jstring where
  "close_div = js ''</div>''"

definition re_body :: re where
  "re_body = Seq (lit_i (js ''<body'')) (Seq (Star (Chr (\<lambda>c. c \<noteq> 62))) (lit [62]))"

definition re_body_end :: re where
  "re_body_end = Seq (lit_i (js ''</body'')) (Seq (Star (Chr (\<lambda>c. c \<noteq> 62))) (lit [62]))"

definition not_close :: re where
  "not_close = Seq (NotAhead (lit_i close_div)) dot"

definition re_block :: "jstring \<Rightarrow> re" where
  "re_block name =
     Seq (lit_i (js ''<div'')) (Seq (Star not_close) (Seq (lit_i name)
       (Seq (Star (Seq (Star not_close) (Star (lit [10])))) (lit_i close_div))))"

definition add_header :: "jstring \<Rightarrow> jstring \<Rightarrow> jstring" where
  "add_header header prop =
     (if re_test re_body prop
      then re_replace re_body (\<lambda>b m a. expand_group b m a (js ''$1'' @ header)) prop
      else header @ prop)"

definition add_footer :: "jstring \<Rightarrow> jstring \<Rightarrow> jstring" where
  "add_footer footer prop =
     (if re_test re_body_end prop
      then re_replace re_body_end (\<lambda>b m a. expand_group b m a (footer @ js ''$1'')) prop
      else prop @ footer)"

definition del_block :: "jstring \<Rightarrow> jstring \<Rightarrow> jstring" where
  "del_block name prop = re_replace (re_block name) (\<lambda>b m a. []) prop"

definition block_style :: jstring where
  "block_style = js '' style=\"font:12px/1.5 Consolas, Monaco, Bitstream Vera Sans Mono, Courier New, Courier, monospace;text-align:center;\">''"

definition header_html :: "jstring \<Rightarrow> jstring \<Rightarrow> jstring" where
  "header_html name appUrl =
     js ''<div id=\"'' @ name @ js ''\"'' @ block_style
     @ [0x5982, 0x679C, 0x60A8, 0x60F3, 0x5206, 0x4EAB, 0x6B64, 0x90AE, 0x4EF6, 0xFF0C, 0x8BF7, 0x70B9, 0x51FB, 0x26, 0x6E, 0x62, 0x73, 0x70, 0x3B, 0x3C, 0x61, 0x20, 0x68, 0x72, 0x65, 0x66, 0x3D, 0x22] @ appUrl @ [0x2F, 0x66, 0x6F, 0x72, 0x77, 0x61, 0x72, 0x64, 0x22, 0x20, 0x74, 0x61, 0x72, 0x67, 0x65, 0x74, 0x3D, 0x22, 0x5F, 0x62, 0x6C, 0x61, 0x6E, 0x6B, 0x22, 0x3E, 0x8F6C, 0x53D1, 0x7ED9, 0x597D, 0x53CB, 0x3C, 0x2F, 0x61, 0x3E]
     @ js ''<br />''
     @ [0x5982, 0x679C, 0x60A8, 0x4E0D, 0x60F3, 0x518D, 0x63A5, 0x6536, 0x6B64, 0x7C7B, 0x90AE, 0x4EF6, 0xFF0C, 0x8BF7, 0x70B9, 0x51FB, 0x26, 0x6E, 0x62, 0x73, 0x70, 0x3B, 0x3C, 0x61, 0x20, 0x68, 0x72, 0x65, 0x66, 0x3D, 0x22] @ appUrl @ [0x2F, 0x75, 0x6E, 0x73, 0x75, 0x62, 0x73, 0x63, 0x72, 0x69, 0x62, 0x65, 0x22, 0x20, 0x74, 0x61, 0x72, 0x67, 0x65, 0x74, 0x3D, 0x22, 0x5F, 0x62, 0x6C, 0x61, 0x6E, 0x6B, 0x22, 0x3E, 0x9000, 0x8BA2, 0x3C, 0x2F, 0x61, 0x3E]
     @ js ''</div>''"

definition footer_html :: "jstring \<Rightarrow> jstring \<Rightarrow> jstring" where
  "footer_html name appUrl =
     js ''<div id=\"'' @ name @ js ''\"'' @ block_style
     @ [0x5982, 0x679C, 0x60A8, 0x89C9, 0x5F97, 0x6B64, 0x5C01, 0x90AE, 0x4EF6, 0x7ED9, 0x60A8, 0x5E26, 0x6765, 0x4E86, 0x4E0D, 0x4FBF, 0xFF0C, 0x60A8, 0x8FD8, 0x53EF, 0x4EE5, 0x20, 0x3C, 0x61, 0x20, 0x68, 0x72, 0x65, 0x66, 0x3D, 0x22] @ appUrl @ [0x2F, 0x63, 0x6F, 0x6D, 0x70, 0x6C, 0x61, 0x69, 0x6E, 0x22, 0x20, 0x74, 0x61, 0x72, 0x67, 0x65, 0x74, 0x3D, 0x22, 0x5F, 0x62, 0x6C, 0x61, 0x6E, 0x6B, 0x22, 0x3E, 0x6295, 0x8BC9, 0x3C, 0x2F, 0x61, 0x3E]
     @ js ''</div>''"

subsection \<open>Patterns without anchor\<close>

fun no_anchor :: "re \<Rightarrow> bool" where
  "no_anchor (Seq a b) \<longleftrightarrow> no_anchor a \<and> no_anchor b"
| "no_anchor (Alt a b) \<longleftrightarrow> no_anchor a \<and> no_anchor b"
| "no_anchor (Star a) \<longleftrightarrow> no_anchor a"
| "no_anchor (LazyStar a) \<longleftrightarrow> no_anchor a"
| "no_anchor (NotAhead a) \<longleftrightarrow> no_anchor a"
| "no_anchor Bol \<longleftrightarrow> False"
| "no_anchor _ \<longleftrightarrow> True"

lemma match_no_anchor: "no_anchor e \<Longrightarrow> match_at n e s = match_at 0 e s"
proof (induction n e s rule: match_at.induct)
  case (3 n a b s)
  then have "match_at n a s = match_at 0 a s" by simp
  moreover have "map (\<lambda>r. if length r \<le> length s then match_at n b r else []) (match_at 0 a s)
      = map (\<lambda>r. if length r \<le> length s then match_at 0 b r else []) (match_at 0 a s)"
    using 3 by (intro map_cong) auto
  ultimately show ?case by (simp only: match_at.simps(3))
next
  case (5 n a s)
  have "map (\<lambda>r. if length r < length s then match_at n (Star a) r else []) (match_at 0 a s)
      = map (\<lambda>r. if length r < length s then match_at 0 (Star a) r else []) (match_at 0 a s)"
    using 5 by (intro map_cong) auto
  moreover have "match_at n a s = match_at 0 a s" using 5 by simp
  ultimately show ?case by (simp only: match_at.simps(5) [of _ a s])
next
  case (6 n a s)
  have "map (\<lambda>r. if length r < length s then match_at n (LazyStar a) r else []) (match_at 0 a s)
      = map (\<lambda>r. if length r < length s then match_at 0 (LazyStar a) r else []) (match_at 0 a s)"
    using 6 by (intro map_cong) auto
  moreover have "match_at n a s = match_at 0 a s" using 6 by simp
  ultimately show ?case by (simp only: match_at.simps(6) [of _ a s])
qed simp_all

lemma no_anchor_lit [simp]: "no_anchor (lit s)" "no_anchor (lit_i s)"
  by (induction s) auto

lemma no_anchor_patterns [simp]:
  "no_anchor re_body" "no_anchor re_body_end" "no_anchor (re_block name)" "no_anchor not_close"
  by (simp_all add: re_body_def re_body_end_def re_block_def not_close_def dot_def)

subsection \<open>What the block pattern consumes\<close>

definition starts_i :: "jstring \<Rightarrow> jstring \<Rightarrow> bool" where
  "starts_i p s \<longleftrightarrow> length p \<le> length s \<and> eq_i p (take (length p) s)"

definition line_end :: "nat \<Rightarrow> bool" where
  "line_end c \<longleftrightarrow> c \<in> {10, 13, 0x2028, 0x2029}"

text \<open>No closing tag starts inside \<open>p\<close> when \<open>q\<close> follows it.\<close>

fun open_text :: "jstring \<Rightarrow> jstring \<Rightarrow> bool" where
  "open_text [] q \<longleftrightarrow> True"
| "open_text (c # p) q \<longleftrightarrow> \<not> starts_i close_div (c # p @ q) \<and> open_text p q"

lemma open_text_append: "open_text (p @ p') q \<longleftrightarrow> open_text p (p' @ q) \<and> open_text p' q"
  by (induction p) auto

lemma match_not_close:
  "q \<in> set (match_at n not_close s) \<longleftrightarrow> (\<exists>c. s = c # q \<and> \<not> line_end c \<and> \<not> starts_i close_div s)"
  by (cases s)
    (auto simp: not_close_def match_Seq dot_def line_end_def match_lit_i starts_i_def)

lemma match_star_not_close:
  "q \<in> set (match_at n (Star not_close) s) \<longleftrightarrow>
     (\<exists>p. s = p @ q \<and> (\<forall>c \<in> set p. \<not> line_end c) \<and> open_text p q)"
proof (induction s)
  case Nil
  then show ?case by (subst match_Star) (auto simp: match_not_close)
next
  case (Cons c s)
  have "q \<in> set (match_at n (Star not_close) (c # s)) \<longleftrightarrow>
      q = c # s \<or> \<not> line_end c \<and> \<not> starts_i close_div (c # s) \<and> q \<in> set (match_at n (Star not_close) s)"
    by (subst match_Star) (auto simp: match_not_close)
  also have "\<dots> \<longleftrightarrow> (\<exists>p. c # s = p @ q \<and> (\<forall>c \<in> set p. \<not> line_end c) \<and> open_text p q)"
    unfolding Cons by (auto simp: Cons_eq_append_conv)
  finally show ?case .
qed

lemma newline_open: "\<forall>c \<in> set p. c = 10 \<Longrightarrow> open_text p q"
proof (induction p)
  case (Cons c p)
  then show ?case by (auto simp: starts_i_def close_div_def js_def eq_i_def lower_def)
qed simp

lemma match_star_newline:
  "q \<in> set (match_at n (Star (lit [10])) s) \<Longrightarrow> \<exists>p. s = p @ q \<and> (\<forall>c \<in> set p. c = 10)"
proof (induction s)
  case (Cons c s)
  from Cons.prems have "q = c # s \<or> c = 10 \<and> q \<in> set (match_at n (Star (lit [10])) s)"
    by (subst (asm) match_Star) (auto simp: match_lit simp del: lit.simps)
  then show ?case
  proof
    assume "c = 10 \<and> q \<in> set (match_at n (Star (lit [10])) s)"
    then obtain p where "s = p @ q" "\<forall>c \<in> set p. c = 10" "c = 10" using Cons.IH by blast
    then show ?thesis by (intro exI [of _ "c # p"]) simp
  qed (rule exI [of _ "[]"], simp)
qed (subst (asm) match_Star, auto simp: match_lit simp del: lit.simps)

lemma match_tail:
  "q \<in> set (match_at n (Star (Seq (Star not_close) (Star (lit [10])))) s) \<Longrightarrow>
   \<exists>p. s = p @ q \<and> open_text p q"
proof (induction "length s" arbitrary: s rule: less_induct)
  case less
  show ?case
  proof (cases "q = s")
    case False
    with less.prems obtain q1 q2 where q: "q1 \<in> set (match_at n (Star not_close) s)"
      "q2 \<in> set (match_at n (Star (lit [10])) q1)" "length q2 < length s"
      "q \<in> set (match_at n (Star (Seq (Star not_close) (Star (lit [10])))) q2)"
      by (subst (asm) match_Star) (auto simp: match_Seq)
    from q(1) obtain p1 where p1: "s = p1 @ q1" "open_text p1 q1" by (auto simp: match_star_not_close)
    from match_star_newline [OF q(2)] obtain p2 where p2: "q1 = p2 @ q2" "open_text p2 q2"
      using newline_open by blast
    from less.hyps [OF q(3,4)] obtain p3 where "q2 = p3 @ q" "open_text p3 q" by blast
    with p1 p2 have "s = (p1 @ p2 @ p3) @ q \<and> open_text (p1 @ p2 @ p3) q" by (simp add: open_text_append)
    then show ?thesis by blast
  qed (rule exI [of _ "[]"], simp)
qed

lemma match_tail_intro:
  assumes "\<forall>c \<in> set p. \<not> line_end c" and "open_text p q"
  shows "q \<in> set (match_at n (Star (Seq (Star not_close) (Star (lit [10])))) (p @ q))"
proof (cases "p = []")
  case False
  have "q \<in> set (match_at n (Star not_close) (p @ q))"
    using assms by (auto simp: match_star_not_close)
  moreover have self: "r \<in> set (match_at n (Star e) r)" for e r by (subst match_Star) simp
  ultimately have "q \<in> set (match_at n (Seq (Star not_close) (Star (lit [10]))) (p @ q))"
    unfolding match_Seq by blast
  moreover have "length q < length (p @ q)" using False by simp
  ultimately show ?thesis using self unfolding match_Star [of q n _ "p @ q"] by blast
qed (subst match_Star, simp)

subsection \<open>Matching one block\<close>

lemma starts_i_append: "starts_i p (a @ b) \<Longrightarrow> length p \<le> length a \<Longrightarrow> starts_i p a"
  by (simp add: starts_i_def)

lemma starts_i_longer: "starts_i p a \<Longrightarrow> starts_i p (a @ b)"
  by (simp add: starts_i_def)

lemma starts_i_nth: "starts_i p s \<Longrightarrow> i < length p \<Longrightarrow> lower (s ! i) = lower (p ! i)"
  unfolding starts_i_def eq_i_def
  by (metis length_map length_take min.absorb2 nth_map nth_take)

lemma close_div_at:
  assumes "open_text p q" and "k < length p"
  shows "\<not> starts_i close_div (drop k p @ q)"
  using assms
proof (induction p arbitrary: k)
  case (Cons c p)
  then show ?case by (cases k) auto
qed simp

text \<open>Every way to match a block, as a split of the text.\<close>

lemma match_block:
  "r \<in> set (match_at n (re_block name) s) \<Longrightarrow>
   \<exists>d p m t c. s = d @ p @ m @ t @ c @ r \<and> eq_i (js ''<div'') d \<and> (\<forall>x \<in> set p. \<not> line_end x)
     \<and> open_text p (m @ t @ c @ r) \<and> eq_i name m \<and> open_text t (c @ r) \<and> eq_i close_div c"
proof -
  have lit: "\<exists>d. s = d @ q \<and> eq_i p d" if "q \<in> set (match_at n (lit_i p) s)" for p q s
    using that by (intro exI [of _ "take (length p) s"]) (auto simp: match_lit_i split: if_splits)
  assume "r \<in> set (match_at n (re_block name) s)"
  then obtain q1 q2 q3 q4 where q: "q1 \<in> set (match_at n (lit_i (js ''<div'')) s)"
    "q2 \<in> set (match_at n (Star not_close) q1)" "q3 \<in> set (match_at n (lit_i name) q2)"
    "q4 \<in> set (match_at n (Star (Seq (Star not_close) (Star (lit [10])))) q3)"
    "r \<in> set (match_at n (lit_i close_div) q4)"
    unfolding re_block_def match_Seq by blast
  from lit [OF q(1)] obtain d where d: "s = d @ q1" "eq_i (js ''<div'') d" by blast
  from q(2) obtain p where p: "q1 = p @ q2" "\<forall>x \<in> set p. \<not> line_end x" "open_text p q2"
    by (auto simp: match_star_not_close)
  from lit [OF q(3)] obtain m where m: "q2 = m @ q3" "eq_i name m" by blast
  from match_tail [OF q(4)] obtain t where t: "q3 = t @ q4" "open_text t q4" by blast
  from lit [OF q(5)] obtain c where c: "q4 = c @ r" "eq_i close_div c" by blast
  from d p m t c show ?thesis by blast
qed

lemma match_block_intro:
  assumes "\<forall>x \<in> set (p @ t). \<not> line_end x" and "open_text p (name @ t @ close_div @ r)"
    and "open_text t (close_div @ r)"
  shows "r \<in> set (match_at n (re_block name) (js ''<div'' @ p @ name @ t @ close_div @ r))"
proof -
  have lit: "q \<in> set (match_at n (lit_i w) (w @ q))" for w q by (simp add: match_lit_i eq_i_def)
  have "name @ t @ close_div @ r \<in> set (match_at n (Star not_close) (p @ name @ t @ close_div @ r))"
    using assms by (auto simp: match_star_not_close)
  moreover have "close_div @ r \<in> set (match_at n (Star (Seq (Star not_close) (Star (lit [10])))) (t @ close_div @ r))"
    using assms by (intro match_tail_intro) auto
  ultimately show ?thesis unfolding re_block_def match_Seq using lit by meson
qed

text \<open>A name in which no character starts a tag or ends a line.\<close>

definition word_name :: "jstring \<Rightarrow> bool" where
  "word_name name \<longleftrightarrow> (\<forall>c \<in> set name. c \<noteq> 60 \<and> \<not> line_end c \<and> \<not> line_end (lower c))"

lemma starts_close_hd: "starts_i close_div s \<Longrightarrow> s \<noteq> [] \<and> hd s = 60 \<and> length s \<ge> 6 \<and> s ! 1 = 47"
proof -
  assume a: "starts_i close_div s"
  then have l: "length s \<ge> 6" by (simp add: starts_i_def close_div_def js_def)
  have "lower (s ! 0) = 60" "lower (s ! 1) = 47"
    using starts_i_nth [OF a, of 0] starts_i_nth [OF a, of 1] by (simp_all add: close_div_def js_def lower_def)
  moreover have "lower x = 60 \<Longrightarrow> x = 60" "lower x = 47 \<Longrightarrow> x = 47" for x
    by (auto simp: lower_def split: if_splits)
  ultimately have "s ! 0 = 60" "s ! 1 = 47" by blast+
  with l show ?thesis by (cases s) auto
qed

lemma lower_60: "lower x = 60 \<longleftrightarrow> x = 60"
  by (auto simp: lower_def)

lemma eq_i_no_tag: "word_name name \<Longrightarrow> eq_i name m \<Longrightarrow> 60 \<notin> set m"
proof -
  assume a: "word_name name" "eq_i name m"
  have "60 \<notin> lower ` set name" using a(1) by (auto simp: word_name_def lower_60 image_iff)
  moreover have "lower ` set name = lower ` set m"
    using a(2) unfolding eq_i_def by (metis set_map)
  moreover have "lower 60 = 60" by (simp add: lower_def)
  ultimately show "60 \<notin> set m" by (metis image_eqI)
qed

lemma append_eq_cases: "a @ b = c @ d \<Longrightarrow> length a \<le> length c \<Longrightarrow> \<exists>e. c = a @ e \<and> b = e @ d"
  by (auto simp: append_eq_append_conv2)

text \<open>Where a first closing tag begins, the block ends there.\<close>

lemma block_end:
  assumes eq: "p @ m @ t @ c @ r = x @ w" and w: "starts_i close_div w" and x: "open_text x w"
    and p: "open_text p (m @ t @ c @ r)" and m: "60 \<notin> set m"
    and t: "open_text t (c @ r)" and c: "eq_i close_div c"
  shows "x = p @ m @ t"
proof -
  have cl: "starts_i close_div (c @ r)"
    using c map_eq_imp_length_eq [of lower close_div lower c] by (simp add: starts_i_def eq_i_def)
  have "\<not> length x < length p"
  proof
    assume l: "length x < length p"
    then obtain e where e: "p = x @ e" "w = e @ m @ t @ c @ r"
      using append_eq_cases [OF eq [symmetric]] by auto
    with l close_div_at [OF p l] w show False by simp
  qed
  then obtain x1 where x1: "x = p @ x1" "m @ t @ c @ r = x1 @ w"
    using append_eq_cases [OF eq] by auto
  have "\<not> length x1 < length m"
  proof
    assume l: "length x1 < length m"
    then obtain e where e: "m = x1 @ e" "w = e @ t @ c @ r" "e \<noteq> []"
      using append_eq_cases [OF x1(2) [symmetric]] by auto
    with starts_close_hd [OF w] m show False by (cases e) auto
  qed
  then obtain x2 where x2: "x1 = m @ x2" "t @ c @ r = x2 @ w"
    using append_eq_cases [OF x1(2)] by auto
  have "\<not> length x2 < length t"
  proof
    assume l: "length x2 < length t"
    then obtain e where e: "t = x2 @ e" "w = e @ c @ r"
      using append_eq_cases [OF x2(2) [symmetric]] by auto
    with l close_div_at [OF t l] w show False by simp
  qed
  then obtain x3 where x3: "x2 = t @ x3" "c @ r = x3 @ w"
    using append_eq_cases [OF x2(2)] by auto
  have "x3 = []"
  proof (rule ccontr)
    assume "x3 \<noteq> []"
    moreover have "open_text x3 w" using x x1 x2 x3 by (simp add: open_text_append)
    ultimately have "\<not> starts_i close_div (x3 @ w)" by (cases x3) auto
    with cl x3 show False by simp
  qed
  with x1 x2 x3 show ?thesis by simp
qed

subsection \<open>Deleting an inserted block\<close>

text \<open>A block as the page builds it: one division, named, on one line, without inner division end.\<close>

definition block_ok :: "jstring \<Rightarrow> jstring \<Rightarrow> bool" where
  "block_ok name h \<longleftrightarrow> (\<exists>x y. h = js ''<div'' @ x @ name @ y @ close_div
     \<and> (\<forall>c \<in> set (x @ y). \<not> line_end c) \<and> open_text (x @ name @ y) close_div)"

lemma open_text_more: "open_text x close_div \<Longrightarrow> open_text x (close_div @ w)"
proof (induction x)
  case (Cons c x)
  have "length close_div \<le> length (c # x @ close_div)" by simp
  with Cons show ?case using starts_i_append [of close_div "c # x @ close_div" w] by auto
qed simp

lemma match_block_first:
  assumes "block_ok name h" and "word_name name"
  shows "\<exists>rest. match_at n (re_block name) (h @ w) = w # rest"
proof -
  from assms(1) obtain x y where h: "h = js ''<div'' @ x @ name @ y @ close_div"
    "\<forall>c \<in> set (x @ y). \<not> line_end c" "open_text (x @ name @ y) close_div"
    by (auto simp: block_ok_def)
  have o: "open_text (x @ name @ y) (close_div @ w)" using open_text_more [OF h(3)] .
  have "w \<in> set (match_at n (re_block name) (js ''<div'' @ x @ name @ y @ close_div @ w))"
    using h(2) o by (intro match_block_intro) (auto simp: open_text_append)
  then have ex: "match_at n (re_block name) (h @ w) \<noteq> []" by (auto simp: h(1))
  have "r = w" if r: "r \<in> set (match_at n (re_block name) (h @ w))" for r
  proof -
    from match_block [OF r] obtain d p m t c where e: "h @ w = d @ p @ m @ t @ c @ r"
      "eq_i (js ''<div'') d" "open_text p (m @ t @ c @ r)" "eq_i name m" "open_text t (c @ r)" "eq_i close_div c"
      by blast
    have "length d = length (js ''<div'')"
      using e(2) map_eq_imp_length_eq by (force simp: eq_i_def)
    with e(1) h(1) have s: "p @ m @ t @ c @ r = (x @ name @ y) @ (close_div @ w)" by simp
    have "x @ name @ y = p @ m @ t"
      using s _ o e(3) eq_i_no_tag [OF assms(2) e(4)] e(5,6)
      by (rule block_end) (simp add: starts_i_def eq_i_def)
    with s have "c @ r = close_div @ w" by simp
    moreover have "length c = length close_div"
      using e(6) map_eq_imp_length_eq by (force simp: eq_i_def)
    ultimately show "r = w" by simp
  qed
  with ex show ?thesis by (cases "match_at n (re_block name) (h @ w)") auto
qed

definition contains_i :: "jstring \<Rightarrow> jstring \<Rightarrow> bool" where
  "contains_i p s \<longleftrightarrow> (\<exists>a b. s = a @ b \<and> starts_i p b)"

text \<open>Every division of the text is cut off, by its end or by the end of its line, before the
  name of the block occurs.\<close>

definition cut_off :: "jstring \<Rightarrow> jstring \<Rightarrow> bool" where
  "cut_off name t \<longleftrightarrow> (\<exists>u v. t = u @ v \<and> 4 \<le> length u \<and> \<not> contains_i name u
     \<and> (v \<noteq> [] \<and> line_end (hd v) \<or> starts_i close_div v))"

definition clean :: "jstring \<Rightarrow> jstring \<Rightarrow> bool" where
  "clean name s \<longleftrightarrow> (\<forall>t. suffix t s \<longrightarrow> starts_i (js ''<div'') t \<longrightarrow> cut_off name t)"

lemma eq_i_no_line: "word_name name \<Longrightarrow> eq_i name m \<Longrightarrow> \<forall>c \<in> set m. \<not> line_end c"
proof
  fix c assume a: "word_name name" "eq_i name m" "c \<in> set m"
  have "lower c \<in> lower ` set name" using a(2,3) unfolding eq_i_def by (metis image_eqI set_map)
  then have "\<not> line_end (lower c)" using a(1) by (auto simp: word_name_def)
  moreover have "line_end c \<Longrightarrow> lower c = c" by (auto simp: line_end_def lower_def)
  ultimately show "\<not> line_end c" by auto
qed

lemma no_match_cut_off:
  assumes "cut_off name t" and "word_name name"
  shows "match_at n (re_block name) (t @ w) = []"
proof (rule ccontr)
  assume "match_at n (re_block name) (t @ w) \<noteq> []"
  then obtain r where "r \<in> set (match_at n (re_block name) (t @ w))" by (metis ex_in_conv set_empty)
  from match_block [OF this] obtain d p m s where e: "t @ w = d @ p @ m @ s" "eq_i (js ''<div'') d"
    "\<forall>x \<in> set p. \<not> line_end x" "open_text p (m @ s)" "eq_i name m"
    by blast
  from assms(1) obtain u v where u: "t = u @ v" "4 \<le> length u" "\<not> contains_i name u"
    "v \<noteq> [] \<and> line_end (hd v) \<or> starts_i close_div v"
    by (auto simp: cut_off_def)
  define z where "z = v @ w"
  have z: "z \<noteq> []" "line_end (hd z) \<or> starts_i close_div z"
    using u(4) starts_close_hd starts_i_longer by (auto simp: z_def)
  have "length d = 4" using e(2) map_eq_imp_length_eq by (force simp: eq_i_def js_def)
  then obtain u1 where u1: "u = d @ u1" "p @ m @ s = u1 @ z"
    using append_eq_cases [of d "p @ m @ s" u z] e(1) u(1,2) by (auto simp: z_def)
  have "\<not> length u1 < length p"
  proof
    assume l: "length u1 < length p"
    then obtain e' where e': "p = u1 @ e'" "z = e' @ m @ s" "e' \<noteq> []"
      using append_eq_cases [OF u1(2) [symmetric]] by auto
    with e(3) z close_div_at [OF e(4) l] show False by (cases e') auto
  qed
  then obtain u2 where u2: "u1 = p @ u2" "m @ s = u2 @ z" using append_eq_cases [OF u1(2)] by auto
  have "\<not> length u2 < length m"
  proof
    assume "length u2 < length m"
    then obtain e' where e': "m = u2 @ e'" "z = e' @ s" "e' \<noteq> []"
      using append_eq_cases [OF u2(2) [symmetric]] by auto
    then have "hd z \<in> set m" by (cases e') auto
    with z eq_i_no_line [OF assms(2) e(5)] eq_i_no_tag [OF assms(2) e(5)] starts_close_hd [of z]
    show False by auto
  qed
  then obtain u3 where "u = (d @ p) @ m @ u3" using append_eq_cases [OF u2(2)] u1 u2 by auto
  moreover have "starts_i name (m @ u3)"
    using e(5) map_eq_imp_length_eq [of lower name lower m] by (simp add: starts_i_def eq_i_def)
  ultimately have "contains_i name u" unfolding contains_i_def by blast
  with u(3) show False by blast
qed

lemma match_block_starts: "match_at n (re_block name) s \<noteq> [] \<Longrightarrow> starts_i (js ''<div'') s"
proof -
  assume "match_at n (re_block name) s \<noteq> []"
  then obtain r where "r \<in> set (match_at n (re_block name) s)" by (metis ex_in_conv set_empty)
  from match_block [OF this] obtain d q where "s = d @ q" "eq_i (js ''<div'') d" by blast
  then show ?thesis
    using map_eq_imp_length_eq [of lower "js ''<div''" lower d] by (simp add: starts_i_def eq_i_def)
qed

lemma no_straddle:
  assumes "starts_i p (t @ s)" and "t \<noteq> []" and "s \<noteq> []" and "hd s = 60" and "60 \<notin> lower ` set (tl p)"
  shows "starts_i p t"
proof (cases "length p \<le> length t")
  case True
  with starts_i_append [OF assms(1)] show ?thesis by blast
next
  case False
  then have "lower ((t @ s) ! length t) = lower (p ! length t)"
    by (intro starts_i_nth [OF assms(1)]) simp
  moreover have "(t @ s) ! length t = 60" using assms(3,4) by (cases s) auto
  moreover have "p ! length t \<in> set (tl p)"
    using False assms(2) by (cases p; cases t) auto
  ultimately show ?thesis using assms(5) by (metis image_eqI lower_60)
qed

lemma del_inserted:
  assumes h: "block_ok name h" and name: "word_name name" and pre: "clean name pre" and post: "clean name post"
  shows "del_block name (pre @ h @ post) = pre @ post"
proof -
  let ?n = "length (pre @ h @ post)" and ?f = "\<lambda>b m a :: jstring. [] :: jstring"
  have h0: "h \<noteq> []" "hd (h @ post) = 60" using h by (auto simp: block_ok_def js_def)
  have "match_at ?n (re_block name) (t @ h @ post) = []" if t: "suffix t pre" "t \<noteq> []" for t
  proof (cases "starts_i (js ''<div'') t")
    case True
    with pre t have "cut_off name t" by (simp add: clean_def)
    then show ?thesis using name by (rule no_match_cut_off)
  next
    case False
    have "60 \<notin> lower ` set (tl (js ''<div''))" by (auto simp: js_def lower_def)
    with False t h0 no_straddle [of "js ''<div''" t "h @ post"] match_block_starts show ?thesis by fastforce
  qed
  then have "replace_g ?n (re_block name) ?f [] (pre @ h @ post)
      = pre @ replace_g ?n (re_block name) ?f ([] @ pre) (h @ post)"
    by (rule replace_g_skip)
  also obtain rest where "match_at ?n (re_block name) (h @ post) = post # rest"
    using match_block_first [OF h name] by blast
  then have "replace_g ?n (re_block name) ?f ([] @ pre) (h @ post)
      = ?f [] h post @ replace_g ?n (re_block name) ?f (([] @ pre) @ h) post"
    using h0(1) by (rule replace_g_match)
  also have "replace_g ?n (re_block name) ?f (([] @ pre) @ h) post = post"
  proof (rule replace_g_none)
    fix t assume t: "suffix t post"
    then have "cut_off name t" if "starts_i (js ''<div'') t" using that post by (simp add: clean_def)
    with no_match_cut_off [OF _ name, of t _ "[]"] match_block_starts [of ?n name t]
    show "match_at ?n (re_block name) t = []" by fastforce
  qed
  finally show ?thesis by (simp add: del_block_def re_replace_def)
qed

subsection \<open>Inserting at the body tag\<close>

definition tag_ok :: "jstring \<Rightarrow> jstring \<Rightarrow> bool" where
  "tag_ok name tag \<longleftrightarrow> starts_i name tag \<and> (\<exists>x. tag = x @ [62] \<and> 62 \<notin> set x)"

definition absent :: "jstring \<Rightarrow> jstring \<Rightarrow> bool" where
  "absent p s \<longleftrightarrow> \<not> contains_i p s"

lemma absent_suffix: "absent p s \<Longrightarrow> suffix t s \<Longrightarrow> \<not> starts_i p t"
  by (auto simp: absent_def contains_i_def suffix_def)

definition re_tag :: "jstring \<Rightarrow> re" where
  "re_tag name = Seq (lit_i name) (Seq (Star (Chr (\<lambda>c. c \<noteq> 62))) (lit [62]))"

lemma re_body_tag: "re_body = re_tag (js ''<body'')" "re_body_end = re_tag (js ''</body'')"
  by (simp_all add: re_body_def re_body_end_def re_tag_def)

lemma match_tag_starts: "match_at n (re_tag name) s \<noteq> [] \<Longrightarrow> starts_i name s"
proof -
  assume "match_at n (re_tag name) s \<noteq> []"
  then obtain r where "r \<in> set (match_at n (re_tag name) s)" by (metis ex_in_conv set_empty)
  then show ?thesis unfolding re_tag_def match_Seq by (auto simp: match_lit_i starts_i_def split: if_splits)
qed

lemma first_sep: "c \<notin> set a \<Longrightarrow> c \<notin> set p \<Longrightarrow> a @ c # w = p @ c # r \<longleftrightarrow> a = p \<and> w = r"
proof (induction a arbitrary: p)
  case Nil
  then show ?case by (cases p) auto
next
  case (Cons x a)
  then show ?case by (cases p) auto
qed

lemma match_tag_first:
  assumes tag: "tag_ok name tag" and gt: "62 \<notin> set name"
  shows "\<exists>rest. match_at n (re_tag name) (tag @ w) = w # rest"
proof -
  from tag obtain x where x: "tag = x @ [62]" "62 \<notin> set x" "starts_i name tag" by (auto simp: tag_ok_def)
  have "length name \<noteq> length tag"
  proof
    assume l: "length name = length tag"
    then have "name \<noteq> []" using x(1) by auto
    then have i: "length name - 1 < length name" by simp
    have "lower (tag ! (length name - 1)) = lower (name ! (length name - 1))"
      using starts_i_nth [OF x(3) i] .
    moreover have "tag ! (length name - 1) = 62" using l x(1) by simp
    moreover have "lower c = 62 \<longleftrightarrow> c = 62" for c by (auto simp: lower_def)
    ultimately have "name ! (length name - 1) = 62" by (metis (full_types))
    with i gt show False by (metis nth_mem)
  qed
  with x(3) have l: "length name \<le> length x" by (auto simp: starts_i_def x(1))
  let ?q = "drop (length name) x @ 62 # w"
  have q1: "match_at n (lit_i name) (tag @ w) = [?q]"
    using x(3) l by (simp add: match_lit_i starts_i_def x(1))
  have q2: "(\<exists>p. ?q = p @ 62 # r \<and> (\<forall>c \<in> set p. c \<noteq> 62)) \<longleftrightarrow> r = w" for r
  proof -
    have "62 \<notin> set (drop (length name) x)" using x(2) by (meson in_set_dropD)
    then show ?thesis using first_sep [of 62 "drop (length name) x" _ w r] by auto
  qed
  have q3: "r \<in> set (match_at n (lit [62]) q) \<longleftrightarrow> q = 62 # r" for q r
    unfolding match_lit by (cases q) auto
  have "r \<in> set (match_at n (re_tag name) (tag @ w)) \<longleftrightarrow> r = w" for r
  proof -
    have "r \<in> set (match_at n (re_tag name) (tag @ w))
        \<longleftrightarrow> (\<exists>q. (\<exists>p. ?q = p @ q \<and> (\<forall>c \<in> set p. c \<noteq> 62)) \<and> q = 62 # r)"
      unfolding re_tag_def match_Seq q1 q3 [symmetric] by (simp add: match_Star_Chr Bex_def)
    also have "\<dots> \<longleftrightarrow> r = w" using q2 [of r] by blast
    finally show ?thesis .
  qed
  then have s: "set (match_at n (re_tag name) (tag @ w)) = {w}" by blast
  then show ?thesis by (cases "match_at n (re_tag name) (tag @ w)") auto
qed

lemma replace_tag:
  assumes tag: "tag_ok name tag" and name: "62 \<notin> set name" "hd name = 60" "60 \<notin> lower ` set (tl name)"
    and pre: "absent name a" and post: "absent name b" and f: "\<And>x y. f x tag y = out"
  shows "re_test (re_tag name) (a @ tag @ b) \<and> re_replace (re_tag name) f (a @ tag @ b) = a @ out @ b"
proof -
  let ?n = "length (a @ tag @ b)"
  from tag have t0: "tag \<noteq> []" by (auto simp: tag_ok_def)
  have "name \<noteq> []"
  proof
    assume "name = []"
    with pre show False by (auto simp: absent_def contains_i_def starts_i_def eq_i_def)
  qed
  then have hd: "hd (tag @ b) = 60"
  proof -
    have "lower (tag ! 0) = lower (name ! 0)" using tag \<open>name \<noteq> []\<close> by (intro starts_i_nth) (auto simp: tag_ok_def)
    with name(2) \<open>name \<noteq> []\<close> t0 show ?thesis by (cases tag; cases name) (auto simp: lower_60 lower_def split: if_splits)
  qed
  obtain rest where first: "match_at ?n (re_tag name) (tag @ b) = b # rest"
    using match_tag_first [OF tag name(1)] by blast
  then have test: "re_test (re_tag name) (a @ tag @ b)"
    unfolding re_test_iff by (intro exI [of _ a] exI [of _ "tag @ b"]) simp
  have "match_at ?n (re_tag name) (t @ tag @ b) = []" if t: "suffix t a" "t \<noteq> []" for t
    using absent_suffix [OF pre t(1)] no_straddle [of name t "tag @ b"] match_tag_starts [of ?n name] t hd t0 name(3)
    by fastforce
  then have "replace_g ?n (re_tag name) f [] (a @ tag @ b) = a @ replace_g ?n (re_tag name) f ([] @ a) (tag @ b)"
    by (rule replace_g_skip)
  also have "replace_g ?n (re_tag name) f ([] @ a) (tag @ b)
      = f ([] @ a) tag b @ replace_g ?n (re_tag name) f (([] @ a) @ tag) b"
    using first t0 by (rule replace_g_match)
  also have "replace_g ?n (re_tag name) f (([] @ a) @ tag) b = b"
    using absent_suffix [OF post] match_tag_starts [of ?n name] by (intro replace_g_none) blast
  finally show ?thesis using test by (simp add: re_replace_def f)
qed

lemma no_tag_test: "absent name s \<Longrightarrow> \<not> re_test (re_tag name) s"
  using absent_suffix match_tag_starts by (fastforce simp: re_test_iff suffix_def)

text \<open>Where the block goes: at the only tag of that name, or at the end the code falls back to.\<close>

definition at_tag :: "jstring \<Rightarrow> jstring \<Rightarrow> jstring \<Rightarrow> jstring \<Rightarrow> bool" where
  "at_tag name a tag b \<longleftrightarrow> tag_ok name tag \<and> absent name a \<and> absent name b"

lemma body_names:
  "62 \<notin> set (js ''<body'')" "hd (js ''<body'') = 60" "60 \<notin> lower ` set (tl (js ''<body''))"
  "62 \<notin> set (js ''</body'')" "hd (js ''</body'') = 60" "60 \<notin> lower ` set (tl (js ''</body''))"
  by (auto simp: js_def lower_def)

lemma add_header_at:
  assumes "at_tag (js ''<body'') a tag b \<or> a = [] \<and> tag = [] \<and> absent (js ''<body'') b" and "36 \<notin> set h"
  shows "add_header h (a @ tag @ b) = a @ tag @ h @ b"
proof (cases "at_tag (js ''<body'') a tag b")
  case True
  have "expand_group x tag y (js ''$1'' @ h) = tag @ h" for x y
    using expand_group_first [OF assms(2)] by (simp add: js_def)
  with True replace_tag [OF _ body_names(1-3), of tag a b "\<lambda>b m a. expand_group b m a (js ''$1'' @ h)" "tag @ h"]
  show ?thesis by (simp add: add_header_def re_body_tag at_tag_def)
next
  case False
  with assms(1) show ?thesis by (simp add: add_header_def re_body_tag no_tag_test)
qed

lemma add_footer_at:
  assumes "at_tag (js ''</body'') a tag b \<or> tag = [] \<and> b = [] \<and> absent (js ''</body'') a" and "36 \<notin> set h"
  shows "add_footer h (a @ tag @ b) = a @ h @ tag @ b"
proof (cases "at_tag (js ''</body'') a tag b")
  case True
  have "expand_group x tag y (h @ js ''$1'') = h @ tag" for x y
    using expand_group_last [OF assms(2)] by (simp add: js_def)
  with True replace_tag [OF _ body_names(4-6), of tag a b "\<lambda>b m a. expand_group b m a (h @ js ''$1'')" "h @ tag"]
  show ?thesis by (simp add: add_footer_def re_body_tag at_tag_def)
next
  case False
  with assms(1) show ?thesis by (simp add: add_footer_def re_body_tag no_tag_test)
qed

text \<open>The blocks of the page are of this kind when the address of the application is a plain one.\<close>

definition plain_url :: "jstring \<Rightarrow> bool" where
  "plain_url s \<longleftrightarrow> (\<forall>c \<in> set s. c \<noteq> 60 \<and> c \<noteq> 36 \<and> \<not> line_end c)"

lemma open_text_no_tag: "60 \<notin> set x \<Longrightarrow> open_text x q"
proof (induction x)
  case (Cons c x)
  then show ?case using starts_close_hd [of "c # x @ q"] by auto
qed simp

lemma open_text_step: "c \<noteq> 60 \<or> d \<noteq> 47 \<Longrightarrow> open_text (d # x) q \<Longrightarrow> open_text (c # d # x) q"
  using starts_close_hd [of "c # d # x @ q"] by auto

lemma open_text_a: "open_text (60 # 47 # 97 # x) q \<longleftrightarrow> open_text x q"
proof -
  have "\<not> starts_i close_div (60 # 47 # 97 # s)" for s
    using starts_i_nth [of close_div "60 # 47 # 97 # s" 2] by (auto simp: close_div_def js_def lower_def)
  moreover have "\<not> starts_i close_div (47 # s)" "\<not> starts_i close_div (97 # s)" for s
    using starts_close_hd [of "47 # s"] starts_close_hd [of "97 # s"] by auto
  ultimately show ?thesis by auto
qed

lemma starts_close_simps:
  "c \<noteq> 60 \<Longrightarrow> \<not> starts_i close_div (c # s)" "d \<noteq> 47 \<Longrightarrow> \<not> starts_i close_div (60 # d # s)"
  "\<not> starts_i close_div (60 # 47 # 97 # s)"
  using starts_close_hd [of "c # s"] starts_close_hd [of "60 # d # s"]
    starts_i_nth [of close_div "60 # 47 # 97 # s" 2]
  by (auto simp: close_div_def js_def lower_def)

lemma header_block_ok:
  assumes "plain_url url" and "word_name name"
  shows "block_ok name (header_html name url)" and "block_ok name (footer_html name url)"
proof -
  have u: "60 \<notin> set url" "\<forall>c \<in> set url. \<not> line_end c" "60 \<notin> set name" "\<forall>c \<in> set name. \<not> line_end c"
    using assms by (auto simp: plain_url_def word_name_def)
  define y1 :: jstring where "y1 = js ''\"'' @ block_style
     @ [0x5982, 0x679C, 0x60A8, 0x60F3, 0x5206, 0x4EAB, 0x6B64, 0x90AE, 0x4EF6, 0xFF0C, 0x8BF7, 0x70B9, 0x51FB, 0x26, 0x6E, 0x62, 0x73, 0x70, 0x3B, 0x3C, 0x61, 0x20, 0x68, 0x72, 0x65, 0x66, 0x3D, 0x22] @ url @ [0x2F, 0x66, 0x6F, 0x72, 0x77, 0x61, 0x72, 0x64, 0x22, 0x20, 0x74, 0x61, 0x72, 0x67, 0x65, 0x74, 0x3D, 0x22, 0x5F, 0x62, 0x6C, 0x61, 0x6E, 0x6B, 0x22, 0x3E, 0x8F6C, 0x53D1, 0x7ED9, 0x597D, 0x53CB, 0x3C, 0x2F, 0x61, 0x3E]
     @ js ''<br />''
     @ [0x5982, 0x679C, 0x60A8, 0x4E0D, 0x60F3, 0x518D, 0x63A5, 0x6536, 0x6B64, 0x7C7B, 0x90AE, 0x4EF6, 0xFF0C, 0x8BF7, 0x70B9, 0x51FB, 0x26, 0x6E, 0x62, 0x73, 0x70, 0x3B, 0x3C, 0x61, 0x20, 0x68, 0x72, 0x65, 0x66, 0x3D, 0x22] @ url @ [0x2F, 0x75, 0x6E, 0x73, 0x75, 0x62, 0x73, 0x63, 0x72, 0x69, 0x62, 0x65, 0x22, 0x20, 0x74, 0x61, 0x72, 0x67, 0x65, 0x74, 0x3D, 0x22, 0x5F, 0x62, 0x6C, 0x61, 0x6E, 0x6B, 0x22, 0x3E, 0x9000, 0x8BA2, 0x3C, 0x2F, 0x61, 0x3E]"
  define y2 :: jstring where "y2 = js ''\"'' @ block_style
     @ [0x5982, 0x679C, 0x60A8, 0x89C9, 0x5F97, 0x6B64, 0x5C01, 0x90AE, 0x4EF6, 0x7ED9, 0x60A8, 0x5E26, 0x6765, 0x4E86, 0x4E0D, 0x4FBF, 0xFF0C, 0x60A8, 0x8FD8, 0x53EF, 0x4EE5, 0x20, 0x3C, 0x61, 0x20, 0x68, 0x72, 0x65, 0x66, 0x3D, 0x22] @ url @ [0x2F, 0x63, 0x6F, 0x6D, 0x70, 0x6C, 0x61, 0x69, 0x6E, 0x22, 0x20, 0x74, 0x61, 0x72, 0x67, 0x65, 0x74, 0x3D, 0x22, 0x5F, 0x62, 0x6C, 0x61, 0x6E, 0x6B, 0x22, 0x3E, 0x6295, 0x8BC9, 0x3C, 0x2F, 0x61, 0x3E]"
  have l: "\<forall>c \<in> set (js '' id=\"'' @ y1). \<not> line_end c" "\<forall>c \<in> set (js '' id=\"'' @ y2). \<not> line_end c"
    using u(2) by (simp_all add: y1_def y2_def block_style_def js_def line_end_def ball_Un)
  have o: "open_text (js '' id=\"'' @ name @ y1) close_div" "open_text (js '' id=\"'' @ name @ y2) close_div"
    using u(1,3)
    by (simp_all add: open_text_append y1_def y2_def block_style_def js_def open_text_no_tag starts_close_simps)
  have h: "header_html name url = js ''<div'' @ js '' id=\"'' @ name @ y1 @ close_div"
    "footer_html name url = js ''<div'' @ js '' id=\"'' @ name @ y2 @ close_div"
    by (simp_all add: header_html_def footer_html_def y1_def y2_def close_div_def js_def)
  show "block_ok name (header_html name url)" unfolding block_ok_def h using l(1) o(1) by blast
  show "block_ok name (footer_html name url)" unfolding block_ok_def h using l(2) o(2) by blast
qed

lemma header_no_dollar:
  assumes "plain_url url" and "36 \<notin> set name"
  shows "36 \<notin> set (header_html name url)" and "36 \<notin> set (footer_html name url)"
  using assms by (auto simp: header_html_def footer_html_def block_style_def plain_url_def js_def)

lemma word_names [simp]:
  "word_name (js ''page_header'')" "word_name (js ''page_footer'')"
  "word_name (js ''phone_page_header'')" "word_name (js ''phone_page_footer'')"
  "36 \<notin> set (js ''page_header'')" "36 \<notin> set (js ''page_footer'')"
  "36 \<notin> set (js ''phone_page_header'')" "36 \<notin> set (js ''phone_page_footer'')"
  by (simp_all add: word_name_def line_end_def lower_def js_def)

subsection \<open>Properties\<close>

text \<open>C26: Switching the page header of a text-mode template on puts the header block right after the
  opening body tag, or at the very start when there is none, and switching it off again restores
  the template exactly, for templates whose own divisions end before they mention the marker.\<close>

theorem header_roundtrip:
  assumes "at_tag (js ''<body'') a tag b \<or> a = [] \<and> tag = [] \<and> absent (js ''<body'') b"
    and "plain_url url" and "word_name name" and "36 \<notin> set name"
    and "clean name (a @ tag)" and "clean name b"
  shows "add_header (header_html name url) (a @ tag @ b) = a @ tag @ header_html name url @ b
    \<and> del_block name (add_header (header_html name url) (a @ tag @ b)) = a @ tag @ b"
  using add_header_at [OF assms(1) header_no_dollar(1) [OF assms(2,4)]]
    del_inserted [OF header_block_ok(1) [OF assms(2,3)] assms(3) assms(5,6)] by simp

theorem header_roundtrip_witness:
  "del_block (js ''page_header'') (add_header (header_html (js ''page_header'') (js ''http://h''))
     (js ''<BODY class=x>hello'')) = js ''<BODY class=x>hello''"
proof -
  have pu: "plain_url (js ''http://h'')" by (simp add: plain_url_def js_def line_end_def)
  have ab: "absent (js ''<body'') []" "absent (js ''<body'') (js ''hello'')"
    by (auto simp: absent_def contains_i_def starts_i_def eq_i_def js_def lower_def Cons_eq_append_conv)
  have tg: "tag_ok (js ''<body'') (js ''<BODY class=x>'')"
    unfolding tag_ok_def
    by (intro conjI exI [of _ "js ''<BODY class=x''"]) (simp_all add: starts_i_def eq_i_def js_def lower_def)
  have cl: "clean (js ''page_header'') (js ''<BODY class=x>'')" "clean (js ''page_header'') (js ''hello'')"
    by (auto simp: clean_def starts_i_def eq_i_def js_def lower_def suffix_Cons)
  have "at_tag (js ''<body'') [] (js ''<BODY class=x>'') (js ''hello'')"
    using ab tg by (simp add: at_tag_def)
  then have "del_block (js ''page_header'') (add_header (header_html (js ''page_header'') (js ''http://h''))
      ([] @ js ''<BODY class=x>'' @ js ''hello'')) = [] @ js ''<BODY class=x>'' @ js ''hello''"
    using pu cl by (intro header_roundtrip [THEN conjunct2] disjI1) simp_all
  then show ?thesis by (simp add: js_append [symmetric])
qed

text \<open>The same for the page footer, which goes right before the closing body tag, or to the
  very end when there is none.\<close>

lemma footer_roundtrip:
  assumes "at_tag (js ''</body'') a tag b \<or> tag = [] \<and> b = [] \<and> absent (js ''</body'') a"
    and "plain_url url" and "word_name name" and "36 \<notin> set name"
    and "clean name a" and "clean name (tag @ b)"
  shows "add_footer (footer_html name url) (a @ tag @ b) = a @ footer_html name url @ tag @ b
    \<and> del_block name (add_footer (footer_html name url) (a @ tag @ b)) = a @ tag @ b"
  using add_footer_at [OF assms(1) header_no_dollar(2) [OF assms(2,4)]]
    del_inserted [OF header_block_ok(2) [OF assms(2,3)] assms(3) assms(5,6)] by simp

end
