(* ===== verification/Search.thy ===== *)
theory Search
  imports Forms
begin

text \<open>
  The drop-down search of \<open>static/js/common/jquery.edm.search.js\<close>: the list it builds from the
  page's data, the list for a key word, the field it fills from a stored value, the handling of
  keys and of the last choice.

  An item is the ordered list of the properties of its object; the data are one list of items or
  a list of categories in their order. Titles are strings.
\<close>

type_synonym item = "(jstring \<times> jsval) list"

datatype json = Flat "item list" | Cats "(jstring \<times> item list) list"

definition field :: "jstring \<Rightarrow> item \<Rightarrow> jsval" where
  "field k it = (case map_of it k of Some v \<Rightarrow> v | None \<Rightarrow> JUndef)"

definition it_title :: "item \<Rightarrow> jstring" where
  "it_title it = to_str (field (js ''title'') it)"

definition it_id :: "item \<Rightarrow> jsval" where
  "it_id it = field (js ''id'') it"

subsection \<open>Building the list\<close>

fun data_attrs :: "item \<Rightarrow> jstring" where
  "data_attrs [] = []"
| "data_attrs ((key, v) # r) =
     (if key \<noteq> js ''title'' then js '' data-'' @ key @ js ''=\"'' @ to_str v @ js ''\"'' @ data_attrs r
      else data_attrs r)"

definition item_html :: "jstring \<Rightarrow> item \<Rightarrow> jstring \<Rightarrow> jstring" where
  "item_html fn it label =
     js ''<li>'' @ js ''<a href=\"javascript:void(0);\" onclick=\"'' @ fn @ js '';\" title=\"''
     @ it_title it @ js ''\"'' @ data_attrs it @ js ''>'' @ label @ js ''</a>'' @ js ''</li>''"

fun list_html :: "jstring \<Rightarrow> item list \<Rightarrow> jstring \<Rightarrow> jstring" where
  "list_html fn [] out = out"
| "list_html fn (it # its) out = list_html fn its (out @ item_html fn it (it_title it))"

fun cats_html :: "jstring \<Rightarrow> jstring option \<Rightarrow> (jstring \<times> item list) list \<Rightarrow> jstring \<Rightarrow> jstring" where
  "cats_html fn outCate [] out = out"
| "cats_html fn outCate ((prop, obj) # r) out =
     (if Some prop = outCate then cats_html fn outCate r out
      else
        (let out = (if length obj > 0
               then out @ js ''<h4 class=\"search_sort_title\" data-cate=\"'' @ prop @ js ''\">''
                      @ js ''<span class=\"icon_expand\">'' @ prop @ js ''</span></h4>''
               else out);
             out = out @ js ''<ul data-cate=\"'' @ prop @ js ''\">'';
             out = list_html fn obj out
         in cats_html fn outCate r (out @ js ''</ul>'')))"

definition createSearch :: "json \<Rightarrow> jstring \<Rightarrow> jstring option \<Rightarrow> jstring" where
  "createSearch json fn outCate =
     (case json of
        Flat obj \<Rightarrow> list_html fn obj (js ''<ul class='' @ [39] @ js ''ul_result'' @ [39] @ js ''>'') @ js ''</ul>''
      | Cats cs \<Rightarrow> cats_html fn outCate cs [])"

subsection \<open>Searching\<close>

definition mark_title :: "jstring \<Rightarrow> jstring \<Rightarrow> jstring" where
  "mark_title title val_txt =
     replace_str title val_txt (js ''<b class=\"red_cate\">'' @ val_txt @ js ''</b>'')"

fun key_html :: "jstring \<Rightarrow> jstring \<Rightarrow> item list \<Rightarrow> jstring \<times> nat \<Rightarrow> jstring \<times> nat" where
  "key_html fn val_txt [] acc = acc"
| "key_html fn val_txt (it # its) (out, counter) =
     (if indexOf (it_title it) val_txt \<noteq> -1
      then key_html fn val_txt its
             (out @ item_html fn it (mark_title (it_title it) val_txt), Suc counter)
      else key_html fn val_txt its (out, counter))"

fun key_cats :: "jstring \<Rightarrow> jstring \<Rightarrow> jstring option \<Rightarrow> (jstring \<times> item list) list \<Rightarrow> jstring \<times> nat
    \<Rightarrow> jstring \<times> nat" where
  "key_cats fn val_txt outCate [] acc = acc"
| "key_cats fn val_txt outCate ((prop, obj) # r) acc =
     (if Some prop = outCate then key_cats fn val_txt outCate r acc
      else key_cats fn val_txt outCate r (key_html fn val_txt obj acc))"

definition flg_html :: "jstring \<Rightarrow> jstring" where
  "flg_html s = js ''<p class='' @ [39] @ js ''flg'' @ [39] @ js '' style='' @ [39] @ js ''padding-left:10px''
     @ [39] @ js ''>'' @ s @ js ''</p>''"

definition msg_found :: jstring where
  "msg_found = flg_html [0x641C, 0x7D22, 0x5230, 0x4EE5, 0x4E0B, 0x7ED3, 0x679C, 0xFF1A]"

definition msg_not_found :: jstring where
  "msg_not_found = flg_html [0x6CA1, 0x6709, 0x5339, 0x914D, 0x7684, 0x7ED3, 0x679C, 0xFF01]"

definition keySearch :: "json \<Rightarrow> jstring \<Rightarrow> jstring \<Rightarrow> jstring option \<Rightarrow> jstring" where
  "keySearch json fn val_txt outCate =
     (let start = js ''<ul class='' @ [39] @ js ''ul_result'' @ [39] @ js ''>'';
          (out, counter) = (case json of
             Flat obj \<Rightarrow> key_html fn val_txt obj (start, 0)
           | Cats cs \<Rightarrow> key_cats fn val_txt outCate cs (start, 0));
          out = out @ js ''</ul>''
      in if counter \<noteq> 0 then msg_found @ out else msg_not_found)"

text \<open>The items a list shows: all of them, or those outside the category to leave out.\<close>

definition offered :: "json \<Rightarrow> jstring option \<Rightarrow> item list" where
  "offered json outCate =
     (case json of Flat obj \<Rightarrow> obj
      | Cats cs \<Rightarrow> concat (map snd (filter (\<lambda>(prop, _). Some prop \<noteq> outCate) cs)))"

definition hit :: "jstring \<Rightarrow> item \<Rightarrow> bool" where
  "hit val_txt it \<longleftrightarrow> sublist val_txt (it_title it)"

lemma key_html_eq:
  "key_html fn w its (out, n) =
     (out @ concat (map (\<lambda>it. item_html fn it (mark_title (it_title it) w)) (filter (hit w) its)),
      n + length (filter (hit w) its))"
  by (induction its arbitrary: out n) (auto simp: hit_def indexOf_neg)

lemma key_cats_eq:
  "key_cats fn w outCate cs (out, n) = key_html fn w (offered (Cats cs) outCate) (out, n)"
proof (induction cs arbitrary: out n)
  case (Cons c cs)
  obtain key obj where "c = (key, obj)" by (cases c)
  with Cons show ?case by (auto simp: offered_def key_html_eq)
qed (simp add: offered_def)

lemma keySearch_eq:
  "keySearch json fn w outCate =
     (if filter (hit w) (offered json outCate) = [] then msg_not_found
      else msg_found @ js ''<ul class='' @ [39] @ js ''ul_result'' @ [39] @ js ''>''
        @ concat (map (\<lambda>it. item_html fn it (mark_title (it_title it) w)) (filter (hit w) (offered json outCate)))
        @ js ''</ul>'')"
proof (cases json)
  case (Flat obj)
  then show ?thesis by (auto simp: keySearch_def key_html_eq Let_def offered_def)
next
  case (Cats cs)
  have "(case json of Flat obj \<Rightarrow> key_html fn w obj acc | Cats cs \<Rightarrow> key_cats fn w outCate cs acc)
      = key_html fn w (offered json outCate) acc" for acc
    by (cases acc) (simp add: Cats key_cats_eq)
  then show ?thesis by (auto simp: keySearch_def key_html_eq Let_def)
qed

text \<open>The key handler of the search field: what the list shows after each key.\<close>

definition search_keyup :: "json \<Rightarrow> jstring \<Rightarrow> jstring option \<Rightarrow> jstring \<Rightarrow> jstring" where
  "search_keyup json fn outCate input =
     (let keyword = strip_ws input
      in if keyword = [] then createSearch json fn outCate else keySearch json fn keyword outCate)"

subsection \<open>The field of a stored value\<close>

definition item_row :: "item \<Rightarrow> row" where
  "item_row it =
     (if truthy (field (js ''info'') it)
      then [it_id it, JStr (it_title it), field (js ''info'') it]
      else if truthy (field (js ''type'') it)
      then [it_id it, JStr (it_title it), field (js ''type'') it]
      else [it_id it, JStr (it_title it)])"

definition chosen :: "jstring \<Rightarrow> item \<Rightarrow> bool" where
  "chosen i it \<longleftrightarrow> js_eq (it_id it) (JStr i) \<or> to_str (it_id it) \<in> set (split_chr 44 i)"

fun init_items :: "jstring \<Rightarrow> item list \<Rightarrow> jstring list \<times> picker \<times> bool \<Rightarrow> jstring list \<times> picker \<times> bool"
where
  "init_items i [] acc = acc"
| "init_items i (it # its) (textArr, p, flag) =
     (if chosen i it
      then (let textArr = textArr @ [it_title it];
                p = p\<lparr>pk_text := (if length textArr = 1 then textArr ! 0 else join (js '', '') textArr)\<rparr>;
                p = p\<lparr>pk_sub := pk_sub p @ [item_row it]\<rparr>
            in init_items i its (textArr, p, True))
      else init_items i its (textArr, p, flag))"

fun init_cats :: "jstring \<Rightarrow> (jstring \<times> item list) list \<Rightarrow> jstring list \<times> picker \<times> bool
    \<Rightarrow> jstring list \<times> picker \<times> bool" where
  "init_cats i [] acc = acc"
| "init_cats i ((key, obj) # r) acc = init_cats i r (init_items i obj acc)"

definition initInput :: "json \<Rightarrow> picker \<Rightarrow> picker" where
  "initInput json p =
     (let i = pk_value p
      in if i = [] then p
         else let (textArr, p, flag) = (case json of
                     Flat obj \<Rightarrow> init_items i obj ([], p, False)
                   | Cats cs \<Rightarrow> init_cats i cs ([], p, False))
              in if \<not> flag then p\<lparr>pk_value := []\<rparr> else p)"

lemma init_items_eq:
  "init_items i its (ts, p, flag) =
     (let sel = filter (chosen i) its; ts' = ts @ map it_title sel
      in (ts', if sel = [] then p
               else p\<lparr>pk_text := join (js '', '') ts', pk_sub := pk_sub p @ map item_row sel\<rparr>,
          flag \<or> sel \<noteq> []))"
proof (induction its arbitrary: ts p flag)
  case (Cons it its)
  have "(if length (ts @ [x]) = 1 then (ts @ [x]) ! 0 else join (js '', '') (ts @ [x]))
      = join (js '', '') (ts @ [x])" for x
    by (cases ts) auto
  with Cons show ?case by (simp add: Let_def)
qed simp

lemma init_cats_eq: "init_cats i cs acc = init_items i (concat (map snd cs)) acc"
proof (induction cs arbitrary: acc)
  case (Cons c cs)
  obtain key obj where "c = (key, obj)" by (cases c)
  moreover have "init_items i (xs @ ys) acc = init_items i ys (init_items i xs acc)" for xs ys
    by (induction xs arbitrary: acc) (auto simp: Let_def)
  ultimately show ?case using Cons by simp
qed simp

lemma initInput_eq:
  "initInput json p =
     (if pk_value p = [] then p
      else let sel = filter (chosen (pk_value p)) (offered json None)
           in if sel = [] then p\<lparr>pk_value := []\<rparr>
              else p\<lparr>pk_text := join (js '', '') (map it_title sel), pk_sub := pk_sub p @ map item_row sel\<rparr>)"
  by (cases json) (auto simp: initInput_def init_cats_eq init_items_eq offered_def Let_def filter_empty_conv)

subsection \<open>Keys and the last choice\<close>

definition deleteOne :: "nat \<Rightarrow> picker \<Rightarrow> picker" where
  "deleteOne keyCode p = (if keyCode = 8 then p\<lparr>pk_text := [], pk_value := []\<rparr> else p)"

text \<open>\<open>cookieDisplay\<close> moves each entry whose id is the remembered one to the front of the list.\<close>

fun cookie_loop :: "jsval \<Rightarrow> jstring list \<Rightarrow> jstring list \<Rightarrow> jstring list" where
  "cookie_loop c [] ids = ids"
| "cookie_loop c (i # r) ids =
     (if js_eq (JStr i) c then cookie_loop c r (i # remove1 i ids) else cookie_loop c r ids)"

definition cookieDisplay :: "jsval \<Rightarrow> jstring list \<Rightarrow> jstring list" where
  "cookieDisplay c ids = cookie_loop c ids ids"

lemma cookie_loop_mset: "set todo \<subseteq> set ids \<Longrightarrow> mset (cookie_loop c todo ids) = mset ids"
proof (induction c todo ids rule: cookie_loop.induct)
  case (2 c i r ids)
  have "set r \<subseteq> set (i # remove1 i ids)" using "2.prems" by auto (metis in_set_remove1 subsetD)
  with 2 show ?case by auto
qed simp

subsection \<open>Lemmas: the stored value\<close>

lemma row_id_item_row [simp]: "row_id (item_row it) = to_str (it_id it)"
  by (simp add: row_id_def item_row_def)

lemma row_title_item_row [simp]: "cell (item_row it) (Suc 0) = JStr (it_title it)"
  by (simp add: item_row_def)

text \<open>The items a value names: their ids are texts without comma, numbers written as numbers.\<close>

definition item_ok :: "item \<Rightarrow> bool" where
  "item_ok it \<longleftrightarrow> canonical (it_id it) \<and> 44 \<notin> set (to_str (it_id it))"

lemma chosen_iff:
  assumes "item_ok it" and "canonical (JStr i)"
  shows "chosen i it \<longleftrightarrow> to_str (it_id it) \<in> set (split_chr 44 i)"
proof -
  have "js_eq (it_id it) (JStr i) \<longleftrightarrow> to_str (it_id it) = i"
    using assms by (simp add: item_ok_def js_eq_canonical) (simp add: to_str_def)
  moreover have "to_str (it_id it) = i \<Longrightarrow> i \<in> set (split_chr 44 i)"
    using assms(1) by (auto simp: item_ok_def)
  ultimately show ?thesis unfolding chosen_def by blast
qed

lemma initInput_rows:
  assumes "\<forall>it \<in> set (offered json None). item_ok it" and "canonical (JStr (pk_value p))"
    and "pk_value p \<noteq> []" and "pk_sub p = []"
    and "\<exists>it \<in> set (offered json None). to_str (it_id it) \<in> set (split_chr 44 (pk_value p))"
  shows "row_id ` set (pk_sub (initInput json p))
      = set (split_chr 44 (pk_value p)) \<inter> (\<lambda>it. to_str (it_id it)) ` set (offered json None)"
    and "pk_text (initInput json p) = join (js '', '') (map (\<lambda>r. elem_str (cell r 1)) (pk_sub (initInput json p)))"
    and "pk_value (initInput json p) = pk_value p"
proof -
  let ?sel = "filter (chosen (pk_value p)) (offered json None)"
  have sel: "set ?sel = {it \<in> set (offered json None). to_str (it_id it) \<in> set (split_chr 44 (pk_value p))}"
    using assms(1,2) by (auto simp: chosen_iff)
  then have "?sel \<noteq> []" using assms(5) by (auto simp: filter_empty_conv)
  then have e: "initInput json p = p\<lparr>pk_text := join (js '', '') (map it_title ?sel), pk_sub := map item_row ?sel\<rparr>"
    using assms(3,4) by (simp add: initInput_eq Let_def)
  show "row_id ` set (pk_sub (initInput json p))
      = set (split_chr 44 (pk_value p)) \<inter> (\<lambda>it. to_str (it_id it)) ` set (offered json None)"
    unfolding e using sel by (auto simp: image_iff)
  show "pk_text (initInput json p) = join (js '', '') (map (\<lambda>r. elem_str (cell r 1)) (pk_sub (initInput json p)))"
    unfolding e by (simp add: elem_str_def to_str_def comp_def)
  show "pk_value (initInput json p) = pk_value p" unfolding e by simp
qed

subsection \<open>Properties\<close>

text \<open>The search shows exactly the offered items whose title contains the key word, in their
  order and marked, or the note that nothing matches when there is none.\<close>

lemma keySearch_shows_hits:
  "keySearch json fn w outCate =
     (if filter (hit w) (offered json outCate) = [] then msg_not_found
      else msg_found @ js ''<ul class='' @ [39] @ js ''ul_result'' @ [39] @ js ''>''
        @ concat (map (\<lambda>it. item_html fn it (mark_title (it_title it) w)) (filter (hit w) (offered json outCate)))
        @ js ''</ul>'')"
  by (rule keySearch_eq)

text \<open>C35: Filling a chooser from a stored value selects exactly the offered items whose ids are in
  the comma list, shows their titles and keeps the value.\<close>

theorem initInput_restores_choice:
  assumes "\<forall>it \<in> set (offered json None). item_ok it" and "canonical (JStr (pk_value p))"
    and "pk_value p \<noteq> []" and "pk_sub p = []"
    and "\<exists>it \<in> set (offered json None). to_str (it_id it) \<in> set (split_chr 44 (pk_value p))"
  shows "row_id ` set (pk_sub (initInput json p))
      = set (split_chr 44 (pk_value p)) \<inter> (\<lambda>it. to_str (it_id it)) ` set (offered json None)
    \<and> pk_text (initInput json p) = join (js '', '') (map (\<lambda>r. elem_str (cell r 1)) (pk_sub (initInput json p)))
    \<and> pk_value (initInput json p) = pk_value p"
  using initInput_rows [OF assms] by blast

theorem initInput_restores_choice_witness:
  "row_id ` set (pk_sub (initInput (Flat [[(js ''id'', JInt 7), (js ''title'', JStr (js ''x''))]])
     \<lparr>pk_text = [], pk_value = int_to_str 7, pk_sub = [], pk_height = None, pk_disabled = False\<rparr>))
   = {int_to_str 7}"
proof -
  let ?j = "Flat [[(js ''id'', JInt 7), (js ''title'', JStr (js ''x''))]]"
  let ?p = "\<lparr>pk_text = [], pk_value = int_to_str 7, pk_sub = [], pk_height = None, pk_disabled = False\<rparr> :: picker"
  have i: "it_id [(js ''id'', JInt 7), (js ''title'', JStr (js ''x''))] = JInt 7"
    by (simp add: it_id_def field_def)
  have "row_id ` set (pk_sub (initInput ?j ?p)) = set (split_chr 44 (pk_value ?p)) \<inter> (\<lambda>it. to_str (it_id it)) ` set (offered ?j None)"
    by (rule initInput_restores_choice [THEN conjunct1])
      (simp_all add: offered_def item_ok_def i to_str_def int_to_str_no_comma canonical_int_str)
  then show ?thesis by (simp add: offered_def i to_str_def int_to_str_no_comma)
qed

end
