(* ===== verification/Template.thy ===== *)
theory Template
  imports Markup Search
begin

text \<open>
  The template page: \<open>static/js/mailing.template.common.js\<close> (header and footer switches, editing
  modes, inserting, stored and recommended templates, encodings, personalised links) and
  \<open>static/js/mailing.template.add.js\<close> (saving, tabs, preview).

  KindEditor and the document inside its frame are not part of the sources: \<open>editor_api\<close> has
  the operations the page calls, as functions on the content the editor returns. A page has an
  editor when the variable holds one; a call on a missing editor raises, which is \<open>None\<close>.
\<close>

record editor_api =
  ed_html :: "jstring \<Rightarrow> jstring"  \<comment> \<open>content after \<open>html(s)\<close>\<close>
  ed_insert :: "jstring \<Rightarrow> jstring \<Rightarrow> jstring"  \<comment> \<open>content after \<open>insertHtml(s)\<close>, from the old one\<close>
  ed_prepend :: "jstring \<Rightarrow> jstring \<Rightarrow> jstring"
  ed_append :: "jstring \<Rightarrow> jstring \<Rightarrow> jstring"
  ed_remove :: "jstring \<Rightarrow> jstring \<Rightarrow> jstring"  \<comment> \<open>content after removing the element with that id\<close>

record text_area =
  ta_value :: jstring
  ta_sel :: "(nat \<times> nat) option"  \<comment> \<open>\<open>selectionStart\<close> and \<open>selectionEnd\<close>\<close>

record tmpl_page = ui +
  eModel :: jstring
  eModelPhone :: jstring
  ed_K :: "jstring option"
  ed_K1 :: "jstring option"
  templateContent :: text_area
  phoneContent :: text_area
  f_editor :: jstring
  f_editorPhone :: jstring
  c_header :: bool
  c_footer :: bool
  c_phHeader :: bool
  c_phFooter :: bool
  codeModel :: jstring
  codeModelPhone :: jstring
  codeResource :: "(jstring \<times> jstring) option"
  has_pc :: bool
  pc_now :: bool
  has_phone :: bool
  phone_now :: bool
  personal :: "jstring option"
  phonePersonal :: "jstring option"
  joinPhone :: jstring
  joinSms :: jstring
  rec_templateId :: jstring
  his_templateId :: jstring
  ph_templateId :: jstring
  temp_img :: jstring
  posts :: "(jstring \<times> jstring) list"

definition WYSIWYG :: jstring where
  "WYSIWYG = js ''WYSIWYG''"

subsection \<open>Text areas\<close>

text \<open>Without selection support the code assigns to a property of the jQuery object: the field
  stays as it is.\<close>

definition insertContent :: "jstring \<Rightarrow> text_area \<Rightarrow> text_area" where
  "insertContent v t =
     (case ta_sel t of
        Some (s, e) \<Rightarrow> t\<lparr>ta_value := take s (ta_value t) @ v @ drop e (ta_value t),
                         ta_sel := Some (s + length v, s + length v)\<rparr>
      | None \<Rightarrow> t)"

definition set_ta :: "jstring \<Rightarrow> text_area \<Rightarrow> text_area" where
  "set_ta v t = t\<lparr>ta_value := v\<rparr>"

subsection \<open>Header and footer\<close>

definition addHeader :: "jstring \<Rightarrow> 'a tmpl_page_scheme \<Rightarrow> 'a tmpl_page_scheme" where
  "addHeader h t = t\<lparr>templateContent := set_ta (add_header h (ta_value (templateContent t))) (templateContent t)\<rparr>"

definition delHeader :: "'a tmpl_page_scheme \<Rightarrow> 'a tmpl_page_scheme" where
  "delHeader t = t\<lparr>templateContent :=
     set_ta (del_block (js ''page_header'') (ta_value (templateContent t))) (templateContent t)\<rparr>"

definition addFooter :: "jstring \<Rightarrow> 'a tmpl_page_scheme \<Rightarrow> 'a tmpl_page_scheme" where
  "addFooter h t = t\<lparr>templateContent := set_ta (add_footer h (ta_value (templateContent t))) (templateContent t)\<rparr>"

definition delFooter :: "'a tmpl_page_scheme \<Rightarrow> 'a tmpl_page_scheme" where
  "delFooter t = t\<lparr>templateContent :=
     set_ta (del_block (js ''page_footer'') (ta_value (templateContent t))) (templateContent t)\<rparr>"

definition addHeaderPhone :: "jstring \<Rightarrow> 'a tmpl_page_scheme \<Rightarrow> 'a tmpl_page_scheme" where
  "addHeaderPhone h t = t\<lparr>phoneContent := set_ta (add_header h (ta_value (phoneContent t))) (phoneContent t)\<rparr>"

definition delHeaderPhone :: "'a tmpl_page_scheme \<Rightarrow> 'a tmpl_page_scheme" where
  "delHeaderPhone t = t\<lparr>phoneContent :=
     set_ta (del_block (js ''phone_page_header'') (ta_value (phoneContent t))) (phoneContent t)\<rparr>"

definition addFooterPhone :: "jstring \<Rightarrow> 'a tmpl_page_scheme \<Rightarrow> 'a tmpl_page_scheme" where
  "addFooterPhone h t = t\<lparr>phoneContent := set_ta (add_footer h (ta_value (phoneContent t))) (phoneContent t)\<rparr>"

definition delFooterPhone :: "'a tmpl_page_scheme \<Rightarrow> 'a tmpl_page_scheme" where
  "delFooterPhone t = t\<lparr>phoneContent :=
     set_ta (del_block (js ''phone_page_footer'') (ta_value (phoneContent t))) (phoneContent t)\<rparr>"

definition on_K :: "(jstring \<Rightarrow> jstring) \<Rightarrow> 'a tmpl_page_scheme \<Rightarrow> 'a tmpl_page_scheme option" where
  "on_K f t = map_option (\<lambda>k. t\<lparr>ed_K := Some (f k)\<rparr>) (ed_K t)"

definition on_K1 :: "(jstring \<Rightarrow> jstring) \<Rightarrow> 'a tmpl_page_scheme \<Rightarrow> 'a tmpl_page_scheme option" where
  "on_K1 f t = map_option (\<lambda>k. t\<lparr>ed_K1 := Some (f k)\<rparr>) (ed_K1 t)"

text \<open>The switches; the flag is the state of the check box after the click.\<close>

definition pageHeader_click ::
  "editor_api \<Rightarrow> jstring \<Rightarrow> bool \<Rightarrow> 'a tmpl_page_scheme \<Rightarrow> 'a tmpl_page_scheme option" where
  "pageHeader_click E appUrl checked t =
     (let header = header_html (js ''page_header'') appUrl; t = t\<lparr>c_header := checked\<rparr>
      in if eModel t = WYSIWYG
         then (if checked then on_K (ed_prepend E header) t else on_K (ed_remove E (js ''page_header'')) t)
         else Some (if checked then addHeader header t else delHeader t))"

definition pageFooter_click ::
  "editor_api \<Rightarrow> jstring \<Rightarrow> bool \<Rightarrow> 'a tmpl_page_scheme \<Rightarrow> 'a tmpl_page_scheme option" where
  "pageFooter_click E appUrl checked t =
     (let footer = footer_html (js ''page_footer'') appUrl; t = t\<lparr>c_footer := checked\<rparr>
      in if eModel t = WYSIWYG
         then (if checked then on_K (ed_append E footer) t else on_K (ed_remove E (js ''page_footer'')) t)
         else Some (if checked then addFooter footer t else delFooter t))"

definition pagePhoneHeader_click ::
  "editor_api \<Rightarrow> jstring \<Rightarrow> bool \<Rightarrow> 'a tmpl_page_scheme \<Rightarrow> 'a tmpl_page_scheme option" where
  "pagePhoneHeader_click E appUrl checked t =
     (let header = header_html (js ''phone_page_header'') appUrl; t = t\<lparr>c_phHeader := checked\<rparr>
      in if eModelPhone t = WYSIWYG
         then (if checked then on_K1 (ed_prepend E header) t
               else on_K1 (ed_remove E (js ''phone_page_header'')) t)
         else Some (if checked then addHeaderPhone header t else delHeaderPhone t))"

definition pagePhoneFooter_click ::
  "editor_api \<Rightarrow> jstring \<Rightarrow> bool \<Rightarrow> 'a tmpl_page_scheme \<Rightarrow> 'a tmpl_page_scheme option" where
  "pagePhoneFooter_click E appUrl checked t =
     (let footer = footer_html (js ''phone_page_footer'') appUrl; t = t\<lparr>c_phFooter := checked\<rparr>
      in if eModelPhone t = WYSIWYG
         then (if checked then on_K1 (ed_append E footer) t
               else on_K1 (ed_remove E (js ''phone_page_footer'')) t)
         else Some (if checked then addFooterPhone footer t else delFooterPhone t))"

subsection \<open>Editing modes\<close>

definition changeModel :: "editor_api \<Rightarrow> jstring \<Rightarrow> 'a tmpl_page_scheme \<Rightarrow> 'a tmpl_page_scheme option" where
  "changeModel E ty t =
     (if eModel t = ty then Some t
      else
        (let t = t\<lparr>eModel := ty, f_editor := ty\<rparr>
         in if ty = WYSIWYG
            then Some (closeSelectDiv (t\<lparr>ed_K :=
                   Some (ed_insert E (ta_value (templateContent t)) (ed_html E []))\<rparr>))
            else (case ed_K t of
                    None \<Rightarrow> None
                  | Some k \<Rightarrow> Some (closeSelectDiv
                      (t\<lparr>templateContent := set_ta k (templateContent t), ed_K := None\<rparr>)))))"

definition ph_changeModel :: "editor_api \<Rightarrow> jstring \<Rightarrow> 'a tmpl_page_scheme \<Rightarrow> 'a tmpl_page_scheme option" where
  "ph_changeModel E ty t =
     (if eModelPhone t = ty then Some t
      else
        (let t = t\<lparr>eModelPhone := ty, f_editorPhone := ty\<rparr>
         in if ty = WYSIWYG
            then Some (closeSelectDiv (t\<lparr>ed_K1 :=
                   Some (ed_insert E (ta_value (phoneContent t)) (ed_html E []))\<rparr>))
            else (case ed_K1 t of
                    None \<Rightarrow> None
                  | Some k \<Rightarrow> Some (closeSelectDiv
                      (t\<lparr>phoneContent := set_ta k (phoneContent t), ed_K1 := None\<rparr>)))))"

definition insert_prop :: "editor_api \<Rightarrow> jstring \<Rightarrow> 'a tmpl_page_scheme \<Rightarrow> 'a tmpl_page_scheme option" where
  "insert_prop E s t =
     (if eModel t = WYSIWYG then on_K (ed_insert E s) t
      else Some (t\<lparr>templateContent := insertContent s (templateContent t)\<rparr>))"

definition insertPhone :: "editor_api \<Rightarrow> jstring \<Rightarrow> 'a tmpl_page_scheme \<Rightarrow> 'a tmpl_page_scheme option" where
  "insertPhone E s t =
     (if eModelPhone t = WYSIWYG then on_K1 (ed_insert E s) t
      else Some (t\<lparr>phoneContent := insertContent s (phoneContent t)\<rparr>))"

definition post :: "jstring \<Rightarrow> jstring \<Rightarrow> 'a tmpl_page_scheme \<Rightarrow> 'a tmpl_page_scheme" where
  "post url content t = t\<lparr>posts := posts t @ [(url, content)]\<rparr>"

subsection \<open>Loading a stored or recommended template\<close>

record template_reply = reply +
  r_content :: jstring
  r_page_header :: jstring
  r_page_footer :: jstring

definition on_pc :: "'a tmpl_page_scheme \<Rightarrow> bool" where
  "on_pc t \<longleftrightarrow> pc_now t \<or> \<not> has_pc t"

text \<open>\<open>K.html(s)\<close> on the tabs that are current: the statements of the visual branches.\<close>

definition set_visual :: "editor_api \<Rightarrow> jstring \<Rightarrow> 'a tmpl_page_scheme \<Rightarrow> 'a tmpl_page_scheme option" where
  "set_visual E s t =
     (case (if on_pc t then on_K (\<lambda>_. ed_html E s) t else Some t) of
        None \<Rightarrow> None
      | Some t \<Rightarrow> if phone_now t then on_K1 (\<lambda>_. ed_html E s) t else Some t)"

definition template_success ::
  "browser \<Rightarrow> editor_api \<Rightarrow> template_reply \<Rightarrow> 'a tmpl_page_scheme \<Rightarrow> 'a tmpl_page_scheme option" where
  "template_success b E d t =
     (let t = closeDialog b t
      in if accepted (reply.truncate d)
         then (case (if eModel t = WYSIWYG then set_visual E (r_content d) t
                     else Some (t\<lparr>templateContent := set_ta (r_content d) (templateContent t)\<rparr>)) of
                 None \<Rightarrow> None
               | Some t \<Rightarrow>
                   (let t = (if on_pc t
                             then t\<lparr>c_header := (r_page_header d = js ''on''), c_footer := (r_page_footer d = js ''on'')\<rparr>
                             else t);
                        t = (if phone_now t
                             then t\<lparr>c_phHeader := (r_page_header d = js ''on''), c_phFooter := (r_page_footer d = js ''on'')\<rparr>
                             else t)
                    in Some (ok_message b (message d) t)))
         else Some (fail_message b (message d) t))"

definition changeTempCode :: "editor_api \<Rightarrow> 'a tmpl_page_scheme \<Rightarrow> 'a tmpl_page_scheme option" where
  "changeTempCode E t =
     (case codeResource t of
        None \<Rightarrow> Some t
      | Some (u8, gb) \<Rightarrow>
          (let t = t\<lparr>codeModel := (if codeModel t = js ''UTF8'' then js ''GB2312'' else js ''UTF8'')\<rparr>;
               s = (if codeModel t = js ''UTF8'' then u8 else gb)
           in if eModel t = WYSIWYG then set_visual E s t
              else Some (t\<lparr>templateContent := set_ta s (templateContent t)\<rparr>)))"

text \<open>The phone variant reads the encoding of the other page, and in text mode a variable that
  does not exist.\<close>

definition changeTempCodePhone :: "editor_api \<Rightarrow> 'a tmpl_page_scheme \<Rightarrow> 'a tmpl_page_scheme option" where
  "changeTempCodePhone E t =
     (case codeResource t of
        None \<Rightarrow> Some t
      | Some (u8, gb) \<Rightarrow>
          (let t = t\<lparr>codeModelPhone := (if codeModel t = js ''UTF8'' then js ''GB2312'' else js ''UTF8'')\<rparr>
           in if eModelPhone t = WYSIWYG
              then on_K1 (\<lambda>_. ed_html E (if codeModel t = js ''UTF8'' then u8 else gb)) t
              else None))"

definition showTempImg :: "jstring \<Rightarrow> 'a tmpl_page_scheme \<Rightarrow> 'a tmpl_page_scheme" where
  "showTempImg i t = t\<lparr>rec_templateId := i, temp_img := js ''/static/img/template/'' @ i @ js ''.jpg''\<rparr>"

text \<open>The list of recommended templates: the first entry is selected and its picture shown.\<close>

fun temp_list :: "nat \<Rightarrow> (jstring \<times> jstring) list \<Rightarrow> jstring \<times> 'a tmpl_page_scheme
    \<Rightarrow> jstring \<times> 'a tmpl_page_scheme" where
  "temp_list i [] acc = acc"
| "temp_list i ((k, title) # r) (out, t) =
     (let a = js ''<a href='' @ [39] @ js ''javascript:showTempImg(\"'' @ k @ js ''\")'' @ [39] @ js ''>'';
          (out, t) = (if i > 0 then (out @ js ''<li>'' @ a, t)
                      else (out @ js ''<li class='' @ [39] @ js ''selected'' @ [39] @ js ''>'' @ a, showTempImg k t))
      in temp_list (Suc i) r (out @ title @ js ''</a></li>'', t))"

definition cateWrap_click ::
  "(jstring \<times> (jstring \<times> jstring) list) list \<Rightarrow> jstring \<Rightarrow> 'a tmpl_page_scheme \<Rightarrow> 'a tmpl_page_scheme" where
  "cateWrap_click rcmTempData i t =
     (let (out, t) = fold (\<lambda>(key, obj) acc. if key = i then temp_list 0 obj acc else acc) rcmTempData ([], t)
      in set_html (js ''#tempWrap ul'') out t)"

definition openSysForm ::
  "browser \<Rightarrow> (jstring \<times> jstring) list \<Rightarrow> 'a tmpl_page_scheme \<Rightarrow> 'a tmpl_page_scheme" where
  "openSysForm b rcmTempData t =
     (let t = openPop_box b (js ''#templateRemind'') t;
          (out, t) = temp_list 0 rcmTempData ([], t)
      in set_html (js ''#tempWrap ul'') out t)"

definition cate_html :: "(jstring \<times> jstring) list \<Rightarrow> jstring" where
  "cate_html arr = concat (map (\<lambda>(k, title). js ''<li><a href='' @ [39] @ js ''javascript:void(0)'' @ [39]
     @ js '' itemid='' @ [39] @ k @ [39] @ js ''>'' @ title @ js ''</a></li>'') arr)"

definition createCate :: "(jstring \<times> jstring) list \<Rightarrow> 'a tmpl_page_scheme \<Rightarrow> 'a tmpl_page_scheme" where
  "createCate arr t = set_html (js ''#cateWrap ul'') (cate_html arr) t"

definition openSysTemp ::
  "browser \<Rightarrow> (jstring \<times> jstring) list \<Rightarrow> (jstring \<times> (jstring \<times> jstring) list) list
     \<Rightarrow> 'a tmpl_page_scheme \<Rightarrow> 'a tmpl_page_scheme" where
  "openSysTemp b rcmCateData rcmTempData t =
     (let t = createCate rcmCateData (openPop_box b (js ''#templateRemind'') t)
      in case rcmCateData of [] \<Rightarrow> t | (k, _) # _ \<Rightarrow> cateWrap_click rcmTempData k t)"

definition importHisTemp :: "json \<Rightarrow> jstring \<Rightarrow> jstring \<Rightarrow> 'a tmpl_page_scheme \<Rightarrow> 'a tmpl_page_scheme" where
  "importHisTemp json fn boxId t = set_html (boxId @ js '' .search_result'') (createSearch json fn None) t"

definition hisTemp_keyup :: "json \<Rightarrow> jstring \<Rightarrow> jstring \<Rightarrow> jstring \<Rightarrow> 'a tmpl_page_scheme \<Rightarrow> 'a tmpl_page_scheme" where
  "hisTemp_keyup json fn boxId input t =
     set_html (boxId @ js '' .search_result'') (search_keyup json fn None input) t"

definition openHisTemp :: "browser \<Rightarrow> json \<Rightarrow> 'a tmpl_page_scheme \<Rightarrow> 'a tmpl_page_scheme" where
  "openHisTemp b hisTempData t =
     openPop_box b (js ''#historyTemplate'')
       (importHisTemp hisTempData (js ''appendHisId(this)'') (js ''#historyTemplate'') t)"

definition openPhHisTemp :: "browser \<Rightarrow> json \<Rightarrow> 'a tmpl_page_scheme \<Rightarrow> 'a tmpl_page_scheme" where
  "openPhHisTemp b hisPhoneData t =
     openPop_box b (js ''#ph_historyTemplate'')
       (importHisTemp hisPhoneData (js ''appendPhHisId(this)'') (js ''#ph_historyTemplate'') t)"

definition appendHisId :: "anchor \<Rightarrow> 'a tmpl_page_scheme \<Rightarrow> 'a tmpl_page_scheme" where
  "appendHisId a t = (case an_id a of Some i \<Rightarrow> t\<lparr>his_templateId := i\<rparr> | None \<Rightarrow> t)"

definition appendPhHisId :: "anchor \<Rightarrow> 'a tmpl_page_scheme \<Rightarrow> 'a tmpl_page_scheme" where
  "appendPhHisId a t = (case an_id a of Some i \<Rightarrow> t\<lparr>ph_templateId := i\<rparr> | None \<Rightarrow> t)"

subsection \<open>Variables in links\<close>

definition re_attr :: "jstring \<Rightarrow> string \<Rightarrow> nat \<Rightarrow> re" where
  "re_attr str attr q = Seq (lit_i (js attr @ [61, q])) (Seq (Star dot) (Seq (lit [36])
     (Seq (lit_i str) (Seq (lit [36]) (Seq (Star dot) (lit [q]))))))"

definition re_param :: "jstring \<Rightarrow> re" where
  "re_param str = Alt (re_attr str ''href'' 34) (Alt (re_attr str ''href'' 39)
     (Alt (re_attr str ''src'' 34) (re_attr str ''src'' 39)))"

text \<open>The names of the properties are put into the pattern as they are; they have no character
  with a meaning in patterns but the dollar signs that are taken out.\<close>

definition has_param :: "(jstring \<times> jstring) list \<Rightarrow> jstring \<Rightarrow> bool" where
  "has_param prop_list k = list_ex (\<lambda>p. re_test (re_param (filter (\<lambda>c. c \<noteq> 36) (fst p))) k) prop_list"

definition hasPrama :: "(jstring \<times> jstring) list \<Rightarrow> 'a tmpl_page_scheme \<Rightarrow> bool option" where
  "hasPrama prop_list t =
     map_option (has_param prop_list)
       (if eModel t = WYSIWYG then ed_K t else Some (ta_value (templateContent t)))"

definition hasPramaPhone :: "(jstring \<times> jstring) list \<Rightarrow> 'a tmpl_page_scheme \<Rightarrow> bool option" where
  "hasPramaPhone prop_list t =
     map_option (has_param prop_list)
       (if eModelPhone t = WYSIWYG then ed_K1 t else Some (ta_value (phoneContent t)))"

definition switchParam :: "'a tmpl_page_scheme \<Rightarrow> 'a tmpl_page_scheme" where
  "switchParam t =
     (let t = show_el (js ''#advancedOption'') t
      in if personal t = Some (js ''true'') then t\<lparr>personal := Some (js ''false'')\<rparr>
         else t\<lparr>personal := Some (js ''true'')\<rparr>)"

text \<open>In visual mode the link dialog of the editor is opened and gets the address half a second
  later; the page itself only closes the drop-down.\<close>

definition insertFormUrl :: "jstring \<Rightarrow> 'a tmpl_page_scheme \<Rightarrow> 'a tmpl_page_scheme" where
  "insertFormUrl url t =
     (if eModel t = WYSIWYG then closeSelectDiv t
      else t\<lparr>templateContent := insertContent (js ''<a href=\"'' @ url @ js ''\">'' @ url @ js ''</a>'')
             (templateContent t)\<rparr>)"

definition insertPhoneFormUrl :: "jstring \<Rightarrow> 'a tmpl_page_scheme \<Rightarrow> 'a tmpl_page_scheme" where
  "insertPhoneFormUrl url t =
     (if eModelPhone t = WYSIWYG then closeSelectDiv t
      else t\<lparr>phoneContent := insertContent (js ''<a href=\"'' @ url @ js ''\">'' @ url @ js ''</a>'')
             (phoneContent t)\<rparr>)"

subsection \<open>Tables of several values\<close>

fun cells_html :: "jstring \<Rightarrow> nat \<Rightarrow> nat \<Rightarrow> jstring" where
  "cells_html word k 0 = []"
| "cells_html word k (Suc n) =
     js ''<td>'' @ word @ nat_to_str (Suc k) @ js ''</td>'' @ cells_html word (Suc k) n"

definition mul_table :: "jstring \<Rightarrow> nat \<Rightarrow> jstring" where
  "mul_table width n =
     js ''<table border=\"1\" bordercolor=\"#000000\" cellpadding=\"2\" cellspacing=\"0\" style=\"text-align:center;\" width=\"''
     @ width @ js ''\"><tbody><tr>'' @ cells_html [0x6807, 0x9898] 0 n @ js ''</tr>''
     @ js ''<tr class=\"__many__\">'' @ cells_html [0x53D8, 0x91CF] 0 n @ js ''</tr></tbody></table>''"

text \<open>An exception of the editor is caught and the dialog closed all the same.\<close>

definition insertMul ::
  "browser \<Rightarrow> editor_api \<Rightarrow> jstring \<Rightarrow> jstring \<Rightarrow> jstring \<Rightarrow> 'a tmpl_page_scheme \<Rightarrow> 'a tmpl_page_scheme" where
  "insertMul b E tdSum tbWidth wdRule t =
     (if isNaN tbWidth \<or> str_lt tbWidth 1
      then set_html (js ''.Jmul_err'') [0x8868, 0x683C, 0x5BBD, 0x5EA6, 0x8BF7, 0x8F93, 0x5165, 0x5927, 0x4E8E, 0x31, 0x7684, 0x6570, 0x5B57, 0xFF01] t
      else if isNaN tdSum \<or> str_gt tdSum 100 \<or> str_lt tdSum 1
      then set_html (js ''.Jmul_err'') [0x8868, 0x683C, 0x5217, 0x6570, 0x8BF7, 0x8F93, 0x5165, 0x31, 0x2D, 0x31, 0x30, 0x30, 0x4EE5, 0x5185, 0x7684, 0x6570, 0x5B57, 0xFF01] t
      else
        (let n = (case parse_int tdSum of Some n \<Rightarrow> nat n | None \<Rightarrow> 0);
             table = mul_table (if wdRule = js ''px'' then tbWidth else tbWidth @ js ''%'') n;
             t' = (if has_phone t \<and> phone_now t then insertPhone E table t else insert_prop E table t)
         in closeDialog b (case t' of Some t' \<Rightarrow> t' | None \<Rightarrow> t)))"

subsection \<open>Lists, pictures, tabs, saving\<close>

text \<open>The lists of variables; \<open>fn\<close> is \<open>insert\<close> or \<open>insertPhone\<close>.\<close>

definition param_html :: "jstring \<Rightarrow> (jstring \<times> jstring) list \<Rightarrow> jstring" where
  "param_html fn lst = js ''<ul>''
     @ concat (map (\<lambda>(v, title). js ''<li><a hidefocus=\"true\" onclick=\"'' @ fn @ js ''('' @ [39] @ v @ [39]
         @ js '')\" href=\"javascript:void(0)\" title=\"'' @ title @ js ''\">'' @ title @ js ''</a></li>'') lst)
     @ js ''</ul>''"

definition form_html :: "jstring \<Rightarrow> (jstring \<times> jstring) list \<Rightarrow> jstring" where
  "form_html fn lst = js ''<ul>''
     @ concat (map (\<lambda>(v, title). js ''<li><a hidefocus='' @ [39] @ js ''true'' @ [39] @ js '' onclick='' @ [39] @ fn
         @ js ''(\"'' @ v @ js ''\",this)'' @ [39] @ js '' href='' @ [39] @ js ''javascript:void(0)'' @ [39]
         @ js '' title='' @ [39] @ title @ [39] @ js ''>'' @ title @ js ''</a></li>'') lst)
     @ js ''</ul>''"

text \<open>A picture fills 480 pixels in its longer direction: width and height, \<open>None\<close> is \<open>auto\<close>.\<close>

definition img_load :: "int \<Rightarrow> int \<Rightarrow> int option \<times> int option" where
  "img_load ht wt = (if ht > wt then (None, Some 480) else (Some 480, None))"

definition more_click :: "jstring \<Rightarrow> bool \<times> 'a tmpl_page_scheme \<Rightarrow> bool \<times> 'a tmpl_page_scheme" where
  "more_click k s = (case s of (expanded, t) \<Rightarrow>
     if expanded then (False, hide_el k t) else (True, show_el k t))"

definition preview ::
  "jstring \<Rightarrow> jstring \<Rightarrow> bool \<Rightarrow> 'a tmpl_page_scheme \<Rightarrow> 'a tmpl_page_scheme option" where
  "preview url smsContent dx_now t =
     (case (if pc_now t
            then (if eModel t = WYSIWYG then map_option (\<lambda>k. post url k t) (ed_K t)
                  else Some (post url (ta_value (templateContent t)) t))
            else Some t) of
        None \<Rightarrow> None
      | Some t \<Rightarrow>
          (case (if phone_now t
                 then (if eModel t = WYSIWYG then map_option (\<lambda>k. post url k t) (ed_K1 t)
                       else Some (post url (ta_value (phoneContent t)) t))
                 else Some t) of
             None \<Rightarrow> None
           | Some t \<Rightarrow> Some (if dx_now then post url smsContent t else t)))"

definition save_rules :: "jstring \<Rightarrow> jstring \<Rightarrow> rule list" where
  "save_rules templateName categoryId =
     [Rule (templateName = []) [0x8BF7, 0x8F93, 0x5165, 0x6A21, 0x677F, 0x540D, 0x79F0] (Some (js ''templateName'')),
      Rule (categoryId = []) [0x8BF7, 0x9009, 0x62E9, 0x6A21, 0x677F, 0x7C7B, 0x522B] None]"

definition save_check ::
  "browser \<Rightarrow> jstring \<Rightarrow> jstring \<Rightarrow> 'a tmpl_page_scheme \<Rightarrow> 'a tmpl_page_scheme + 'a tmpl_page_scheme" where
  "save_check b templateName categoryId t = check_rules b (save_rules templateName categoryId) (loading b [] t)"

definition save_success :: "browser \<Rightarrow> reply \<Rightarrow> 'a tmpl_page_scheme \<Rightarrow> 'a tmpl_page_scheme" where
  "save_success b d t =
     (let t = del_loading b [] t
      in if js_eq (code d) (JInt 1) then error_message b (message d) 0 0 1000 (js ''/mailing/template/page'') t
         else if js_eq (code d) (JInt 2) then popTips b (js ''#remindFilter'') (message d) t
         else fail_message b (message d) t)"

definition personSwitch :: "jstring \<Rightarrow> jstring" where
  "personSwitch v = (if v = js ''false'' then js ''true'' else if v = js ''true'' then js ''false'' else v)"

definition phone_cb_click :: "bool \<Rightarrow> 'a tmpl_page_scheme \<Rightarrow> 'a tmpl_page_scheme" where
  "phone_cb_click checked t = t\<lparr>joinPhone := (if checked then js ''1'' else js ''0'')\<rparr>"

definition sms_cb_click :: "bool \<Rightarrow> 'a tmpl_page_scheme \<Rightarrow> 'a tmpl_page_scheme" where
  "sms_cb_click checked t = t\<lparr>joinSms := (if checked then js ''1'' else js ''0'')\<rparr>"

interpretation save_form: form_check "save_check b n c" "\<lambda>t. save_rules n c" b for b n c
  by unfold_locales (simp add: save_check_def guarded_def)

subsection \<open>Lemmas: the editors exist where the code uses them\<close>

definition editors_ok :: "'a tmpl_page_scheme \<Rightarrow> bool" where
  "editors_ok t \<longleftrightarrow> (ed_K t \<noteq> None \<longleftrightarrow> eModel t = WYSIWYG) \<and> (ed_K1 t \<noteq> None \<longleftrightarrow> eModelPhone t = WYSIWYG)"

lemma editors_frame [simp]:
  "ed_K (closeSelectDiv t) = ed_K t" "ed_K1 (closeSelectDiv t) = ed_K1 t"
  "eModel (closeSelectDiv t) = eModel t" "eModelPhone (closeSelectDiv t) = eModelPhone t"
  "templateContent (closeSelectDiv t) = templateContent t" "phoneContent (closeSelectDiv t) = phoneContent t"
  by (simp_all add: closeSelectDiv_def hide_el_def)

lemma on_K_ok:
  "editors_ok t \<Longrightarrow> eModel t = WYSIWYG \<Longrightarrow> \<exists>v. on_K f t = Some v \<and> editors_ok v"
  "editors_ok t \<Longrightarrow> eModelPhone t = WYSIWYG \<Longrightarrow> \<exists>v. on_K1 f t = Some v \<and> editors_ok v"
  by (auto simp: editors_ok_def on_K_def on_K1_def)

lemma editors_ok_updates [simp]:
  "editors_ok (t\<lparr>templateContent := x1\<rparr>) = editors_ok t" "editors_ok (t\<lparr>phoneContent := x2\<rparr>) = editors_ok t"
  "editors_ok (t\<lparr>c_header := y1\<rparr>) = editors_ok t" "editors_ok (t\<lparr>c_footer := y2\<rparr>) = editors_ok t"
  "editors_ok (t\<lparr>c_phHeader := y3\<rparr>) = editors_ok t" "editors_ok (t\<lparr>c_phFooter := y4\<rparr>) = editors_ok t"
  by (simp_all add: editors_ok_def)

lemma text_blocks_ok [simp]:
  "editors_ok (addHeader h t) = editors_ok t" "editors_ok (delHeader t) = editors_ok t"
  "editors_ok (addFooter h t) = editors_ok t" "editors_ok (delFooter t) = editors_ok t"
  "editors_ok (addHeaderPhone h t) = editors_ok t" "editors_ok (delHeaderPhone t) = editors_ok t"
  "editors_ok (addFooterPhone h t) = editors_ok t" "editors_ok (delFooterPhone t) = editors_ok t"
  by (simp_all add: addHeader_def delHeader_def addFooter_def delFooter_def addHeaderPhone_def
      delHeaderPhone_def addFooterPhone_def delFooterPhone_def)

lemma switches_ok:
  assumes "editors_ok t"
  shows "\<exists>v. pageHeader_click E url c t = Some v \<and> editors_ok v"
    "\<exists>v. pageFooter_click E url c t = Some v \<and> editors_ok v"
    "\<exists>v. pagePhoneHeader_click E url c t = Some v \<and> editors_ok v"
    "\<exists>v. pagePhoneFooter_click E url c t = Some v \<and> editors_ok v"
  using assms
  by (simp_all add: on_K_ok pageHeader_click_def pageFooter_click_def pagePhoneHeader_click_def
      pagePhoneFooter_click_def Let_def)

lemma changeModel_ok:
  assumes "editors_ok t" and "ty = WYSIWYG \<or> eModel t = WYSIWYG \<or> ty = eModel t"
  shows "\<exists>v. changeModel E ty t = Some v \<and> editors_ok v"
  using assms by (auto simp: changeModel_def editors_ok_def Let_def split: option.splits)

lemma ph_changeModel_ok:
  assumes "editors_ok t" and "ty = WYSIWYG \<or> eModelPhone t = WYSIWYG \<or> ty = eModelPhone t"
  shows "\<exists>v. ph_changeModel E ty t = Some v \<and> editors_ok v"
  using assms by (auto simp: ph_changeModel_def editors_ok_def Let_def split: option.splits)

lemma insert_ok:
  assumes "editors_ok t"
  shows "\<exists>v. insert_prop E s t = Some v \<and> editors_ok v" "\<exists>v. insertPhone E s t = Some v \<and> editors_ok v"
  using assms on_K_ok(1) [of t "ed_insert E s"] on_K_ok(2) [of t "ed_insert E s"]
  by (simp_all add: insert_prop_def insertPhone_def)

lemma hasPrama_ok: "editors_ok t \<Longrightarrow> hasPrama ps t \<noteq> None \<and> hasPramaPhone ps t \<noteq> None"
  by (auto simp: hasPrama_def hasPramaPhone_def editors_ok_def)

subsection \<open>Lemmas: the pattern of a variable in a link\<close>

lemma match_lit_i_iff: "q \<in> set (match_at n (lit_i p) s) \<longleftrightarrow> (\<exists>m. s = m @ q \<and> eq_i p m)"
proof
  assume "q \<in> set (match_at n (lit_i p) s)"
  then show "\<exists>m. s = m @ q \<and> eq_i p m"
    by (intro exI [of _ "take (length p) s"]) (auto simp: match_lit_i split: if_splits)
next
  assume "\<exists>m. s = m @ q \<and> eq_i p m"
  then obtain m where m: "s = m @ q" "eq_i p m" by blast
  then have "length m = length p" unfolding eq_i_def by (metis length_map)
  with m show "q \<in> set (match_at n (lit_i p) s)" by (simp add: match_lit_i)
qed

lemma match_lit_iff: "q \<in> set (match_at n (lit p) s) \<longleftrightarrow> s = p @ q"
  by (auto simp: match_lit prefix_def)

lemma match_dots: "q \<in> set (match_at n (Star dot) s) \<longleftrightarrow> (\<exists>p. s = p @ q \<and> (\<forall>c \<in> set p. \<not> line_end c))"
  unfolding dot_def match_Star_Chr by (simp add: line_end_def)

text \<open>A link or source attribute, quoted, that holds the variable on one line.\<close>

definition at_param :: "string \<Rightarrow> nat \<Rightarrow> jstring \<Rightarrow> jstring \<Rightarrow> bool" where
  "at_param attr q str t \<longleftrightarrow> (\<exists>d x m y r. t = d @ x @ 36 # m @ 36 # y @ q # r
     \<and> eq_i (js attr @ [61, q]) d \<and> eq_i str m \<and> (\<forall>z \<in> set x. \<not> line_end z) \<and> (\<forall>z \<in> set y. \<not> line_end z))"

definition param_in :: "string \<Rightarrow> nat \<Rightarrow> jstring \<Rightarrow> jstring \<Rightarrow> bool" where
  "param_in attr q str k \<longleftrightarrow> (\<exists>a t. k = a @ t \<and> at_param attr q str t)"

lemma match_attr: "match_at n (re_attr str attr q) t \<noteq> [] \<longleftrightarrow> at_param attr q str t"
proof -
  have "r \<in> set (match_at n (re_attr str attr q) t) \<longleftrightarrow>
      (\<exists>d x m y. t = d @ x @ 36 # m @ 36 # y @ q # r \<and> eq_i (js attr @ [61, q]) d \<and> eq_i str m
        \<and> (\<forall>z \<in> set x. \<not> line_end z) \<and> (\<forall>z \<in> set y. \<not> line_end z))" for r
    unfolding re_attr_def match_Seq match_lit_i_iff match_lit_iff match_dots Bex_def
    by auto (metis append_Cons append_Nil)+
  moreover have "xs \<noteq> [] \<longleftrightarrow> (\<exists>r. r \<in> set xs)" for xs :: "jstring list"
    by (metis ex_in_conv set_empty)
  ultimately show ?thesis unfolding at_param_def by (metis (no_types, lifting))
qed

lemma re_param_iff:
  "re_test (re_param str) k \<longleftrightarrow>
     param_in ''href'' 34 str k \<or> param_in ''href'' 39 str k \<or> param_in ''src'' 34 str k \<or> param_in ''src'' 39 str k"
  unfolding re_test_iff re_param_def match_at.simps(4) append_is_Nil_conv de_Morgan_conj match_attr param_in_def
  by blast

subsection \<open>Properties\<close>


definition text_page :: "jstring \<Rightarrow> tmpl_page" where
  "text_page s = ui.extend page0 (tmpl_page.fields (js ''TEXT'') (js ''TEXT'') None None
     \<lparr>ta_value = s, ta_sel = Some (0, 0)\<rparr> \<lparr>ta_value = [], ta_sel = Some (0, 0)\<rparr> (js ''TEXT'') (js ''TEXT'')
     False False False False (js ''UTF8'') (js ''UTF8'') None True True False False None None [] [] [] [] [] [] [])"

definition plain_editor :: editor_api where
  "plain_editor = \<lparr>ed_html = (\<lambda>s. s), ed_insert = (\<lambda>s k. s @ k), ed_prepend = (\<lambda>s k. s @ k),
     ed_append = (\<lambda>s k. k @ s), ed_remove = (\<lambda>i k. k)\<rparr>"

lemma text_page_fields [simp]:
  "eModel (text_page s) = js ''TEXT''" "eModelPhone (text_page s) = js ''TEXT''" "ed_K (text_page s) = None"
  "ed_K1 (text_page s) = None" "ta_value (templateContent (text_page s)) = s" "editors_ok (text_page s)"
  by (simp_all add: text_page_def page0_def ui.defs tmpl_page.defs editors_ok_def WYSIWYG_def)


text \<open>Going to the visual editor and back to text keeps the template, for an editor that, once
  emptied, holds what is inserted.\<close>

lemma changeModel_roundtrip:
  assumes "eModel t = js ''TEXT''" and "\<And>s. ed_insert E s (ed_html E []) = s"
  shows "\<exists>v w. changeModel E WYSIWYG t = Some v \<and> changeModel E (js ''TEXT'') v = Some w
    \<and> eModel w = eModel t \<and> ta_value (templateContent w) = ta_value (templateContent t)"
  using assms by (simp add: changeModel_def WYSIWYG_def Let_def set_ta_def)

text \<open>The page warns about variables in links exactly when a quoted \<open>href\<close> or \<open>src\<close>
  attribute, in upper or lower case, has one of the variables between its quotes on one line.\<close>

lemma has_param_iff:
  "has_param prop_list k \<longleftrightarrow> (\<exists>p \<in> set prop_list. \<exists>attr \<in> {''href'', ''src''}. \<exists>q \<in> {34, 39}.
     param_in attr q (filter (\<lambda>c. c \<noteq> 36) (fst p)) k)"
  unfolding has_param_def list_ex_iff re_param_iff by auto

text \<open>Switching the encoding twice gives back the first encoding, and after each switch the
  template in text mode is the stored text of the encoding shown.\<close>

lemma changeTempCode_toggles:
  assumes "codeResource t = Some (u8, gb)" and "eModel t \<noteq> WYSIWYG" and "codeModel t \<in> {js ''UTF8'', js ''GB2312''}"
  shows "\<exists>v w. changeTempCode E t = Some v \<and> changeTempCode E v = Some w
    \<and> codeModel v \<noteq> codeModel t \<and> codeModel w = codeModel t
    \<and> ta_value (templateContent v) = (if codeModel v = js ''UTF8'' then u8 else gb)
    \<and> ta_value (templateContent w) = (if codeModel t = js ''UTF8'' then u8 else gb)"
  using assms by (auto simp: changeTempCode_def Let_def set_ta_def)

end
