(* ===== verification/Trigger.thy ===== *)
theory Trigger
  imports Template
begin

text \<open>
  Touch links of a template: the multiple choice of \<open>static/js/common/Mselect.js\<close> and the
  trigger settings at the end of \<open>static/js/mailing.template.common.js\<close>. Each table of the
  settings is a \<open>trig_row\<close>. The links of a template come from the browser's parser: \<open>anchors\<close>
  gives, for each \<open>a\<close> element of a text, whether it is inside the page header or footer, and its
  \<open>href\<close> (empty when it has none).
\<close>

record trig_row =
  tr_no :: nat
  tr_text :: jstring
  tr_value :: jstring
  tr_sub :: "row list"
  tr_subtext :: jstring
  tr_subid :: jstring
  tr_time :: jstring
  tr_subject :: jstring

record trig_page = tmpl_page +
  t_rows :: "trig_row list"
  trig_list :: "jstring list"
  trig_num :: nat
  init_trig_num :: nat
  t_category :: jstring
  t_err :: jstring
  t_cmt :: jstring

subsection \<open>Multiple choice of links\<close>

definition count_msg :: "nat \<Rightarrow> jstring" where
  "count_msg n = [0x5DF2, 0x9009, 0x4E2D] @ nat_to_str n @ [0x4E2A, 0x9009, 0x9879, 0xFF01]"

text \<open>For each entry of the data, once for every equal part of the value.\<close>

definition picked :: "jstring list \<Rightarrow> (jstring \<times> jstring) list \<Rightarrow> (jstring \<times> jstring) list" where
  "picked selfIdArr json = concat (map (\<lambda>it. map (\<lambda>s. it) (filter (\<lambda>s. s = fst it) selfIdArr)) json)"

definition clear_inputs :: "trig_row \<Rightarrow> trig_row" where
  "clear_inputs r = r\<lparr>tr_text := [], tr_value := [], tr_subtext := [], tr_subid := [], tr_time := [],
     tr_subject := []\<rparr>"

text \<open>
  The search for an entry with the same id in \<open>subArr\<close> reads the property \<open>id\<close> of an array,
  which is undefined, so the row is always added.
\<close>

definition mselect_init :: "(jstring \<times> jstring) list \<Rightarrow> trig_row \<Rightarrow> trig_row" where
  "mselect_init json r =
     (let tempArr = map fst (picked (split_chr 44 (tr_value r)) json);
          r = r\<lparr>tr_value := join (js '','') tempArr\<rparr>;
          selfIdArr = split_chr 44 (tr_value r);
          r = (if length tempArr < 1 then clear_inputs r else r);
          found = picked selfIdArr json;
          r = r\<lparr>tr_sub := tr_sub r @ map (\<lambda>(i, title). [JStr i, JStr title]) found\<rparr>
      in if length found > 0 then r\<lparr>tr_text := count_msg (length found)\<rparr> else r\<lparr>tr_text := []\<rparr>)"

definition links :: "jstring list \<Rightarrow> (jstring \<times> jstring) list" where
  "links hrefs = map (\<lambda>h. (h, h)) hrefs"

text \<open>The list of a choice: entries of other tables are left out, own entries are checked.\<close>

definition out_str :: "jstring list list \<Rightarrow> jstring" where
  "out_str parts = js '','' @ join (js '','') (concat parts) @ js '',''"

definition option_html :: "jstring \<Rightarrow> bool \<Rightarrow> jstring \<times> jstring \<Rightarrow> jstring" where
  "option_html fn checked it =
     (if checked
      then js ''<li class=\"selected\"><label>'' @ js ''<input type=\"checkbox\" name=\"trigchecks\" checked onclick=\"''
             @ fn @ js '';\">''
      else js ''<li><label>'' @ js ''<input type=\"checkbox\" name=\"trigchecks\" onclick=\"'' @ fn @ js '';\">'')
     @ js ''<span  title=\"'' @ snd it @ js ''\"'' @ js '' data-id=\"'' @ fst it @ js ''\"'' @ js ''>'' @ snd it
     @ js ''</span>'' @ js ''</label></li>''"

definition createSelect :: "(jstring \<times> jstring) list \<Rightarrow> jstring \<Rightarrow> trig_row list \<Rightarrow> nat \<Rightarrow> jstring \<Rightarrow> jstring" where
  "createSelect json fn rows own value =
     (let outCateStr = out_str (map (\<lambda>r. split_chr 44 (tr_value r)) (filter (\<lambda>r. tr_no r \<noteq> own) rows));
          selfIdStr = out_str [split_chr 44 value]
      in if length json > 0
         then js ''<ul class='' @ [39] @ js ''ul_result'' @ [39] @ js ''>''
              @ concat (map (\<lambda>it. if indexOf outCateStr (js '','' @ fst it @ js '','') > -1 then []
                   else option_html fn (indexOf selfIdStr (js '','' @ fst it @ js '','') > -1) it) json)
              @ js ''</ul>''
         else js ''<p class='' @ [39] @ js ''center'' @ [39] @ js ''>'' @ [0x6682, 0x65E0, 0x9009, 0x9879, 0xFF01] @ js ''</p>'')"

definition getTrig :: "(jstring \<times> jstring) list \<Rightarrow> jstring \<Rightarrow> bool \<Rightarrow> trig_row \<Rightarrow> trig_row" where
  "getTrig json i checked r =
     (let valArr = split_chr 44 (tr_value r);
          valArr = (if checked then valArr @ [i] else splice_scan (\<lambda>v. v = i) valArr)
      in mselect_init json (r\<lparr>tr_value := join (js '','') valArr\<rparr>))"

subsection \<open>The links of the template\<close>

fun href_loop :: "(bool \<times> jstring) list \<Rightarrow> jstring list \<Rightarrow> jstring list" where
  "href_loop [] tempArr = tempArr"
| "href_loop ((inside, href) # r) tempArr =
     (if inside then href_loop r tempArr
      else if href \<in> set tempArr then href_loop r tempArr
      else if indexOf href (js ''http'') > -1 then href_loop r (tempArr @ [href])
      else href_loop r tempArr)"

text \<open>In text mode an editor is made for the call and removed again.\<close>

definition getHrefList ::
  "editor_api \<Rightarrow> (jstring \<Rightarrow> (bool \<times> jstring) list) \<Rightarrow> 'a trig_page_scheme
     \<Rightarrow> ('a trig_page_scheme \<times> jstring list) option" where
  "getHrefList E anchors t =
     (if eModel t = WYSIWYG
      then (case ed_K t of
              None \<Rightarrow> None
            | Some k \<Rightarrow> (let tempArr = href_loop (anchors k) [] in Some (t\<lparr>trig_list := tempArr\<rparr>, tempArr)))
      else
        (let k = ed_insert E (ta_value (templateContent t)) (ed_html E []);
             tempArr = href_loop (anchors k) []
         in Some (t\<lparr>trig_list := tempArr, ed_K := None\<rparr>, tempArr)))"

subsection \<open>Checking the settings\<close>

definition special_chars :: "nat set" where
  "special_chars = {39, 33, 0x2026, 34, 35, 36, 37, 38, 94, 42}"

definition bad_time :: "jstring \<Rightarrow> bool" where
  "bad_time v \<longleftrightarrow> \<not> re_test (Seq digit (upto_more 2 digit)) v \<or> str_lt v 0 \<or> str_gt v 120
     \<or> indexOf v (js ''.'') > -1"

text \<open>The first check of a table that fails: its message and the element that gets the focus.\<close>

definition row_error :: "trig_row \<Rightarrow> (jstring \<times> jstring option) option" where
  "row_error r =
     (if tr_value r = [] then Some ([0x8BF7, 0x9009, 0x62E9, 0x89E6, 0x70B9, 0x94FE, 0x63A5, 0xFF01], Some (js ''trig_list''))
      else if tr_subtext r = [] then Some ([0x8BF7, 0x9009, 0x62E9, 0x5B50, 0x6A21, 0x677F, 0xFF01], Some (js ''subtemp_list''))
      else if bad_time (tr_time r) then Some ([0x89E6, 0x53D1, 0x6295, 0x9012, 0x65F6, 0x95F4, 0x8BF7, 0x8F93, 0x5165, 0x30, 0x2D, 0x31, 0x32, 0x30, 0x7684, 0x6574, 0x6570], Some (js ''trig_time''))
      else if tr_subject r = [] then Some ([0x8BF7, 0x586B, 0x5199, 0x90AE, 0x4EF6, 0x4E3B, 0x9898], Some (js ''trig_sub''))
      else if re_test (Chr (\<lambda>c. c \<in> special_chars)) (tr_subject r)
      then Some ([0x90AE, 0x4EF6, 0x4E3B, 0x9898, 0x6709, 0x7279, 0x6B8A, 0x5B57, 0x7B26], None)
      else None)"

fun first_error :: "trig_row list \<Rightarrow> (jstring \<times> jstring option) option" where
  "first_error [] = None"
| "first_error (r # rs) = (case row_error r of None \<Rightarrow> first_error rs | Some e \<Rightarrow> Some e)"

definition testTrig :: "browser \<Rightarrow> 'a trig_page_scheme \<Rightarrow> 'a trig_page_scheme \<times> bool" where
  "testTrig b t =
     (case first_error (t_rows t) of
        Some (msg, foc) \<Rightarrow>
          ((case foc of Some k \<Rightarrow> focus_el k (t\<lparr>t_err := msg\<rparr>) | None \<Rightarrow> t\<lparr>t_err := msg\<rparr>), False)
      | None \<Rightarrow>
          ((if shown t (js ''#tempSetting'') then closeDialog b t else t)\<lparr>t_err := []\<rparr>, True))"

definition yes_button :: jstring where
  "yes_button = [0x3C, 0x69, 0x6E, 0x70, 0x75, 0x74, 0x20, 0x63, 0x6C, 0x61, 0x73, 0x73, 0x3D, 0x22, 0x69, 0x6E, 0x70, 0x75, 0x74, 0x5F, 0x79, 0x65, 0x73, 0x22, 0x20, 0x74, 0x79, 0x70, 0x65, 0x3D, 0x22, 0x62, 0x75, 0x74, 0x74, 0x6F, 0x6E, 0x22, 0x20, 0x76, 0x61, 0x6C, 0x75, 0x65, 0x3D, 0x22, 0x7EE7, 0x7EED, 0x63D0, 0x4EA4, 0x22, 0x20, 0x6F, 0x6E, 0x63, 0x6C, 0x69, 0x63, 0x6B, 0x3D, 0x22, 0x63, 0x6C, 0x6F, 0x73, 0x65, 0x44, 0x69, 0x61, 0x6C, 0x6F, 0x67, 0x28, 0x29, 0x3B, 0x24, 0x28, 0x27, 0x23, 0x61, 0x64, 0x64, 0x27, 0x29, 0x2E, 0x73, 0x75, 0x62, 0x6D, 0x69, 0x74, 0x28, 0x29, 0x3B, 0x22, 0x20, 0x2F, 0x3E]"

definition set_button :: jstring where
  "set_button = [0x3C, 0x69, 0x6E, 0x70, 0x75, 0x74, 0x20, 0x63, 0x6C, 0x61, 0x73, 0x73, 0x3D, 0x22, 0x69, 0x6E, 0x70, 0x75, 0x74, 0x5F, 0x6E, 0x6F, 0x22, 0x20, 0x74, 0x79, 0x70, 0x65, 0x3D, 0x22, 0x62, 0x75, 0x74, 0x74, 0x6F, 0x6E, 0x22, 0x20, 0x76, 0x61, 0x6C, 0x75, 0x65, 0x3D, 0x22, 0x89E6, 0x53D1, 0x8BBE, 0x7F6E, 0x22, 0x20, 0x6F, 0x6E, 0x63, 0x6C, 0x69, 0x63, 0x6B, 0x3D, 0x22, 0x63, 0x6C, 0x6F, 0x73, 0x65, 0x44, 0x69, 0x61, 0x6C, 0x6F, 0x67, 0x28, 0x29, 0x3B, 0x6F, 0x70, 0x65, 0x6E, 0x50, 0x6F, 0x70, 0x28, 0x30, 0x2C, 0x30, 0x2C, 0x27, 0x23, 0x74, 0x65, 0x6D, 0x70, 0x53, 0x65, 0x74, 0x74, 0x69, 0x6E, 0x67, 0x27, 0x29, 0x3B, 0x22, 0x20, 0x2F, 0x3E]"

definition dead_html :: "jstring list \<Rightarrow> jstring" where
  "dead_html errorHref = [0x3C, 0x64, 0x69, 0x76, 0x20, 0x73, 0x74, 0x79, 0x6C, 0x65, 0x3D, 0x27, 0x74, 0x65, 0x78, 0x74, 0x2D, 0x61, 0x6C, 0x69, 0x67, 0x6E, 0x3A, 0x6C, 0x65, 0x66, 0x74, 0x3B, 0x70, 0x61, 0x64, 0x64, 0x69, 0x6E, 0x67, 0x3A, 0x30, 0x20, 0x35, 0x70, 0x78, 0x3B, 0x27, 0x3E, 0x4EE5, 0x4E0B, 0x8BBE, 0x7F6E, 0x7684, 0x89E6, 0x70B9, 0x94FE, 0x63A5, 0x5728, 0x6A21, 0x677F, 0x4E2D, 0x5DF2, 0x88AB, 0x5220, 0x9664, 0xFF1A, 0x3C, 0x64, 0x69, 0x76, 0x20, 0x63, 0x6C, 0x61, 0x73, 0x73, 0x3D, 0x27, 0x65, 0x72, 0x72, 0x5F, 0x62, 0x6F, 0x78, 0x27, 0x3E]
     @ join (js ''<p></p>'') errorHref @ js ''</div></div>''"

definition warn :: "browser \<Rightarrow> jstring \<Rightarrow> jstring \<Rightarrow> 'a trig_page_scheme \<Rightarrow> 'a trig_page_scheme" where
  "warn b text buttons t = del_loading b [] ((popTips b (js ''#remindTrig'') text t)\<lparr>t_cmt := buttons\<rparr>)"

definition trigger_plan :: jstring where
  "trigger_plan = [0x89E6, 0x53D1, 0x8BA1, 0x5212]"

definition compareHref ::
  "browser \<Rightarrow> editor_api \<Rightarrow> (jstring \<Rightarrow> (bool \<times> jstring) list) \<Rightarrow> bool \<Rightarrow> 'a trig_page_scheme
     \<Rightarrow> ('a trig_page_scheme \<times> bool) option" where
  "compareHref b E anchors opening t =
     (if t_category t = trigger_plan then Some (t, True)
      else
        (let initHrefs = concat (map (\<lambda>r. if tr_value r \<noteq> [] then split_chr 44 (tr_value r) else []) (t_rows t))
         in case getHrefList E anchors t of
              None \<Rightarrow> None
            | Some (t, tempArr) \<Rightarrow>
                (let t = t\<lparr>t_rows := map (mselect_init (links (trig_list t))) (t_rows t)\<rparr>;
                     errorHref = filter (\<lambda>h. h \<notin> set tempArr) initHrefs;
                     err_html = dead_html errorHref;
                     both = yes_button @ js ''&nbsp;'' @ set_button
                 in if opening
                    then (if errorHref \<noteq> [] then Some (warn b err_html set_button t, False)
                          else Some (openPop_box b (js ''#tempSetting'') t, True))
                    else if init_trig_num t = 0
                    then (if errorHref \<noteq> [] then Some (warn b err_html both t, False) else Some (t, True))
                    else if errorHref \<noteq> []
                    then (let t = popTips b (js ''#remindTrig'') err_html t; (t, ok) = testTrig b t
                          in Some (del_loading b [] (t\<lparr>t_cmt := (if ok then both else set_button)\<rparr>), False))
                    else (let (t, ok) = testTrig b t
                          in if \<not> ok
                             then Some (warn b [0x4FEE, 0x6539, 0x89E6, 0x53D1, 0x6A21, 0x677F, 0x5FC5, 0x987B, 0x5305, 0x542B, 0x81F3, 0x5C11, 0x4E00, 0x4E2A, 0x89E6, 0x53D1, 0x94FE, 0x63A5, 0xFF01] set_button t, False)
                             else Some (t, True)))))"

definition openTrigPad ::
  "browser \<Rightarrow> editor_api \<Rightarrow> (jstring \<Rightarrow> (bool \<times> jstring) list) \<Rightarrow> 'a trig_page_scheme
     \<Rightarrow> 'a trig_page_scheme option" where
  "openTrigPad b E anchors t =
     (case getHrefList E anchors t of
        None \<Rightarrow> None
      | Some (t, tempArr) \<Rightarrow>
          if trig_list t = [] then Some (fail_message b [0x6A21, 0x677F, 0x4E2D, 0x6CA1, 0x6709, 0x53EF, 0x7528, 0x94FE, 0x63A5, 0xFF01] t)
          else map_option fst (compareHref b E anchors True t))"

definition switchTrig :: "'a trig_page_scheme \<Rightarrow> 'a trig_page_scheme" where
  "switchTrig t = (if t_category t = trigger_plan then hide_el (js ''.J_notrig_area'') t
     else show_el (js ''.J_notrig_area'') t)"

subsection \<open>Adding and removing tables\<close>

definition empty_row :: "nat \<Rightarrow> trig_row" where
  "empty_row n = \<lparr>tr_no = n, tr_text = [], tr_value = [], tr_sub = [], tr_subtext = [], tr_subid = [],
     tr_time = [], tr_subject = []\<rparr>"

text \<open>The new table is appended and its multiple choice initialised.\<close>

definition add_trig :: "'a trig_page_scheme \<Rightarrow> 'a trig_page_scheme" where
  "add_trig t = t\<lparr>t_rows := t_rows t @ [mselect_init (links (trig_list t)) (empty_row (trig_num t))],
     trig_num := Suc (trig_num t)\<rparr>"

definition del_trig :: "nat \<Rightarrow> 'a trig_page_scheme \<Rightarrow> 'a trig_page_scheme" where
  "del_trig n t = t\<lparr>t_rows := filter (\<lambda>r. tr_no r \<noteq> n) (t_rows t)\<rparr>"

record subtemp =
  st_id :: jsval
  st_title :: jstring
  st_subject :: jstring

definition getSubject :: "subtemp list \<Rightarrow> anchor \<Rightarrow> trig_row \<Rightarrow> trig_row" where
  "getSubject subtemp_list a r =
     (let r = r\<lparr>tr_subtext := an_text a, tr_subid := (case an_id a of Some s \<Rightarrow> s | None \<Rightarrow> [])\<rparr>
      in fold (\<lambda>s r. if js_eq (st_id s) (JStr (tr_subid r)) then r\<lparr>tr_subject := st_subject s\<rparr> else r)
           subtemp_list r)"

text \<open>Sub-templates that other tables use are hidden from the list of a table.\<close>

definition outSubTemp :: "nat \<Rightarrow> trig_row list \<Rightarrow> jstring list \<Rightarrow> jstring list" where
  "outSubTemp own rows titles =
     (let outCate = map tr_subtext (filter (\<lambda>r. tr_no r \<noteq> own \<and> tr_subtext r \<noteq> []) rows)
      in filter (\<lambda>ti. ti \<notin> set outCate) titles)"

text \<open>The dialog itself closes 300 ms later, \<open>closeDialog\<close>.\<close>

definition cancleTrig :: "'a trig_page_scheme \<Rightarrow> 'a trig_page_scheme" where
  "cancleTrig t =
     (let t = t\<lparr>t_rows := map (\<lambda>r. mselect_init (links (trig_list t)) (r\<lparr>tr_value := []\<rparr>)) (t_rows t)\<rparr>
      in t\<lparr>t_rows := take 1 (t_rows t), t_err := []\<rparr>)"

subsection \<open>Saving the template\<close>

definition personal_clash :: "bool \<Rightarrow> jstring option \<Rightarrow> bool \<times> bool" where
  "personal_clash flag cusType =
     ((flag = True \<and> cusType = Some (js ''false'')) \<or> (flag = True \<and> cusType \<noteq> Some (js ''true'')),
      flag = False \<and> cusType = Some (js ''true''))"

definition tempSubmit_click ::
  "browser \<Rightarrow> editor_api \<Rightarrow> (jstring \<Rightarrow> (bool \<times> jstring) list) \<Rightarrow> (jstring \<times> jstring) list
     \<Rightarrow> 'a trig_page_scheme \<Rightarrow> ('a trig_page_scheme \<times> bool) option" where
  "tempSubmit_click b E anchors prop_list t =
     (case hasPrama prop_list t of
        None \<Rightarrow> None
      | Some flag \<Rightarrow>
          if fst (personal_clash flag (personal t))
          then Some (popTips b (js ''#remindParam'') [0x50, 0x43, 0x6A21, 0x677F, 0x7684, 0x94FE, 0x63A5, 0x542B, 0x6709, 0x53D8, 0x91CF, 0xFF0C, 0x53EF, 0x80FD, 0x5BFC, 0x81F4, 0x94FE, 0x63A5, 0x5931, 0x5E38, 0xFF0C, 0x8BBE, 0x7F6E, 0x94FE, 0x63A5, 0x4E2A, 0x6027, 0x5316, 0xFF1F] t, False)
          else if snd (personal_clash flag (personal t))
          then Some (popTips b (js ''#remindParam'') [0x50, 0x43, 0x6A21, 0x677F, 0x7684, 0x94FE, 0x63A5, 0x6CA1, 0x6709, 0x53EF, 0x66FF, 0x6362, 0x7684, 0x53D8, 0x91CF, 0xFF0C, 0x94FE, 0x63A5, 0x4E2A, 0x6027, 0x5316, 0x4F1A, 0x5931, 0x6548, 0xFF0C, 0x53D6, 0x6D88, 0x94FE, 0x63A5, 0x4E2A, 0x6027, 0x5316, 0xFF1F] t, False)
          else
            (let check = (if js_eq (JStr (joinPhone t)) (JInt 1) then hasPramaPhone prop_list t else Some False);
                 phone = (if js_eq (JStr (joinPhone t)) (JInt 1) then phonePersonal t else None)
             in case check of
                  None \<Rightarrow> None
                | Some phoneFlag \<Rightarrow>
                    if fst (personal_clash phoneFlag phone)
                    then Some (popTips b (js ''#remindParam'') [0x50, 0x48, 0x4F, 0x4E, 0x45, 0x6A21, 0x677F, 0x7684, 0x94FE, 0x63A5, 0x542B, 0x6709, 0x53D8, 0x91CF, 0xFF0C, 0x53EF, 0x80FD, 0x5BFC, 0x81F4, 0x94FE, 0x63A5, 0x5931, 0x5E38, 0xFF0C, 0x8BBE, 0x7F6E, 0x94FE, 0x63A5, 0x4E2A, 0x6027, 0x5316, 0xFF1F] t, False)
                    else if snd (personal_clash phoneFlag phone)
                    then Some (popTips b (js ''#remindParam'') [0x50, 0x48, 0x4F, 0x4E, 0x45, 0x6A21, 0x677F, 0x7684, 0x94FE, 0x63A5, 0x6CA1, 0x6709, 0x53EF, 0x66FF, 0x6362, 0x7684, 0x53D8, 0x91CF, 0xFF0C, 0x94FE, 0x63A5, 0x4E2A, 0x6027, 0x5316, 0x4F1A, 0x5931, 0x6548, 0xFF0C, 0x53D6, 0x6D88, 0x94FE, 0x63A5, 0x4E2A, 0x6027, 0x5316, 0xFF1F] t, False)
                    else (case getHrefList E anchors t of
                            None \<Rightarrow> None
                          | Some (t, _) \<Rightarrow> compareHref b E anchors False t)))"

subsection \<open>Lemmas: the links of the template\<close>

definition link_of :: "(bool \<times> jstring) \<Rightarrow> bool" where
  "link_of a \<longleftrightarrow> \<not> fst a \<and> sublist (js ''http'') (snd a)"

lemma indexOf_found: "indexOf s p > -1 \<longleftrightarrow> sublist p s"
  using indexOf_nonneg [of s p] by linarith

lemma href_loop_facts:
  "set (href_loop as acc) = set acc \<union> snd ` set (filter link_of as)"
  "distinct acc \<Longrightarrow> distinct (href_loop as acc)"
proof (induction as acc rule: href_loop.induct)
  case (2 inside href r tempArr)
  {
    case 1
    from "2.IH" show ?case by (cases inside; cases "href \<in> set tempArr"; cases "sublist (js ''http'') href")
        (simp_all add: link_of_def indexOf_found, blast+)
  next
    case 2
    with "2.IH" show ?case by (simp add: indexOf_found)
  }
qed simp_all

lemma getHrefList_facts:
  assumes "getHrefList E anchors t = Some (v, hs)"
  shows "trig_list v = hs" "distinct hs" "t_rows v = t_rows t" "t_category v = t_category t"
    "init_trig_num v = init_trig_num t" "templateContent v = templateContent t" "eModel v = eModel t"
    "set hs = snd ` set (filter link_of (anchors (if eModel t = WYSIWYG then the (ed_K t)
        else ed_insert E (ta_value (templateContent t)) (ed_html E []))))"
proof -
  have "trig_list v = hs \<and> distinct hs \<and> t_rows v = t_rows t \<and> t_category v = t_category t
    \<and> init_trig_num v = init_trig_num t \<and> templateContent v = templateContent t \<and> eModel v = eModel t
    \<and> set hs = snd ` set (filter link_of (anchors (if eModel t = WYSIWYG then the (ed_K t)
        else ed_insert E (ta_value (templateContent t)) (ed_html E []))))"
    using assms href_loop_facts [of _ "[]"]
    by (cases "eModel t = WYSIWYG"; cases "ed_K t") (auto simp: getHrefList_def Let_def href_loop_facts(2) simp del: set_filter)
  then show "trig_list v = hs" "distinct hs" "t_rows v = t_rows t" "t_category v = t_category t"
    "init_trig_num v = init_trig_num t" "templateContent v = templateContent t" "eModel v = eModel t"
    "set hs = snd ` set (filter link_of (anchors (if eModel t = WYSIWYG then the (ed_K t)
        else ed_insert E (ta_value (templateContent t)) (ed_html E []))))"
    by blast+
qed

subsection \<open>Lemmas: the multiple choice\<close>

lemma set_picked: "set (map fst (picked vs json)) = set vs \<inter> fst ` set json"
  by (auto simp: picked_def)

lemma picked_distinct:
  assumes "distinct vs"
  shows "picked vs json = filter (\<lambda>it. fst it \<in> set vs) json"
proof -
  have "map (\<lambda>s. it) (filter (\<lambda>s. s = fst it) vs) = (if fst it \<in> set vs then [it] else [])" for it :: "jstring \<times> jstring"
  proof -
    have "length (filter (\<lambda>s. s = fst it) vs) = (if fst it \<in> set vs then 1 else 0)"
      using assms length_filter_distinct [of id vs "fst it"] by simp
    then show ?thesis by (cases "filter (\<lambda>s. s = fst it) vs") (auto split: if_splits)
  qed
  then show ?thesis unfolding picked_def by (induction json) auto
qed

lemma fst_links [simp]: "fst ` set (links hs) = set hs" "map fst (links hs) = hs"
  by (auto simp: links_def comp_def image_iff)

text \<open>The kept parts of a value: those that are links, in the order of the template.\<close>

definition kept :: "jstring list \<Rightarrow> trig_row \<Rightarrow> jstring list" where
  "kept hs r = map fst (picked (split_chr 44 (tr_value r)) (links hs))"

lemma mselect_init_value:
  "tr_value (mselect_init (links hs) r) = join [44] (kept hs r)"
  "kept hs r = [] \<Longrightarrow> tr_subtext (mselect_init (links hs) r) = [] \<and> tr_time (mselect_init (links hs) r) = []
     \<and> tr_subject (mselect_init (links hs) r) = []"
  by (auto simp: mselect_init_def kept_def clear_inputs_def Let_def js_def)

lemma kept_links: "set (kept hs r) = set (split_chr 44 (tr_value r)) \<inter> set hs"
  using set_picked [of "split_chr 44 (tr_value r)" "links hs"] by (simp only: kept_def fst_links)

lemma mselect_init_links:
  assumes "\<forall>h \<in> set hs. 44 \<notin> set h" and "tr_value (mselect_init (links hs) r) \<noteq> []"
  shows "set (split_chr 44 (tr_value (mselect_init (links hs) r))) \<subseteq> set hs"
proof -
  have "kept hs r \<noteq> []" using assms(2) by (auto simp: mselect_init_value)
  moreover have "\<forall>x \<in> set (kept hs r). 44 \<notin> set x" using assms(1) by (auto simp: kept_links)
  ultimately have "split_chr 44 (join [44] (kept hs r)) = kept hs r" by (rule split_join)
  then show ?thesis by (auto simp: mselect_init_value kept_links)
qed

lemma kept_idem:
  assumes "\<forall>h \<in> set hs. 44 \<notin> set h \<and> h \<noteq> []" and "distinct (split_chr 44 (tr_value r))" and "distinct hs"
  shows "tr_value (mselect_init (links hs) (mselect_init (links hs) r)) = tr_value (mselect_init (links hs) r)"
proof (cases "kept hs r = []")
  case True
  then have "tr_value (mselect_init (links hs) r) = []" by (simp add: mselect_init_value)
  then have "set (kept hs (mselect_init (links hs) r)) = {}" using assms(1) by (auto simp: kept_links)
  then show ?thesis using True by (simp add: mselect_init_value)
next
  case False
  let ?k = "kept hs r"
  have k: "?k = filter (\<lambda>h. h \<in> set (split_chr 44 (tr_value r))) hs"
    using assms(2) by (simp add: kept_def picked_distinct links_def filter_map comp_def)
  have sp: "split_chr 44 (join [44] ?k) = ?k" using False assms(1) by (intro split_join) (auto simp: kept_links)
  have "kept hs (mselect_init (links hs) r) = map fst (picked ?k (links hs))"
    by (simp add: kept_def [of hs "mselect_init (links hs) r"] mselect_init_value sp)
  also have "\<dots> = filter (\<lambda>h. h \<in> set ?k) hs"
    using assms(3) k by (subst picked_distinct) (auto simp: links_def filter_map comp_def)
  also have "\<dots> = ?k" unfolding k by (rule filter_cong) auto
  finally show ?thesis by (simp add: mselect_init_value)
qed

subsection \<open>Lemmas: what a choice offers\<close>

lemma sublist_skip: "c \<notin> set x \<Longrightarrow> sublist (c # p) (x @ rest) \<longleftrightarrow> sublist (c # p) rest"
  by (induction x) (auto simp: sublist_Cons_right)

lemma prefix_sep:
  assumes "c \<notin> set i" and "c \<notin> set x"
  shows "prefix (i @ [c]) (x @ c # r) \<longleftrightarrow> i = x"
proof
  assume "prefix (i @ [c]) (x @ c # r)"
  then obtain z where "x @ c # r = i @ c # z" by (auto simp: prefix_def)
  then show "i = x" using first_sep [of c x i r z] assms by simp
qed (auto simp: prefix_def)

lemma comma_member:
  assumes "44 \<notin> set i" and "\<forall>x \<in> set xs. 44 \<notin> set x" and "xs \<noteq> []"
  shows "sublist (44 # i @ [44]) (44 # join [44] xs @ [44]) \<longleftrightarrow> i \<in> set xs"
  using assms(2,3)
proof (induction xs)
  case (Cons x xs)
  define rest where "rest = (if xs = [] then [] else join [44] xs @ [44])"
  have e: "44 # join [44] (x # xs) @ [44] = 44 # x @ 44 # rest"
    by (cases "xs = []") (simp_all add: rest_def join_Cons)
  have "sublist (44 # i @ [44]) (44 # x @ 44 # rest) \<longleftrightarrow> i = x \<or> sublist (44 # i @ [44]) (44 # rest)"
    using prefix_sep [OF assms(1), of x rest] sublist_skip [of 44 x "i @ [44]" "44 # rest"] Cons.prems
    by (simp add: sublist_Cons_right [of _ 44 "x @ 44 # rest"])
  moreover have "sublist (44 # i @ [44]) (44 # rest) \<longleftrightarrow> i \<in> set xs"
  proof (cases "xs = []")
    case True
    then have "\<not> sublist (44 # i @ [44]) (44 # rest)"
      using sublist_length_le [of "44 # i @ [44]" "44 # rest"] by (auto simp: rest_def)
    with True show ?thesis by simp
  next
    case False
    with Cons show ?thesis by (simp add: rest_def)
  qed
  ultimately show ?case unfolding e by auto
qed simp

lemma out_str_member:
  assumes "44 \<notin> set i" and "concat parts \<noteq> []" and "\<forall>x \<in> set (concat parts). 44 \<notin> set x"
  shows "indexOf (out_str parts) (js '','' @ i @ js '','') > -1 \<longleftrightarrow> i \<in> set (concat parts)"
proof -
  have "js '','' = [44]" by (simp add: js_def)
  then show ?thesis unfolding indexOf_found out_str_def using comma_member [OF assms(1,3,2)] by simp
qed

text \<open>The links a table may still choose: those that no other table has.\<close>

definition taken :: "trig_row list \<Rightarrow> nat \<Rightarrow> jstring set" where
  "taken rows own = (\<Union>r \<in> {r \<in> set rows. tr_no r \<noteq> own}. set (split_chr 44 (tr_value r)))"

lemma out_taken:
  assumes "44 \<notin> set i" and "i \<noteq> []"
  shows "indexOf (out_str (map (\<lambda>r. split_chr 44 (tr_value r)) (filter (\<lambda>r. tr_no r \<noteq> own) rows)))
      (js '','' @ i @ js '','') > -1 \<longleftrightarrow> i \<in> taken rows own"
proof (cases "filter (\<lambda>r. tr_no r \<noteq> own) rows = []")
  case True
  have "\<not> sublist (44 # i @ [44]) [44, 44]"
    using assms(2) sublist_length_le [of "44 # i @ [44]" "[44, 44]"] by (cases i) auto
  moreover have "taken rows own = {}" using True by (auto simp: taken_def filter_empty_conv)
  ultimately show ?thesis using True by (simp add: indexOf_found out_str_def js_def)
next
  case False
  let ?parts = "map (\<lambda>r. split_chr 44 (tr_value r)) (filter (\<lambda>r. tr_no r \<noteq> own) rows)"
  have "concat ?parts \<noteq> []" using False by (auto simp: filter_empty_conv)
  moreover have "\<forall>x \<in> set (concat ?parts). 44 \<notin> set x" by (auto dest: split_chr_no_sep)
  moreover have "set (concat ?parts) = taken rows own" by (simp add: taken_def)
  ultimately show ?thesis using out_str_member [OF assms(1), of ?parts] by metis
qed

lemma own_taken:
  "44 \<notin> set i \<Longrightarrow> indexOf (out_str [split_chr 44 v]) (js '','' @ i @ js '','') > -1 \<longleftrightarrow> i \<in> set (split_chr 44 v)"
  using out_str_member [of i "[split_chr 44 v]"] by (auto dest: split_chr_no_sep)

lemma concat_map_if: "concat (map (\<lambda>x. if P x then [] else g x) xs) = concat (map g (filter (\<lambda>x. \<not> P x) xs))"
  by (induction xs) auto

lemma createSelect_eq:
  assumes "hs \<noteq> []" and "\<forall>h \<in> set hs. 44 \<notin> set h \<and> h \<noteq> []"
  shows "createSelect (links hs) fn rows own v =
    js ''<ul class='' @ [39] @ js ''ul_result'' @ [39] @ js ''>''
    @ concat (map (\<lambda>h. option_html fn (h \<in> set (split_chr 44 v)) (h, h)) (filter (\<lambda>h. h \<notin> taken rows own) hs))
    @ js ''</ul>''"
proof -
  let ?A = "\<lambda>h. indexOf (out_str (map (\<lambda>r. split_chr 44 (tr_value r)) (filter (\<lambda>r. tr_no r \<noteq> own) rows)))
      (js '','' @ h @ js '','') > -1"
  let ?B = "\<lambda>h. indexOf (out_str [split_chr 44 v]) (js '','' @ h @ js '','') > -1"
  have A: "?A h \<longleftrightarrow> h \<in> taken rows own" if "h \<in> set hs" for h
    by (rule out_taken) (use assms(2) that in auto)
  have B: "?B h \<longleftrightarrow> h \<in> set (split_chr 44 v)" if "h \<in> set hs" for h
    by (rule own_taken) (use assms(2) that in auto)
  have "concat (map (\<lambda>it. if ?A (fst it) then [] else option_html fn (?B (fst it)) it) (links hs))
      = concat (map (\<lambda>h. if ?A h then [] else option_html fn (?B h) (h, h)) hs)"
    unfolding links_def map_map comp_def by (simp only: fst_conv)
  also have "\<dots> = concat (map (\<lambda>h. if h \<in> taken rows own then [] else option_html fn (h \<in> set (split_chr 44 v)) (h, h)) hs)"
    by (intro arg_cong [where f = concat] map_cong refl) (simp only: A B)
  also have "\<dots> = concat (map (\<lambda>h. option_html fn (h \<in> set (split_chr 44 v)) (h, h)) (filter (\<lambda>h. h \<notin> taken rows own) hs))"
    by (rule concat_map_if)
  finally have *: "concat (map (\<lambda>it. if ?A (fst it) then [] else option_html fn (?B (fst it)) it) (links hs))
      = concat (map (\<lambda>h. option_html fn (h \<in> set (split_chr 44 v)) (h, h)) (filter (\<lambda>h. h \<notin> taken rows own) hs))" .
  have "length (links hs) > 0" using assms(1) by (simp add: links_def)
  then show ?thesis unfolding createSelect_def Let_def * by (simp only: if_True simp_thms)
qed

subsection \<open>Lemmas: checking the settings\<close>

lemma re_test_Chr: "re_test (Chr P) s \<longleftrightarrow> (\<exists>c \<in> set s. P c)"
proof
  assume "re_test (Chr P) s"
  then obtain a t where "s = a @ t" "match_at (length s) (Chr P) t \<noteq> []" by (auto simp: re_test_iff)
  then show "\<exists>c \<in> set s. P c" by (cases t) (auto split: if_splits)
next
  assume "\<exists>c \<in> set s. P c"
  then obtain c a b where "P c" "s = a @ c # b" by (metis in_set_conv_decomp)
  then have "s = a @ c # b \<and> match_at (length s) (Chr P) (c # b) \<noteq> []" by simp
  then show "re_test (Chr P) s" unfolding re_test_iff by blast
qed

definition row_valid :: "trig_row \<Rightarrow> bool" where
  "row_valid r \<longleftrightarrow> tr_value r \<noteq> [] \<and> tr_subtext r \<noteq> [] \<and> \<not> bad_time (tr_time r) \<and> tr_subject r \<noteq> []
     \<and> set (tr_subject r) \<inter> special_chars = {}"

lemma row_error_None: "row_error r = None \<longleftrightarrow> row_valid r"
  by (auto simp: row_error_def row_valid_def re_test_Chr)

lemma first_error_None: "first_error rs = None \<longleftrightarrow> (\<forall>r \<in> set rs. row_valid r)"
  by (induction rs) (auto simp: row_error_None [symmetric] split: option.splits)

lemma first_error_eq: "first_error rs = (case find (\<lambda>r. \<not> row_valid r) rs of None \<Rightarrow> None | Some r \<Rightarrow> row_error r)"
proof (induction rs)
  case (Cons r rs)
  then show ?case by (cases "row_error r") (auto simp: row_error_None [symmetric])
qed simp

lemma first_digit_test: "s \<noteq> [] \<Longrightarrow> is_digit (hd s) \<Longrightarrow> re_test (Seq digit (upto_more 2 digit)) s"
proof -
  assume a: "s \<noteq> []" "is_digit (hd s)"
  have "q \<in> set (match_at n (upto_more k e) q)" for n k e q by (cases k) auto
  moreover have "tl s \<in> set (match_at n digit s)" for n
    using a by (cases s) (auto simp: digit_def is_digit_def)
  ultimately have "tl s \<in> set (match_at (length s) (Seq digit (upto_more 2 digit)) s)" unfolding match_Seq by blast
  then have "match_at (length s) (Seq digit (upto_more 2 digit)) s \<noteq> []" by (metis empty_iff empty_set)
  then show ?thesis unfolding re_test_iff by (metis append_Nil)
qed

lemma bad_time_nat: "bad_time (nat_to_str n) \<longleftrightarrow> 120 < n"
proof -
  have "nat_to_str n = int_to_str (int n)" by (simp add: int_to_str_def)
  then have num: "to_number (nat_to_str n) = Fin (of_nat n)"
    using to_number_int_to_str [of "int n"] by simp
  have "\<not> sublist (js ''.'') (nat_to_str n)"
    using nat_to_str_digits [of n] by (auto simp: js_def is_digit_def)
  moreover have "re_test (Seq digit (upto_more 2 digit)) (nat_to_str n)"
    using hd_nat_to_str(1) by (intro first_digit_test) auto
  ultimately show ?thesis by (simp add: bad_time_def str_lt_def str_gt_def num indexOf_found)
qed

lemma trig_fields_more:
  assumes "ui.more v = ui.more u"
  shows "t_rows v = t_rows u" "trig_list v = trig_list u"
  using assms by (cases u; cases v; simp)+

lemma pop_rows [simp]:
  "t_rows (popTips b k m t) = t_rows t" "t_rows (del_loading b k t) = t_rows t"
  "trig_list (popTips b k m t) = trig_list t" "trig_list (del_loading b k t) = trig_list t"
proof -
  have "ui.more (popTips b k m u) = ui.more u" for u :: "'z ui_scheme"
    by (simp add: popTips_def openPop_box_def place_box_def openCover_def set_html_def show_el_def Let_def)
  then show "t_rows (popTips b k m t) = t_rows t" "trig_list (popTips b k m t) = trig_list t"
    using trig_fields_more by blast+
  show "t_rows (del_loading b k t) = t_rows t" "trig_list (del_loading b k t) = trig_list t"
    using trig_fields_more [OF loading_simps(20)] by blast+
qed

lemma testTrig_fields [simp]:
  "t_rows (fst (testTrig b t)) = t_rows t" "snd (testTrig b t) \<longleftrightarrow> (\<forall>r \<in> set (t_rows t). row_valid r)"
  by (auto simp: testTrig_def focus_el_def closeDialog_def first_error_None [symmetric] split: option.splits)

lemma warn_fields [simp]: "t_rows (warn b s k t) = t_rows t" "loading_bgs (warn b s k t) = 0"
  by (simp_all add: warn_def)

definition init_hrefs :: "'a trig_page_scheme \<Rightarrow> jstring list" where
  "init_hrefs t = concat (map (\<lambda>r. if tr_value r \<noteq> [] then split_chr 44 (tr_value r) else []) (t_rows t))"

lemma compareHref_submit:
  assumes g: "getHrefList E anchors t = Some (t1, hs)" and c: "t_category t \<noteq> trigger_plan"
    and rows: "rows = map (mselect_init (links hs)) (t_rows t)"
  shows "\<exists>v ok. compareHref b E anchors False t = Some (v, ok) \<and> t_rows v = rows \<and> (\<not> ok \<longrightarrow> loading_bgs v = 0)
    \<and> (ok \<longleftrightarrow> set (init_hrefs t) \<subseteq> set hs \<and> (init_trig_num t = 0 \<or> (\<forall>r \<in> set rows. row_valid r)))"
proof -
  note f = getHrefList_facts [OF g]
  define t2 where "t2 = t1\<lparr>t_rows := rows\<rparr>"
  have t2: "t_rows t2 = rows" "init_trig_num t2 = init_trig_num t" using f by (simp_all add: t2_def)
  have r: "map (mselect_init (links (trig_list t1))) (t_rows t1) = rows" using f rows by simp
  let ?err = "filter (\<lambda>h. h \<notin> set hs) (init_hrefs t)"
  have e: "?err = [] \<longleftrightarrow> set (init_hrefs t) \<subseteq> set hs" by (auto simp: filter_empty_conv)
  obtain v1 o1 where v1: "testTrig b t2 = (v1, o1)" by (cases "testTrig b t2")
  obtain v2 o2 where v2: "testTrig b (popTips b (js ''#remindTrig'') (dead_html ?err) t2) = (v2, o2)"
    by (cases "testTrig b (popTips b (js ''#remindTrig'') (dead_html ?err) t2)")
  have k1: "t_rows v1 = rows" "o1 \<longleftrightarrow> (\<forall>r \<in> set rows. row_valid r)"
    using testTrig_fields [of b t2] v1 t2 by simp_all
  have k2: "t_rows v2 = rows"
    using testTrig_fields(1) [of b "popTips b (js ''#remindTrig'') (dead_html ?err) t2"] v2 t2 by simp
  show ?thesis
    unfolding compareHref_def init_hrefs_def [symmetric] Let_def
    using c g r k1 k2 v1 v2 t2 e f(5) by (simp add: t2_def [symmetric])
qed

subsection \<open>Properties\<close>

definition trig_page0 :: "jstring \<Rightarrow> trig_row list \<Rightarrow> trig_page" where
  "trig_page0 s rows = tmpl_page.extend (tmpl_page.truncate (text_page s)) (trig_page.fields rows [] 1 0 [] [] [])"

lemma trig_page0_fields [simp]:
  "eModel (trig_page0 s rows) = js ''TEXT''" "ta_value (templateContent (trig_page0 s rows)) = s"
  "t_rows (trig_page0 s rows) = rows" "t_category (trig_page0 s rows) = []"
  "init_trig_num (trig_page0 s rows) = 0"
  by (simp_all add: trig_page0_def text_page_def page0_def ui.defs tmpl_page.defs trig_page.defs)

text \<open>The links offered as touch points are those of the template outside its header and
  footer that contain \<open>http\<close>, each once; asking for them changes neither the text nor the
  settings.\<close>

lemma getHrefList_collects:
  assumes "getHrefList E anchors t = Some (v, hs)"
  shows "trig_list v = hs \<and> distinct hs \<and> t_rows v = t_rows t \<and> templateContent v = templateContent t
    \<and> set hs = snd ` set (filter link_of (anchors (if eModel t = WYSIWYG then the (ed_K t)
        else ed_insert E (ta_value (templateContent t)) (ed_html E []))))"
  using getHrefList_facts [OF assms] by blast

text \<open>Refreshing a table keeps of its links exactly those that the template still has, empties
  the whole table when none is left, and a second refresh changes nothing more.\<close>

lemma mselect_init_keeps_live_links:
  assumes "\<forall>h \<in> set hs. 44 \<notin> set h \<and> h \<noteq> []" and "distinct hs" and "distinct (split_chr 44 (tr_value r))"
  shows "tr_value (mselect_init (links hs) r) = join [44] (filter (\<lambda>h. h \<in> set (split_chr 44 (tr_value r))) hs)
    \<and> (filter (\<lambda>h. h \<in> set (split_chr 44 (tr_value r))) hs = [] \<longrightarrow>
        tr_subtext (mselect_init (links hs) r) = [] \<and> tr_subject (mselect_init (links hs) r) = [])
    \<and> tr_value (mselect_init (links hs) (mselect_init (links hs) r)) = tr_value (mselect_init (links hs) r)"
proof -
  have "kept hs r = filter (\<lambda>h. h \<in> set (split_chr 44 (tr_value r))) hs"
    using assms(3) by (simp add: kept_def picked_distinct links_def filter_map comp_def)
  then show ?thesis using kept_idem [OF assms(1,3,2)] mselect_init_value [of hs r] by simp
qed

text \<open>A list of touch links offers exactly the links that no other table has, checked where the
  table itself has them.\<close>

lemma createSelect_offers_free_links:
  assumes "hs \<noteq> []" and "\<forall>h \<in> set hs. 44 \<notin> set h \<and> h \<noteq> []"
  shows "createSelect (links hs) fn rows own v =
    js ''<ul class='' @ [39] @ js ''ul_result'' @ [39] @ js ''>''
    @ concat (map (\<lambda>h. option_html fn (h \<in> set (split_chr 44 v)) (h, h)) (filter (\<lambda>h. h \<notin> taken rows own) hs))
    @ js ''</ul>''"
  using assms by (rule createSelect_eq)

text \<open>C27: The settings are accepted exactly when every table has a link, a sub-template, an allowed
  time and a subject without special characters; otherwise the message is that of the first table
  that fails. A time written as a number is allowed up to 120 minutes.\<close>

theorem testTrig_accepts_valid:
  "(snd (testTrig b t) \<longleftrightarrow> (\<forall>r \<in> set (t_rows t). row_valid r))
   \<and> t_err (fst (testTrig b t)) = (case find (\<lambda>r. \<not> row_valid r) (t_rows t) of
        None \<Rightarrow> [] | Some r \<Rightarrow> fst (the (row_error r)))
   \<and> (bad_time (nat_to_str n) \<longleftrightarrow> 120 < n)"
proof -
  have "t_err (fst (testTrig b t)) = (case find (\<lambda>r. \<not> row_valid r) (t_rows t) of
        None \<Rightarrow> [] | Some r \<Rightarrow> fst (the (row_error r)))"
  proof (cases "find (\<lambda>r. \<not> row_valid r) (t_rows t)")
    case (Some r)
    then have "row_error r \<noteq> None" by (auto simp: find_Some_iff row_error_None)
    then obtain m k where "row_error r = Some (m, k)" by auto
    with Some show ?thesis
      by (cases k) (simp_all add: testTrig_def first_error_eq focus_el_def)
  qed (simp add: testTrig_def first_error_eq)
  then show ?thesis by (simp add: bad_time_nat)
qed

theorem testTrig_accepts_valid_witness: "\<not> snd (testTrig browser0 (trig_page0 [] [empty_row 1]))"
  using testTrig_accepts_valid [of browser0 "trig_page0 [] [empty_row 1]" 0]
  by (simp add: row_valid_def empty_row_def)



end
