(* ===== verification/Layout.thy ===== *)
theory Layout
  imports Ui
begin

text \<open>
  Where the pages put a box next to its field: \<open>posfix\<close> of
  \<open>static/js/common/jquery.edm.search.js\<close> and of \<open>Mselect.js\<close>, \<open>openSlideBox\<close> of
  \<open>base.js\<close> and \<open>openTips\<close>. All take the field and the sizes in pixels; \<open>None\<close> is
  \<open>auto\<close>.
\<close>

record geometry =
  g_top :: rat
  g_left :: rat
  g_srcWidth :: rat
  g_srcHeight :: rat
  g_boxWidth :: rat
  g_boxHeight :: rat
  g_winHeight :: rat

record place =
  pl_left :: rat
  pl_top :: "rat option"
  pl_bottom :: "rat option"
  pl_result :: "rat option"  \<comment> \<open>height of the result list\<close>

definition posfix :: "geometry \<Rightarrow> place" where
  "posfix g =
     (let otherHeight = 85
      in if g_winHeight g - g_top g - g_srcHeight g > g_boxHeight g
         then \<lparr>pl_left = g_left g, pl_top = Some (g_top g + g_srcHeight g), pl_bottom = None, pl_result = None\<rparr>
         else if g_winHeight g - g_top g - g_srcHeight g - otherHeight > 70
         then \<lparr>pl_left = g_left g, pl_top = Some (g_top g + g_srcHeight g), pl_bottom = None,
               pl_result = Some (g_winHeight g - g_top g - g_srcHeight g - otherHeight)\<rparr>
         else if g_top g > g_boxHeight g
         then \<lparr>pl_left = g_left g, pl_top = None, pl_bottom = Some (g_winHeight g - g_top g), pl_result = None\<rparr>
         else \<lparr>pl_left = g_left g, pl_top = Some 0, pl_bottom = None, pl_result = None\<rparr>)"

definition mselect_posfix :: "geometry \<Rightarrow> place" where
  "mselect_posfix g =
     (if g_winHeight g - g_top g - g_srcHeight g > g_boxHeight g
      then \<lparr>pl_left = g_left g, pl_top = Some (g_top g + g_srcHeight g), pl_bottom = None, pl_result = None\<rparr>
      else if g_top g > g_boxHeight g
      then \<lparr>pl_left = g_left g, pl_top = None, pl_bottom = Some (g_winHeight g - g_top g), pl_result = None\<rparr>
      else \<lparr>pl_left = g_left g, pl_top = Some 0, pl_bottom = None, pl_result = None\<rparr>)"

text \<open>\<open>openSlideBox\<close>; \<open>g_top\<close> is the position of the input, the code's \<open>top\<close> its lower edge.\<close>

definition openSlideBox :: "geometry \<Rightarrow> rat \<Rightarrow> jstring \<Rightarrow> place" where
  "openSlideBox g spac xdirct =
     (let low = g_top g + g_srcHeight g;
          x = (if xdirct = js ''right'' then g_left g - (g_boxWidth g - g_srcWidth g) else g_left g)
      in if g_winHeight g - low > g_boxHeight g
         then \<lparr>pl_left = x, pl_top = Some (low + spac), pl_bottom = None, pl_result = None\<rparr>
         else \<lparr>pl_left = x, pl_top = None, pl_bottom = Some (g_winHeight g - low + spac + g_srcHeight g),
               pl_result = None\<rparr>)"

subsection \<open>Tips with an arrow\<close>

datatype tip_kind = Global_tips | Slide_info | Other_box

record tip =
  tp_place :: place
  tp_arrow :: "jstring option"  \<comment> \<open>the class put on the arrow; \<open>None\<close>: left as it is\<close>
  tp_content :: jstring

definition arrow_for :: "tip_kind \<Rightarrow> string \<Rightarrow> string \<Rightarrow> jstring option" where
  "arrow_for k glob slide =
     (case k of Global_tips \<Rightarrow> Some (js glob) | Slide_info \<Rightarrow> Some (js slide) | Other_box \<Rightarrow> None)"

definition global_arrow :: "tip_kind \<Rightarrow> string \<Rightarrow> jstring option" where
  "global_arrow k glob = (if k = Global_tips then Some (js glob) else None)"

definition below :: "geometry \<Rightarrow> rat \<Rightarrow> place" where
  "below g spac = \<lparr>pl_left = g_left g, pl_top = Some (g_top g + g_srcHeight g + spac), pl_bottom = None,
     pl_result = None\<rparr>"

definition beside :: "geometry \<Rightarrow> rat \<Rightarrow> place" where
  "beside g spac = \<lparr>pl_left = g_left g + g_srcWidth g + spac,
     pl_top = Some (g_top g + g_srcHeight g / 2 - g_boxHeight g / 2), pl_bottom = None, pl_result = None\<rparr>"

definition openTips :: "geometry \<Rightarrow> tip_kind \<Rightarrow> jstring \<Rightarrow> rat \<Rightarrow> jstring \<Rightarrow> tip \<Rightarrow> tip" where
  "openTips g k dirct spac content tip =
     (let spac = (if spac \<noteq> 0 then spac else 5);
          tip = (if content \<noteq> [] then tip\<lparr>tp_content := content\<rparr> else tip);
          put = (\<lambda>pl a. tip\<lparr>tp_place := pl, tp_arrow := (case a of None \<Rightarrow> tp_arrow tip | Some _ \<Rightarrow> a)\<rparr>);
          room = g_winHeight g - g_top g - g_srcHeight g > g_boxHeight g + spac
      in if dirct = [] \<or> dirct = js ''auto''
         then if room then put (below g spac) (arrow_for k ''top'' ''aTopLeft'')
              else if g_top g > g_boxHeight g + spac
              then put \<lparr>pl_left = g_left g, pl_top = None, pl_bottom = Some (g_winHeight g - g_top g + spac),
                        pl_result = None\<rparr> (arrow_for k ''bottom'' ''aBottomLeft'')
              else put (beside g spac) (arrow_for k ''rightcenter'' ''aMiddleLeft'')
         else if dirct = js ''left''
         then if room then put (beside g spac) (global_arrow k ''rightm'')
              else if g_top g < g_boxHeight g / 2
              then put \<lparr>pl_left = g_left g + g_srcWidth g + spac, pl_top = Some (g_top g), pl_bottom = None,
                        pl_result = None\<rparr> (global_arrow k ''right'')
              else put \<lparr>pl_left = g_left g + g_srcWidth g + spac, pl_top = None,
                        pl_bottom = Some (g_winHeight g - g_top g - g_srcHeight g + spac), pl_result = None\<rparr>
                     (global_arrow k ''rightb'')
         else if dirct = js ''top'' then put (below g spac) (arrow_for k ''top'' ''aTopLeft'')
         else tip)"

subsection \<open>What a placement promises\<close>

text \<open>The rows of the window a box covers; a shortened box has \<open>chrome\<close> around its list.\<close>

definition covered :: "geometry \<Rightarrow> rat \<Rightarrow> place \<Rightarrow> rat \<times> rat" where
  "covered g chrome pl =
     (let h = (case pl_result pl of Some r \<Rightarrow> r + chrome | None \<Rightarrow> g_boxHeight g)
      in case pl_top pl of Some t \<Rightarrow> (t, t + h)
         | None \<Rightarrow> (g_winHeight g - the (pl_bottom pl) - h, g_winHeight g - the (pl_bottom pl)))"

definition seen_beside :: "geometry \<Rightarrow> rat \<Rightarrow> place \<Rightarrow> bool" where
  "seen_beside g chrome pl \<longleftrightarrow>
     (case covered g chrome pl of (a, b) \<Rightarrow>
        0 \<le> a \<and> b \<le> g_winHeight g \<and> (a \<ge> g_top g + g_srcHeight g \<or> b \<le> g_top g))"

definition on_screen :: "geometry \<Rightarrow> bool" where
  "on_screen g \<longleftrightarrow> 0 \<le> g_top g \<and> 0 \<le> g_srcHeight g \<and> 0 \<le> g_boxHeight g
     \<and> g_top g + g_srcHeight g \<le> g_winHeight g"

text \<open>
  A drop-down is placed by a function that shows the whole box without covering the field
  wherever the window has room for it above or below the field.
\<close>

locale dropdown =
  fixes put :: "geometry \<Rightarrow> place" and chrome :: rat
  assumes fits: "on_screen g \<Longrightarrow>
      g_boxHeight g < g_winHeight g - g_top g - g_srcHeight g \<or> g_boxHeight g < g_top g \<Longrightarrow>
      seen_beside g chrome (put g)"
    and left_edge: "pl_left (put g) = g_left g"
begin

lemma aligned_and_seen:
  assumes "on_screen g" and "2 * g_boxHeight g + g_srcHeight g < g_winHeight g"
  shows "seen_beside g chrome (put g) \<and> pl_left (put g) = g_left g"
proof -
  have "g_boxHeight g < g_winHeight g - g_top g - g_srcHeight g \<or> g_boxHeight g < g_top g"
    using assms(2) by linarith
  with assms(1) show ?thesis by (simp add: fits left_edge)
qed

end

interpretation search_box: dropdown posfix 85
  by unfold_locales (auto simp: on_screen_def posfix_def seen_beside_def covered_def Let_def)

interpretation mselect_box: dropdown mselect_posfix 0
  by unfold_locales (auto simp: on_screen_def mselect_posfix_def seen_beside_def covered_def Let_def)

lemma openTips_auto_place:
  "tp_place (openTips g k (js ''auto'') 0 content tip) =
     (if g_winHeight g - g_top g - g_srcHeight g > g_boxHeight g + 5 then below g 5
      else if g_top g > g_boxHeight g + 5
      then \<lparr>pl_left = g_left g, pl_top = None, pl_bottom = Some (g_winHeight g - g_top g + 5), pl_result = None\<rparr>
      else beside g 5)"
  by (simp add: openTips_def Let_def)

lemma openTips_auto_seen:
  assumes "on_screen g"
    and "g_boxHeight g + 5 < g_winHeight g - g_top g - g_srcHeight g \<or> g_boxHeight g + 5 < g_top g"
  shows "seen_beside g 0 (tp_place (openTips g k (js ''auto'') 0 content tip))"
  using assms unfolding openTips_auto_place
  by (auto simp: on_screen_def seen_beside_def covered_def below_def)

lemma openSlideBox_seen:
  assumes "on_screen g" and "g_boxHeight g \<le> g_top g"
  shows "seen_beside g 0 (openSlideBox g 0 xdirct)"
  using assms by (auto simp: on_screen_def openSlideBox_def seen_beside_def covered_def Let_def)

subsection \<open>Properties\<close>



end
