(* ===== verification/Import.thy ===== *)
theory Import
  imports Forms
begin

text \<open>
  Importing recipients: \<open>static/js/datasource.selection.import.js\<close>, \<open>step.2.import.js\<close>, the check
  of \<open>step.2.js\<close>, and the extra properties of one recipient in \<open>datasource.recipient.add.js\<close>.

  A column of the file, or a row of extra properties, is a slot with a drop-down: the hidden id
  and the text shown. The properties not yet chosen are in the pool \<open>props\<close>; a choice takes an
  entry from the pool and puts the old one back, so that the menus of the other slots offer
  exactly what is left.
\<close>

type_synonym entry = "jstring \<times> jstring"

record pool_page = ui +
  props :: "entry list"
  orig_props :: "entry list"
  slots :: "entry list"
  menus :: "jstring list"
  len :: nat
  total :: nat

definition please_choose :: jstring where
  "please_choose = [0x8BF7, 0x9009, 0x62E9]"

definition chosen_text :: "jstring \<Rightarrow> bool" where
  "chosen_text s \<longleftrightarrow> s \<noteq> [] \<and> s \<noteq> please_choose"

text \<open>The menu of slot \<open>i\<close>; \<open>fn\<close> is the function its entries call.\<close>

definition menu_html :: "jstring \<Rightarrow> nat \<Rightarrow> entry list \<Rightarrow> jstring" where
  "menu_html fn i ps = js ''<ul>''
     @ concat (map (\<lambda>(v, tx). js ''<li><a hidefocus=\"true\" onclick=\"'' @ fn @ js ''('' @ [39] @ js ''#prop_'' @ nat_to_str i
         @ [39] @ js '','' @ [39] @ v @ [39] @ js '','' @ [39] @ js ''#prop_list_'' @ nat_to_str i @ [39] @ js '',''
         @ [39] @ tx @ [39] @ js '')\" href=\"javascript:void(0)\">'' @ tx @ js ''</a></li>'') ps)
     @ js ''</ul>''"

definition all_menus :: "jstring \<Rightarrow> nat \<Rightarrow> entry list \<Rightarrow> jstring list" where
  "all_menus fn n ps = map (\<lambda>i. menu_html fn i ps) [0..<n]"

subsection \<open>Choosing a property for a slot\<close>

text \<open>Put the old entry back, take the new one out: the first half of \<open>im_repeat\<close>, \<open>repeat\<close> and
  \<open>del_prop\<close>.\<close>

definition give_back :: "entry \<Rightarrow> entry list \<Rightarrow> entry list" where
  "give_back old ps = (if chosen_text (snd old) then ps @ [old] else ps)"

definition take_out :: "jstring \<Rightarrow> entry list \<Rightarrow> entry list" where
  "take_out val_click ps = splice_scan (\<lambda>p. snd p = val_click \<and> val_click \<noteq> please_choose) ps"

definition slot_at :: "nat \<Rightarrow> 'a pool_page_scheme \<Rightarrow> entry" where
  "slot_at i s = (if i < length (slots s) then slots s ! i else ([], []))"

definition choose_prop ::
  "jstring \<Rightarrow> nat \<Rightarrow> jstring \<Rightarrow> jstring \<Rightarrow> 'a pool_page_scheme \<Rightarrow> 'a pool_page_scheme" where
  "choose_prop fn i val_hide val_click s =
     (let s = s\<lparr>props := give_back (slot_at i s) (props s)\<rparr>;
          s = s\<lparr>props := take_out val_click (props s)\<rparr>;
          s = s\<lparr>menus := all_menus fn (len s) (props s)\<rparr>;
          s = s\<lparr>slots := (slots s)[i := (val_hide, val_click)]\<rparr>
      in hide_el (js ''.select_div'') (s\<lparr>select_id := []\<rparr>))"

definition im_repeat ::
  "nat \<Rightarrow> jstring \<Rightarrow> jstring \<Rightarrow> 'a pool_page_scheme \<Rightarrow> 'a pool_page_scheme" where
  "im_repeat i val_hide val_click s = choose_prop (js ''im_repeat'') i val_hide val_click s"

definition repeat_prop ::
  "nat \<Rightarrow> jstring \<Rightarrow> jstring \<Rightarrow> 'a pool_page_scheme \<Rightarrow> 'a pool_page_scheme" where
  "repeat_prop i val_hide val_click s = choose_prop (js ''repeat'') i val_hide val_click s"

definition import_props_list :: "'a pool_page_scheme \<Rightarrow> 'a pool_page_scheme" where
  "import_props_list s =
     (let s = s\<lparr>len := length (slots s)\<rparr> in s\<lparr>menus := all_menus (js ''im_repeat'') (len s) (props s)\<rparr>)"

definition props_list :: "'a pool_page_scheme \<Rightarrow> 'a pool_page_scheme" where
  "props_list s =
     (let s = s\<lparr>len := length (slots s)\<rparr>; s = s\<lparr>total := len s + length (props s)\<rparr>
      in s\<lparr>menus := all_menus (js ''repeat'') (len s) (props s)\<rparr>)"

definition add_prop :: "browser \<Rightarrow> 'a pool_page_scheme \<Rightarrow> 'a pool_page_scheme" where
  "add_prop b s =
     (if len s + 1 \<ge> total s
      then fail_message b ([0x81EA, 0x5B9A, 0x4E49, 0x4FE1, 0x606F, 0x4E0D, 0x80FD, 0x591A, 0x4E8E] @ int_to_str (int (total s) - 1) @ [0x4E2A]) s
      else s\<lparr>slots := slots s @ [([], please_choose)],
             menus := menus s @ [menu_html (js ''repeat'') (len s) (props s)], len := len s + 1\<rparr>)"

text \<open>The remaining rows are renumbered, so the slots close up.\<close>

definition del_prop :: "nat \<Rightarrow> 'a pool_page_scheme \<Rightarrow> 'a pool_page_scheme" where
  "del_prop i s =
     (let s = s\<lparr>props := give_back (slot_at i s) (props s)\<rparr>;
          s = s\<lparr>len := len s - 1\<rparr>;
          s = s\<lparr>slots := splice1 i (slots s)\<rparr>
      in s\<lparr>menus := all_menus (js ''repeat'') (len s) (props s)\<rparr>)"

subsection \<open>The preview of a file\<close>

record file_data =
  GB2312 :: "jstring list"
  UTF8 :: "jstring list"

definition part_text :: "jstring list \<Rightarrow> nat \<Rightarrow> jstring" where
  "part_text ps i = (if i < length ps then ps ! i else js ''undefined'')"

definition column_html :: "jstring \<Rightarrow> jstring \<Rightarrow> nat \<Rightarrow> jstring" where
  "column_html titles previews i =
     (let ti = part_text (split_chr 44 titles) i; pr = part_text (split_chr 44 previews) i
      in js ''<li class=\"item_'' @ nat_to_str i @ js ''\">'' @ js ''<div class=\"data_prop\">''
         @ js ''<a style=\"width:110px\" class=\"a_select\" id=\"prop_list_'' @ nat_to_str i @ js ''\">'' @ please_choose @ js ''</a>''
         @ js ''<input type=\"hidden\" value=\"\" name=\"prop_'' @ nat_to_str i @ js ''\" id=\"prop_'' @ nat_to_str i @ js ''\" />''
         @ js ''<input type=\"hidden\" value=\"'' @ ti @ js ''\" name=\"parameter_'' @ nat_to_str i @ js ''\">''
         @ js ''</div>''
         @ js ''<div class=\"data_title\" title=\"'' @ ti @ js ''\">'' @ ti @ js ''</div>''
         @ js ''<div class=\"data_preview\" title=\"'' @ pr @ js ''\">'' @ pr @ js ''</div>'' @ js ''</li>'')"

text \<open>A width is set and the height left as it is (0 when it is automatic).\<close>

definition set_width :: "jstring \<Rightarrow> int \<Rightarrow> 'a ui_scheme \<Rightarrow> 'a ui_scheme" where
  "set_width k w u =
     u\<lparr>sized := (sized u)(k := Some (w, case sized u k of Some (_, h) \<Rightarrow> h | None \<Rightarrow> 0))\<rparr>"

text \<open>A file of fewer than two lines has no line to preview: the access raises, \<open>None\<close>.\<close>

definition showChar ::
  "jstring \<Rightarrow> file_data option \<Rightarrow> 'a pool_page_scheme \<Rightarrow> 'a pool_page_scheme option" where
  "showChar charset fileData s =
     (case fileData of
        None \<Rightarrow> Some s
      | Some d \<Rightarrow>
          (case (if charset = js ''GB2312'' then GB2312 d else UTF8 d) of
             titles # previews # _ \<Rightarrow>
               (let n = length (split_chr 44 titles);
                    head = [0x3C, 0x6C, 0x69, 0x20, 0x73, 0x74, 0x79, 0x6C, 0x65, 0x3D, 0x22, 0x77, 0x69, 0x64, 0x74, 0x68, 0x3A, 0x31, 0x30, 0x30, 0x70, 0x78, 0x3B, 0x22, 0x3E, 0x3C, 0x64, 0x69, 0x76, 0x20, 0x63, 0x6C, 0x61, 0x73, 0x73, 0x3D, 0x22, 0x64, 0x61, 0x74, 0x61, 0x5F, 0x70, 0x72, 0x6F, 0x70, 0x22, 0x3E, 0x5C5E, 0x3000, 0x3000, 0x6027, 0x3C, 0x2F, 0x64, 0x69, 0x76, 0x3E, 0x3C, 0x64, 0x69, 0x76, 0x20, 0x63, 0x6C, 0x61, 0x73, 0x73, 0x3D, 0x22, 0x64, 0x61, 0x74, 0x61, 0x5F, 0x74, 0x69, 0x74, 0x6C, 0x65, 0x22, 0x3E, 0x6570, 0x636E, 0x6807, 0x9898, 0x3C, 0x2F, 0x64, 0x69, 0x76, 0x3E, 0x3C, 0x64, 0x69, 0x76, 0x20, 0x63, 0x6C, 0x61, 0x73, 0x73, 0x3D, 0x22, 0x64, 0x61, 0x74, 0x61, 0x5F, 0x70, 0x72, 0x65, 0x76, 0x69, 0x65, 0x77, 0x22, 0x3E, 0x6570, 0x636E, 0x9884, 0x89C8, 0x3C, 0x2F, 0x64, 0x69, 0x76, 0x3E, 0x3C, 0x2F, 0x6C, 0x69, 0x3E];
                    out = head @ concat (map (column_html titles previews) [0..<n]);
                    s = set_html (js ''#data_wrap ul'') out (s\<lparr>slots := replicate n ([], please_choose)\<rparr>)
                in Some (set_width (js ''.preview_box'') (int n * 172 + 220)
                     (set_width (js ''#data_wrap ul'') (int n * 172 + 100) (import_props_list s))))
           | _ \<Rightarrow> None))"

definition changeCode ::
  "jstring \<Rightarrow> file_data option \<Rightarrow> 'a pool_page_scheme \<Rightarrow> (jstring \<times> 'a pool_page_scheme option)" where
  "changeCode charset fileData s =
     (let charset = (if charset = js ''GB2312'' then js ''UTF-8'' else js ''GB2312'')
      in (charset, showChar charset fileData (s\<lparr>props := orig_props s\<rparr>)))"

subsection \<open>Uploading and importing\<close>

definition upload_box :: jstring where
  "upload_box = js ''.upload_box .load_img_open''"

text \<open>The upload has its own loading picture, so the checks are written out.\<close>

definition upload_check ::
  "browser \<Rightarrow> jstring \<Rightarrow> 'a ui_scheme \<Rightarrow> 'a ui_scheme + 'a ui_scheme" where
  "upload_check b file u =
     (let u = loading b upload_box u;
          no = (\<lambda>m. Inl (del_loading b upload_box (focus_el (js ''file'') (fail_message b m u))))
      in if file = [] then no [0x8BF7, 0x9009, 0x62E9, 0x9700, 0x8981, 0x4E0A, 0x4F20, 0x7684, 0x6587, 0x4EF6]
         else if \<not> suff file (js '',txt,csv,xls,xlsx,'') then no [0x60A8, 0x9009, 0x62E9, 0x7684, 0x6587, 0x4EF6, 0x683C, 0x5F0F, 0x4E0D, 0x6B63, 0x786E]
         else Inr u)"

definition upload_success ::
  "browser \<Rightarrow> reply \<Rightarrow> file_data \<Rightarrow> jstring \<Rightarrow> 'a pool_page_scheme \<Rightarrow> 'a pool_page_scheme option" where
  "upload_success b d data charset s =
     map_option (del_loading b upload_box)
       (if accepted d
        then map_option (show_el (js ''.preview_box'')) (showChar charset (Some data) (s\<lparr>props := orig_props s\<rparr>))
        else Some (fail_message b (message d) s))"

text \<open>In the guided version a file with one column has no preview.\<close>

definition step_upload_success ::
  "browser \<Rightarrow> reply \<Rightarrow> file_data \<Rightarrow> jstring \<Rightarrow> jstring \<Rightarrow> 'a pool_page_scheme \<Rightarrow> 'a pool_page_scheme option" where
  "step_upload_success b d data charset emailCount s =
     map_option (del_loading b upload_box)
       (if accepted d
        then (case GB2312 data of
                [] \<Rightarrow> None
              | first # _ \<Rightarrow>
                  map_option (\<lambda>s. set_html (js ''#importTips'') [0xFF08, 0x672A, 0x53BB, 0x91CD, 0xFF09] (set_html (js ''#emailCount1'') emailCount
                      (show_el (js ''#isExclude'') (show_el (js ''#isImportTag'') (show_el (js ''#isUpload'') s)))))
                    (if length (split_chr 44 first) > 1
                     then map_option (show_el (js ''.preview_box'')) (showChar charset (Some data) (s\<lparr>props := orig_props s\<rparr>))
                     else Some (hide_el (js ''.preview_box'') s)))
        else Some (fail_message b (message d) s))"

definition upload_error :: "browser \<Rightarrow> 'a ui_scheme \<Rightarrow> 'a ui_scheme" where
  "upload_error b u = del_loading b upload_box (fail_message b [0x4E0A, 0x4F20, 0x5931, 0x8D25] u)"

text \<open>
  Two inputs of the form are called \<open>tagId\<close>, so \<open>form.tagId\<close> is a node list: \<open>form.tagId[0]\<close> is the
  first of them, and \<open>form.tagId.focus()\<close> raises, before the mask is taken away.
\<close>

datatype 'u check_end = Refused 'u | Passed 'u | Raised 'u

definition import_check ::
  "browser \<Rightarrow> jstring \<Rightarrow> jstring \<Rightarrow> jstring \<Rightarrow> 'a ui_scheme \<Rightarrow> 'a ui_scheme check_end" where
  "import_check b isFile fileTag tagId0 u =
     (let u = loading b [] u
      in if fileTag = [] \<and> isFile = js ''file''
         then Refused (del_loading b [] (focus_el (js ''fileTag'') (fail_message b [0x8BF7, 0x586B, 0x5199, 0x6807, 0x7B7E, 0x540D, 0x79F0] u)))
         else if tagId0 = [] \<and> isFile = js ''tag''
         then Raised (fail_message b [0x8BF7, 0x9009, 0x62E9, 0x6240, 0x5C5E, 0x6807, 0x7B7E] u)
         else Passed u)"

definition initChecked :: "jstring \<Rightarrow> 'a ui_scheme \<Rightarrow> jstring \<times> 'a ui_scheme" where
  "initChecked action u =
     (if action = js ''file'' then (js ''file'', show_el (js ''.Jfile'') (hide_el (js ''.Jtag'') u))
      else (js ''tag'', hide_el (js ''.Jfile'') (show_el (js ''.Jtag'') u)))"

definition importRefresh :: "jstring \<Rightarrow> jstring \<Rightarrow> 'a ui_scheme \<Rightarrow> 'a ui_scheme" where
  "importRefresh tagId action u =
     go_to (js ''/datasource/selection/import?tagId='' @ tagId @ js ''&action='' @ action) u"

record counter =
  c_code :: jsval
  c_message :: jstring
  c_start :: int
  c_end :: int

text \<open>The counter is asked every three seconds; \<open>polling\<close> says whether the interval runs.\<close>

definition importCounter_success ::
  "browser \<Rightarrow> jsval \<Rightarrow> counter \<Rightarrow> bool \<times> 'a ui_scheme \<Rightarrow> bool \<times> 'a ui_scheme" where
  "importCounter_success b cd c s = (case s of (polling, u) \<Rightarrow>
     if js_eq cd (JInt 1) \<and> js_eq (c_code c) (JInt 1)
     then (False,
       if c_message c = [0x6536, 0x4EF6, 0x4EBA, 0x5BFC, 0x5165, 0x6210, 0x529F]
       then popTips b (js ''#remindCustom'') ([0x3C, 0x70, 0x3E, 0x5BFC, 0x5165, 0x6210, 0x529F, 0xFF1A, 0x5F53, 0x524D, 0x5171, 0x5BFC, 0x5165, 0x3C, 0x73, 0x70, 0x61, 0x6E, 0x20, 0x63, 0x6C, 0x61, 0x73, 0x73, 0x3D, 0x27, 0x72, 0x65, 0x64, 0x27, 0x3E] @ int_to_str (c_end c - c_start c)
              @ [0x3C, 0x2F, 0x73, 0x70, 0x61, 0x6E, 0x3E, 0x4E2A, 0x6536, 0x4EF6, 0x4EBA, 0x3C, 0x2F, 0x70, 0x3E]) u
       else popTips b (js ''#remindCustom'') ([0x3C, 0x70, 0x3E, 0x5BFC, 0x5165, 0x5931, 0x8D25, 0xFF1A] @ c_message c @ js ''</p>'') u)
     else (polling, u))"

text \<open>The second component is the field \<open>#action\<close>, set from the answer.\<close>

definition importFile_success ::
  "browser \<Rightarrow> reply \<Rightarrow> jstring \<Rightarrow> 'a ui_scheme \<Rightarrow> bool \<times> jstring \<times> 'a ui_scheme" where
  "importFile_success b d action u =
     (let u = del_loading b [] u
     in if accepted d
        then (True, action, popTips b (js ''#remindCustom'')
               [0x3C, 0x70, 0x3E, 0x3C, 0x69, 0x6D, 0x67, 0x20, 0x73, 0x72, 0x63, 0x3D, 0x27, 0x2F, 0x73, 0x74, 0x61, 0x74, 0x69, 0x63, 0x2F, 0x69, 0x6D, 0x67, 0x2F, 0x6C, 0x6F, 0x61, 0x64, 0x69, 0x6E, 0x67, 0x32, 0x2E, 0x67, 0x69, 0x66, 0x27, 0x20, 0x73, 0x74, 0x79, 0x6C, 0x65, 0x3D, 0x27, 0x6D, 0x61, 0x72, 0x67, 0x69, 0x6E, 0x2D, 0x62, 0x6F, 0x74, 0x74, 0x6F, 0x6D, 0x3A, 0x2D, 0x35, 0x70, 0x78, 0x3B, 0x27, 0x20, 0x2F, 0x3E, 0x26, 0x6E, 0x62, 0x73, 0x70, 0x3B, 0x26, 0x6E, 0x62, 0x73, 0x70, 0x3B, 0x6B63, 0x5728, 0x5BFC, 0x5165, 0x6536, 0x4EF6, 0x4EBA, 0xFF0C, 0x8BF7, 0x7A0D, 0x5019, 0x2E, 0x2E, 0x2E, 0x3C, 0x2F, 0x70, 0x3E] u)
        else (False, action, fail_message b (message d) u))"

text \<open>The variables of the template must be among the properties of the columns.\<close>

fun params_covered :: "jstring list \<Rightarrow> jstring list \<Rightarrow> bool" where
  "params_covered [] propsArr = True"
| "params_covered (p # ps) propsArr = (if p \<notin> set propsArr then False else params_covered ps propsArr)"

definition testProps ::
  "browser \<Rightarrow> jstring \<Rightarrow> jstring \<Rightarrow> 'a pool_page_scheme \<Rightarrow> 'a pool_page_scheme \<times> bool" where
  "testProps b parameters flag s =
     (if slots s \<noteq> [] \<and> parameters \<noteq> []
      then if flag = js ''go'' then (s, True)
           else if params_covered (split_chr 44 parameters) (map snd (slots s)) then (s, True)
           else (popTips b (js ''#confirmProps'') [0x60A8, 0x8BBE, 0x7F6E, 0x7684, 0x6536, 0x4EF6, 0x4EBA, 0x5C5E, 0x6027, 0x4E0E, 0x90AE, 0x4EF6, 0x6A21, 0x677F, 0x7684, 0x53D8, 0x91CF, 0x4E0D, 0x7B26] s, False)
      else (s, True))"

text \<open>The guided form: \<open>uploaded\<close> is the visibility of \<open>#isUpload\<close>.\<close>

definition step_import_check ::
  "browser \<Rightarrow> jstring \<Rightarrow> jstring \<Rightarrow> bool \<Rightarrow> jstring \<Rightarrow> 'a pool_page_scheme \<Rightarrow> 'a pool_page_scheme + 'a pool_page_scheme" where
  "step_import_check b parameters flag isImport tagId s =
     (let s = loading b [] s
      in if \<not> shown s (js ''#isUpload'') then Inl (del_loading b [] (fail_message b [0x8BF7, 0x5148, 0x4E0A, 0x4F20, 0x6587, 0x4EF6] s))
         else (case testProps b parameters flag s of
           (s, False) \<Rightarrow> Inl (del_loading b [] s)
         | (s, True) \<Rightarrow>
             check_rules b [Rule (isImport \<and> tagId = []) [0x8BF7, 0x9009, 0x62E9, 0x6240, 0x5C5E, 0x6807, 0x7B7E] (Some (js ''tagId''))] s))"

definition step_import_success ::
  "browser \<Rightarrow> reply \<Rightarrow> jstring \<Rightarrow> 'a ui_scheme \<Rightarrow> 'a ui_scheme" where
  "step_import_success b d emailCount u =
     (let u = del_loading b [] (closeDialog b u)
      in if accepted d
         then popTips b (js ''#remindCustom2'') ([0x3C, 0x70, 0x3E, 0x7B5B, 0x9009, 0x6210, 0x529F, 0xFF1A, 0x5F53, 0x524D, 0x5171, 0x9009, 0x4E2D, 0x4E86, 0x3C, 0x73, 0x70, 0x61, 0x6E, 0x20, 0x63, 0x6C, 0x61, 0x73, 0x73, 0x3D, 0x27, 0x72, 0x65, 0x64, 0x27, 0x3E] @ emailCount
                @ [0x3C, 0x2F, 0x73, 0x70, 0x61, 0x6E, 0x3E, 0x4E2A, 0x6536, 0x4EF6, 0x4EBA, 0x7528, 0x4E8E, 0x6295, 0x9012, 0x3C, 0x73, 0x70, 0x61, 0x6E, 0x20, 0x63, 0x6C, 0x61, 0x73, 0x73, 0x3D, 0x22, 0x66, 0x36, 0x36, 0x36, 0x22, 0x3E, 0xFF08, 0x5DF2, 0x53BB, 0x91CD, 0x8FC7, 0x6EE4, 0xFF09, 0x3C, 0x2F, 0x73, 0x70, 0x61, 0x6E, 0x3E, 0x3C, 0x2F, 0x70, 0x3E]) u
         else fail_message b (message d) u)"

text \<open>The button that ignores the difference submits the form with the flag up and lowers it again.\<close>

definition igType_click ::
  "browser \<Rightarrow> jstring \<Rightarrow> bool \<Rightarrow> jstring \<Rightarrow> 'a pool_page_scheme
     \<Rightarrow> jstring \<times> ('a pool_page_scheme + 'a pool_page_scheme)" where
  "igType_click b parameters isImport tagId s =
     (js ''stop'', step_import_check b parameters (js ''go'') isImport tagId (closeDialog b s))"

definition step2_action :: "jstring \<Rightarrow> 'a ui_scheme \<Rightarrow> 'a ui_scheme" where
  "step2_action action u =
     (if action = js ''file'' then show_el (js ''.tab_content1'') (hide_el (js ''.tab_content2'') u)
      else show_el (js ''.tab_content2'') (hide_el (js ''.tab_content1'') u))"

definition isImport_change :: "bool \<Rightarrow> 'a ui_scheme \<Rightarrow> jstring \<times> 'a ui_scheme" where
  "isImport_change checked u =
     (if checked then (js ''input'', show_el (js ''#isImport tr+'') u) else (js ''export'', hide_el (js ''#isImport tr+'') u))"

definition assignStep3 :: "jstring \<Rightarrow> 'a ui_scheme \<Rightarrow> 'a ui_scheme" where
  "assignStep3 i u = go_to (js ''/step/3?id='' @ i) u"

subsection \<open>Adding one recipient\<close>

definition recipient_rules :: "jstring \<Rightarrow> jstring \<Rightarrow> rule list" where
  "recipient_rules email tagId =
     [Rule (email = []) [0x8BF7, 0x8F93, 0x5165, 0x90AE, 0x4EF6, 0x5730, 0x5740] (Some (js ''email'')),
      Rule (tagId = []) [0x8BF7, 0x9009, 0x62E9, 0x6240, 0x5C5E, 0x6807, 0x7B7E] None]"

definition recipient_check ::
  "browser \<Rightarrow> jstring \<Rightarrow> jstring \<Rightarrow> 'a ui_scheme \<Rightarrow> 'a ui_scheme + 'a ui_scheme" where
  "recipient_check b email tagId u = check_rules b (recipient_rules email tagId) (loading b [] u)"

definition recipient_success :: "browser \<Rightarrow> reply \<Rightarrow> jstring \<Rightarrow> 'a ui_scheme \<Rightarrow> 'a ui_scheme" where
  "recipient_success b d tagId u =
     (let u = del_loading b [] u
      in if accepted d
         then error_message b (message d) 0 0 1000 (js ''/datasource/recipient/page?tagId='' @ tagId) u
         else fail_message b (message d) u)"

interpretation recipient_form: form_check "recipient_check b e i" "\<lambda>u. recipient_rules e i" b for b e i
  by unfold_locales (simp add: recipient_check_def guarded_def)

subsection \<open>Lemmas: the pool loses nothing\<close>

definition taken_slots :: "'a pool_page_scheme \<Rightarrow> entry list" where
  "taken_slots s = filter (\<lambda>e. chosen_text (snd e)) (slots s)"

text \<open>
  The pool and the chosen slots together are the original properties, whose texts are distinct;
  the menus are those of the pool.
\<close>

definition pool_ok :: "'a pool_page_scheme \<Rightarrow> bool" where
  "pool_ok s \<longleftrightarrow> mset (props s) + mset (taken_slots s) = mset (orig_props s)
     \<and> distinct (map snd (orig_props s)) \<and> len s = length (slots s)"

lemma mset_give_back:
  "mset (give_back old ps) = mset ps + mset (filter (\<lambda>e. chosen_text (snd e)) [old])"
  by (simp add: give_back_def)

lemma mset_filter_update:
  "i < length xs \<Longrightarrow> mset (filter P (xs[i := y])) + mset (filter P [xs ! i]) = mset (filter P xs) + mset (filter P [y])"
proof (induction xs arbitrary: i)
  case (Cons x xs)
  then show ?case by (cases i) auto
qed simp

lemma mset_filter_splice:
  "i < length xs \<Longrightarrow> mset (filter P (splice1 i xs)) + mset (filter P [xs ! i]) = mset (filter P xs)"
proof (induction xs arbitrary: i)
  case (Cons x xs)
  then show ?case by (cases i) (auto simp: splice1_def)
qed simp

lemma mset_two_filters:
  "mset (filter (\<lambda>p. \<not> P p) ps) + mset (filter P ps) = mset ps"
  by (induction ps) simp_all

lemma take_out_mset:
  assumes "distinct (map snd ps)" and "(v, tx) \<in> set ps"
  shows "mset (take_out tx ps) + (if chosen_text tx \<or> tx = [] then {#(v, tx)#} else {#}) = mset ps"
proof (cases "tx = please_choose")
  case True
  then show ?thesis by (simp add: take_out_def splice_scan_none chosen_text_def please_choose_def)
next
  case False
  have "take_out tx ps = splice_scan (\<lambda>p. snd p = tx) ps" unfolding take_out_def using False by simp
  also have "\<dots> = filter (\<lambda>p. snd p \<noteq> tx) ps" using assms(1) by (rule splice_scan_distinct)
  finally have t: "take_out tx ps = filter (\<lambda>p. snd p \<noteq> tx) ps" .
  have l: "length (filter (\<lambda>p. snd p = tx) ps) \<le> 1"
    using assms(1) by (rule filter_distinct_at_most_one)
  have "(v, tx) \<in> set (filter (\<lambda>p. snd p = tx) ps)" using assms(2) by simp
  with l have "filter (\<lambda>p. snd p = tx) ps = [(v, tx)]"
    by (cases "filter (\<lambda>p. snd p = tx) ps") auto
  then have "mset ps = mset (filter (\<lambda>p. snd p \<noteq> tx) ps) + {#(v, tx)#}"
    using mset_two_filters [of "\<lambda>p. snd p = tx" ps] by (simp del: mset_filter)
  with False t show ?thesis by (auto simp: chosen_text_def)
qed

lemma distinct_mset_map:
  assumes "mset xs \<subseteq># mset ys" and "distinct (map f ys)"
  shows "distinct (map f xs)"
proof -
  obtain zs where "mset ys = mset (xs @ zs)"
    using assms(1) by (metis mset_append ex_mset subset_mset.le_iff_add)
  then have "mset (map f ys) = mset (map f (xs @ zs))" by (metis mset_map)
  then have "distinct (map f (xs @ zs))" using assms(2) mset_eq_imp_distinct_iff by blast
  then show ?thesis by simp
qed

lemma choose_prop_fields [simp]:
  "props (choose_prop fn i v tx s) = take_out tx (give_back (slot_at i s) (props s))"
  "slots (choose_prop fn i v tx s) = (slots s)[i := (v, tx)]"
  "orig_props (choose_prop fn i v tx s) = orig_props s" "len (choose_prop fn i v tx s) = len s"
  "total (choose_prop fn i v tx s) = total s"
  "menus (choose_prop fn i v tx s) = all_menus fn (len s) (props (choose_prop fn i v tx s))"
  by (simp_all add: choose_prop_def slot_at_def hide_el_def Let_def)

lemma choose_ok:
  assumes ok: "pool_ok s" and i: "i < length (slots s)" and e: "(v, tx) \<in> set (props s)" and tx: "tx \<noteq> []"
  shows "pool_ok (choose_prop fn i v tx s)"
proof -
  let ?P = "\<lambda>e :: entry. chosen_text (snd e)" and ?ps = "give_back (slot_at i s) (props s)"
  have "mset ?ps \<subseteq># mset (orig_props s)"
  proof -
    have "filter ?P [slots s ! i] = [] \<or> slots s ! i \<in> set (filter ?P (slots s))" using i by auto
    then have "mset (filter ?P [slots s ! i]) \<subseteq># mset (taken_slots s)"
      unfolding taken_slots_def by (auto simp: mset_subset_eq_single)
    then have "mset (props s) + mset (filter ?P [slots s ! i]) \<subseteq># mset (props s) + mset (taken_slots s)"
      by (rule subset_mset.add_left_mono)
    moreover have "mset ?ps = mset (props s) + mset (filter ?P [slots s ! i])"
      using i unfolding mset_give_back slot_at_def by simp
    moreover have "mset (props s) + mset (taken_slots s) = mset (orig_props s)"
      using ok unfolding pool_ok_def by simp
    ultimately show ?thesis by simp
  qed
  moreover have "distinct (map snd (orig_props s))" using ok unfolding pool_ok_def by simp
  ultimately have d: "distinct (map snd ?ps)" by (rule distinct_mset_map)
  have "(v, tx) \<in> set ?ps" using e by (auto simp: give_back_def)
  from take_out_mset [OF d this] tx
  have t: "mset (take_out tx ?ps) + mset (filter ?P [(v, tx)]) = mset (props s) + mset (filter ?P [slots s ! i])"
    using i by (auto simp: mset_give_back slot_at_def)
  have "mset (props (choose_prop fn i v tx s)) + mset (taken_slots (choose_prop fn i v tx s)) + mset (filter ?P [slots s ! i])
      = mset (take_out tx ?ps) + (mset (filter ?P ((slots s)[i := (v, tx)])) + mset (filter ?P [slots s ! i]))"
    by (simp add: taken_slots_def)
  also have "\<dots> = (mset (take_out tx ?ps) + mset (filter ?P [(v, tx)])) + mset (filter ?P (slots s))"
    using mset_filter_update [OF i, of ?P "(v, tx)"] by (simp add: ac_simps)
  also have "\<dots> = mset (props s) + mset (taken_slots s) + mset (filter ?P [slots s ! i])"
    unfolding t by (simp add: taken_slots_def ac_simps)
  finally have "mset (props (choose_prop fn i v tx s)) + mset (taken_slots (choose_prop fn i v tx s))
      = mset (props s) + mset (taken_slots s)" by simp
  with ok show ?thesis by (simp add: pool_ok_def)
qed

lemma del_prop_ok:
  assumes ok: "pool_ok s" and i: "i < length (slots s)"
  shows "pool_ok (del_prop i s)"
proof -
  let ?P = "\<lambda>e :: entry. chosen_text (snd e)"
  have f: "props (del_prop i s) = give_back (slots s ! i) (props s)" "slots (del_prop i s) = splice1 i (slots s)"
    "orig_props (del_prop i s) = orig_props s" "len (del_prop i s) = len s - 1"
    using i by (simp_all add: del_prop_def slot_at_def Let_def)
  have "mset (props (del_prop i s)) + mset (taken_slots (del_prop i s)) = mset (props s) + mset (taken_slots s)"
    using mset_filter_splice [OF i, of ?P] by (simp add: f mset_give_back taken_slots_def ac_simps)
  moreover have "length (splice1 i (slots s)) = length (slots s) - 1" using i by (simp add: splice1_def)
  ultimately show ?thesis using ok by (simp add: pool_ok_def f)
qed

lemma pool_fields_more:
  assumes "ui.more v = ui.more u"
  shows "props v = props u" "slots v = slots u" "orig_props v = orig_props u" "len v = len u" "total v = total u"
  using assms by (cases u; cases v; simp)+

lemma add_prop_ok: "pool_ok s \<Longrightarrow> pool_ok (add_prop b s)"
  using pool_fields_more [OF error_message_frame(10), of b _ 1 0 0 "[]" s]
  by (simp add: add_prop_def pool_ok_def taken_slots_def chosen_text_def)

lemma add_prop_len: "pool_ok s \<Longrightarrow> length (slots (add_prop b s)) \<le> max (length (slots s)) (total s - 1)"
  using pool_fields_more [OF error_message_frame(10), of b _ 1 0 0 "[]" s] by (auto simp: add_prop_def pool_ok_def)

subsection \<open>A session on the page\<close>

text \<open>
  What a user can do: choose an entry that a menu offers for a row that exists, add a row, delete
  a row that exists.
\<close>

datatype pool_op = Choose nat entry | AddRow | DelRow nat

fun pool_step :: "browser \<Rightarrow> pool_op \<Rightarrow> 'a pool_page_scheme \<Rightarrow> 'a pool_page_scheme" where
  "pool_step b (Choose i e) s =
     (if i < length (slots s) \<and> e \<in> set (props s) then repeat_prop i (fst e) (snd e) s else s)"
| "pool_step b AddRow s = add_prop b s"
| "pool_step b (DelRow i) s = (if i < length (slots s) then del_prop i s else s)"

definition named :: "'a pool_page_scheme \<Rightarrow> bool" where
  "named s \<longleftrightarrow> (\<forall>e \<in> set (orig_props s). snd e \<noteq> [])"

lemma pool_entries: "pool_ok s \<Longrightarrow> e \<in> set (props s) \<Longrightarrow> e \<in> set (orig_props s)"
  unfolding pool_ok_def by (metis UnCI set_mset_mset set_mset_union)

lemma pool_step_ok:
  assumes "pool_ok s" and "named s"
  shows "pool_ok (pool_step b x s)"
proof (cases x)
  case (Choose i e)
  have "snd e \<noteq> []" if "e \<in> set (props s)"
    using that pool_entries [OF assms(1)] assms(2) by (auto simp: named_def)
  then show ?thesis using choose_ok [OF assms(1), of i "fst e" "snd e" "js ''repeat''"] assms(1)
    by (simp add: Choose repeat_prop_def)
qed (simp_all add: assms add_prop_ok del_prop_ok)

lemma add_prop_frame: "orig_props (add_prop b s) = orig_props s" "total (add_prop b s) = total s"
  using pool_fields_more [OF error_message_frame(10), of b _ 1 0 0 "[]" s] by (simp_all add: add_prop_def)

lemma pool_step_frame:
  "orig_props (pool_step b x s) = orig_props s" "total (pool_step b x s) = total s"
  by (cases x; simp add: repeat_prop_def add_prop_frame del_prop_def Let_def)+

lemma pool_step_len:
  assumes "pool_ok s"
  shows "length (slots (pool_step b x s)) \<le> max (length (slots s)) (total s - 1)"
  using add_prop_len [OF assms, of b]
  by (cases x) (auto simp: repeat_prop_def del_prop_def Let_def splice1_def)

definition pool_run :: "browser \<Rightarrow> pool_op list \<Rightarrow> 'a pool_page_scheme \<Rightarrow> 'a pool_page_scheme" where
  "pool_run b xs s = foldl (\<lambda>s x. pool_step b x s) s xs"

lemma pool_run_ok:
  assumes "pool_ok s" and "named s"
  shows "pool_ok (pool_run b xs s) \<and> orig_props (pool_run b xs s) = orig_props s
    \<and> length (slots (pool_run b xs s)) \<le> max (length (slots s)) (total s - 1)"
  using assms
proof (induction xs arbitrary: s)
  case (Cons x xs)
  let ?t = "pool_step b x s"
  have "pool_ok ?t" "named ?t" using Cons.prems pool_step_ok by (auto simp: named_def pool_step_frame)
  from Cons.IH [OF this] pool_step_len [OF Cons.prems(1), of b x]
  show ?case by (auto simp: pool_run_def pool_step_frame)
qed (simp add: pool_run_def)

lemma taken_distinct: "pool_ok s \<Longrightarrow> distinct (map snd (taken_slots s))"
  unfolding pool_ok_def by (metis distinct_mset_map mset_subset_eq_add_right)

text \<open>C5: On the page of one recipient, whatever sequence of choices, additions and deletions the
  user makes: the properties offered by the menus and those chosen in the rows are together
  exactly the ones the page started with; no property is chosen in two rows; and the rows never
  exceed the limit \<open>total - 1\<close> of the page (unless it started with more).\<close>

theorem property_pool_conserved:
  assumes "mset (props s) + mset (taken_slots s) = mset (orig_props s)"
    and "distinct (map snd (orig_props s))" and "len s = length (slots s)"
    and "\<forall>e \<in> set (orig_props s). snd e \<noteq> []"
  shows "mset (props (pool_run b xs s)) + mset (taken_slots (pool_run b xs s)) = mset (orig_props s)
    \<and> distinct (map snd (taken_slots (pool_run b xs s)))
    \<and> length (slots (pool_run b xs s)) \<le> max (length (slots s)) (total s - 1)"
proof -
  have "pool_ok s" "named s" using assms by (auto simp: pool_ok_def named_def)
  from pool_run_ok [OF this, of b xs]
  have "pool_ok (pool_run b xs s)" "orig_props (pool_run b xs s) = orig_props s"
    "length (slots (pool_run b xs s)) \<le> max (length (slots s)) (total s - 1)" by simp_all
  then show ?thesis using taken_distinct unfolding pool_ok_def by metis
qed

definition pool0 :: "unit pool_page_ext ui_scheme" where
  "pool0 = props_list (ui.extend page0
     \<lparr>props = [(js ''1'', js ''city''), (js ''2'', js ''age'')],
      orig_props = [(js ''1'', js ''city''), (js ''2'', js ''age'')],
      slots = [([], please_choose)], menus = [], len = 0, total = 0\<rparr>)"

theorem property_pool_conserved_witness:
  "mset (props (pool_run browser0 [Choose 0 (js ''1'', js ''city''), AddRow, Choose 0 (js ''2'', js ''age''), DelRow 1] pool0))
     + mset (taken_slots (pool_run browser0 [Choose 0 (js ''1'', js ''city''), AddRow, Choose 0 (js ''2'', js ''age''), DelRow 1] pool0))
     = mset (orig_props pool0)"
  using property_pool_conserved [of pool0 browser0
      "[Choose 0 (js ''1'', js ''city''), AddRow, Choose 0 (js ''2'', js ''age''), DelRow 1]"]
  by (simp add: pool0_def props_list_def taken_slots_def chosen_text_def please_choose_def ui.defs js_def)

subsection \<open>When the import form is sent\<close>

lemma params_covered_iff: "params_covered ps qs \<longleftrightarrow> set ps \<subseteq> set qs"
  by (induction ps) auto

lemma testProps_result:
  "snd (testProps b parameters flag s) \<longleftrightarrow> slots s = [] \<or> parameters = [] \<or> flag = js ''go''
     \<or> set (split_chr 44 parameters) \<subseteq> snd ` set (slots s)"
  by (auto simp: testProps_def params_covered_iff)

lemma testProps_sends: "testProps b parameters flag s = (v, True) \<Longrightarrow> v = s"
  by (auto simp: testProps_def split: if_splits)

text \<open>The guided import form is sent exactly when a file has been uploaded, every variable of
  the mail template is the property of some column (or there are no columns, or no variables, or
  the user chose to ignore the difference), and a tag is named if the file is to be kept as one.\<close>

lemma step_import_sent_iff:
  "(\<exists>v. step_import_check b parameters flag isImport tagId s = Inr v) \<longleftrightarrow>
     shown s (js ''#isUpload'')
     \<and> (slots s = [] \<or> parameters = [] \<or> flag = js ''go'' \<or> set (split_chr 44 parameters) \<subseteq> snd ` set (slots s))
     \<and> \<not> (isImport \<and> tagId = [])"
proof -
  have l: "shown (loading b [] s) (js ''#isUpload'') = shown s (js ''#isUpload'')" "slots (loading b [] s) = slots s"
    by (simp_all add: loading_def show_el_def Let_def js_def)
  show ?thesis
    using testProps_result [of b parameters flag "loading b [] s"]
    by (auto simp: step_import_check_def Let_def check_rules_pass l split: prod.splits bool.splits)
qed

text \<open>The check of the import page ends in one of three ways. A missing tag name takes the
  mask away and refuses; a missing tag raises after its message, with the mask still over the
  page; anything else is sent under the mask.\<close>

lemma import_check_outcomes:
  "(case import_check b isFile fileTag tagId0 u of
      Refused v \<Rightarrow> isFile = js ''file'' \<and> fileTag = [] \<and> loading_bgs v = 0
    | Raised v \<Rightarrow> isFile = js ''tag'' \<and> tagId0 = [] \<and> loading_bgs v = Suc (loading_bgs u)
    | Passed v \<Rightarrow> \<not> (isFile = js ''file'' \<and> fileTag = []) \<and> \<not> (isFile = js ''tag'' \<and> tagId0 = [])
        \<and> loading_bgs v = Suc (loading_bgs u))"
  by (auto simp: import_check_def Let_def)

end
