(* ===== verification/Campaign.thy ===== *)
theory Campaign
  imports Forms Search Layout
begin

text \<open>
  Adding tasks to a campaign: \<open>static/js/mailing.campaign.import.js\<close>. The tasks chosen are shown
  in \<open>#taskList\<close>, one \<open>.item\<close> for each, and their ids are kept, separated by commas, in the hidden
  field \<open>#taskId\<close> that the form sends.
\<close>

record camp_page = ui +
  task_items :: "(jstring \<times> jstring) list"  \<comment> \<open>the \<open>data-id\<close> and the html of an item\<close>
  taskId_val :: jstring
  task_box :: "place option"  \<comment> \<open>where the list box was last put\<close>

datatype ctrl = Add_task | Del_task

definition ctrlTaskItem :: "jstring \<Rightarrow> ctrl \<Rightarrow> 'a camp_page_scheme \<Rightarrow> 'a camp_page_scheme" where
  "ctrlTaskItem i ty s =
     (let s = s\<lparr>task_items := filter (\<lambda>it. fst it \<noteq> i) (task_items s)\<rparr>;
          arr = (if taskId_val s \<noteq> [] then split_chr 44 (taskId_val s) else []);
          arr = splice_scan (\<lambda>x. x = i) arr;
          arr = (if ty = Add_task then arr @ [i] else arr)
      in s\<lparr>taskId_val := join (js '','') arr\<rparr>)"

definition task_item_html :: "jstring \<Rightarrow> jstring \<Rightarrow> jstring \<Rightarrow> jstring" where
  "task_item_html i text1 text2 =
     [0x3C, 0x61, 0x20, 0x63, 0x6C, 0x61, 0x73, 0x73, 0x3D, 0x27, 0x69, 0x74, 0x65, 0x6D, 0x27, 0x20, 0x64, 0x61, 0x74, 0x61, 0x2D, 0x69, 0x64, 0x3D, 0x27] @ i @ [0x27, 0x3E, 0x20] @ [0x3C, 0x73, 0x70, 0x61, 0x6E, 0x20, 0x63, 0x6C, 0x61, 0x73, 0x73, 0x3D, 0x27, 0x6D, 0x5F, 0x72, 0x35, 0x27, 0x3E] @ text1 @ js '' ('' @ text2 @ js '')</span>''
     @ [0x3C, 0x65, 0x6D, 0x20, 0x63, 0x6C, 0x61, 0x73, 0x73, 0x3D, 0x27, 0x63, 0x6C, 0x6F, 0x73, 0x65, 0x27, 0x3E, 0x3C, 0x2F, 0x65, 0x6D, 0x3E] @ js ''</a>''"

text \<open>A link of the list has the id of its task, the title and the date. The geometry is the one
  measured after the item was added.\<close>

record task_link =
  tl_id :: jstring
  tl_span :: jstring
  tl_em :: jstring

definition taskHandle ::
  "browser \<Rightarrow> geometry \<Rightarrow> task_link \<Rightarrow> 'a camp_page_scheme \<Rightarrow> 'a camp_page_scheme" where
  "taskHandle b g obj s =
     (if length (split_chr 44 (taskId_val s)) \<ge> 10 then fail_message b [0x4EFB, 0x52A1, 0x6570, 0x4E0D, 0x80FD, 0x8D85, 0x8FC7, 0x31, 0x30, 0x4E2A] s
      else
        (let s = ctrlTaskItem (tl_id obj) Add_task s;
             s = s\<lparr>task_items := task_items s @ [(tl_id obj, task_item_html (tl_id obj) (tl_span obj) (tl_em obj))]\<rparr>
         in s\<lparr>task_box := Some (posfix g)\<rparr>))"

subsection \<open>The list of tasks\<close>

definition it_date :: "item \<Rightarrow> jstring" where
  "it_date it = to_str (field (js ''date'') it)"

definition task_label :: "item \<Rightarrow> jstring \<Rightarrow> jstring" where
  "task_label it title = [0x3C, 0x73, 0x70, 0x61, 0x6E, 0x20, 0x63, 0x6C, 0x61, 0x73, 0x73, 0x3D, 0x27, 0x66, 0x5F, 0x6C, 0x27, 0x3E] @ title @ [0x3C, 0x2F, 0x73, 0x70, 0x61, 0x6E, 0x3E, 0x3C, 0x65, 0x6D, 0x20, 0x63, 0x6C, 0x61, 0x73, 0x73, 0x3D, 0x27, 0x66, 0x5F, 0x72, 0x27, 0x3E] @ it_date it @ js ''</em>''"

fun taskSearch_items :: "jstring \<Rightarrow> item list \<Rightarrow> jstring \<Rightarrow> jstring" where
  "taskSearch_items fn [] out = out"
| "taskSearch_items fn (it # its) out = taskSearch_items fn its (out @ item_html fn it (task_label it (it_title it)))"

definition taskSearch :: "item list \<Rightarrow> jstring \<Rightarrow> jstring" where
  "taskSearch obj fn = taskSearch_items fn obj [0x3C, 0x75, 0x6C, 0x20, 0x63, 0x6C, 0x61, 0x73, 0x73, 0x3D, 0x27, 0x75, 0x6C, 0x5F, 0x72, 0x65, 0x73, 0x75, 0x6C, 0x74, 0x20, 0x74, 0x61, 0x73, 0x6B, 0x5F, 0x72, 0x65, 0x73, 0x75, 0x6C, 0x74, 0x27, 0x3E] @ js ''</ul>''"

fun taskKey_items :: "jstring \<Rightarrow> jstring \<Rightarrow> item list \<Rightarrow> jstring \<times> nat \<Rightarrow> jstring \<times> nat" where
  "taskKey_items fn val_txt [] acc = acc"
| "taskKey_items fn val_txt (it # its) (out, counter) =
     (let title = it_title it; index1 = indexOf title val_txt
      in if index1 \<noteq> -1
         then taskKey_items fn val_txt its (out @ item_html fn it (task_label it (mark_title title val_txt)), Suc counter)
         else taskKey_items fn val_txt its (out, counter))"

definition taskKeySearch :: "item list \<Rightarrow> jstring \<Rightarrow> jstring \<Rightarrow> jstring" where
  "taskKeySearch obj fn val_txt =
     (case taskKey_items fn val_txt obj ([0x3C, 0x75, 0x6C, 0x20, 0x63, 0x6C, 0x61, 0x73, 0x73, 0x3D, 0x27, 0x75, 0x6C, 0x5F, 0x72, 0x65, 0x73, 0x75, 0x6C, 0x74, 0x20, 0x74, 0x61, 0x73, 0x6B, 0x5F, 0x72, 0x65, 0x73, 0x75, 0x6C, 0x74, 0x27, 0x3E], 0) of
        (out, counter) \<Rightarrow> if counter \<noteq> 0 then out @ js ''</ul>'' else msg_not_found)"

subsection \<open>Sending the form\<close>

definition campaign_rules :: "jstring \<Rightarrow> jstring \<Rightarrow> rule list" where
  "campaign_rules campaignId checkedIds =
     [Rule (campaignId = []) [0x8BF7, 0x9009, 0x62E9, 0x6D3B, 0x52A8] (Some (js ''campaignId'')),
      Rule (checkedIds = []) [0x8BF7, 0x9009, 0x62E9, 0x4EFB, 0x52A1] (Some (js ''checkedIds''))]"

definition campaign_check ::
  "browser \<Rightarrow> jstring \<Rightarrow> jstring \<Rightarrow> 'a ui_scheme \<Rightarrow> 'a ui_scheme + 'a ui_scheme" where
  "campaign_check b campaignId checkedIds u = check_rules b (campaign_rules campaignId checkedIds) u"

definition campaign_success :: "browser \<Rightarrow> reply \<Rightarrow> 'a ui_scheme \<Rightarrow> 'a ui_scheme" where
  "campaign_success b d u =
     (let u = del_loading b [] u
      in if accepted d then error_message b (message d) 0 0 1000 (js ''/mailing/campaign/page'') u
         else fail_message b (message d) u)"

subsection \<open>Lemmas\<close>

lemma taskKey_items_eq:
  "taskKey_items fn w its (out, n) =
     (out @ concat (map (\<lambda>it. item_html fn it (task_label it (mark_title (it_title it) w))) (filter (hit w) its)),
      n + length (filter (hit w) its))"
  by (induction its arbitrary: out n) (auto simp: hit_def indexOf_neg Let_def)

lemma taskSearch_items_eq:
  "taskSearch_items fn its out = out @ concat (map (\<lambda>it. item_html fn it (task_label it (it_title it))) its)"
  by (induction its arbitrary: out) simp_all

lemma taskKeySearch_eq:
  "taskKeySearch its fn w =
     (if filter (hit w) its = [] then msg_not_found
      else [0x3C, 0x75, 0x6C, 0x20, 0x63, 0x6C, 0x61, 0x73, 0x73, 0x3D, 0x27, 0x75, 0x6C, 0x5F, 0x72, 0x65, 0x73, 0x75, 0x6C, 0x74, 0x20, 0x74, 0x61, 0x73, 0x6B, 0x5F, 0x72, 0x65, 0x73, 0x75, 0x6C, 0x74, 0x27, 0x3E]
        @ concat (map (\<lambda>it. item_html fn it (task_label it (mark_title (it_title it) w))) (filter (hit w) its))
        @ js ''</ul>'')"
  by (simp add: taskKeySearch_def taskKey_items_eq)

definition ids :: "'a camp_page_scheme \<Rightarrow> jstring list" where
  "ids s = map fst (task_items s)"

definition plain_id :: "jstring \<Rightarrow> bool" where
  "plain_id i \<longleftrightarrow> i \<noteq> [] \<and> 44 \<notin> set i"

text \<open>The field holds the ids of the items shown, in their order, each once, at most ten.\<close>

definition camp_sync :: "'a camp_page_scheme \<Rightarrow> bool" where
  "camp_sync s \<longleftrightarrow> taskId_val s = join (js '','') (ids s) \<and> distinct (ids s)
     \<and> (\<forall>i \<in> set (ids s). plain_id i) \<and> length (ids s) \<le> 10"

lemma field_list:
  assumes "\<forall>i \<in> set xs. plain_id i"
  shows "(if join (js '','') xs \<noteq> [] then split_chr 44 (join (js '','') xs) else []) = xs"
proof (cases "xs = []")
  case False
  with assms have "join [44] xs \<noteq> []" "\<forall>x \<in> set xs. 44 \<notin> set x"
    by (auto simp: join_eq_Nil plain_id_def)
  with False show ?thesis by (simp add: js_def split_join)
qed (simp add: js_def)

lemma ids_filter: "map fst (filter (\<lambda>it. fst it \<noteq> i) its) = filter (\<lambda>x. x \<noteq> i) (map fst its)"
  by (induction its) auto

lemma ctrlTaskItem_ids:
  "ids (ctrlTaskItem i ty s) = filter (\<lambda>x. x \<noteq> i) (ids s)"
  by (simp add: ctrlTaskItem_def ids_def ids_filter Let_def)

lemma ctrlTaskItem_value:
  assumes "camp_sync s"
  shows "taskId_val (ctrlTaskItem i ty s)
    = join (js '','') (filter (\<lambda>x. x \<noteq> i) (ids s) @ (if ty = Add_task then [i] else []))"
proof -
  have "splice_scan (\<lambda>x. x = i) (ids s) = filter (\<lambda>x. x \<noteq> i) (ids s)"
    using splice_scan_distinct [of id "ids s" i] assms by (simp add: camp_sync_def)
  moreover have "(if taskId_val s \<noteq> [] then split_chr 44 (taskId_val s) else []) = ids s"
    using assms field_list [of "ids s"] unfolding camp_sync_def by metis
  ultimately show ?thesis by (auto simp: ctrlTaskItem_def Let_def split: if_splits)
qed

lemma close_sync:
  assumes "camp_sync s"
  shows "camp_sync (ctrlTaskItem i Del_task s)"
  using assms ctrlTaskItem_value [OF assms, of i Del_task] le_trans [OF length_filter_le [of "\<lambda>x. x \<noteq> i" "ids s"], of 10]
  by (simp add: camp_sync_def ctrlTaskItem_ids)

lemma room_left:
  assumes "camp_sync s" and "length (split_chr 44 (taskId_val s)) < 10"
  shows "length (ids s) < 10"
  using assms field_list [of "ids s"] by (auto simp: camp_sync_def split: if_splits)

lemma camp_fields_more:
  assumes "ui.more v = ui.more u"
  shows "task_items v = task_items u" "taskId_val v = taskId_val u"
  using assms by (cases u; cases v; simp)+

lemma taskHandle_sync:
  assumes s: "camp_sync s" and i: "plain_id (tl_id obj)"
  shows "camp_sync (taskHandle b g obj s)"
proof (cases "length (split_chr 44 (taskId_val s)) \<ge> 10")
  case True
  with s camp_fields_more [OF error_message_frame(10), of b _ 1 0 0 "[]" s]
  show ?thesis by (simp add: taskHandle_def camp_sync_def ids_def)
next
  case False
  let ?k = "filter (\<lambda>x. x \<noteq> tl_id obj) (ids s)"
  have "ids (taskHandle b g obj s) = ?k @ [tl_id obj]"
    "taskId_val (taskHandle b g obj s) = join (js '','') (?k @ [tl_id obj])"
    using False ctrlTaskItem_value [OF s, of "tl_id obj" Add_task] ctrlTaskItem_ids [of "tl_id obj" Add_task s]
    by (simp_all add: taskHandle_def ids_def Let_def)
  moreover have "length (?k @ [tl_id obj]) \<le> 10"
    using le_less_trans [OF length_filter_le room_left [OF s], of "\<lambda>x. x \<noteq> tl_id obj"] False by simp
  ultimately show ?thesis using s i by (simp add: camp_sync_def)
qed

text \<open>The clicks of a user: on a task of the list, on the cross of an item.\<close>

datatype camp_click = Pick geometry task_link | Close jstring

fun camp_step :: "browser \<Rightarrow> camp_click \<Rightarrow> 'a camp_page_scheme \<Rightarrow> 'a camp_page_scheme" where
  "camp_step b (Pick g obj) s = taskHandle b g obj s"
| "camp_step b (Close i) s = ctrlTaskItem i Del_task s"

fun click_ok :: "camp_click \<Rightarrow> bool" where
  "click_ok (Pick g obj) = plain_id (tl_id obj)"
| "click_ok (Close i) = True"

lemma camp_step_sync: "camp_sync s \<Longrightarrow> click_ok c \<Longrightarrow> camp_sync (camp_step b c s)"
  by (cases c) (simp_all add: taskHandle_sync close_sync)

text \<open>C6: After any sequence of clicks on tasks and on crosses, the field that is sent holds
  exactly the ids of the tasks shown, in the same order, each once, and never more than ten.\<close>

theorem campaign_tasks_in_sync:
  assumes "camp_sync s" and "\<forall>c \<in> set cs. click_ok c"
  shows "taskId_val (foldl (\<lambda>s c. camp_step b c s) s cs)
      = join (js '','') (map fst (task_items (foldl (\<lambda>s c. camp_step b c s) s cs)))
    \<and> distinct (map fst (task_items (foldl (\<lambda>s c. camp_step b c s) s cs)))
    \<and> length (task_items (foldl (\<lambda>s c. camp_step b c s) s cs)) \<le> 10"
proof -
  have "camp_sync (foldl (\<lambda>s c. camp_step b c s) s cs)"
    using assms by (induction cs arbitrary: s) (simp_all add: camp_step_sync)
  then show ?thesis by (simp add: camp_sync_def ids_def)
qed

definition camp0 :: "unit camp_page_ext ui_scheme" where
  "camp0 = ui.extend page0 \<lparr>task_items = [], taskId_val = [], task_box = None\<rparr>"

definition geo0 :: geometry where
  "geo0 = \<lparr>g_top = 10, g_left = 10, g_srcWidth = 100, g_srcHeight = 20, g_boxWidth = 100, g_boxHeight = 100,
     g_winHeight = 600\<rparr>"

theorem campaign_tasks_in_sync_witness:
  "taskId_val (foldl (\<lambda>s c. camp_step browser0 c s) camp0
      [Pick geo0 \<lparr>tl_id = js ''7'', tl_span = js ''a'', tl_em = js ''x''\<rparr>,
       Pick geo0 \<lparr>tl_id = js ''8'', tl_span = js ''b'', tl_em = js ''y''\<rparr>, Close (js ''7'')])
    = join (js '','') (map fst (task_items (foldl (\<lambda>s c. camp_step browser0 c s) camp0
      [Pick geo0 \<lparr>tl_id = js ''7'', tl_span = js ''a'', tl_em = js ''x''\<rparr>,
       Pick geo0 \<lparr>tl_id = js ''8'', tl_span = js ''b'', tl_em = js ''y''\<rparr>, Close (js ''7'')])))"
  using campaign_tasks_in_sync [of camp0 "[Pick geo0 \<lparr>tl_id = js ''7'', tl_span = js ''a'', tl_em = js ''x''\<rparr>,
       Pick geo0 \<lparr>tl_id = js ''8'', tl_span = js ''b'', tl_em = js ''y''\<rparr>, Close (js ''7'')]" browser0]
  by (simp add: camp_sync_def camp0_def ids_def plain_id_def ui.defs js_def)

end
