(* ===== verification/Account.thy ===== *)
theory Account
  imports Forms Search
begin

text \<open>
  Accounts: the form of a sub-account with its sending quota, \<open>static/js/account.user.add.js\<close>, and
  the login page, \<open>static/js/login.js\<close>.
\<close>

subsection \<open>The form of a sub-account\<close>

definition user_rules :: "jstring \<Rightarrow> jstring \<Rightarrow> jstring \<Rightarrow> jstring \<Rightarrow> rule list" where
  "user_rules userId orgUserId password email =
     [Rule (userId = []) [0x8BF7, 0x8F93, 0x5165, 0x7528, 0x6237, 0x540D] (Some (js ''userId'')),
      Rule (orgUserId = [] \<and> password = []) [0x8BF7, 0x8F93, 0x5165, 0x5BC6, 0x7801] (Some (js ''password'')),
      Rule (email = []) [0x8BF7, 0x8F93, 0x5165, 0x90AE, 0x7BB1, 0x5730, 0x5740] (Some (js ''email''))]"

definition user_check ::
  "browser \<Rightarrow> jstring \<Rightarrow> jstring \<Rightarrow> jstring \<Rightarrow> jstring \<Rightarrow> 'a ui_scheme \<Rightarrow> 'a ui_scheme + 'a ui_scheme" where
  "user_check b userId orgUserId password email u =
     check_rules b (user_rules userId orgUserId password email) (loading b [] u)"

interpretation user_form: form_check "user_check b i oi p e" "\<lambda>u. user_rules i oi p e" b for b i oi p e
  by unfold_locales (simp add: user_check_def guarded_def)

definition user_success :: "browser \<Rightarrow> reply \<Rightarrow> 'a ui_scheme \<Rightarrow> 'a ui_scheme" where
  "user_success b d u =
     del_loading b []
       (if accepted d then error_message b (message d) 0 0 1000 (js ''/account/user/page'') u
        else fail_message b (message d) u)"

text \<open>The company chosen decides which fields are shown and which roles are offered: \<open>level\<close> is
  the attribute \<open>data-level\<close> of the link, kept on the field of the company.\<close>

definition postHook ::
  "anchor \<Rightarrow> jstring option \<Rightarrow> picker \<times> jstring option \<times> 'a ui_scheme \<Rightarrow> picker \<times> jstring option \<times> 'a ui_scheme" where
  "postHook obj level s = (case s of (p, old, u) \<Rightarrow>
     (pickData obj p, (case level of None \<Rightarrow> old | Some l \<Rightarrow> Some l),
      if level = Some (js ''1'') then hide_el (js ''.Jhook'') u
      else if level = Some (js ''0'') then show_el (js ''.Jhook'') u else u))"

text \<open>The \<open>sortFn\<close> of the list of roles: the links of another level are hidden.\<close>

definition roles_shown :: "jstring option \<Rightarrow> (jstring option \<times> 'r) list \<Rightarrow> (jstring option \<times> 'r) list" where
  "roles_shown isChild links = filter (\<lambda>(level, _). isChild = level) links"

record role =
  ro_id :: jsval
  ro_info :: "jsval list"

fun func_desc :: "jstring \<Rightarrow> role list \<Rightarrow> jstring \<Rightarrow> jstring" where
  "func_desc i [] out = out"
| "func_desc i (r # rs) out =
     func_desc i rs (if js_eq (ro_id r) (JStr i)
       then out @ concat (map (\<lambda>v. to_str v @ js ''<br>'') (ro_info r)) else out)"

definition sendFunc ::
  "role list \<Rightarrow> anchor \<Rightarrow> picker \<times> 'a ui_scheme \<Rightarrow> picker \<times> 'a ui_scheme" where
  "sendFunc modelList obj s = (case s of (p, u) \<Rightarrow>
     (let p = pickData obj p
      in (p, hide_el (js ''#slideSearch5'') (set_html (js ''#funcDesc'') (func_desc (pk_value p) modelList []) u))))"

subsection \<open>Raising the quota of a sub-account\<close>

record quota_page = ui +
  raiseSum :: jstring   \<comment> \<open>input: how much to add\<close>
  totalSend :: jstring  \<comment> \<open>input: what the account may send in all\<close>
  surplus :: jstring    \<comment> \<open>text: what the account has left\<close>
  totalSum :: jstring   \<comment> \<open>text: what the parent account has left\<close>

text \<open>Numbers that \<open>parseInt\<close> gave: \<open>None\<close> is \<open>NaN\<close>, which every sum hands on.\<close>

definition num_add :: "int option \<Rightarrow> int option \<Rightarrow> int option" where
  "num_add x y = (case (x, y) of (Some i, Some j) \<Rightarrow> Some (i + j) | _ \<Rightarrow> None)"

definition num_sub :: "int option \<Rightarrow> int option \<Rightarrow> int option" where
  "num_sub x y = (case (x, y) of (Some i, Some j) \<Rightarrow> Some (i - j) | _ \<Rightarrow> None)"

definition num_str :: "int option \<Rightarrow> jstring" where
  "num_str x = (case x of Some i \<Rightarrow> int_to_str i | None \<Rightarrow> js ''NaN'')"

definition not_positive :: "int option \<Rightarrow> bool" where
  "not_positive x \<longleftrightarrow> (case x of Some i \<Rightarrow> i \<le> 0 | None \<Rightarrow> False)"

definition addSum :: "browser \<Rightarrow> 'a quota_page_scheme \<Rightarrow> 'a quota_page_scheme" where
  "addSum b s =
     (let no = (\<lambda>m k. focus_el k (fail_message b m s))
      in if totalSend s = [] then no [0x6700, 0x5927, 0x53D1, 0x9001, 0x603B, 0x91CF, 0x4E0D, 0x80FD, 0x4E3A, 0x7A7A] (js ''totalSend'')
         else if isNaN (totalSend s) then no [0x6700, 0x5927, 0x53D1, 0x9001, 0x603B, 0x91CF, 0x53EA, 0x80FD, 0x4E3A, 0x6570, 0x5B57] (js ''totalSend'')
         else if raiseSum s = [] then no [0x589E, 0x52A0, 0x7684, 0x6295, 0x9012, 0x603B, 0x91CF, 0x4E0D, 0x80FD, 0x4E3A, 0x7A7A] (js ''raiseSum'')
         else if isNaN (raiseSum s) then no [0x589E, 0x52A0, 0x7684, 0x6295, 0x9012, 0x603B, 0x91CF, 0x53EA, 0x80FD, 0x4E3A, 0x6570, 0x5B57] (js ''raiseSum'')
         else
           (let raise = parse_int (raiseSum s); assign = parse_int (totalSend s);
                sur = parse_int (surplus s); tot = parse_int (totalSum s)
            in if not_positive (num_sub tot raise) then fail_message b [0x4E0D, 0x8DB3, 0x4EE5, 0x5206, 0x914D] s
               else s\<lparr>totalSend := num_str (num_add assign raise), surplus := num_str (num_add sur raise),
                      totalSum := num_str (num_sub tot raise)\<rparr>))"

text \<open>What the three figures become, on every branch of \<open>addSum\<close>.\<close>

definition figures :: "'a quota_page_scheme \<Rightarrow> jstring \<times> jstring \<times> jstring" where
  "figures s = (totalSend s, surplus s, totalSum s)"

lemma figures_more: "ui.more v = ui.more u \<Longrightarrow> figures v = figures u"
  by (cases u; cases v; simp add: figures_def)

lemma figures_refused [simp]: "figures (focus_el k (fail_message b m s)) = figures s" "figures (fail_message b m s) = figures s"
  by (rule figures_more, simp add: focus_el_def)+

lemma num_simps [simp]:
  "num_add (Some i) (Some j) = Some (i + j)" "num_add x None = None"
  "num_sub (Some i) (Some j) = Some (i - j)" "num_sub x None = None"
  "not_positive (Some i) = (i \<le> 0)" "\<not> not_positive None"
  "num_str (Some i) = int_to_str i" "num_str None = js ''NaN''"
  by (cases x; simp add: num_add_def num_sub_def not_positive_def num_str_def)+

lemma isNaN_int [simp]: "\<not> isNaN (int_to_str i)"
  by (simp add: isNaN_def)

lemma addSum_figures:
  assumes "totalSend s = int_to_str a" "surplus s = int_to_str p" "totalSum s = int_to_str t"
  shows "figures (addSum b s) =
    (if raiseSum s = [] \<or> isNaN (raiseSum s) then figures s
     else case parse_int (raiseSum s) of
         None \<Rightarrow> (js ''NaN'', js ''NaN'', js ''NaN'')
       | Some r \<Rightarrow> if t - r \<le> 0 then figures s else (int_to_str (a + r), int_to_str (p + r), int_to_str (t - r)))"
  using assms by (auto simp: addSum_def Let_def figures_def [of "_\<lparr>totalSend := _\<rparr>"] split: option.split)
     (simp_all add: figures_def)

text \<open>With whole numbers in the fields, raising the quota moves the amount from the parent
  account to the sub-account: what may be sent in all, what is left and what the parent keeps
  change by the same amount, and nothing changes when the parent could not keep a positive
  rest.\<close>

lemma addSum_moves_quota:
  assumes "totalSend s = int_to_str a" "surplus s = int_to_str p" "totalSum s = int_to_str t"
    and "raiseSum s = int_to_str r"
  shows "\<exists>a' p' t'. totalSend (addSum b s) = int_to_str a' \<and> surplus (addSum b s) = int_to_str p'
    \<and> totalSum (addSum b s) = int_to_str t' \<and> a' + t' = a + t \<and> p' + t' = p + t
    \<and> (a' = (if r < t then a + r else a)) \<and> min t 1 \<le> t'"
proof -
  have "figures (addSum b s) = (if t - r \<le> 0 then (int_to_str a, int_to_str p, int_to_str t)
      else (int_to_str (a + r), int_to_str (p + r), int_to_str (t - r)))"
    using addSum_figures [OF assms(1-3), of b] assms by (simp add: figures_def)
  then show ?thesis
    by (cases "r < t") (force simp: figures_def)+
qed

definition quota0 :: "jstring \<Rightarrow> unit quota_page_ext ui_scheme" where
  "quota0 r = ui.extend page0
     \<lparr>raiseSum = r, totalSend = int_to_str 100, surplus = int_to_str 40, totalSum = int_to_str 500\<rparr>"

text \<open>A blank is a number for \<open>isNaN\<close> and none for \<open>parseInt\<close>: the three figures are lost.\<close>

lemma addSum_blank:
  assumes "totalSend s = int_to_str a" "surplus s = int_to_str p" "totalSum s = int_to_str t"
    and "raiseSum s = [32]"
  shows "figures (addSum b s) = (js ''NaN'', js ''NaN'', js ''NaN'')"
proof -
  have "\<not> isNaN [32]" "parse_int [32] = None"
    by (simp_all add: isNaN_def to_number_def trim_def trim_left_def parse_int_def strip_ws_def is_ws_def Let_def)
  then show ?thesis using addSum_figures [OF assms(1-3), of b] assms(4) by simp
qed

subsection \<open>Login\<close>

text \<open>
  The fields of the login form; \<open>busy\<close> is the class \<open>submit_load\<close> of its button, \<open>code_shown\<close> the
  visibility of the line with the captcha. \<open>focus()\<close> does nothing on a field that is hidden.
\<close>

record login_page = ui +
  j_username :: jstring
  j_password :: jstring
  kaptcha :: jstring
  kaptcha_src :: jstring
  code_shown :: bool
  busy :: bool
  login_err :: jstring
  alerts :: "jstring list"

definition loginStart :: "'a login_page_scheme \<Rightarrow> 'a login_page_scheme" where
  "loginStart s = s\<lparr>busy := True\<rparr>"

definition loginEnd :: "'a login_page_scheme \<Rightarrow> 'a login_page_scheme" where
  "loginEnd s = s\<lparr>busy := False\<rparr>"

definition focus_kaptcha :: "'a login_page_scheme \<Rightarrow> 'a login_page_scheme" where
  "focus_kaptcha s = (if code_shown s then focus_el (js ''kaptcha'') s else s)"

definition refresh :: "browser \<Rightarrow> 'a login_page_scheme \<Rightarrow> 'a login_page_scheme" where
  "refresh b s =
     (let s = focus_kaptcha (s\<lparr>kaptcha := []\<rparr>)
      in s\<lparr>kaptcha_src := js ''/kaptcha.jpg?'' @ nat_to_str (now b)\<rparr>)"

text \<open>The classes of the empty fields.\<close>

definition login_blur :: "jstring \<Rightarrow> bool" where
  "login_blur val \<longleftrightarrow> val = []"

text \<open>\<open>Inl\<close>: not sent.\<close>

definition login_submit :: "'a login_page_scheme \<Rightarrow> 'a login_page_scheme + 'a login_page_scheme" where
  "login_submit s =
     (let s = (loginStart s)\<lparr>login_err := []\<rparr>
      in if j_username s = [] then Inl (loginEnd (focus_el (js ''j_username'') (s\<lparr>login_err := [0x8BF7, 0x8F93, 0x5165, 0x7528, 0x6237, 0x540D]\<rparr>)))
         else if j_password s = [] then Inl (loginEnd (focus_el (js ''j_password'') (s\<lparr>login_err := [0x8BF7, 0x8F93, 0x5165, 0x5BC6, 0x7801]\<rparr>)))
         else if code_shown s \<and> kaptcha s = [] then Inl (loginEnd (focus_kaptcha (s\<lparr>login_err := [0x8BF7, 0x8F93, 0x5165, 0x9A8C, 0x8BC1, 0x7801]\<rparr>)))
         else Inr s)"

definition login_error :: "'a login_page_scheme \<Rightarrow> 'a login_page_scheme" where
  "login_error s = (loginEnd s)\<lparr>login_err := [0x767B, 0x5F55, 0x8D85, 0x65F6]\<rparr>"

record login_reply = reply +
  assign :: jstring
  count :: int

definition bad_account :: "jstring list" where
  "bad_account = [[0x8D26, 0x53F7, 0x8F93, 0x5165, 0x6709, 0x8BEF], [0x8D26, 0x53F7, 0x5DF2, 0x5931, 0x6548]]"

definition bad_password :: jstring where
  "bad_password = [0x5BC6, 0x7801, 0x8F93, 0x5165, 0x6709, 0x8BEF]"

definition bad_code :: "jstring list" where
  "bad_code = [[0x9A8C, 0x8BC1, 0x7801, 0x8F93, 0x5165, 0x6709, 0x8BEF], [0x9A8C, 0x8BC1, 0x7801, 0x8D85, 0x65F6], [0x767B, 0x5F55, 0x8D85, 0x65F6]]"

definition login_success :: "browser \<Rightarrow> login_reply \<Rightarrow> 'a login_page_scheme \<Rightarrow> 'a login_page_scheme" where
  "login_success b d s =
     (if js_eq (code d) (JStr (js ''1''))
      then go_to (js ''/'')
        (if assign d \<in> set [js ''AROUND'', js ''ALREADY'', js ''NOTNOW''] then s\<lparr>alerts := alerts s @ [message d]\<rparr> else s)
      else
        (let s = loginEnd s;
             s = (if message d \<in> set bad_account
                  then (focus_el (js ''j_username'') (s\<lparr>j_username := []\<rparr>))\<lparr>j_password := [], kaptcha := []\<rparr>
                  else if message d = bad_password then focus_el (js ''j_password'') (s\<lparr>j_password := []\<rparr>)
                  else if message d \<in> set bad_code then focus_kaptcha (s\<lparr>kaptcha := []\<rparr>)
                  else focus_el (js ''j_username'') s);
             s = refresh b s;
             s = (if count d > 4 then s\<lparr>code_shown := True\<rparr> else s)
         in s\<lparr>login_err := message d\<rparr>))"

text \<open>The form that asks for a new password. The page has no \<open>.msg_content\<close>, so no mask is added
  and only the picture is shown.\<close>

definition forget_submit :: "browser \<Rightarrow> jstring \<Rightarrow> 'a ui_scheme \<Rightarrow> 'a ui_scheme + 'a ui_scheme" where
  "forget_submit b userId u =
     (let u = set_html (js ''#forget_form .err'') [] (show_el (js ''.load_img'') u)
      in if userId = []
         then Inl (focus_el (js ''userId'') (set_html (js ''#forget_form .err'') [0x8BF7, 0x8F93, 0x5165, 0x7528, 0x6237, 0x540D] (del_loading b (js ''.load_img'') u)))
         else Inr u)"

definition forget_success :: "browser \<Rightarrow> reply \<Rightarrow> 'a ui_scheme \<Rightarrow> 'a ui_scheme" where
  "forget_success b d u = set_html (js ''#forget_form .err'') (message d) (del_loading b (js ''.load_img'') u)"

text \<open>No answer in time: the picture is left on the page.\<close>

definition forget_error :: "'a ui_scheme \<Rightarrow> 'a ui_scheme" where
  "forget_error u = set_html (js ''#forget_form .err'') [0x90AE, 0x4EF6, 0x53D1, 0x9001, 0x8D85, 0x65F6] u"

text \<open>A refused login always leaves the form ready for the next try: the button is free, the
  message of the server is shown, the captcha is emptied and a new picture asked for, the
  account name and the password are emptied exactly in the cases the messages call for, the
  captcha line appears after more than four failures and never disappears; and with the captcha
  shown the focus ends on it, whatever field was wrong.\<close>

lemma login_refused:
  assumes "\<not> js_eq (code d) (JStr (js ''1''))"
  shows "\<not> busy (login_success b d s) \<and> login_err (login_success b d s) = message d
    \<and> navs (login_success b d s) = navs s \<and> kaptcha (login_success b d s) = []
    \<and> kaptcha_src (login_success b d s) = js ''/kaptcha.jpg?'' @ nat_to_str (now b)
    \<and> j_username (login_success b d s) = (if message d \<in> set bad_account then [] else j_username s)
    \<and> j_password (login_success b d s) = (if message d \<in> set (bad_password # bad_account) then [] else j_password s)
    \<and> code_shown (login_success b d s) = (code_shown s \<or> count d > 4)
    \<and> focused (login_success b d s) =
        (if code_shown s then Some (js ''kaptcha'')
         else if message d = bad_password then Some (js ''j_password'')
         else if message d \<in> set bad_code then focused s
         else Some (js ''j_username''))"
proof -
  have "bad_password \<notin> set bad_account" "set bad_code \<inter> set (bad_password # bad_account) = {}"
    by (simp_all add: bad_password_def bad_account_def bad_code_def)
  then have d: "message d \<in> set bad_account \<Longrightarrow> message d \<noteq> bad_password \<and> message d \<notin> set bad_code"
    "message d = bad_password \<Longrightarrow> message d \<notin> set bad_code" by auto
  show ?thesis
    using assms d
    by (cases "code_shown s"; cases "message d \<in> set bad_account"; cases "message d = bad_password";
        cases "message d \<in> set bad_code")
      (simp_all add: login_success_def refresh_def focus_kaptcha_def loginEnd_def focus_el_def Let_def)
qed

definition login0 :: "unit login_page_ext ui_scheme" where
  "login0 = ui.extend page0 \<lparr>j_username = js ''ann'', j_password = js ''x'', kaptcha = [], kaptcha_src = [],
     code_shown = False, busy = True, login_err = [], alerts = []\<rparr>"

definition reply0 :: login_reply where
  "reply0 = \<lparr>code = JStr (js ''0''), message = bad_password, assign = [], count = 5\<rparr>"

end
