(* ===== verification/Master.thy ===== *)
theory Master
  imports Forms Regex
begin

text \<open>
  The shared functions of the operators' site, \<open>webmaster/.../resources/script/common/common.js\<close>,
  where they differ from \<open>base.js\<close> of the customers' site: messages, masks, pop-ups and windows on
  the same page state, the length limit of a field, the test of an address, and the rows of
  network senders with their check in \<open>accountOperateEdit.js\<close>. The message box of the bundled
  plugin is a record of the calls made to it.
\<close>

subsection \<open>Messages and masks\<close>

definition m_error_message ::
  "browser \<Rightarrow> jstring \<Rightarrow> int \<Rightarrow> int \<Rightarrow> int \<Rightarrow> jstring \<Rightarrow> 'a ui_scheme \<Rightarrow> 'a ui_scheme" where
  "m_error_message b mess bg top_num time url u =
     (let u = clearTimeout (t_time u) u;
          u = (if length (err_boxes u) > 0 then u\<lparr>err_boxes := tl (err_boxes u)\<rparr> else u);
          u = u\<lparr>err_boxes := err_boxes u @ [\<lparr>eb_class = err_class bg, eb_html = [],
                eb_top = 0, eb_left = 0, eb_visible = False\<rparr>]\<rparr>;
          u = u\<lparr>err_boxes := map_first (\<lambda>e. e\<lparr>eb_html := mess\<rparr>) (err_boxes u)\<rparr>;
          top = (if top_num > 0 then of_int top_num
                 else centred (win_h b) (box_h b (js ''#err_mess'')) + of_int (scroll_top b));
          left = centred (win_w b) (box_w b (js ''#err_mess'')) + of_int (scroll_left b);
          u = u\<lparr>err_boxes :=
                map_first (\<lambda>e. e\<lparr>eb_top := top, eb_left := left\<rparr>) (err_boxes u)\<rparr>;
          u = u\<lparr>err_boxes := map_first (\<lambda>e. e\<lparr>eb_visible := True\<rparr>) (err_boxes u)\<rparr>
      in if time > 0 then setTimeout (GoTo url) time u
         else if bg = 10 then u
         else setTimeout FadeErr 2500 u)"

abbreviation m_fail :: "browser \<Rightarrow> jstring \<Rightarrow> 'a ui_scheme \<Rightarrow> 'a ui_scheme" where
  "m_fail b m \<equiv> m_error_message b m 1 0 0 []"

text \<open>A timer whose handle is not kept.\<close>

definition start_timer :: "timeout \<Rightarrow> int \<Rightarrow> 'a ui_scheme \<Rightarrow> 'a ui_scheme" where
  "start_timer c d u = u\<lparr>timers := timers u @ [(next_timer u, c, d)], next_timer := Suc (next_timer u)\<rparr>"

text \<open>With a container for the picture only that is shown, without one the mask is added.\<close>

definition m_loading :: "jstring \<Rightarrow> 'a ui_scheme \<Rightarrow> 'a ui_scheme" where
  "m_loading show_id u =
     (if show_id \<noteq> [] then show_el show_id u else u\<lparr>loading_bgs := Suc (loading_bgs u)\<rparr>)"

definition m_del_loading :: "jstring \<Rightarrow> 'a ui_scheme \<Rightarrow> 'a ui_scheme" where
  "m_del_loading hide_id u = (if hide_id \<noteq> [] then hide_el hide_id u else u\<lparr>loading_bgs := 0\<rparr>)"

subsection \<open>Pop-ups and windows\<close>

definition m_openCover :: "browser \<Rightarrow> 'a ui_scheme \<Rightarrow> 'a ui_scheme" where
  "m_openCover b u =
     (let u = (if covers u < 1 then u\<lparr>covers := Suc (covers u)\<rparr> else u)
      in show_el (js ''#msg_bg2'') (u\<lparr>sized := (sized u)(js ''#msg_bg2'' := Some (win_w b, win_h b))\<rparr>))"

definition m_openPop ::
  "browser \<Rightarrow> jstring \<Rightarrow> jstring \<Rightarrow> jstring \<Rightarrow> 'a ui_scheme \<Rightarrow> 'a ui_scheme option" where
  "m_openPop b url obj boxEle u =
     (let box = (if boxEle \<noteq> [] then boxEle else js ''.popBox'');
          u = m_openCover b u;
          u = (if obj \<noteq> [] then u\<lparr>input_obj := obj\<rparr> else u)
      in if url \<noteq> []
         then map_option (\<lambda>e. u\<lparr>loads := loads u @ [(box, e)]\<rparr>) (getEncode (with_rnd b url))
         else Some (place_box b box u))"

definition m_popTips ::
  "browser \<Rightarrow> jstring \<Rightarrow> jstring \<Rightarrow> jstring \<Rightarrow> bool \<Rightarrow> 'a ui_scheme \<Rightarrow> 'a ui_scheme" where
  "m_popTips b boxId title tips opShow u =
     (let u = set_html (boxId @ js '' .pop_title'') title u;
          u = set_html (boxId @ js '' .al_center'') tips u;
          u = (if opShow then show_el (boxId @ js '' .al_submit'') u else hide_el (boxId @ js '' .al_submit'') u)
      in place_box b boxId (m_openCover b u))"

definition new_pad_placed :: "browser \<Rightarrow> 'a ui_scheme \<Rightarrow> 'a ui_scheme" where
  "new_pad_placed b u =
     (show_el (js ''#msg_bg'') u)\<lparr>pos := (pos u)(js ''#newPad'' :=
        (centred (win_w b) (box_w b (js ''#newPad'')), centred (win_h b) (box_h b (js ''#newPad''))))\<rparr>"

definition m_open_msg :: "browser \<Rightarrow> jstring \<Rightarrow> int \<Rightarrow> 'a ui_scheme \<Rightarrow> 'a ui_scheme" where
  "m_open_msg b content type u =
     (let u = (if msg_bgs u < 1 then u\<lparr>msg_bgs := Suc (msg_bgs u)\<rparr> else u);
          u = (if msie6 b
               then u\<lparr>sized := (sized u)(js ''#msg_bg'' := Some (win_w b, win_h b))\<rparr> else u)
      in if type = 1 then new_pad_placed b (set_html (js ''#newPad'') content u)
         else u\<lparr>loads := loads u @ [(js ''#newPad'', with_rnd b content)]\<rparr>)"

definition m_del_tab ::
  "browser \<Rightarrow> (bool \<times> jstring) list \<Rightarrow> jstring \<Rightarrow> jstring \<Rightarrow> int \<Rightarrow> 'a ui_scheme \<Rightarrow> 'a ui_scheme" where
  "m_del_tab b boxes title url type u =
     (let checkedIds = checked_csv boxes
      in if checkedIds = [] then m_fail b title u
         else m_open_msg b
           (if indexOf url (js ''?'') \<noteq> -1 then url @ js ''&checkedIds='' @ checkedIds
            else url @ js ''?checkedIds='' @ checkedIds) type u)"

subsection \<open>Fields\<close>

text \<open>
  \<open>textCounter\<close>: the loop looks at the field again in every round; \<open>k\<close> counts the alerts.
\<close>

function textCounter_from :: "jstring \<Rightarrow> nat \<Rightarrow> int \<Rightarrow> nat \<Rightarrow> jstring \<times> nat" where
  "textCounter_from v i len k =
     (if i < length v
      then (let len = (if v ! i > 50 then len - 2 else len - 1)
            in if len < 0 then textCounter_from (take i v) (Suc i) len (Suc k)
               else textCounter_from v (Suc i) len k)
      else (v, k))"
  by pat_completeness auto
termination
  by (relation "measure (\<lambda>(v, i, len, k). Suc (length v) - i)") auto

declare textCounter_from.simps [simp del]

definition textCounter :: "jstring \<Rightarrow> int \<Rightarrow> jstring \<times> nat" where
  "textCounter v maxlimit = textCounter_from v 0 maxlimit 0"

definition isEmpty :: "jstring \<Rightarrow> bool" where
  "isEmpty v \<longleftrightarrow> strip_ws v = []"

definition word_chr :: "nat \<Rightarrow> bool" where
  "word_chr c \<longleftrightarrow> 48 \<le> c \<and> c \<le> 57 \<or> 65 \<le> c \<and> c \<le> 90 \<or> c = 95 \<or> 97 \<le> c \<and> c \<le> 122"

definition alnum_chr :: "nat \<Rightarrow> bool" where
  "alnum_chr c \<longleftrightarrow> 48 \<le> c \<and> c \<le> 57 \<or> 65 \<le> c \<and> c \<le> 90 \<or> 97 \<le> c \<and> c \<le> 122"

definition re_local :: re where
  "re_local = Seq (plus (Chr word_chr))
     (Star (Alt (Seq (Chr (\<lambda>c. c = 45)) (plus (Chr word_chr))) (Seq (Chr (\<lambda>c. c = 46)) (plus (Chr word_chr)))))"

definition re_domain :: re where
  "re_domain = Seq (plus (Chr alnum_chr))
     (Seq (Star (Seq (Alt (Chr (\<lambda>c. c = 46)) (Chr (\<lambda>c. c = 45))) (plus (Chr alnum_chr))))
       (Seq (Chr (\<lambda>c. c = 46)) (plus (Chr alnum_chr))))"

definition isEmail :: "jstring \<Rightarrow> bool" where
  "isEmail strEmail \<longleftrightarrow> re_test (whole (Seq re_local (Seq (Chr (\<lambda>c. c = 64)) re_domain))) strEmail"

subsection \<open>Network senders\<close>

text \<open>The rows of senders: the number in the id of the input, and its value.\<close>

record robot_page = ui +
  robots :: "(nat \<times> jstring) list"
  mbox :: "(jstring \<times> int \<times> int) list"  \<comment> \<open>text, kind and time given to the plugin\<close>

definition messagebox :: "jstring \<Rightarrow> int \<Rightarrow> int \<Rightarrow> 'a robot_page_scheme \<Rightarrow> 'a robot_page_scheme" where
  "messagebox m ty time s = s\<lparr>mbox := mbox s @ [(m, ty, time)]\<rparr>"

text \<open>The new row goes after the last one, so with no row left nothing is added.\<close>

definition addRobot :: "'a robot_page_scheme \<Rightarrow> 'a robot_page_scheme" where
  "addRobot s =
     (if length (robots s) \<ge> 10 then messagebox [0x7F51, 0x7EDC, 0x53D1, 0x4EF6, 0x4EBA, 0x4E0D, 0x80FD, 0x8D85, 0x8FC7, 0x31, 0x30, 0x4E2A] 0 2000 s
      else if robots s = [] then s
      else s\<lparr>robots := robots s @ [(length (robots s), [])]\<rparr>)"

text \<open>\<open>$("#robot_i")\<close> is the first element with that id.\<close>

fun remove_first :: "nat \<Rightarrow> (nat \<times> jstring) list \<Rightarrow> (nat \<times> jstring) list" where
  "remove_first i [] = []"
| "remove_first i (r # rs) = (if fst r = i then rs else r # remove_first i rs)"

definition delRobot :: "nat \<Rightarrow> 'a robot_page_scheme \<Rightarrow> 'a robot_page_scheme" where
  "delRobot i s = s\<lparr>robots := remove_first i (robots s)\<rparr>"

fun some_robot :: "(nat \<times> jstring) list \<Rightarrow> bool \<Rightarrow> bool" where
  "some_robot [] flag = flag"
| "some_robot (r # rs) flag = some_robot rs (if snd r \<noteq> [] then True else flag)"

fun bad_robot :: "(nat \<times> jstring) list \<Rightarrow> nat option" where
  "bad_robot [] = None"
| "bad_robot (r # rs) =
     (if snd r \<noteq> [] then if \<not> isEmail (snd r) then Some (fst r) else bad_robot rs else bad_robot rs)"

definition robot_id :: "nat \<Rightarrow> jstring" where
  "robot_id i = js ''#robot_'' @ nat_to_str i"

definition checkRobots :: "'a robot_page_scheme \<Rightarrow> bool \<times> 'a robot_page_scheme" where
  "checkRobots s =
     (if \<not> some_robot (robots s) False
      then (False, focus_el (js ''#robot_0'') (messagebox [0x8BF7, 0x8F93, 0x5165, 0x7F51, 0x7EDC, 0x53D1, 0x4EF6, 0x4EBA, 0xFF01] 0 2000 s))
      else case bad_robot (robots s) of
        Some i \<Rightarrow> (False, focus_el (robot_id i) (messagebox [0x7F51, 0x7EDC, 0x53D1, 0x4EF6, 0x4EBA, 0x683C, 0x5F0F, 0x4E0D, 0x6B63, 0x786E, 0xFF01] 0 2000 s))
      | None \<Rightarrow> (True, s))"

definition pass_ok :: "jstring \<Rightarrow> 'a robot_page_scheme \<Rightarrow> bool \<times> 'a robot_page_scheme" where
  "pass_ok p s =
     (if p \<noteq> [] then
        if strip_ws p = [] then (False, focus_el (js ''#password'') (messagebox [0x5BC6, 0x7801, 0x4E0D, 0x80FD, 0x4E3A, 0x7A7A, 0x683C] 0 3000 s)) else (True, s)
      else (True, s))"

subsection \<open>Lemmas\<close>

lemma m_error_message_fields:
  "err_boxes (m_error_message b m bg t d url u) = err_boxes (error_message b m bg t d url u)"
  "timers (m_error_message b m bg t d url u) = timers (error_message b m bg t d url u)"
  "t_time (m_error_message b m bg t d url u) = t_time (error_message b m bg t d url u)"
  "z_index (m_error_message b m bg t d url u) = z_index u"
  "navs (m_error_message b m bg t d url u) = navs u"
  "focused (m_error_message b m bg t d url u) = focused u"
  "loading_bgs (m_error_message b m bg t d url u) = loading_bgs u"
  "ui.more (m_error_message b m bg t d url u) = ui.more u"
  by (simp_all add: m_error_message_def error_message_def Let_def setTimeout_def clearTimeout_def)

text \<open>What a text weighs for \<open>textCounter\<close>.\<close>

definition weight :: "jstring \<Rightarrow> int" where
  "weight v = sum_list (map (\<lambda>c. if c > 50 then 2 else 1) v)"

lemma weight_simps [simp]: "weight [] = 0" "weight (c # v) = (if c > 50 then 2 else 1) + weight v"
  "weight (v @ w) = weight v + weight w"
  by (simp_all add: weight_def)

lemma weight_pos: "0 \<le> weight v"
  by (induction v) auto

text \<open>The longest beginning of a text within a limit.\<close>

fun fitting :: "int \<Rightarrow> jstring \<Rightarrow> jstring" where
  "fitting m [] = []"
| "fitting m (c # v) =
     (let w = (if c > 50 then 2 else 1) in if w \<le> m then c # fitting (m - w) v else [])"

lemma fitting_prefix: "prefix (fitting m v) v"
  by (induction m v rule: fitting.induct) (auto simp: Let_def)

lemma fitting_weight: "0 \<le> m \<Longrightarrow> weight (fitting m v) \<le> m"
  by (induction m v rule: fitting.induct) (auto simp: Let_def)

lemma fitting_longest: "prefix p v \<Longrightarrow> weight p \<le> m \<Longrightarrow> prefix p (fitting m v)"
proof (induction m v arbitrary: p rule: fitting.induct)
  case (2 m c v)
  then show ?case
  proof (cases p)
    case (Cons d q)
    with "2.prems" have "d = c" "prefix q v" "(if c > 50 then 2 else 1) + weight q \<le> m" by auto
    with weight_pos [of q] show ?thesis
      using "2.IH" [OF refl _ \<open>prefix q v\<close>] by (auto simp: Cons Let_def)
  qed simp
qed simp

lemma fitting_all: "weight v \<le> m \<Longrightarrow> fitting m v = v"
  using fitting_longest [of v v m] fitting_prefix [of m v] by (simp add: prefix_order.eq_iff)

lemma textCounter_from_eq:
  "0 \<le> m \<Longrightarrow> textCounter_from (p @ v) (length p) m k =
     (p @ fitting m v, if weight v \<le> m then k else Suc k)"
proof (induction v arbitrary: p m)
  case Nil
  then show ?case by (simp add: textCounter_from.simps)
next
  case (Cons c v)
  let ?w = "if c > 50 then 2 else 1 :: int"
  have step: "textCounter_from (p @ c # v) (length p) m k =
      (if m - ?w < 0 then textCounter_from p (Suc (length p)) (m - ?w) (Suc k)
       else textCounter_from ((p @ [c]) @ v) (length (p @ [c])) (m - ?w) k)"
    by (subst textCounter_from.simps) (simp add: Let_def nth_append)
  show ?case
  proof (cases "m - ?w < 0")
    case True
    then have "textCounter_from (p @ c # v) (length p) m k = (p, Suc k)"
      unfolding step by (simp add: textCounter_from.simps [of p])
    with True weight_pos [of v] show ?thesis by (auto simp: Let_def)
  next
    case False
    with Cons.IH [of "m - ?w" "p @ [c]"] show ?thesis unfolding step by (auto simp: Let_def)
  qed
qed

subsection \<open>Words between separators\<close>

text \<open>A reference definition: words of \<open>P\<close> with single separators of \<open>S\<close> between them.\<close>

fun sep_words :: "(nat \<Rightarrow> bool) \<Rightarrow> (nat \<Rightarrow> bool) \<Rightarrow> jstring \<Rightarrow> bool" where
  "sep_words P S [] \<longleftrightarrow> False"
| "sep_words P S [c] \<longleftrightarrow> P c"
| "sep_words P S (c # d # r) \<longleftrightarrow> P c \<and> (sep_words P S (d # r) \<or> S d \<and> sep_words P S r)"

definition word_of :: "(nat \<Rightarrow> bool) \<Rightarrow> jstring \<Rightarrow> bool" where
  "word_of P w \<longleftrightarrow> w \<noteq> [] \<and> list_all P w"

lemma sep_words_word: "word_of P w \<Longrightarrow> sep_words P S w"
proof (induction w)
  case (Cons c w)
  then show ?case by (cases w) (auto simp: word_of_def)
qed (simp add: word_of_def)

lemma sep_words_append: "sep_words P S p \<Longrightarrow> S c \<Longrightarrow> sep_words P S q \<Longrightarrow> sep_words P S (p @ c # q)"
proof (induction P S p rule: sep_words.induct)
  case (2 P S x)
  then show ?case by simp
next
  case (3 P S x y r)
  then have x: "P x" and "sep_words P S (y # r) \<or> S y \<and> sep_words P S r" by simp_all
  then consider "sep_words P S (y # r)" | "S y" "sep_words P S r" by blast
  then show ?case by cases (use 3 x in auto)
qed simp

definition sep_then :: "(nat \<Rightarrow> bool) \<Rightarrow> (nat \<Rightarrow> bool) \<Rightarrow> jstring \<Rightarrow> bool" where
  "sep_then P S p \<longleftrightarrow> (\<exists>c w. p = c # w \<and> S c \<and> word_of P w)"

lemma sep_words_concat:
  "sep_words P S p \<Longrightarrow> list_all (sep_then P S) ps \<Longrightarrow> sep_words P S (p @ concat ps)"
proof (induction ps arbitrary: p)
  case (Cons q ps)
  then obtain c w where q: "q = c # w" "S c" "word_of P w" by (auto simp: sep_then_def)
  then have "sep_words P S (p @ q)" using Cons.prems(1) by (simp add: sep_words_append sep_words_word)
  with Cons show ?case by (simp flip: append_assoc)
qed simp

lemma sep_words_split:
  "sep_words P S p \<Longrightarrow> \<exists>w ps. p = w @ concat ps \<and> word_of P w \<and> list_all (sep_then P S) ps"
proof (induction P S p rule: sep_words.induct)
  case (2 P S c)
  then show ?case by (intro exI [of _ "[c]"] exI [of _ "[]"]) (simp add: word_of_def)
next
  case (3 P S c d r)
  then consider "P c" "sep_words P S (d # r)" | "P c" "S d" "sep_words P S r" by auto
  then show ?case
  proof cases
    case 1
    from "3.IH"(1) [OF 1(2)] obtain w ps
      where "d # r = w @ concat ps" "word_of P w" "list_all (sep_then P S) ps" by blast
    with 1 show ?thesis by (intro exI [of _ "c # w"] exI [of _ ps]) (simp add: word_of_def)
  next
    case 2
    from "3.IH"(2) [OF 2(3)] obtain w ps
      where "r = w @ concat ps" "word_of P w" "list_all (sep_then P S) ps" by blast
    with 2 show ?thesis
      by (intro exI [of _ "[c]"] exI [of _ "(d # w) # ps"]) (simp add: word_of_def sep_then_def [of P S "d # w"])
  qed
qed simp

lemma sep_words_lang: "lang_seq (word_of P) (lang_star (sep_then P S)) p \<longleftrightarrow> sep_words P S p"
  unfolding lang_seq_def lang_star_def
  by (metis sep_words_split sep_words_concat sep_words_word)

lemma denotes_word: "denotes (plus (Chr P)) (word_of P)"
  using denotes_plus_Chr by (rule denotes_cong) (simp add: word_of_def)

lemma denotes_sep_then: "denotes (Seq (Chr S) (plus (Chr P))) (sep_then P S)"
  using denotes_Seq [OF denotes_Chr denotes_word]
  by (rule denotes_cong) (simp add: lang_seq_chr sep_then_def)

definition dash_dot :: "nat \<Rightarrow> bool" where
  "dash_dot c \<longleftrightarrow> c = 45 \<or> c = 46"

lemma denotes_local: "denotes re_local (sep_words word_chr dash_dot)"
proof -
  have "denotes (Alt (Seq (Chr (\<lambda>c. c = 45)) (plus (Chr word_chr))) (Seq (Chr (\<lambda>c. c = 46)) (plus (Chr word_chr))))
      (sep_then word_chr dash_dot)"
    using denotes_Alt [OF denotes_sep_then denotes_sep_then]
    by (rule denotes_cong) (auto simp: sep_then_def dash_dot_def)
  from denotes_Seq [OF denotes_word denotes_Star [OF this]]
  show ?thesis unfolding re_local_def by (rule denotes_cong) (rule sep_words_lang)
qed

definition domain_of :: "jstring \<Rightarrow> bool" where
  "domain_of p \<longleftrightarrow> (\<exists>d t. p = d @ 46 # t \<and> sep_words alnum_chr dash_dot d \<and> word_of alnum_chr t)"

lemma denotes_domain: "denotes re_domain domain_of"
proof -
  have "denotes (Alt (Chr (\<lambda>c. c = 46)) (Chr (\<lambda>c. c = 45))) (\<lambda>p. \<exists>c. p = [c] \<and> dash_dot c)"
    using denotes_Alt [OF denotes_Chr denotes_Chr] by (rule denotes_cong) (auto simp: dash_dot_def)
  from denotes_Seq [OF this denotes_word]
  have "denotes (Seq (Alt (Chr (\<lambda>c. c = 46)) (Chr (\<lambda>c. c = 45))) (plus (Chr alnum_chr))) (sep_then alnum_chr dash_dot)"
    by (rule denotes_cong) (simp add: lang_seq_chr sep_then_def)
  from denotes_Seq [OF denotes_word denotes_Seq [OF denotes_Star [OF this] denotes_sep_then]]
  show ?thesis unfolding re_domain_def
  proof (rule denotes_cong)
    fix p
    let ?W = "word_of alnum_chr" and ?R = "lang_star (sep_then alnum_chr dash_dot)"
      and ?T = "sep_then alnum_chr (\<lambda>c. c = 46)"
    have "lang_seq ?W (lang_seq ?R ?T) p \<longleftrightarrow> lang_seq (lang_seq ?W ?R) ?T p"
      unfolding lang_seq_def by (metis append.assoc)
    also have "\<dots> \<longleftrightarrow> domain_of p"
      unfolding sep_words_lang [abs_def] by (auto simp: lang_seq_def sep_then_def domain_of_def)
    finally show "lang_seq ?W (lang_seq ?R ?T) p \<longleftrightarrow> domain_of p" .
  qed
qed

text \<open>C36: The pattern for e-mail addresses accepts exactly the texts \<open>local@domain.top\<close>, where the
  local part is words of letters, digits and underscores with single dots or hyphens between
  them, the domain the same without underscores, and the last part after a dot is one word.\<close>

theorem isEmail_iff:
  "isEmail s \<longleftrightarrow> (\<exists>l d t. s = l @ [64] @ d @ [46] @ t
     \<and> sep_words word_chr dash_dot l \<and> sep_words alnum_chr dash_dot d \<and> word_of alnum_chr t)"
proof -
  have "denotes (Seq re_local (Seq (Chr (\<lambda>c. c = 64)) re_domain))
      (lang_seq (sep_words word_chr dash_dot) (lang_seq (\<lambda>p. \<exists>c. p = [c] \<and> c = 64) domain_of))"
    by (intro denotes_Seq denotes_local denotes_Chr denotes_domain)
  from re_test_whole [OF this]
  have "isEmail s \<longleftrightarrow> (\<exists>l q. s = l @ q \<and> sep_words word_chr dash_dot l \<and> (\<exists>c w. q = c # w \<and> c = 64 \<and> domain_of w))"
    unfolding isEmail_def lang_seq_chr unfolding lang_seq_def .
  also have "\<dots> \<longleftrightarrow> (\<exists>l w. s = l @ 64 # w \<and> sep_words word_chr dash_dot l \<and> domain_of w)" by blast
  finally show ?thesis by (simp add: domain_of_def) blast
qed

text \<open>The limit of a field keeps the longest beginning of its text that the limit allows (with
  the weights of the code), warns once when it cut something and leaves a text within the limit
  as it is.\<close>

lemma textCounter_keeps_longest:
  assumes "0 \<le> m"
  shows "prefix (fst (textCounter v m)) v \<and> weight (fst (textCounter v m)) \<le> m
    \<and> (\<forall>p. prefix p v \<and> weight p \<le> m \<longrightarrow> prefix p (fst (textCounter v m)))
    \<and> snd (textCounter v m) = (if weight v \<le> m then 0 else 1)"
  using textCounter_from_eq [OF assms, of "[]" v 0] fitting_prefix fitting_weight [OF assms] fitting_longest
  by (simp add: textCounter_def)

lemma some_robot_iff: "some_robot rs f \<longleftrightarrow> f \<or> (\<exists>r \<in> set rs. snd r \<noteq> [])"
  by (induction rs arbitrary: f) auto

lemma bad_robot_None: "bad_robot rs = None \<longleftrightarrow> (\<forall>r \<in> set rs. snd r = [] \<or> isEmail (snd r))"
  by (induction rs) auto

text \<open>The senders of an account are accepted exactly when at least one is given and every one
  that is given is an address; otherwise exactly one message is shown and the page is left as it
  is but for that and the focus.\<close>

lemma checkRobots_iff:
  "fst (checkRobots s) = ((\<exists>r \<in> set (robots s). snd r \<noteq> []) \<and> list_all (\<lambda>r. snd r = [] \<or> isEmail (snd r)) (robots s))
   \<and> robots (snd (checkRobots s)) = robots s
   \<and> length (mbox (snd (checkRobots s))) = length (mbox s) + (if fst (checkRobots s) then 0 else 1)"
proof (cases "some_robot (robots s) False")
  case False
  then show ?thesis by (auto simp: checkRobots_def some_robot_iff messagebox_def focus_el_def)
next
  case True
  then show ?thesis
    using bad_robot_None [of "robots s"]
    by (auto simp: checkRobots_def some_robot_iff messagebox_def focus_el_def list_all_iff split: option.split)
qed

text \<open>
  Rows keep the number they were made with, while a new row is numbered by the rows there are:
  after a row in the middle is deleted two rows have the same number, and the cross of the
  second removes the first.
\<close>

lemma robots_collide:
  "robots (addRobot (delRobot 1 (s\<lparr>robots := [(0, x), (1, y), (2, z)]\<rparr>))) = [(0, x), (2, z), (2, [])]"
  "robots (delRobot 2 (addRobot (delRobot 1 (s\<lparr>robots := [(0, x), (1, y), (2, z)]\<rparr>)))) = [(0, x), (2, [])]"
  by (simp_all add: addRobot_def delRobot_def messagebox_def)

end
