(* ===== verification/Roles.thy ===== *)
theory Roles
  imports Master
begin

text \<open>
  The functions a role may use: \<open>webmaster/.../resources/script/role/roleEdit.js\<close>. A function may
  need others; the page ticks them together and refuses a role in which one is missing. The state
  is which boxes are ticked and the line with the error.
\<close>

record role_page = ui +
  ticked :: "jstring \<Rightarrow> bool"
  role_err :: jstring

text \<open>\<open>modelList\<close>, in the order in which \<open>for (key in ...)\<close> visits it.\<close>

definition modelList :: "(jstring \<times> jstring list) list" where
  "modelList =
     [(js ''M_1'', [js ''M_2'']),
      (js ''M_4'', [js ''M_3'', js ''M_1'', js ''M_2'']),
      (js ''M_5'', [js ''M_1'', js ''M_2'']),
      (js ''M_8'', [js ''M_7'']),
      (js ''M_6'', [js ''M_7'']),
      (js ''M_9'', [js ''M_7'']),
      (js ''M_10'', [js ''M_7'', js ''M_12'']),
      (js ''M_11'', [js ''M_7'', js ''M_12'']),
      (js ''M_12'', [js ''M_7'']),
      (js ''M_13'', [js ''M_7'', js ''M_12''])]"

definition role_boxes :: "jstring list" where
  "role_boxes = map (\<lambda>n. js ''M_'' @ nat_to_str n) [1..<15]"

text \<open>\<open>modelList[id] || []\<close>\<close>

definition needs :: "jstring \<Rightarrow> jstring list" where
  "needs i = (case map_of modelList i of Some arr \<Rightarrow> arr | None \<Rightarrow> [])"

definition set_boxes :: "bool \<Rightarrow> jstring list \<Rightarrow> 'a role_page_scheme \<Rightarrow> 'a role_page_scheme" where
  "set_boxes v arr s = fold (\<lambda>i s. s\<lparr>ticked := (ticked s)(i := v)\<rparr>) arr s"

definition checkRole :: "jstring \<Rightarrow> 'a role_page_scheme \<Rightarrow> 'a role_page_scheme" where
  "checkRole i s =
     (let isChecked = ticked s i; arr = needs i
      in if isChecked then set_boxes True arr s else set_boxes False arr s)"

text \<open>A click on a box changes it and then calls \<open>checkRole\<close>.\<close>

definition role_click :: "jstring \<Rightarrow> 'a role_page_scheme \<Rightarrow> 'a role_page_scheme" where
  "role_click i s = checkRole i (s\<lparr>ticked := (ticked s)(i := \<not> ticked s i)\<rparr>)"

definition relation_err :: "(jstring \<times> jstring) list" where
  "relation_err =
     [(js ''M_1'', [0x63D0, 0x793A, 0xFF1A, 0x9009, 0x62E9, 0x3010, 0x6536, 0x4EF6, 0x4EBA, 0x7BA1, 0x7406, 0x3011, 0xFF0C, 0x8BF7, 0x5173, 0x8054, 0x9009, 0x62E9, 0x3010, 0x5C5E, 0x6027, 0x7BA1, 0x7406, 0x3011]),
      (js ''M_4'', [0x63D0, 0x793A, 0xFF1A, 0x9009, 0x62E9, 0x3010, 0x6536, 0x4EF6, 0x4EBA, 0x7B5B, 0x9009, 0x4E0E, 0x5BFC, 0x51FA, 0x3011, 0xFF0C, 0x8BF7, 0x5173, 0x8054, 0x9009, 0x62E9, 0x3010, 0x8FC7, 0x6EE4, 0x5668, 0x7BA1, 0x7406, 0x3001, 0x6536, 0x4EF6, 0x4EBA, 0x7BA1, 0x7406, 0x3001, 0x5C5E, 0x6027, 0x7BA1, 0x7406, 0x3011]),
      (js ''M_5'', [0x63D0, 0x793A, 0xFF1A, 0x9009, 0x62E9, 0x3010, 0x8868, 0x5355, 0x7BA1, 0x7406, 0x3011, 0xFF0C, 0x8BF7, 0x5173, 0x8054, 0x9009, 0x62E9, 0x3010, 0x6536, 0x4EF6, 0x4EBA, 0x7BA1, 0x7406, 0x3001, 0x5C5E, 0x6027, 0x7BA1, 0x7406, 0x3011]),
      (js ''M_8'', [0x63D0, 0x793A, 0xFF1A, 0x9009, 0x62E9, 0x3010, 0x4EFB, 0x52A1, 0x521B, 0x5EFA, 0x3011, 0xFF0C, 0x8BF7, 0x5173, 0x8054, 0x9009, 0x62E9, 0x3010, 0x6A21, 0x677F, 0x9884, 0x89C8, 0x3011]),
      (js ''M_6'', [0x63D0, 0x793A, 0xFF1A, 0x9009, 0x62E9, 0x3010, 0x6A21, 0x677F, 0x8BBE, 0x8BA1, 0x4E0E, 0x7BA1, 0x7406, 0x3011, 0xFF0C, 0x8BF7, 0x5173, 0x8054, 0x9009, 0x62E9, 0x3010, 0x6A21, 0x677F, 0x9884, 0x89C8, 0x3011]),
      (js ''M_9'', [0x63D0, 0x793A, 0xFF1A, 0x9009, 0x62E9, 0x3010, 0x4EFB, 0x52A1, 0x5BA1, 0x6838, 0x3011, 0xFF0C, 0x8BF7, 0x5173, 0x8054, 0x9009, 0x62E9, 0x3010, 0x6A21, 0x677F, 0x9884, 0x89C8, 0x3011]),
      (js ''M_10'', [0x63D0, 0x793A, 0xFF1A, 0x9009, 0x62E9, 0x3010, 0x4EFB, 0x52A1, 0x6295, 0x9012, 0x76D1, 0x63A7, 0x7BA1, 0x7406, 0x3011, 0xFF0C, 0x8BF7, 0x5173, 0x8054, 0x9009, 0x62E9, 0x3010, 0x6A21, 0x677F, 0x9884, 0x89C8, 0x3001, 0x62A5, 0x544A, 0x67E5, 0x9605, 0x3011]),
      (js ''M_11'', [0x63D0, 0x793A, 0xFF1A, 0x9009, 0x62E9, 0x3010, 0x6D3B, 0x52A8, 0x521B, 0x5EFA, 0x4E0E, 0x7BA1, 0x7406, 0x3011, 0xFF0C, 0x8BF7, 0x5173, 0x8054, 0x9009, 0x62E9, 0x3010, 0x6A21, 0x677F, 0x9884, 0x89C8, 0x3001, 0x62A5, 0x544A, 0x67E5, 0x9605, 0x3011]),
      (js ''M_12'', [0x63D0, 0x793A, 0xFF1A, 0x9009, 0x62E9, 0x3010, 0x62A5, 0x544A, 0x67E5, 0x9605, 0x3011, 0xFF0C, 0x8BF7, 0x5173, 0x8054, 0x9009, 0x62E9, 0x3010, 0x6A21, 0x677F, 0x9884, 0x89C8, 0x3011]),
      (js ''M_13'', [0x63D0, 0x793A, 0xFF1A, 0x9009, 0x62E9, 0x3010, 0x62A5, 0x544A, 0x5BFC, 0x51FA, 0x3011, 0xFF0C, 0x8BF7, 0x5173, 0x8054, 0x9009, 0x62E9, 0x3010, 0x62A5, 0x544A, 0x67E5, 0x9605, 0x3011])]"

text \<open>The inner loop: a box that is missing stops the check with the message of its key; a key
  without message would go on (the \<open>default\<close> of the \<open>switch\<close>).\<close>

fun missing_one :: "(jstring \<Rightarrow> bool) \<Rightarrow> jstring \<Rightarrow> jstring list \<Rightarrow> jstring option" where
  "missing_one c key [] = None"
| "missing_one c key (a # arr) =
     (if \<not> c a then (case map_of relation_err key of Some m \<Rightarrow> Some m | None \<Rightarrow> missing_one c key arr)
      else missing_one c key arr)"

fun relation_loop :: "(jstring \<Rightarrow> bool) \<Rightarrow> (jstring \<times> jstring list) list \<Rightarrow> jstring option" where
  "relation_loop c [] = None"
| "relation_loop c ((key, arr) # r) =
     (if c key then (case missing_one c key arr of Some m \<Rightarrow> Some m | None \<Rightarrow> relation_loop c r)
      else relation_loop c r)"

text \<open>\<open>testRelation\<close> returns \<open>false\<close> or nothing, and nothing lets the form go.\<close>

definition testRelation :: "'a role_page_scheme \<Rightarrow> bool \<times> 'a role_page_scheme" where
  "testRelation s =
     (case relation_loop (ticked s) modelList of
        Some m \<Rightarrow> (False, s\<lparr>role_err := m\<rparr>) | None \<Rightarrow> (True, s))"

definition role_submit :: "jstring \<Rightarrow> 'a role_page_scheme \<Rightarrow> bool \<times> 'a role_page_scheme" where
  "role_submit roleName s =
     (if trim roleName = [] then (False, s\<lparr>role_err := [0x63D0, 0x793A, 0xFF1A, 0x89D2, 0x8272, 0x540D, 0x79F0, 0x4E0D, 0x80FD, 0x4E3A, 0x7A7A, 0xFF01]\<rparr>)
      else if \<not> list_ex (ticked s) role_boxes then (False, s\<lparr>role_err := [0x63D0, 0x793A, 0xFF1A, 0x8BF7, 0x9009, 0x62E9, 0x529F, 0x80FD, 0x6743, 0x9650, 0xFF01]\<rparr>)
      else testRelation s)"

text \<open>The answer: \<open>result\<close> may be absent; the address is that of the field \<open>#successUrl\<close>.\<close>

definition role_success ::
  "browser \<Rightarrow> jstring \<Rightarrow> (jstring option \<times> jstring) option \<Rightarrow> 'a role_page_scheme \<Rightarrow> 'a role_page_scheme" where
  "role_success b successUrl data s =
     (case data of
        None \<Rightarrow> s
      | Some (result, m) \<Rightarrow>
          if result = Some (js ''success'')
          then start_timer (GoTo successUrl) 2000 (m_error_message b m 0 0 0 [] s)
          else if result = None then s\<lparr>role_err := [0x63D0, 0x793A, 0xFF1A, 0x63D0, 0x4EA4, 0x5931, 0x8D25, 0xFF01]\<rparr>
          else s\<lparr>role_err := m\<rparr>)"

text \<open>The boxes of a stored role; a name the page has no box for raises.\<close>

fun init_boxes :: "jstring list \<Rightarrow> 'a role_page_scheme \<Rightarrow> 'a role_page_scheme option" where
  "init_boxes [] s = Some s"
| "init_boxes (f # fs) s =
     (if f \<noteq> [] then
        if f \<in> set role_boxes then init_boxes fs (s\<lparr>ticked := (ticked s)(f := True)\<rparr>) else None
      else init_boxes fs s)"

definition role_init :: "jstring \<Rightarrow> 'a role_page_scheme \<Rightarrow> 'a role_page_scheme option" where
  "role_init funcList s = (if funcList \<noteq> [] then init_boxes (split_chr 44 funcList) s else Some s)"

subsection \<open>Lemmas\<close>

text \<open>Every function ticked has what it needs.\<close>

definition roles_closed :: "(jstring \<Rightarrow> bool) \<Rightarrow> bool" where
  "roles_closed c \<longleftrightarrow> list_all (\<lambda>(key, arr). c key \<longrightarrow> list_all c arr) modelList"

lemma missing_one_None: "map_of relation_err key \<noteq> None \<Longrightarrow> missing_one c key arr = None \<longleftrightarrow> list_all c arr"
  by (induction arr) (auto split: option.splits)

lemma relation_loop_None:
  "list_all (\<lambda>(key, arr). map_of relation_err key \<noteq> None) ms \<Longrightarrow>
     relation_loop c ms = None \<longleftrightarrow> list_all (\<lambda>(key, arr). c key \<longrightarrow> list_all c arr) ms"
proof (induction ms)
  case (Cons m ms)
  obtain key arr where m: "m = (key, arr)" by (cases m)
  with Cons.prems missing_one_None [of key c arr] Cons.IH show ?case by (auto split: option.split)
qed simp

lemma every_key_has_text: "list_all (\<lambda>(key, arr). map_of relation_err key \<noteq> None) modelList"
  by (simp add: modelList_def relation_err_def)

lemma testRelation_iff: "fst (testRelation s) \<longleftrightarrow> roles_closed (ticked s)"
  using relation_loop_None [OF every_key_has_text, of "ticked s"]
  by (auto simp: testRelation_def roles_closed_def split: option.split)

lemma set_boxes_ticked: "ticked (set_boxes v arr s) = (\<lambda>i. if i \<in> set arr then v else ticked s i)"
  unfolding set_boxes_def by (induction arr arbitrary: s) auto

lemma role_click_ticked:
  "ticked (role_click i s) =
     (\<lambda>k. if k \<in> set (needs i) then \<not> ticked s i else if k = i then \<not> ticked s i else ticked s k)"
  by (auto simp: role_click_def checkRole_def Let_def set_boxes_ticked fun_eq_iff needs_def)

text \<open>What a function needs is listed in full: the needs of its needs are among them.\<close>

lemma needs_transitive: "list_all (\<lambda>(key, arr). list_all (\<lambda>a. set (needs a) \<subseteq> set arr) arr) modelList"
  by (simp add: modelList_def needs_def)

lemma needs_irreflexive: "i \<notin> set (needs i)"
  by (auto simp: needs_def modelList_def)

lemma needs_cases: "a \<in> set (needs i) \<longleftrightarrow> (\<exists>arr. map_of modelList i = Some arr \<and> a \<in> set arr)"
  by (cases "map_of modelList i") (simp_all add: needs_def)

lemma roles_closed_needs: "roles_closed c \<longleftrightarrow> (\<forall>i. c i \<longrightarrow> (\<forall>a. a \<in> set (needs i) \<longrightarrow> c a))"
proof -
  have d: "distinct (map fst modelList)" by (simp add: modelList_def)
  have "roles_closed c \<longleftrightarrow> (\<forall>key arr. map_of modelList key = Some arr \<longrightarrow> c key \<longrightarrow> list_all c arr)"
    using map_of_eq_Some_iff [OF d] by (auto simp: roles_closed_def list_all_iff)
  also have "\<dots> \<longleftrightarrow> (\<forall>i. c i \<longrightarrow> (\<forall>a. a \<in> set (needs i) \<longrightarrow> c a))"
    unfolding needs_cases list_all_iff by blast
  finally show ?thesis .
qed

lemma needs_trans: "a \<in> set (needs i) \<Longrightarrow> k \<in> set (needs a) \<Longrightarrow> k \<in> set (needs i)"
proof -
  assume a: "a \<in> set (needs i)" and k: "k \<in> set (needs a)"
  obtain arr where "map_of modelList i = Some arr" "needs i = arr"
    using a by (cases "map_of modelList i") (simp_all add: needs_def)
  then have "(i, needs i) \<in> set modelList" by (auto dest: map_of_SomeD)
  then have "list_all (\<lambda>a. set (needs a) \<subseteq> set (needs i)) (needs i)"
    using needs_transitive unfolding list_all_iff [of _ modelList] by blast
  with a k show ?thesis by (auto simp: list_all_iff)
qed

lemma tick_keeps_closed:
  assumes "roles_closed (ticked s)" and "\<not> ticked s i"
  shows "roles_closed (ticked (role_click i s))"
  using assms needs_trans unfolding roles_closed_needs role_click_ticked by (metis (full_types))

lemma untick_closed_iff:
  assumes "roles_closed (ticked s)" and "ticked s i"
  shows "roles_closed (ticked (role_click i s)) \<longleftrightarrow>
    (\<forall>k. ticked s k \<and> k \<notin> set (i # needs i) \<longrightarrow> set (needs k) \<inter> set (i # needs i) = {})"
proof -
  have "ticked (role_click i s) = (\<lambda>k. k \<notin> set (i # needs i) \<and> ticked s k)"
    using assms(2) by (auto simp: role_click_ticked fun_eq_iff)
  then show ?thesis using assms(1) unfolding roles_closed_needs by auto
qed

text \<open>C19: A role is sent exactly when it has a name, some function is ticked, and every function
  ticked has all the functions it needs.\<close>

theorem role_sent_iff:
  "fst (role_submit roleName s) \<longleftrightarrow>
     trim roleName \<noteq> [] \<and> (\<exists>i \<in> set role_boxes. ticked s i) \<and> roles_closed (ticked s)"
  by (auto simp: role_submit_def testRelation_iff list_ex_iff)

text \<open>C15: Clicking on boxes and the dependencies. From boxes in which every function has what it
  needs, ticking one more keeps it so. Taking one away keeps it so exactly when no function that
  stays ticked needs it or one of its needs, which are taken away with it.\<close>

theorem role_click_closed:
  assumes "roles_closed (ticked s)"
  shows "if ticked s i
    then roles_closed (ticked (role_click i s)) \<longleftrightarrow>
      (\<forall>k. ticked s k \<and> k \<notin> set (i # needs i) \<longrightarrow> set (needs k) \<inter> set (i # needs i) = {})
    else roles_closed (ticked (role_click i s))"
  using tick_keeps_closed [OF assms] untick_closed_iff [OF assms] by simp

definition roles0 :: "unit role_page_ext ui_scheme" where
  "roles0 = ui.extend page0 \<lparr>ticked = (\<lambda>i. i \<in> set [js ''M_7'', js ''M_8'', js ''M_9'']), role_err = []\<rparr>"

text \<open>With two functions that need the preview of templates, taking one away breaks the other.\<close>

theorem role_click_closed_witness:
  "roles_closed (ticked roles0) \<and> roles_closed (ticked (role_click (js ''M_6'') roles0))
    \<and> \<not> roles_closed (ticked (role_click (js ''M_8'') roles0))"
proof -
  have c: "roles_closed (ticked roles0)"
    by (simp add: roles_closed_def modelList_def roles0_def ui.defs)
  have t: "ticked roles0 (js ''M_8'')" "\<not> ticked roles0 (js ''M_6'')" "ticked roles0 (js ''M_9'')"
    "needs (js ''M_8'') = [js ''M_7'']" "needs (js ''M_9'') = [js ''M_7'']"
    by (simp_all add: roles0_def ui.defs needs_def modelList_def)
  have "\<not> (\<forall>k. ticked roles0 k \<and> k \<notin> set (js ''M_8'' # needs (js ''M_8'')) \<longrightarrow>
      set (needs k) \<inter> set (js ''M_8'' # needs (js ''M_8'')) = {})"
    using t by (auto intro!: exI [of _ "js ''M_9''"])
  then show ?thesis
    using c t(1,2) role_click_closed [OF c, of "js ''M_6''"] role_click_closed [OF c, of "js ''M_8''"] by simp
qed

end
