(* ===== verification/Delivery.thy ===== *)
theory Delivery
  imports Master
begin

text \<open>
  Delivery settings of the operators' site: the form of a sending address with its frequencies,
  \<open>webmaster/.../delivery/delivery.smtp.js\<close>, and the search by address, \<open>delivery.log.js\<close>.
\<close>

subsection \<open>Patterns\<close>

definition chr_range :: "nat \<Rightarrow> nat \<Rightarrow> re" where
  "chr_range lo hi = Chr (\<lambda>c. lo \<le> c \<and> c \<le> hi)"

text \<open>\<open>([01]?[\d]{1,2})|(2[0-4][\d])|(25[0-5])\<close>\<close>

definition re_octet :: re where
  "re_octet = Alt (Seq (opt (chr_range 48 49)) (Seq digit (upto_more 1 digit)))
     (Alt (Seq (chr_range 50 50) (Seq (chr_range 48 52) digit)) (Seq (chr_range 50 50) (Seq (chr_range 53 53) (chr_range 48 53))))"

definition re_ip :: re where
  "re_ip = Seq re_octet (times 3 (Seq (chr_range 46 46) re_octet))"

definition checkIp :: "jstring \<Rightarrow> bool" where
  "checkIp ip \<longleftrightarrow> re_test (whole re_ip) ip"

text \<open>\<open>25[0-5]|2[0-4][0-9]|[01]?[0-9][0-9]?\<close>\<close>

definition re_octet2 :: re where
  "re_octet2 = Alt (Seq (chr_range 50 50) (Seq (chr_range 53 53) (chr_range 48 53)))
     (Alt (Seq (chr_range 50 50) (Seq (chr_range 48 52) (chr_range 48 57)))
       (Seq (opt (chr_range 48 49)) (Seq (chr_range 48 57) (opt (chr_range 48 57)))))"

definition re_ip_list :: re where
  "re_ip_list = Star (Seq (times 3 (Seq re_octet2 (chr_range 46 46))) (Seq re_octet2 (opt (chr_range 59 59))))"

definition ws :: re where
  "ws = Chr is_ws"

text \<open>\<open>replace(/;(\s*)/g, ';')\<close>, then \<open>replace(/(^\s*)|(\s*$)/g, '')\<close>\<close>

definition ip_text :: "jstring \<Rightarrow> jstring" where
  "ip_text v =
     (let temp = re_replace (Seq (chr_range 59 59) (Star ws)) (\<lambda>_ _ _. [59]) v
      in re_replace (Alt (Seq Bol (Star ws)) (Seq (Star ws) Eol)) (\<lambda>_ _ _. []) temp)"

subsection \<open>The fields\<close>

definition refuse :: "browser \<Rightarrow> jstring \<Rightarrow> jstring \<Rightarrow> 'a ui_scheme \<Rightarrow> bool \<times> 'a ui_scheme" where
  "refuse b m field u = (False, focus_el field (m_fail b m u))"

definition testIP :: "browser \<Rightarrow> jstring \<Rightarrow> 'a ui_scheme \<Rightarrow> bool \<times> 'a ui_scheme" where
  "testIP b v u =
     (if v = [] then refuse b [0x8BF7, 0x8F93, 0x5165, 0x69, 0x70, 0x5730, 0x5740] (js ''ip'') u
      else if \<not> re_test (whole re_ip_list) (ip_text v) then refuse b [0x8BF7, 0x8F93, 0x5165, 0x5408, 0x6CD5, 0x7684, 0x69, 0x70, 0x5730, 0x5740, 0x2C, 0x591A, 0x4E2A, 0x7528, 0x82F1, 0x6587, 0x5206, 0x53F7, 0x9694, 0x5F00] (js ''ip'') u
      else if length (split_chr 59 v) > 10 then refuse b [0x6BCF, 0x6B21, 0x63D0, 0x4EA4, 0x4E0D, 0x80FD, 0x8D85, 0x8FC7, 0x31, 0x30, 0x4E2A, 0x69, 0x70] (js ''ip'') u
      else (True, u))"

definition maxSize :: nat where
  "maxSize = 10240"

definition testNum :: "browser \<Rightarrow> jstring \<Rightarrow> jstring \<Rightarrow> 'a ui_scheme \<Rightarrow> bool \<times> 'a ui_scheme" where
  "testNum b field v u =
     (if v = [] then refuse b [0x8BF7, 0x8F93, 0x5165, 0x5FC5, 0x586B, 0x9879] field u
      else if \<not> (re_test (whole (plus digit)) v \<and> str_gt v 0) then refuse b [0x8BF7, 0x8F93, 0x5165, 0x5927, 0x4E8E, 0x30, 0x7684, 0x6574, 0x6570] field u
      else if str_gt v 999999999 then refuse b [0x8F93, 0x5165, 0x7684, 0x6570, 0x503C, 0x4E0D, 0x80FD, 0x8D85, 0x8FC7, 0x20, 0x39, 0x20, 0x4F4D, 0x6570, 0x5B57] field u
      else if field = js ''size'' \<and> str_gt v (of_nat maxSize)
      then refuse b ([0x90AE, 0x4EF6, 0x5927, 0x5C0F, 0x4E0D, 0x8D85, 0x8FC7] @ nat_to_str maxSize @ js ''KB'') field u
      else (True, u))"

record smtp_form =
  f_ip :: jstring
  f_quarter :: jstring
  f_hour :: jstring
  f_day :: jstring
  f_size :: jstring

text \<open>\<open>parseInt(x) <= parseInt(y)\<close>, false when one is no number.\<close>

definition int_le :: "jstring \<Rightarrow> jstring \<Rightarrow> bool" where
  "int_le x y \<longleftrightarrow> (case (parse_int x, parse_int y) of (Some i, Some j) \<Rightarrow> i \<le> j | _ \<Rightarrow> False)"

definition and_then :: "bool \<times> 'u \<Rightarrow> ('u \<Rightarrow> bool \<times> 'u) \<Rightarrow> bool \<times> 'u" where
  "and_then r k = (case r of (ok, u) \<Rightarrow> if ok then k u else (False, u))"

definition smtp_submit :: "browser \<Rightarrow> smtp_form \<Rightarrow> 'a ui_scheme \<Rightarrow> bool \<times> 'a ui_scheme" where
  "smtp_submit b f u =
     and_then (testIP b (f_ip f) u) (\<lambda>u.
     and_then (testNum b (js ''quarter'') (f_quarter f) u) (\<lambda>u.
     and_then (testNum b (js ''hour'') (f_hour f) u) (\<lambda>u.
     and_then (testNum b (js ''day'') (f_day f) u) (\<lambda>u.
     and_then (testNum b (js ''size'') (f_size f) u) (\<lambda>u.
       if int_le (f_hour f) (f_quarter f) then (False, m_fail b [0x31, 0x35, 0x5206, 0x949F, 0x9891, 0x7387, 0x6570, 0x503C, 0x9700, 0x5C0F, 0x4E8E, 0x31, 0x5C0F, 0x65F6, 0x9891, 0x7387, 0x6570, 0x503C, 0xFF01] u)
       else if int_le (f_day f) (f_hour f) then (False, m_fail b [0x31, 0x5C0F, 0x65F6, 0x9891, 0x7387, 0x6570, 0x503C, 0x9700, 0x5C0F, 0x4E8E, 0x31, 0x5929, 0x9891, 0x7387, 0x6570, 0x503C, 0xFF01] u)
       else (True, u))))))"

definition smtp_success :: "browser \<Rightarrow> (jstring option \<times> jstring) option \<Rightarrow> 'a ui_scheme \<Rightarrow> 'a ui_scheme" where
  "smtp_success b data u =
     (case data of
        None \<Rightarrow> u
      | Some (result, m) \<Rightarrow>
          if result = Some (js ''success'')
          then start_timer (GoTo (js ''/delivery/smtp/smtpList'')) 2000 (m_error_message b m 0 0 0 [] u)
          else if result = None then m_fail b [0x63D0, 0x4EA4, 0x5931, 0x8D25, 0xFF01] u
          else m_fail b m u)"

text \<open>The search of the log: the page number is reset and the list form sent, \<open>Some\<close> its action.\<close>

definition log_search :: "jstring \<Rightarrow> jstring \<Rightarrow> 'a robot_page_scheme \<Rightarrow> jstring option \<times> 'a robot_page_scheme" where
  "log_search listUrl ip s =
     (if ip \<noteq> [] then
        if checkIp ip then (Some listUrl, s)
        else (None, focus_el (js ''#search_ip'') (messagebox [0x69, 0x70, 0x683C, 0x5F0F, 0x4E0D, 0x6B63, 0x786E] 0 2000 s))
      else (Some listUrl, s))"

subsection \<open>Lemmas: numbers\<close>

definition digits :: "jstring \<Rightarrow> bool" where
  "digits v \<longleftrightarrow> v \<noteq> [] \<and> list_all is_digit v"

lemma digits_scan:
  assumes "digits v"
  shows "takeWhile is_digit v = v" "dropWhile is_digit v = []"
  using assms takeWhile_all [of v is_digit] by (simp_all add: digits_def list_all_iff)

lemma digits_ends: "digits v \<Longrightarrow> is_digit (hd v) \<and> is_digit (last v)"
  using hd_in_set [of v] last_in_set [of v] by (auto simp: digits_def list_all_iff)

lemma digits_not_hex:
  assumes "digits v" and "length v \<ge> 2"
  shows "v ! 1 \<noteq> 120 \<and> v ! 1 \<noteq> 88"
proof -
  have "v ! 1 \<in> set v" using assms(2) by (intro nth_mem) simp
  then have "is_digit (v ! 1)" using assms(1) by (simp add: digits_def list_all_iff)
  then show ?thesis by (auto simp: is_digit_def)
qed

lemma parse_int_digits:
  assumes v: "digits v"
  shows "parse_int v = Some (int (digits_val v))"
proof -
  have h: "is_digit (hd v)" using digits_ends [OF v] by auto
  then have "trim_left v = v" using is_ws_digit [OF h] by (cases v) (simp_all add: trim_left_def)
  moreover have "hd v \<noteq> 45" "hd v \<noteq> 43" using h by (auto simp: is_digit_def)
  ultimately show ?thesis
    using v digits_not_hex [OF v] by (auto simp: parse_int_def Let_def digits_def digits_scan [OF v])
qed

lemma digit_pattern: "re_test (whole (plus digit)) v \<longleftrightarrow> digits v"
  using re_test_whole [OF denotes_plus_Chr, of "\<lambda>c. 48 \<le> c \<and> c \<le> 57" v]
  by (simp add: digit_def digits_def is_digit_def [abs_def])

definition number_ok :: "jstring \<Rightarrow> nat \<Rightarrow> bool" where
  "number_ok v mx \<longleftrightarrow> digits v \<and> 0 < digits_val v \<and> digits_val v \<le> mx"

lemma testNum_iff:
  "fst (testNum b field v u) \<longleftrightarrow> number_ok v (if field = js ''size'' then maxSize else 999999999)"
proof (cases "digits v")
  case True
  have "str_gt v (of_nat n) \<longleftrightarrow> n < digits_val v" for n
    using to_number_digits [of v] True by (simp add: str_gt_def digits_def)
  from this [of 0] this [of 999999999] this [of maxSize] True show ?thesis
    by (auto simp: testNum_def refuse_def digit_pattern number_ok_def digits_def maxSize_def)
next
  case False
  then show ?thesis by (auto simp: testNum_def refuse_def digit_pattern number_ok_def)
qed

subsection \<open>Lemmas: addresses\<close>

text \<open>Reference definitions: an octet is a number of one to three digits up to 255, an address four
  of them between dots.\<close>

definition octet_ok :: "jstring \<Rightarrow> bool" where
  "octet_ok s \<longleftrightarrow> digits s \<and> length s \<le> 3 \<and> digits_val s \<le> 255"

definition ip_ok :: "jstring \<Rightarrow> bool" where
  "ip_ok s \<longleftrightarrow> length (split_chr 46 s) = 4 \<and> list_all octet_ok (split_chr 46 s)"

lemma denotes_opt_Chr: "denotes (opt (Chr P)) (\<lambda>p. p = [] \<or> (\<exists>c. p = [c] \<and> P c))"
  unfolding opt_def using denotes_Alt [OF denotes_Chr denotes_Eps] by (rule denotes_cong) auto

lemma lang_seq_opt: "lang_seq (\<lambda>p. p = [] \<or> (\<exists>c. p = [c] \<and> P c)) M p
    \<longleftrightarrow> M p \<or> (\<exists>c w. p = c # w \<and> P c \<and> M w)"
  unfolding lang_seq_def by (metis append_Cons append_Nil)

lemma octet_forms:
  "octet_ok p \<longleftrightarrow>
     (\<exists>a. p = [a] \<and> is_digit a) \<or> (\<exists>a b. p = [a, b] \<and> is_digit a \<and> is_digit b)
     \<or> (\<exists>a b c. p = [a, b, c] \<and> is_digit a \<and> is_digit b \<and> is_digit c
          \<and> (a \<le> 49 \<or> a = 50 \<and> (b \<le> 52 \<or> b = 53 \<and> c \<le> 53)))"
proof -
  consider "p = []" | a where "p = [a]" | a b where "p = [a, b]" | a b c where "p = [a, b, c]"
    | a b c d q where "p = a # b # c # d # q" by (metis list.exhaust)
  then show ?thesis
    by cases (auto simp: octet_ok_def digits_def digits_val_def is_digit_def)
qed

lemma denotes_small:
  "denotes (Seq (opt (chr_range 48 49)) (Seq (chr_range 48 57) (opt (chr_range 48 57))))
     (\<lambda>p. (\<exists>a. p = [a] \<and> is_digit a) \<or> (\<exists>a b. p = [a, b] \<and> is_digit a \<and> is_digit b)
       \<or> (\<exists>a b c. p = [a, b, c] \<and> is_digit a \<and> is_digit b \<and> is_digit c \<and> a \<le> 49))"
  unfolding chr_range_def
  using denotes_Seq [OF denotes_opt_Chr denotes_Seq [OF denotes_Chr denotes_opt_Chr]]
  by (rule denotes_cong) (auto simp: lang_seq_opt lang_seq_chr is_digit_def)

lemma denotes_three:
  "denotes (Seq (chr_range l m) (Seq (chr_range n k) (chr_range i j)))
     (\<lambda>p. \<exists>a b c. p = [a, b, c] \<and> l \<le> a \<and> a \<le> m \<and> n \<le> b \<and> b \<le> k \<and> i \<le> c \<and> c \<le> j)"
  unfolding chr_range_def using denotes_Seq [OF denotes_Chr denotes_Seq [OF denotes_Chr denotes_Chr]]
  by (rule denotes_cong) (auto simp: lang_seq_chr)

lemma denotes_octet: "denotes re_octet octet_ok" "denotes re_octet2 octet_ok"
proof -
  have d: "digit = chr_range 48 57" "upto_more 1 digit = opt (Seq (chr_range 48 57) Eps)"
    by (simp_all add: digit_def chr_range_def opt_def)
  show "denotes re_octet2 octet_ok"
    unfolding re_octet2_def using denotes_Alt [OF denotes_three denotes_Alt [OF denotes_three denotes_small]]
    by (rule denotes_cong) (auto simp: octet_forms is_digit_def)
  have m: "set (match_at n re_octet s) = set (match_at n re_octet2 s)" for n s
    by (auto simp: re_octet_def re_octet2_def d opt_def match_Seq)
  then show "denotes re_octet octet_ok"
    using \<open>denotes re_octet2 octet_ok\<close> by (simp add: denotes_def)
qed

definition four :: "jstring \<Rightarrow> bool" where
  "four p \<longleftrightarrow> (\<exists>a b c d. p = a @ 46 # b @ 46 # c @ 46 # d \<and> octet_ok a \<and> octet_ok b \<and> octet_ok c \<and> octet_ok d)"

lemma octet_no_dot: "octet_ok a \<Longrightarrow> 46 \<notin> set a" "octet_ok a \<Longrightarrow> 59 \<notin> set a"
  by (auto simp: octet_ok_def digits_def list_all_iff is_digit_def)

lemma four_iff: "four p \<longleftrightarrow> ip_ok p"
proof
  assume "four p"
  then obtain a b c d where p: "p = a @ 46 # b @ 46 # c @ 46 # d"
    and o: "octet_ok a" "octet_ok b" "octet_ok c" "octet_ok d" by (auto simp: four_def)
  then have "split_chr 46 p = [a, b, c, d]" by (simp add: octet_no_dot)
  with o show "ip_ok p" by (simp add: ip_ok_def)
next
  assume i: "ip_ok p"
  then obtain a b c d where s: "split_chr 46 p = [a, b, c, d]"
    by (auto simp: ip_ok_def length_Suc_conv numeral_eq_Suc)
  then have "p = a @ 46 # b @ 46 # c @ 46 # d" using join_split [of 46 p] by simp
  with i s show "four p" by (auto simp: four_def ip_ok_def)
qed

lemma denotes_dot_octet: "denotes (Seq (chr_range 46 46) re_octet) (\<lambda>p. \<exists>a. p = 46 # a \<and> octet_ok a)"
  unfolding chr_range_def using denotes_Seq [OF denotes_Chr denotes_octet(1)]
  by (rule denotes_cong) (auto simp: lang_seq_chr)

lemma denotes_octet_dot: "denotes (Seq re_octet2 (chr_range 46 46)) (\<lambda>p. \<exists>a. p = a @ [46] \<and> octet_ok a)"
  unfolding chr_range_def using denotes_Seq [OF denotes_octet(2) denotes_Chr]
  by (rule denotes_cong) (auto simp: lang_seq_def)

lemma times_three: "times 3 e = Seq e (Seq e (Seq e Eps))"
  by (simp add: numeral_eq_Suc)

lemma lang_seq_Nil: "lang_seq L (\<lambda>p. p = []) = L"
  by (auto simp: lang_seq_def fun_eq_iff)

text \<open>The dots before, or after, the octets.\<close>

lemma four_front:
  defines "D \<equiv> \<lambda>p. \<exists>a. p = 46 # a \<and> octet_ok a"
  shows "lang_seq octet_ok (lang_seq D (lang_seq D D)) p \<longleftrightarrow> four p"
proof
  assume "lang_seq octet_ok (lang_seq D (lang_seq D D)) p"
  then obtain a b c d where "p = a @ b @ c @ d" "octet_ok a" "D b" "D c" "D d" by (auto simp: lang_seq_def)
  then show "four p" unfolding D_def four_def by (metis append_Cons)
next
  assume "four p"
  then obtain a b c d where p: "p = a @ (46 # b) @ (46 # c) @ (46 # d)"
    and o: "octet_ok a" "D (46 # b)" "D (46 # c)" "D (46 # d)" by (auto simp: four_def D_def)
  then show "lang_seq octet_ok (lang_seq D (lang_seq D D)) p" unfolding lang_seq_def by blast
qed

lemma four_back:
  defines "D \<equiv> \<lambda>p. \<exists>a. p = a @ [46] \<and> octet_ok a"
  shows "lang_seq (lang_seq D (lang_seq D D)) (lang_seq octet_ok M) p \<longleftrightarrow> lang_seq four M p"
proof
  assume "lang_seq (lang_seq D (lang_seq D D)) (lang_seq octet_ok M) p"
  then obtain a b c d m where "p = (a @ b @ c) @ d @ m" "D a" "D b" "D c" "octet_ok d" "M m"
    by (auto simp: lang_seq_def)
  then obtain a' b' c' where "p = (a' @ 46 # b' @ 46 # c' @ 46 # d) @ m" "octet_ok a'" "octet_ok b'" "octet_ok c'"
    by (auto simp: D_def)
  with \<open>octet_ok d\<close> \<open>M m\<close> show "lang_seq four M p" unfolding lang_seq_def four_def by blast
next
  assume "lang_seq four M p"
  then obtain q m where "p = q @ m" "four q" "M m" by (auto simp: lang_seq_def)
  then obtain a b c d where "p = ((a @ [46]) @ (b @ [46]) @ (c @ [46])) @ d @ m"
    "D (a @ [46])" "D (b @ [46])" "D (c @ [46])" "octet_ok d" by (auto simp: four_def D_def)
  with \<open>M m\<close> show "lang_seq (lang_seq D (lang_seq D D)) (lang_seq octet_ok M) p"
    unfolding lang_seq_def by blast
qed

lemma denotes_ip: "denotes re_ip ip_ok"
proof -
  let ?D = "\<lambda>p. \<exists>a. p = 46 # a \<and> octet_ok a"
  have "denotes re_ip (lang_seq octet_ok (lang_seq ?D (lang_seq ?D (lang_seq ?D (\<lambda>p. p = [])))))"
    unfolding re_ip_def times_three
    by (intro denotes_Seq denotes_octet(1) denotes_dot_octet denotes_Eps)
  then show ?thesis
  proof (rule denotes_cong)
    fix p
    show "lang_seq octet_ok (lang_seq ?D (lang_seq ?D (lang_seq ?D (\<lambda>p. p = [])))) p \<longleftrightarrow> ip_ok p"
      unfolding four_iff [symmetric] lang_seq_Nil by (rule four_front)
  qed
qed

text \<open>The search field takes exactly the texts that are four numbers from 0 to 255 of one to
  three digits each, with dots between them.\<close>

lemma checkIp_iff:
  "checkIp s \<longleftrightarrow> length (split_chr 46 s) = 4
     \<and> list_all (\<lambda>d. d \<noteq> [] \<and> list_all is_digit d \<and> length d \<le> 3 \<and> digits_val d \<le> 255) (split_chr 46 s)"
  using re_test_whole [OF denotes_ip, of s]
  by (simp add: checkIp_def ip_ok_def octet_ok_def [abs_def] digits_def conj_assoc)

definition ip_entry :: "jstring \<Rightarrow> bool" where
  "ip_entry p \<longleftrightarrow> ip_ok p \<or> (\<exists>q. p = q @ [59] \<and> ip_ok q)"

lemma denotes_ip_list: "denotes re_ip_list (lang_star ip_entry)"
proof -
  let ?D = "\<lambda>p. \<exists>a. p = a @ [46] \<and> octet_ok a" and ?O = "\<lambda>p. p = [] \<or> (\<exists>c. p = [c] \<and> 59 \<le> c \<and> c \<le> 59)"
  have "denotes (Seq (times 3 (Seq re_octet2 (chr_range 46 46))) (Seq re_octet2 (opt (chr_range 59 59))))
      (lang_seq (lang_seq ?D (lang_seq ?D (lang_seq ?D (\<lambda>p. p = [])))) (lang_seq octet_ok ?O))"
    unfolding times_three chr_range_def [of 59]
    by (intro denotes_Seq denotes_octet(2) denotes_octet_dot denotes_Eps denotes_opt_Chr)
  then have "denotes (Seq (times 3 (Seq re_octet2 (chr_range 46 46))) (Seq re_octet2 (opt (chr_range 59 59)))) ip_entry"
  proof (rule denotes_cong)
    fix p
    show "lang_seq (lang_seq ?D (lang_seq ?D (lang_seq ?D (\<lambda>p. p = [])))) (lang_seq octet_ok ?O) p \<longleftrightarrow> ip_entry p"
      unfolding lang_seq_Nil four_back unfolding lang_seq_def four_iff ip_entry_def by auto
  qed
  then show ?thesis unfolding re_ip_list_def by (rule denotes_Star)
qed

subsection \<open>The form\<close>

lemma fst_and_then [simp]: "fst (and_then r k) \<longleftrightarrow> fst r \<and> fst (k (snd r))"
  by (cases r) (simp add: and_then_def)

lemma testIP_iff:
  "fst (testIP b v u) \<longleftrightarrow> v \<noteq> [] \<and> lang_star ip_entry (ip_text v) \<and> length (split_chr 59 v) \<le> 10"
  using re_test_whole [OF denotes_ip_list, of "ip_text v"] by (auto simp: testIP_def refuse_def)

lemma int_le_digits: "digits x \<Longrightarrow> digits y \<Longrightarrow> int_le x y \<longleftrightarrow> digits_val x \<le> digits_val y"
  by (simp add: int_le_def parse_int_digits)

text \<open>The form of a sending address is sent exactly when the field of addresses, its spaces
  taken away, is a row of addresses each with or without a semicolon after it, of at most ten
  parts, the four numbers are positive and within nine digits (the size within 10240), and the
  frequencies grow strictly from a quarter of an hour to an hour to a day.\<close>

lemma smtp_sent_iff:
  "fst (smtp_submit b f u) \<longleftrightarrow>
     f_ip f \<noteq> [] \<and> (\<exists>ps. ip_text (f_ip f) = concat ps \<and> list_all ip_entry ps) \<and> length (split_chr 59 (f_ip f)) \<le> 10
     \<and> number_ok (f_quarter f) 999999999 \<and> number_ok (f_hour f) 999999999 \<and> number_ok (f_day f) 999999999
     \<and> number_ok (f_size f) 10240
     \<and> digits_val (f_quarter f) < digits_val (f_hour f) \<and> digits_val (f_hour f) < digits_val (f_day f)"
proof -
  have n: "js ''quarter'' \<noteq> js ''size''" "js ''hour'' \<noteq> js ''size''" "js ''day'' \<noteq> js ''size''" by simp_all
  have r: "fst (if int_le (f_hour f) (f_quarter f) then (False, x) else if int_le (f_day f) (f_hour f) then (False, y) else (True, z))
      \<longleftrightarrow> \<not> int_le (f_hour f) (f_quarter f) \<and> \<not> int_le (f_day f) (f_hour f)" for x y z :: "'a ui_scheme" by simp
  show ?thesis
    unfolding smtp_submit_def fst_and_then testIP_iff testNum_iff r lang_star_def if_not_P [OF n(1)] if_not_P [OF n(2)]
      if_not_P [OF n(3)] maxSize_def
    by (auto simp: number_ok_def int_le_digits)
qed

text \<open>A blank passes, and two addresses with nothing between them.\<close>

lemma ends_idle:
  assumes "list_all (\<lambda>c. \<not> is_ws c) s"
  shows "re_replace (Alt (Seq Bol (Star ws)) (Seq (Star ws) Eol)) (\<lambda>_ _ _. []) s = s"
proof -
  define e where "e = Alt (Seq Bol (Star ws)) (Seq (Star ws) Eol)"
  have w: "match_at n (Star ws) t = [t]" if "list_all (\<lambda>c. \<not> is_ws c) t" for n t
    using that by (cases t) (simp_all add: match_at.simps(5) ws_def)
  have m: "match_at n e t = (if length t = n then [t] else []) @ (if t = [] then [t] else [])"
    if "list_all (\<lambda>c. \<not> is_ws c) t" for n t
    using w [OF that, of n] by (simp add: e_def match_at.simps(3))
  have "replace_g n e (\<lambda>_ _ _. []) b t = t" if "list_all (\<lambda>c. \<not> is_ws c) t" "length t < n" for n b t
    using that
  proof (induction t arbitrary: b)
    case (Cons c t)
    then show ?case by (subst replace_g.simps) (simp add: m)
  qed (subst replace_g.simps, simp add: m Let_def)
  then have "replace_g (length s) e (\<lambda>_ _ _. []) [] s = s"
    using assms by (cases s) (subst replace_g.simps, simp add: m Let_def)+
  then show ?thesis by (simp add: re_replace_def e_def)
qed

lemma ip_text_plain:
  assumes "list_all (\<lambda>c. \<not> is_ws c \<and> c \<noteq> 59) s"
  shows "ip_text s = s"
proof -
  have "match_at n (Seq (chr_range 59 59) (Star ws)) t = []" if "suffix t s" for n t
  proof -
    have "59 \<notin> set t" using that assms by (auto simp: suffix_def list_all_iff)
    then show ?thesis by (cases t) (auto simp: match_at.simps(3) chr_range_def)
  qed
  then have "re_replace (Seq (chr_range 59 59) (Star ws)) (\<lambda>_ _ _. [59]) s = s"
    unfolding re_replace_def by (intro replace_g_none)
  then show ?thesis using assms by (simp add: ip_text_def ends_idle list_all_iff)
qed

lemma testIP_joined: "fst (testIP b (js ''1.1.1.11.1.1.1'') u)"
proof -
  have "ip_text (js ''1.1.1.11.1.1.1'') = concat [js ''1.1.1.1'', js ''1.1.1.1'']"
    by (subst ip_text_plain) (simp_all add: js_def is_ws_def)
  moreover have "ip_entry (js ''1.1.1.1'')"
    by (simp add: ip_entry_def ip_ok_def octet_ok_def digits_def is_digit_def digits_val_def js_def)
  ultimately have "lang_star ip_entry (ip_text (js ''1.1.1.11.1.1.1''))"
    unfolding lang_star_def by (intro exI [of _ "[js ''1.1.1.1'', js ''1.1.1.1'']"]) simp
  then show ?thesis by (simp add: testIP_iff js_def)
qed

end
