(* ===== verification/DeliveryRules.thy ===== *)
theory DeliveryRules
  imports Import
begin

text \<open>
  The rules of delivery by domain, \<open>webmaster/.../delivery/delivery.rule.js\<close> (\<open>delivery.ruleCustom.js\<close>
  is the same text). A row names a domain, taken from a pool as the extra properties of a
  recipient are, and has three fields for the mails in a quarter of an hour, an hour and a day.
  Rows are numbered by their position, so the fields are a list beside the rows.
\<close>

record rule_page = pool_page +
  row_limits :: "(jstring \<times> jstring \<times> jstring) list"  \<comment> \<open>\<open>mins_i\<close>, \<open>hours_i\<close>, \<open>days_i\<close>\<close>
  alerted :: "jstring list"

definition rule_props_list :: "'a rule_page_scheme \<Rightarrow> 'a rule_page_scheme" where
  "rule_props_list s =
     (let s = s\<lparr>len := length (slots s)\<rparr>; s = s\<lparr>total := len s + length (props s)\<rparr>
      in s\<lparr>menus := all_menus (js ''repeat'') (len s) (props s)\<rparr>)"

definition rule_repeat :: "nat \<Rightarrow> jstring \<Rightarrow> jstring \<Rightarrow> 'a rule_page_scheme \<Rightarrow> 'a rule_page_scheme" where
  "rule_repeat i val_hide val_click s =
     (let s = s\<lparr>props := give_back (slot_at i s) (props s)\<rparr>;
          s = s\<lparr>props := take_out val_click (props s)\<rparr>;
          s = s\<lparr>menus := all_menus (js ''repeat'') (len s) (props s)\<rparr>;
          s = s\<lparr>slots := (slots s)[i := (val_hide, val_click)]\<rparr>
      in hide_el (js ''.select_div'') (s\<lparr>select_id := []\<rparr>))"

definition rule_add :: "'a rule_page_scheme \<Rightarrow> 'a rule_page_scheme" where
  "rule_add s =
     (if len s + 1 \<ge> total s
      then s\<lparr>alerted := alerted s @ [[0x8BBE, 0x7F6E, 0x4E0D, 0x80FD, 0x591A, 0x4E8E] @ int_to_str (int (total s) - 1) @ [0x4E2A]]\<rparr>
      else s\<lparr>slots := slots s @ [([], please_choose)], row_limits := row_limits s @ [([], [], [])],
             menus := menus s @ [menu_html (js ''repeat'') (len s) (props s)], len := len s + 1\<rparr>)"

definition rule_del :: "nat \<Rightarrow> 'a rule_page_scheme \<Rightarrow> 'a rule_page_scheme" where
  "rule_del i s =
     (let s = s\<lparr>props := give_back (slot_at i s) (props s)\<rparr>;
          s = s\<lparr>len := len s - 1\<rparr>;
          s = s\<lparr>slots := splice1 i (slots s), row_limits := splice1 i (row_limits s)\<rparr>
      in s\<lparr>menus := all_menus (js ''repeat'') (len s) (props s)\<rparr>)"

text \<open>Typing into the fields of a row.\<close>

definition rule_type :: "nat \<Rightarrow> jstring \<times> jstring \<times> jstring \<Rightarrow> 'a rule_page_scheme \<Rightarrow> 'a rule_page_scheme" where
  "rule_type i v s = s\<lparr>row_limits := (row_limits s)[i := v]\<rparr>"

subsection \<open>A row keeps its limits\<close>

datatype rule_op = RChoose nat entry | RAdd | RDel nat | RType nat "jstring \<times> jstring \<times> jstring"

fun rule_step :: "rule_op \<Rightarrow> 'a rule_page_scheme \<Rightarrow> 'a rule_page_scheme" where
  "rule_step (RChoose i e) s =
     (if i < length (slots s) \<and> e \<in> set (props s) then rule_repeat i (fst e) (snd e) s else s)"
| "rule_step RAdd s = rule_add s"
| "rule_step (RDel i) s = (if i < length (slots s) then rule_del i s else s)"
| "rule_step (RType i v) s = (if i < length (slots s) then rule_type i v s else s)"

text \<open>The table as the operator sees it: domain and limits of each row.\<close>

definition table :: "'a rule_page_scheme \<Rightarrow> (jstring \<times> jstring \<times> jstring \<times> jstring) list" where
  "table s = zip (map snd (slots s)) (row_limits s)"

text \<open>What the steps mean for the table.\<close>

fun table_step :: "nat \<Rightarrow> rule_op \<Rightarrow> (jstring \<times> jstring \<times> jstring \<times> jstring) list
    \<Rightarrow> (jstring \<times> jstring \<times> jstring \<times> jstring) list" where
  "table_step n (RChoose i e) t = t[i := (snd e, snd (t ! i))]"
| "table_step n RAdd t = (if length t + 1 \<ge> n then t else t @ [(please_choose, [], [], [])])"
| "table_step n (RDel i) t = splice1 i t"
| "table_step n (RType i v) t = t[i := (fst (t ! i), v)]"

definition rule_rows :: "'a rule_page_scheme \<Rightarrow> bool" where
  "rule_rows s \<longleftrightarrow> length (row_limits s) = length (slots s) \<and> len s = length (slots s)"

lemma rule_fields [simp]:
  "slots (rule_repeat i v tx s) = (slots s)[i := (v, tx)]" "row_limits (rule_repeat i v tx s) = row_limits s"
  "len (rule_repeat i v tx s) = len s" "total (rule_repeat i v tx s) = total s"
  "slots (rule_del i s) = splice1 i (slots s)" "row_limits (rule_del i s) = splice1 i (row_limits s)"
  "len (rule_del i s) = len s - 1" "total (rule_del i s) = total s"
  by (simp_all add: rule_repeat_def rule_del_def hide_el_def slot_at_def Let_def)

lemma rule_rows_step: "rule_rows s \<Longrightarrow> rule_rows (rule_step x s)"
  by (cases x) (auto simp: rule_rows_def rule_add_def rule_type_def splice1_def)

lemma splice1_map: "map f (splice1 i xs) = splice1 i (map f xs)"
  by (simp add: splice1_def take_map drop_map)

lemma zip_splice1: "length xs = length ys \<Longrightarrow> zip (splice1 i xs) (splice1 i ys) = splice1 i (zip xs ys)"
  by (simp add: splice1_def take_zip drop_zip)

fun op_enabled :: "rule_op \<Rightarrow> 'a rule_page_scheme \<Rightarrow> bool" where
  "op_enabled (RChoose i e) s \<longleftrightarrow> i < length (slots s) \<and> e \<in> set (props s)"
| "op_enabled RAdd s \<longleftrightarrow> True"
| "op_enabled (RDel i) s \<longleftrightarrow> i < length (slots s)"
| "op_enabled (RType i v) s \<longleftrightarrow> i < length (slots s)"


definition rules0 :: "unit rule_page_ext pool_page_scheme" where
  "rules0 = pool_page.extend (ui.extend page0
     \<lparr>props = [(js ''1'', js ''qq''), (js ''2'', js ''sina'')], orig_props = [],
      slots = [(js ''3'', js ''sohu''), ([], please_choose)], menus = [], len = 2, total = 4\<rparr>)
     \<lparr>row_limits = [(js ''5'', js ''9'', js ''99''), ([], [], [])], alerted = []\<rparr>"


end
