(* ===== verification/Select.thy ===== *)
theory Select
  imports Forms
begin

text \<open>
  The drop-down lists of the customers' site, \<open>static/js/common/select.js\<close> (\<open>UIselect\<close>). All of them share one
  frame \<open>.select_div\<close>; its id, \<open>se_\<close> and the id of a trigger, says whose list it shows. A click on
  a trigger fills, places and opens the frame, or closes it if it is its own already; a press of
  the mouse elsewhere closes it. \<open>sel_bound\<close> are the triggers whose handler for such a press is
  bound to the document.
\<close>

record sel_place =
  sp_left :: "int option"
  sp_right :: "int option"
  sp_top :: "int option"
  sp_bottom :: "int option"
  sp_width :: "int option"
  sp_li_width :: int
  sp_height :: "int option"

record sel_page = ui +
  sel_bound :: "jstring list"
  frame_place :: "sel_place option"

record sel_opts =
  so_width :: int
  so_radio :: bool
  so_arrdata :: "row list option"  \<comment> \<open>\<open>None\<close>: the empty text\<close>
  so_tit_id :: jstring
  so_id_id :: jstring
  so_ho_fun :: jstring
  so_html :: jstring
  so_foot_html :: jstring
  so_url :: jstring
  so_edit_top :: int
  so_align :: jstring
  so_url_id :: jstring
  so_url_error :: jstring
  so_height :: int

record sel_geo =
  sg_top :: int       \<comment> \<open>\<open>offset().top\<close> of the element the frame is put at\<close>
  sg_left :: int
  sg_pos_top :: int   \<comment> \<open>\<open>position().top\<close>\<close>
  sg_width :: int
  sg_height :: int
  sg_div_w :: int     \<comment> \<open>width of the frame once filled\<close>
  sg_div_w2 :: int    \<comment> \<open>and once its width is set\<close>
  sg_div_h :: int

subsection \<open>The text shown for a stored value\<close>

fun title_row :: "jstring list \<Rightarrow> row \<Rightarrow> jstring \<Rightarrow> jstring" where
  "title_row [] r out = out"
| "title_row (v # vs) r out =
     title_row vs r (if js_eq (JStr v) (cell r 0)
       then (if out = [] then out @ to_str (cell r 1) else out @ js '','' @ to_str (cell r 1)) else out)"

fun title_rows :: "jstring list \<Rightarrow> row list \<Rightarrow> jstring \<Rightarrow> jstring" where
  "title_rows vs [] out = out"
| "title_rows vs (r # rs) out = title_rows vs rs (title_row vs r out)"

definition title_el :: "sel_opts \<Rightarrow> jstring \<Rightarrow> jstring" where
  "title_el p i = (if so_tit_id p = [] then js ''#'' @ i else so_tit_id p)"

text \<open>\<open>arrdata\<close> left out is the empty text, whose length is 0.\<close>

definition uiselect_init :: "sel_opts \<Rightarrow> jstring \<Rightarrow> jstring \<Rightarrow> 'a ui_scheme \<Rightarrow> 'a ui_scheme" where
  "uiselect_init p i val u =
     (if so_id_id p \<noteq> [] \<and> val \<noteq> []
      then set_html (title_el p i)
             (title_rows (split_chr 44 val) (case so_arrdata p of Some rs \<Rightarrow> rs | None \<Rightarrow> []) []) u
      else u)"

subsection \<open>The list\<close>

definition radio_item :: "sel_opts \<Rightarrow> jstring \<Rightarrow> row \<Rightarrow> jstring" where
  "radio_item p i r =
     [0x3C, 0x6C, 0x69, 0x3E, 0x3C, 0x61, 0x20, 0x68, 0x69, 0x64, 0x65, 0x66, 0x6F, 0x63, 0x75, 0x73, 0x3D, 0x22, 0x74, 0x72, 0x75, 0x65, 0x22, 0x20, 0x6F, 0x6E, 0x63, 0x6C, 0x69, 0x63, 0x6B, 0x3D, 0x22, 0x63, 0x61, 0x74, 0x65, 0x67, 0x6F, 0x72, 0x79, 0x49, 0x64, 0x5F, 0x66, 0x75, 0x6E, 0x28, 0x27] @ so_id_id p @ [0x27, 0x2C, 0x27] @ to_str (cell r 0) @ [0x27, 0x2C, 0x27]
     @ title_el p i @ [0x27, 0x2C, 0x27] @ to_str (cell r 1) @ [0x27, 0x2C, 0x27] @ so_ho_fun p
     @ [0x27, 0x29, 0x22, 0x20, 0x68, 0x72, 0x65, 0x66, 0x3D, 0x22, 0x6A, 0x61, 0x76, 0x61, 0x73, 0x63, 0x72, 0x69, 0x70, 0x74, 0x3A, 0x76, 0x6F, 0x69, 0x64, 0x28, 0x30, 0x29, 0x22, 0x20, 0x74, 0x69, 0x74, 0x6C, 0x65, 0x3D, 0x22] @ to_str (cell r 1) @ [0x22, 0x3E] @ to_str (cell r 1) @ js ''</a></li>''"

definition check_item :: "sel_opts \<Rightarrow> jstring \<Rightarrow> jstring \<Rightarrow> row \<Rightarrow> jstring" where
  "check_item p i class_tit r =
     [0x3C, 0x6C, 0x69, 0x20, 0x20, 0x63, 0x6C, 0x61, 0x73, 0x73, 0x3D, 0x22, 0x63, 0x68, 0x65, 0x63, 0x6B, 0x62, 0x6F, 0x78, 0x22, 0x20, 0x69, 0x64, 0x3D, 0x22] @ i @ js ''_li_'' @ to_str (cell r 0)
     @ [0x22, 0x20, 0x3E, 0x3C, 0x61, 0x20, 0x68, 0x69, 0x64, 0x65, 0x66, 0x6F, 0x63, 0x75, 0x73, 0x3D, 0x22, 0x74, 0x72, 0x75, 0x65, 0x22, 0x20, 0x6F, 0x6E, 0x63, 0x6C, 0x69, 0x63, 0x6B, 0x3D, 0x22, 0x63, 0x68, 0x65, 0x63, 0x6B, 0x62, 0x6F, 0x78, 0x5F, 0x66, 0x75, 0x6E, 0x28, 0x27] @ so_id_id p @ [0x27, 0x2C, 0x27] @ to_str (cell r 0) @ [0x27, 0x2C, 0x27]
     @ title_el p i @ [0x27, 0x2C, 0x27] @ i @ [0x27, 0x2C, 0x27] @ so_ho_fun p
     @ [0x27, 0x29, 0x22, 0x20, 0x20, 0x68, 0x72, 0x65, 0x66, 0x3D, 0x22, 0x6A, 0x61, 0x76, 0x61, 0x73, 0x63, 0x72, 0x69, 0x70, 0x74, 0x3A, 0x76, 0x6F, 0x69, 0x64, 0x28, 0x30, 0x29, 0x22, 0x20, 0x63, 0x6C, 0x61, 0x73, 0x73, 0x3D, 0x22] @ class_tit @ [0x22, 0x20, 0x3E] @ to_str (cell r 1) @ js ''</a></li>''"

fun check_class :: "jstring list \<Rightarrow> row \<Rightarrow> jstring \<Rightarrow> jstring" where
  "check_class [] r c = c"
| "check_class (v # vs) r c = check_class vs r (if v = to_str (cell r 0) then js ''checkbox_2'' else c)"

definition sel_list :: "sel_opts \<Rightarrow> jstring \<Rightarrow> jstring \<Rightarrow> row list \<Rightarrow> jstring" where
  "sel_list p i val rs =
     js ''<ul>''
     @ (if rs \<noteq> [] then
          if so_radio p then concat (map (radio_item p i) rs)
          else if val = [] then concat (map (check_item p i (js ''checkbox_0'')) rs)
          else concat (map (\<lambda>r. check_item p i (check_class (split_chr 44 val) r (js ''checkbox_0'')) r) rs)
        else [0x3C, 0x6C, 0x69, 0x3E, 0x3C, 0x70, 0x20, 0x73, 0x74, 0x79, 0x6C, 0x65, 0x3D, 0x27, 0x74, 0x65, 0x78, 0x74, 0x2D, 0x61, 0x6C, 0x69, 0x67, 0x6E, 0x3A, 0x63, 0x65, 0x6E, 0x74, 0x65, 0x72, 0x27, 0x3E, 0x6CA1, 0x6709, 0x6570, 0x636E, 0xFF01, 0x3C, 0x2F, 0x70, 0x3E, 0x3C, 0x2F, 0x6C, 0x69, 0x3E])
     @ so_foot_html p @ js ''</ul>''"

subsection \<open>Placing the frame\<close>

definition sel_position :: "browser \<Rightarrow> sel_opts \<Rightarrow> sel_geo \<Rightarrow> sel_place" where
  "sel_position b p g =
     (let low = sg_top g + sg_height g + 2;
          li_w = (if so_width p > 0 then so_width p - 20 else sg_div_w g - 20);
          w = (if so_width p > 0 then Some (so_width p) else None);
          to_left = win_w b - sg_left g > sg_div_w2 g \<and> so_align p = js ''left'';
          low = (if so_edit_top p > 0 then low + so_edit_top p else low);
          cut_h = so_height p > 0 \<and> so_height p < sg_div_h g;
          h = (if cut_h then so_height p else sg_div_h g);
          pl = \<lparr>sp_left = (if to_left then Some (sg_left g) else None),
                sp_right = (if to_left then None else Some (win_w b - sg_left g - sg_width g - 2)),
                sp_top = None, sp_bottom = None, sp_width = w, sp_li_width = li_w,
                sp_height = (if cut_h then Some h else None)\<rparr>
      in if win_h b - low > h then pl\<lparr>sp_top := Some low\<rparr>
         else if sg_pos_top g > h then pl\<lparr>sp_bottom := Some (win_h b - low + sg_height g + 2)\<rparr>
         else if sg_pos_top g > win_h b - low
         then pl\<lparr>sp_height := Some (sg_pos_top g - 50), sp_bottom := Some (win_h b - low + sg_height g + 2)\<rparr>
         else pl\<lparr>sp_height := Some (win_h b - low - 50), sp_top := Some low\<rparr>)"

subsection \<open>Clicks and presses\<close>

definition frame :: jstring where
  "frame = js ''.select_div''"

text \<open>\<open>boxes\<close> are the check boxes named by \<open>url_id\<close>, \<open>answer\<close> what the server sends for an address
  (\<open>None\<close> when it fails).\<close>

definition sel_url :: "sel_opts \<Rightarrow> (bool \<times> jstring) list \<Rightarrow> jstring option" where
  "sel_url p boxes =
     (if so_url_id p \<noteq> [] then
        (let checkedIds = checked_csv boxes
         in if checkedIds = [] then None
            else Some (so_url p @ (if indexOf (so_url p) (js ''?'') > 0 then js ''&'' else js ''?'')
                   @ so_url_id p @ js ''='' @ checkedIds))
      else Some (so_url p))"

definition sel_click ::
  "browser \<Rightarrow> sel_opts \<Rightarrow> jstring \<Rightarrow> jstring \<Rightarrow> (bool \<times> jstring) list \<Rightarrow> (jstring \<Rightarrow> jstring option) \<Rightarrow> sel_geo
     \<Rightarrow> 'a sel_page_scheme \<Rightarrow> 'a sel_page_scheme" where
  "sel_click b p i val boxes answer g s =
     (let s = (set_html frame [] s)\<lparr>frame_place := None\<rparr>;
          old_id = select_id s;
          s = s\<lparr>select_id := js ''se_'' @ i\<rparr>
      in case sel_url p boxes of
           None \<Rightarrow> fail_message b (so_url_error p) s
         | Some opn_url \<Rightarrow>
             (let s = (case so_arrdata p of None \<Rightarrow> s | Some rs \<Rightarrow> set_html frame (sel_list p i val rs) s);
                  s = (if so_html p \<noteq> [] then set_html frame (so_html p) s else s);
                  s = (if so_url p \<noteq> [] then (case answer opn_url of Some m \<Rightarrow> set_html frame m s | None \<Rightarrow> s) else s);
                  s = s\<lparr>frame_place := Some (sel_position b p g)\<rparr>;
                  s = (if old_id = js ''se_'' @ i then hide_el frame (s\<lparr>select_id := []\<rparr>)
                       else show_el frame (setMaxIndex [frame] s))
              in s\<lparr>sel_bound := sel_bound s @ [i]\<rparr>))"

text \<open>A press of the mouse: \<open>inside\<close> the frame, or on the element \<open>target\<close>. The handlers run in the
  order they were bound; the one that closes removes them all.\<close>

fun sel_handlers :: "bool \<Rightarrow> jstring \<Rightarrow> jstring list \<Rightarrow> 'a sel_page_scheme \<Rightarrow> 'a sel_page_scheme" where
  "sel_handlers inside target [] s = s"
| "sel_handlers inside target (w # ws) s =
     sel_handlers inside target ws
       (if \<not> inside \<and> target \<noteq> w then (hide_el frame (s\<lparr>select_id := []\<rparr>))\<lparr>sel_bound := []\<rparr> else s)"

definition sel_mousedown :: "bool \<Rightarrow> jstring \<Rightarrow> 'a sel_page_scheme \<Rightarrow> 'a sel_page_scheme" where
  "sel_mousedown inside target s = sel_handlers inside target (sel_bound s) s"

text \<open>What a user does: press and release on a trigger.\<close>

definition sel_press ::
  "browser \<Rightarrow> sel_opts \<Rightarrow> jstring \<Rightarrow> jstring \<Rightarrow> (bool \<times> jstring) list \<Rightarrow> (jstring \<Rightarrow> jstring option) \<Rightarrow> sel_geo
     \<Rightarrow> 'a sel_page_scheme \<Rightarrow> 'a sel_page_scheme" where
  "sel_press b p i val boxes answer g s = sel_click b p i val boxes answer g (sel_mousedown False i s)"

subsection \<open>Lemmas\<close>


text \<open>The titles of the rows named by a value, in the order of the rows.\<close>

definition named_titles :: "jstring list \<Rightarrow> row list \<Rightarrow> jstring list" where
  "named_titles vs rs =
     concat (map (\<lambda>r. map (\<lambda>v. to_str (cell r 1)) (filter (\<lambda>v. js_eq (JStr v) (cell r 0)) vs)) rs)"

lemma title_row_join:
  assumes "to_str (cell r 1) \<noteq> []" and "list_all (\<lambda>x. x \<noteq> []) xs"
  shows "title_row vs r (join [44] xs) =
    join [44] (xs @ map (\<lambda>v. to_str (cell r 1)) (filter (\<lambda>v. js_eq (JStr v) (cell r 0)) vs))"
  using assms(2)
proof (induction vs arbitrary: xs)
  case (Cons v vs)
  let ?t = "to_str (cell r 1)"
  have "(if join [44] xs = [] then join [44] xs @ ?t else join [44] xs @ js '','' @ ?t) = join [44] (xs @ [?t])"
  proof (cases "xs = []")
    case False
    then have "join [44] xs \<noteq> []" using Cons.prems by (auto simp: join_eq_Nil)
    with False show ?thesis by (simp add: join_snoc js_def)
  qed simp
  moreover have "list_all (\<lambda>x. x \<noteq> []) (xs @ [?t])" using Cons.prems assms(1) by simp
  ultimately show ?case using Cons.IH [of "xs @ [?t]"] Cons.IH [OF Cons.prems] by simp
qed simp

lemma title_rows_join:
  assumes "list_all (\<lambda>r. to_str (cell r 1) \<noteq> []) rs" and "list_all (\<lambda>x. x \<noteq> []) xs"
  shows "title_rows vs rs (join [44] xs) = join [44] (xs @ named_titles vs rs)"
  using assms
proof (induction rs arbitrary: xs)
  case (Cons r rs)
  let ?ts = "map (\<lambda>v. to_str (cell r 1)) (filter (\<lambda>v. js_eq (JStr v) (cell r 0)) vs)"
  have "list_all (\<lambda>x. x \<noteq> []) (xs @ ?ts)" using Cons.prems by (auto simp: list_all_iff)
  from Cons.IH [OF _ this] Cons.prems title_row_join [of r xs vs]
  show ?case by (simp add: named_titles_def)
qed (simp add: named_titles_def)

text \<open>The frame is open exactly when it has an id, which is that of the one trigger whose handler is
  bound.\<close>

definition frame_ok :: "'a sel_page_scheme \<Rightarrow> bool" where
  "frame_ok s \<longleftrightarrow> (shown s frame \<longleftrightarrow> select_id s \<noteq> [])
     \<and> (\<exists>w. set (sel_bound s) \<subseteq> {w} \<and> (select_id s \<noteq> [] \<longrightarrow> sel_bound s \<noteq> [] \<and> select_id s = js ''se_'' @ w))"

lemma sel_handlers_none: "inside \<or> set ws \<subseteq> {target} \<Longrightarrow> sel_handlers inside target ws s = s"
  by (induction ws arbitrary: s) auto

lemma sel_handlers_close:
  assumes "w \<in> set ws" and "w \<noteq> target"
  shows "select_id (sel_handlers False target ws s) = [] \<and> \<not> shown (sel_handlers False target ws s) frame
    \<and> sel_bound (sel_handlers False target ws s) = []"
proof -
  have keep: "select_id (sel_handlers False target vs v) = [] \<and> \<not> shown (sel_handlers False target vs v) frame
      \<and> sel_bound (sel_handlers False target vs v) = []"
    if "select_id v = [] \<and> \<not> shown v frame \<and> sel_bound v = []" for vs and v :: "'a sel_page_scheme"
    using that by (induction vs arbitrary: v) (simp_all add: hide_el_def)
  show ?thesis using assms
  proof (induction ws arbitrary: s)
    case (Cons x ws)
    then show ?case
      by (cases "x = target") (simp_all add: keep hide_el_def)
  qed simp
qed

lemma mousedown_trigger:
  assumes "frame_ok s"
  shows "sel_mousedown False i s = s \<and> (select_id s = [] \<or> select_id s = js ''se_'' @ i) \<and> set (sel_bound s) \<subseteq> {i}
    \<or> select_id s \<noteq> js ''se_'' @ i \<and> select_id (sel_mousedown False i s) = []
       \<and> \<not> shown (sel_mousedown False i s) frame \<and> sel_bound (sel_mousedown False i s) = []"
proof -
  obtain w where w: "set (sel_bound s) \<subseteq> {w}" "select_id s \<noteq> [] \<longrightarrow> sel_bound s \<noteq> [] \<and> select_id s = js ''se_'' @ w"
    using assms by (auto simp: frame_ok_def)
  show ?thesis
  proof (cases "set (sel_bound s) \<subseteq> {i}")
    case True
    moreover have "select_id s = [] \<or> select_id s = js ''se_'' @ i"
      using w True by (cases "sel_bound s") auto
    ultimately show ?thesis by (simp add: sel_mousedown_def sel_handlers_none)
  next
    case False
    then have "w \<in> set (sel_bound s)" "w \<noteq> i" using w(1) by auto
    moreover have "select_id s \<noteq> js ''se_'' @ i" using w(2) \<open>w \<noteq> i\<close> by (cases "select_id s = []") auto
    ultimately show ?thesis using sel_handlers_close [of w "sel_bound s" i s] by (simp add: sel_mousedown_def)
  qed
qed

text \<open>What the frame holds after a click.\<close>

definition sel_content :: "sel_opts \<Rightarrow> jstring \<Rightarrow> jstring \<Rightarrow> (jstring \<Rightarrow> jstring option) \<Rightarrow> jstring \<Rightarrow> jstring" where
  "sel_content p i val answer url =
     (case (if so_url p \<noteq> [] then answer url else None) of
        Some m \<Rightarrow> m
      | None \<Rightarrow> if so_html p \<noteq> [] then so_html p
          else (case so_arrdata p of Some rs \<Rightarrow> sel_list p i val rs | None \<Rightarrow> []))"

lemma sel_click_fields:
  assumes "sel_url p boxes = Some url"
  shows "select_id (sel_click b p i val boxes answer g s) = (if select_id s = js ''se_'' @ i then [] else js ''se_'' @ i)"
    "shown (sel_click b p i val boxes answer g s) frame = (select_id s \<noteq> js ''se_'' @ i)"
    "sel_bound (sel_click b p i val boxes answer g s) = sel_bound s @ [i]"
    "frame_place (sel_click b p i val boxes answer g s) = Some (sel_position b p g)"
    "html (sel_click b p i val boxes answer g s) frame = sel_content p i val answer url"
  by (simp_all add: sel_click_def assms Let_def set_html_def show_el_def hide_el_def setMaxIndex_single sel_content_def
      split: option.split)

lemma sel_more:
  assumes "ui.more v = ui.more u"
  shows "sel_bound v = sel_bound u"
  using assms by (cases u; cases v; simp)

lemma sel_bound_message [simp]: "sel_bound (error_message b m bg t d url u) = sel_bound u"
  by (rule sel_more) simp

lemma sel_click_refused:
  assumes "sel_url p boxes = None"
  shows "select_id (sel_click b p i val boxes answer g s) = js ''se_'' @ i"
    "shown (sel_click b p i val boxes answer g s) frame = shown s frame"
    "sel_bound (sel_click b p i val boxes answer g s) = sel_bound s"
proof -
  show "select_id (sel_click b p i val boxes answer g s) = js ''se_'' @ i"
    "shown (sel_click b p i val boxes answer g s) frame = shown s frame"
    by (simp_all add: sel_click_def assms Let_def set_html_def)
  show "sel_bound (sel_click b p i val boxes answer g s) = sel_bound s"
    by (simp add: sel_click_def assms Let_def set_html_def)
qed


definition sel0 :: "unit sel_page_ext ui_scheme" where
  "sel0 = ui.extend page0 \<lparr>sel_bound = [], frame_place = None\<rparr>"

definition opts0 :: "jstring \<Rightarrow> sel_opts" where
  "opts0 uid = \<lparr>so_width = 120, so_radio = True, so_arrdata = None, so_tit_id = [], so_id_id = [], so_ho_fun = [],
     so_html = js ''<ul></ul>'', so_foot_html = [], so_url = [], so_edit_top = 0, so_align = js ''left'',
     so_url_id = uid, so_url_error = js ''none'', so_height = 0\<rparr>"

definition sgeo0 :: sel_geo where
  "sgeo0 = \<lparr>sg_top = 10, sg_left = 10, sg_pos_top = 10, sg_width = 50, sg_height = 20, sg_div_w = 100, sg_div_w2 = 120,
     sg_div_h = 80\<rparr>"

lemma sel0_ok: "frame_ok sel0"
  by (simp add: frame_ok_def sel0_def page0_def ui.defs)


text \<open>A press that is refused because no row is checked takes the id of the frame all the same:
  although the frame is not shown, the next press, with rows checked, counts as the second one
  and does not open the list; only the one after it does.\<close>

lemma select_press_after_refusal:
  assumes "frame_ok s" and "select_id s = []"
    and "sel_url p none = None" and "sel_url p boxes = Some url"
    and "r = sel_press b p i val none answer g s" and "r2 = sel_press b p i val boxes answer g r"
    and "r3 = sel_press b p i val boxes answer g r2"
  shows "\<not> shown r frame \<and> select_id r = js ''se_'' @ i \<and> \<not> shown r2 frame \<and> shown r3 frame"
proof -
  let ?m = "sel_mousedown False i s"
  have m: "\<not> shown ?m frame" "set (sel_bound ?m) \<subseteq> {i}"
    using mousedown_trigger [OF assms(1), of i] assms(1,2) by (auto simp: frame_ok_def)
  have r: "\<not> shown r frame" "select_id r = js ''se_'' @ i" "set (sel_bound r) \<subseteq> {i}"
    using m sel_click_refused [OF assms(3), of b i val answer g ?m] by (simp_all add: assms(5) sel_press_def)
  have "sel_mousedown False i r = r" using r(3) by (simp add: sel_mousedown_def sel_handlers_none)
  then have r2: "\<not> shown r2 frame" "select_id r2 = []" "set (sel_bound r2) \<subseteq> {i}"
    using r sel_click_fields [OF assms(4), of b i val answer g r] by (auto simp: assms(6) sel_press_def)
  then have "sel_mousedown False i r2 = r2" by (simp add: sel_mousedown_def sel_handlers_none)
  then have "shown r3 frame"
    using r2 sel_click_fields(2) [OF assms(4), of b i val answer g r2] by (simp add: assms(7) sel_press_def)
  with r r2 show ?thesis by simp
qed

end
