(* ===== verification/Tips.thy ===== *)
theory Tips
  imports Layout
begin

text \<open>
  The tips of \<open>jquery.edm.search.js\<close> (\<open>gtips\<close>) in their default box: shown while the mouse is over
  an element (or a field has the focus), or opened by a click. Elements are numbers. Each
  element makes a box of its own, numbered like it, but uses the one that is in the document
  when there is one. Where the box is put is \<open>openTips\<close> of the theory \<open>Layout\<close>.
\<close>

subsection \<open>Tips that follow the mouse or the focus\<close>

record hover =
  in_body :: "nat option"        \<comment> \<open>the box \<open>#G_tips\<close> of the document\<close>
  box_of :: "nat \<Rightarrow> nat"          \<comment> \<open>\<open>$boxId\<close> of an element\<close>
  box_shown :: "nat \<Rightarrow> bool"
  box_text :: "nat \<Rightarrow> jstring"
  tip_timer :: "nat \<Rightarrow> int option" \<comment> \<open>\<open>timer\<close> of an element, with its delay\<close>

definition tip_enter :: "int \<Rightarrow> nat \<Rightarrow> hover \<Rightarrow> hover" where
  "tip_enter delay e h =
     (let h = (case in_body h of
                 None \<Rightarrow> h\<lparr>in_body := Some (box_of h e)\<rparr>
               | Some x \<Rightarrow> h\<lparr>box_of := (box_of h)(e := x)\<rparr>);
          h = h\<lparr>tip_timer := (tip_timer h)(e := None)\<rparr>
      in h\<lparr>tip_timer := (tip_timer h)(e := Some delay)\<rparr>)"

definition tip_mouseover :: "nat \<Rightarrow> hover \<Rightarrow> hover" where
  "tip_mouseover e h = tip_enter 300 e h"

definition tip_focus :: "nat \<Rightarrow> hover \<Rightarrow> hover" where
  "tip_focus e h = tip_enter 100 e h"

text \<open>\<open>openTips\<close> when the time has come, with the content of the element.\<close>

definition tip_fire :: "(nat \<Rightarrow> jstring) \<Rightarrow> nat \<Rightarrow> hover \<Rightarrow> hover" where
  "tip_fire content e h =
     h\<lparr>tip_timer := (tip_timer h)(e := None), box_text := (box_text h)(box_of h e := content e),
       box_shown := (box_shown h)(box_of h e := True)\<rparr>"

definition hide_remove :: "nat \<Rightarrow> hover \<Rightarrow> hover" where
  "hide_remove x h =
     (let h = h\<lparr>box_shown := (box_shown h)(x := False)\<rparr>
      in if in_body h = Some x then h\<lparr>in_body := None\<rparr> else h)"

text \<open>\<open>mouseout\<close> and \<open>blur\<close> of an element.\<close>

definition tip_leave :: "nat \<Rightarrow> hover \<Rightarrow> hover" where
  "tip_leave e h = hide_remove (box_of h e) (h\<lparr>tip_timer := (tip_timer h)(e := None)\<rparr>)"

text \<open>The mouse over the box that element \<open>e\<close> made, and out of it.\<close>

definition box_mouseover :: "nat \<Rightarrow> hover \<Rightarrow> hover" where
  "box_mouseover e h = h\<lparr>tip_timer := (tip_timer h)(e := None), box_shown := (box_shown h)(e := True)\<rparr>"

definition box_mouseout :: "nat \<Rightarrow> hover \<Rightarrow> hover" where
  "box_mouseout e h = hide_remove e (h\<lparr>tip_timer := (tip_timer h)(e := None)\<rparr>)"

text \<open>The page with the set of elements the mouse is on (or that have the focus). The handlers of a box
  may be gone after it was removed once; that its steps may happen at any time covers both.\<close>

inductive hover_step :: "(nat \<Rightarrow> jstring) \<Rightarrow> nat set \<times> hover \<Rightarrow> nat set \<times> hover \<Rightarrow> bool" for content where
  over: "hover_step content (H, h) (insert e H, tip_mouseover e h)"
| focus: "hover_step content (H, h) (insert e H, tip_focus e h)"
| fire: "tip_timer h e \<noteq> None \<Longrightarrow> hover_step content (H, h) (H, tip_fire content e h)"
| out: "hover_step content (H, h) (H - {e}, tip_leave e h)"
| box_over: "in_body h = Some e \<Longrightarrow> hover_step content (H, h) (H, box_mouseover e h)"
| box_out: "in_body h = Some e \<Longrightarrow> hover_step content (H, h) (H, box_mouseout e h)"

inductive_cases hover_stepE: "hover_step content (H, h) (H', h')"

definition hover0 :: hover where
  "hover0 = \<lparr>in_body = None, box_of = (\<lambda>e. e), box_shown = (\<lambda>_. False), box_text = (\<lambda>_. []), tip_timer = (\<lambda>_. None)\<rparr>"

inductive hover_reach :: "(nat \<Rightarrow> jstring) \<Rightarrow> nat set \<times> hover \<Rightarrow> bool" for content where
  start: "hover_reach content ({}, hover0)"
| step: "hover_reach content (H, h) \<Longrightarrow> hover_step content (H, h) (H', h') \<Longrightarrow> hover_reach content (H', h')"

definition hover_ok :: "nat set \<Rightarrow> hover \<Rightarrow> bool" where
  "hover_ok H h \<longleftrightarrow> (\<forall>x. in_body h = Some x \<longrightarrow> (\<exists>e \<in> H. box_of h e = x))
     \<and> (\<forall>e. tip_timer h e \<noteq> None \<longrightarrow> e \<in> H)"

lemma hide_remove_fields [simp]:
  "in_body (hide_remove x h) = (if in_body h = Some x then None else in_body h)"
  "box_of (hide_remove x h) = box_of h" "tip_timer (hide_remove x h) = tip_timer h"
  by (simp_all add: hide_remove_def Let_def)

lemma tip_enter_ok: "hover_ok H h \<Longrightarrow> hover_ok (insert e H) (tip_enter d e h)"
  by (cases "in_body h") (auto simp: hover_ok_def tip_enter_def Let_def)

lemma tip_leave_ok: "hover_ok H h \<Longrightarrow> hover_ok (H - {e}) (tip_leave e h)"
  by (auto simp: hover_ok_def tip_leave_def split: if_splits)

lemma hover_step_ok: "hover_step content (H, h) (H', h') \<Longrightarrow> hover_ok H h \<Longrightarrow> hover_ok H' h'"
  by (elim hover_stepE)
    (auto simp: tip_mouseover_def tip_focus_def tip_enter_ok tip_leave_ok,
     auto simp: hover_ok_def tip_fire_def box_mouseover_def box_mouseout_def split: if_splits)

lemma hover_reach_ok: "hover_reach content (H, h) \<Longrightarrow> hover_ok H h"
proof (induction "(H, h)" arbitrary: H h rule: hover_reach.induct)
  case start
  then show ?case by (simp add: hover_ok_def hover0_def)
next
  case (step H h)
  then show ?case by (blast intro: hover_step_ok)
qed

text \<open>C33: However the mouse and the focus move over the elements and their boxes, and whenever the
  delays end: there is a tip in the document only while some element that uses it is under the
  mouse or has the focus, and a tip still to come belongs to such an element. With the last
  element left, nothing is shown and nothing is to come.\<close>

theorem tips_gone_when_idle:
  assumes "hover_reach content (H, h)"
  shows "(\<forall>x. in_body h = Some x \<longrightarrow> (\<exists>e \<in> H. box_of h e = x)) \<and> (\<forall>e. tip_timer h e \<noteq> None \<longrightarrow> e \<in> H)
    \<and> (H = {} \<longrightarrow> in_body h = None \<and> tip_timer h = (\<lambda>_. None))"
proof -
  have h: "hover_ok H h" using assms by (rule hover_reach_ok)
  have "in_body h = None \<and> tip_timer h = (\<lambda>_. None)" if "H = {}"
    using h that by (cases "in_body h") (auto simp: hover_ok_def fun_eq_iff)
  with h show ?thesis by (auto simp: hover_ok_def)
qed

theorem tips_gone_when_idle_witness:
  "in_body (tip_leave 3 (tip_fire (\<lambda>e. [65]) 3 (tip_mouseover 3 hover0))) = None"
proof -
  have 1: "hover_reach (\<lambda>e. [65]) ({3}, tip_mouseover 3 hover0)"
    using hover_reach.step [OF hover_reach.start hover_step.over] by simp
  have "hover_reach (\<lambda>e. [65]) ({3}, tip_fire (\<lambda>e. [65]) 3 (tip_mouseover 3 hover0))"
    by (rule hover_reach.step [OF 1 hover_step.fire]) (simp add: tip_mouseover_def tip_enter_def Let_def hover0_def)
  from hover_reach.step [OF this hover_step.out, of 3] tips_gone_when_idle
  show ?thesis by fastforce
qed

subsection \<open>Tips that are clicked\<close>

text \<open>
  The shared box \<open>#G_info\<close>: the element it was opened for (its \<open>uuid\<close>), whether it is seen, its text,
  and the handlers that wait for one press of the mouse, each with the element that bound it.
\<close>

record info =
  info_uuid :: "nat option"
  info_shown :: bool
  info_text :: jstring
  info_waiting :: "nat list"

text \<open>\<open>loaded\<close> is what was loaded for the element before, when its content comes from the server
  (\<open>None\<close> of the outer option: it does not).\<close>

definition info_content :: "jstring \<Rightarrow> jstring option option \<Rightarrow> jstring" where
  "info_content content loaded =
     (case loaded of None \<Rightarrow> content | Some (Some m) \<Rightarrow> m | Some None \<Rightarrow> [0x3C, 0x70, 0x3E, 0x6B63, 0x5728, 0x52A0, 0x8F7D, 0x2E, 0x2E, 0x2E, 0x3C, 0x2F, 0x70, 0x3E])"

definition info_click :: "jstring \<Rightarrow> jstring option option \<Rightarrow> nat \<Rightarrow> info \<Rightarrow> info" where
  "info_click content loaded e s =
     (if info_uuid s = Some e \<and> info_shown s then s\<lparr>info_shown := False, info_uuid := None\<rparr>
      else s\<lparr>info_uuid := Some e, info_text := info_content content loaded, info_shown := True,
             info_waiting := info_waiting s @ [e]\<rparr>)"

text \<open>Where the mouse is pressed.\<close>

datatype press = In_box | On_element nat | Elsewhere

text \<open>Every waiting handler runs once; one that closes the box removes those left.\<close>

fun info_handlers :: "press \<Rightarrow> nat list \<Rightarrow> info \<Rightarrow> info" where
  "info_handlers t [] s = s"
| "info_handlers t (e # es) s =
     info_handlers t es
       (let s = s\<lparr>info_waiting := remove1 e (info_waiting s)\<rparr>
        in if t \<noteq> In_box \<and> t \<noteq> On_element e then s\<lparr>info_shown := False, info_waiting := []\<rparr> else s)"

definition info_mousedown :: "press \<Rightarrow> info \<Rightarrow> info" where
  "info_mousedown t s = info_handlers t (info_waiting s) s"

definition info_press :: "jstring \<Rightarrow> jstring option option \<Rightarrow> nat \<Rightarrow> info \<Rightarrow> info" where
  "info_press content loaded e s = info_click content loaded e (info_mousedown (On_element e) s)"

lemma info_handlers_fields:
  "info_uuid (info_handlers t es s) = info_uuid s" "info_text (info_handlers t es s) = info_text s"
  "info_shown (info_handlers t es s) = (info_shown s \<and> (\<forall>e \<in> set es. t = In_box \<or> t = On_element e))"
  by (induction es arbitrary: s) (auto simp: Let_def)

lemma info_handlers_consumed: "mset (info_waiting s) \<subseteq># mset es \<Longrightarrow> info_waiting (info_handlers t es s) = []"
proof (induction es arbitrary: s)
  case (Cons e es)
  have "mset (remove1 e (info_waiting s)) \<subseteq># mset es" using Cons.prems by (simp add: subset_eq_diff_conv)
  then show ?case using Cons.IH by (simp add: Let_def)
qed simp

text \<open>Pressing an element opens its tip with its own text, also when the tip of another element is
  open, and pressing it again closes it. A press outside closes an open tip; but a press inside the
  tip uses up the handler that waits for it: the tip stays, and no later press outside closes it.\<close>

lemma info_press_toggles:
  assumes "info_shown s" and "info_uuid s = Some e" and "set (info_waiting s) = {e}"
  shows "\<not> info_shown (info_press m l e s)
    \<and> (\<forall>k. k \<noteq> e \<longrightarrow> info_shown (info_press m l k s) \<and> info_uuid (info_press m l k s) = Some k
          \<and> info_text (info_press m l k s) = info_content m l \<and> info_waiting (info_press m l k s) = [k])
    \<and> \<not> info_shown (info_mousedown Elsewhere s)
    \<and> info_shown (info_mousedown t (info_mousedown In_box s))"
proof -
  have w: "info_waiting (info_mousedown t' s) = []" for t'
    by (simp add: info_mousedown_def info_handlers_consumed)
  have i: "info_shown (info_mousedown In_box s)" using assms by (simp add: info_mousedown_def info_handlers_fields)
  have "info_mousedown t (info_mousedown In_box s) = info_mousedown In_box s"
    by (simp add: info_mousedown_def [of t] w)
  with i w assms show ?thesis
    by (auto simp: info_press_def info_click_def info_mousedown_def info_handlers_fields)
qed

end
