(* ===== verification/FormPages.thy ===== *)
theory FormPages
  imports Trigger
begin

text \<open>
  The pages on which a customer makes a form that collects addresses:
  \<open>static/js/datasource.form.add.js\<close> and \<open>datasource.form.1.js\<close> to \<open>datasource.form.4.js\<close>. The first names
  the form, page 1 puts the fields into a template, page 2 is the answer page, pages 3 and 4 are
  the mails of confirmation and of thanks, for the forms that have them. What the code does with
  the document inside the editor is a parameter, \<open>frame_api\<close>.
\<close>

subsection \<open>The fields of the form\<close>

record form_prop =
  fp_checked :: bool
  fp_title :: jstring
  fp_prop :: jstring
  fp_cate :: jstring
  fp_required :: bool

definition req_mark :: "form_prop \<Rightarrow> jstring" where
  "req_mark p = (if fp_required p then js ''*'' else js ''&nbsp;'')"

definition req_class :: "form_prop \<Rightarrow> jstring" where
  "req_class p = (if fp_required p then js ''required'' else [])"

definition row_html :: "form_prop \<Rightarrow> jstring" where
  "row_html p =
     js ''<tr>'' @ [0x3C, 0x74, 0x64, 0x20, 0x77, 0x69, 0x64, 0x74, 0x68, 0x3D, 0x22, 0x38, 0x30, 0x22, 0x20, 0x61, 0x6C, 0x69, 0x67, 0x6E, 0x3D, 0x22, 0x72, 0x69, 0x67, 0x68, 0x74, 0x22, 0x3E] @ fp_title p @ js ''</td>''
     @ [0x3C, 0x74, 0x64, 0x20, 0x77, 0x69, 0x64, 0x74, 0x68, 0x3D, 0x22, 0x36, 0x22, 0x20, 0x73, 0x74, 0x79, 0x6C, 0x65, 0x3D, 0x22, 0x63, 0x6F, 0x6C, 0x6F, 0x72, 0x3A, 0x72, 0x65, 0x64, 0x22, 0x3E] @ req_mark p @ js ''</td>''
     @ [0x3C, 0x74, 0x64, 0x3E, 0x3C, 0x69, 0x6E, 0x70, 0x75, 0x74, 0x20, 0x74, 0x79, 0x70, 0x65, 0x3D, 0x22, 0x74, 0x65, 0x78, 0x74, 0x22, 0x20, 0x64, 0x61, 0x74, 0x61, 0x2D, 0x72, 0x65, 0x71, 0x3D, 0x22] @ req_class p @ [0x22, 0x20, 0x64, 0x61, 0x74, 0x61, 0x2D, 0x63, 0x61, 0x74, 0x65, 0x3D, 0x22] @ fp_cate p @ [0x22, 0x20, 0x6E, 0x61, 0x6D, 0x65, 0x3D, 0x22] @ fp_prop p
     @ [0x22, 0x20, 0x73, 0x74, 0x79, 0x6C, 0x65, 0x3D, 0x22, 0x77, 0x69, 0x64, 0x74, 0x68, 0x3A, 0x32, 0x30, 0x30, 0x70, 0x78, 0x3B, 0x22, 0x2F, 0x3E, 0x3C, 0x2F, 0x74, 0x64, 0x3E] @ js ''</tr>''"

definition getFormHtml :: "jstring \<Rightarrow> form_prop list \<Rightarrow> jstring" where
  "getFormHtml actionUrl ps =
     [0x3C, 0x66, 0x6F, 0x72, 0x6D, 0x20, 0x69, 0x64, 0x3D, 0x22, 0x74, 0x65, 0x6D, 0x70, 0x46, 0x6F, 0x72, 0x6D, 0x22, 0x20, 0x6D, 0x65, 0x74, 0x68, 0x6F, 0x64, 0x3D, 0x22, 0x70, 0x6F, 0x73, 0x74, 0x22, 0x20, 0x61, 0x63, 0x74, 0x69, 0x6F, 0x6E, 0x3D, 0x22] @ actionUrl @ [0x22, 0x20, 0x64, 0x61, 0x74, 0x61, 0x2D, 0x6B, 0x65, 0x2D, 0x73, 0x72, 0x63, 0x3D, 0x22] @ actionUrl @ [0x22, 0x20, 0x73, 0x74, 0x79, 0x6C, 0x65, 0x3D, 0x22, 0x6D, 0x61, 0x72, 0x67, 0x69, 0x6E, 0x3A, 0x30, 0x3B, 0x22, 0x3E]
     @ js ''<table border=0 cellspacing=0 cellpadding=5>''
     @ concat (map (\<lambda>p. if fp_checked p then row_html p else []) ps)
     @ [0x3C, 0x74, 0x72, 0x3E, 0x3C, 0x74, 0x64, 0x20, 0x77, 0x69, 0x64, 0x74, 0x68, 0x3D, 0x22, 0x36, 0x30, 0x22, 0x3E, 0x3C, 0x2F, 0x74, 0x64, 0x3E, 0x3C, 0x74, 0x64, 0x20, 0x77, 0x69, 0x64, 0x74, 0x68, 0x3D, 0x22, 0x36, 0x22, 0x3E, 0x3C, 0x2F, 0x74, 0x64, 0x3E, 0x3C, 0x74, 0x64, 0x3E, 0x3C, 0x69, 0x6E, 0x70, 0x75, 0x74, 0x20, 0x74, 0x79, 0x70, 0x65, 0x3D, 0x22, 0x73, 0x75, 0x62, 0x6D, 0x69, 0x74, 0x22, 0x20, 0x76, 0x61, 0x6C, 0x75, 0x65, 0x3D, 0x22, 0x6CE8, 0x518C, 0x22, 0x20, 0x73, 0x74, 0x79, 0x6C, 0x65, 0x3D, 0x22, 0x63, 0x75, 0x72, 0x73, 0x6F, 0x72, 0x3A, 0x70, 0x6F, 0x69, 0x6E, 0x74, 0x65, 0x72, 0x22, 0x3E, 0x3C, 0x2F, 0x74, 0x64, 0x3E, 0x3C, 0x2F, 0x74, 0x72, 0x3E]
     @ js ''</table>''
     @ [0x3C, 0x73, 0x63, 0x72, 0x69, 0x70, 0x74, 0x20, 0x73, 0x72, 0x63, 0x3D, 0x22, 0x68, 0x74, 0x74, 0x70, 0x3A, 0x2F, 0x2F, 0x31, 0x33, 0x39, 0x65, 0x64, 0x6D, 0x2E, 0x63, 0x6F, 0x6D, 0x2F, 0x66, 0x6F, 0x72, 0x6D, 0x2F, 0x6A, 0x71, 0x75, 0x65, 0x72, 0x79, 0x2D, 0x31, 0x2E, 0x37, 0x2E, 0x31, 0x2E, 0x6D, 0x69, 0x6E, 0x2E, 0x6A, 0x73, 0x22, 0x3E, 0x3C, 0x2F, 0x73, 0x63, 0x72, 0x69, 0x70, 0x74, 0x3E]
     @ [0x3C, 0x73, 0x63, 0x72, 0x69, 0x70, 0x74, 0x20, 0x73, 0x72, 0x63, 0x3D, 0x22, 0x68, 0x74, 0x74, 0x70, 0x3A, 0x2F, 0x2F, 0x31, 0x33, 0x39, 0x65, 0x64, 0x6D, 0x2E, 0x63, 0x6F, 0x6D, 0x2F, 0x66, 0x6F, 0x72, 0x6D, 0x2F, 0x6D, 0x65, 0x6E, 0x75, 0x2E, 0x6A, 0x73, 0x22, 0x3E, 0x3C, 0x2F, 0x73, 0x63, 0x72, 0x69, 0x70, 0x74, 0x3E]
     @ js ''</form>''"

definition input_html :: "form_prop \<Rightarrow> jstring" where
  "input_html p =
     js ''<li>'' @ js ''<span>'' @ fp_title p @ js ''</span>'' @ js ''<strong>'' @ req_mark p @ js ''</strong>''
     @ [0x3C, 0x69, 0x6E, 0x70, 0x75, 0x74, 0x20, 0x74, 0x79, 0x70, 0x65, 0x3D, 0x22, 0x74, 0x65, 0x78, 0x74, 0x22, 0x20, 0x63, 0x6C, 0x61, 0x73, 0x73, 0x3D, 0x22, 0x69, 0x6E, 0x70, 0x75, 0x74, 0x5F, 0x30, 0x31, 0x20, 0x43, 0x43, 0x6D, 0x69, 0x6E, 0x67, 0x63, 0x68, 0x65, 0x6E, 0x67, 0x22, 0x20, 0x64, 0x61, 0x74, 0x61, 0x2D, 0x72, 0x65, 0x71, 0x3D, 0x22] @ req_class p @ [0x22, 0x20, 0x64, 0x61, 0x74, 0x61, 0x2D, 0x63, 0x61, 0x74, 0x65, 0x3D, 0x22] @ fp_cate p
     @ [0x22, 0x20, 0x6E, 0x61, 0x6D, 0x65, 0x3D, 0x22] @ fp_prop p @ [0x22, 0x20, 0x74, 0x69, 0x74, 0x6C, 0x65, 0x3D, 0x22] @ fp_title p @ [0x22, 0x3E] @ js ''</li>''"

definition getInputHtml :: "form_prop list \<Rightarrow> jstring" where
  "getInputHtml ps = concat (map (\<lambda>p. if fp_checked p then input_html p else []) ps)"

subsection \<open>Patterns\<close>

definition not_gt :: re where
  "not_gt = Star (Chr (\<lambda>c. c \<noteq> 62))"

definition any_lazy :: re where
  "any_lazy = LazyStar (Chr (\<lambda>c. True))"

text \<open>\<open>/<form[^>]*NAME[^>]*>([\s\S]*?)<\/form>/i\<close>\<close>

definition re_form :: "jstring \<Rightarrow> re" where
  "re_form name = Seq (lit_i (js ''<form'')) (Seq not_gt (Seq (lit_i name) (Seq not_gt
     (Seq (lit_i (js ''>'')) (Seq any_lazy (lit_i (js ''</form>'')))))))"

text \<open>\<open>/<form[^>]*>([\s\S]*?)<\/form>/i\<close>\<close>

definition re_any_form :: re where
  "re_any_form = Seq (lit_i (js ''<form'')) (Seq not_gt
     (Seq (lit_i (js ''>'')) (Seq any_lazy (lit_i (js ''</form>'')))))"

text \<open>\<open>/(<ul[^>]*hook[^>]*>)([\s\S]*?)(<\/ul>)/i\<close>\<close>

definition re_hook :: re where
  "re_hook = Seq (lit_i (js ''<ul'')) (Seq not_gt (Seq (lit_i (js ''hook'')) (Seq not_gt
     (Seq (lit_i (js ''>'')) (Seq any_lazy (lit_i (js ''</ul>'')))))))"

text \<open>A replacement of the first match only; \<open>f\<close> as in \<open>replace_g\<close>.\<close>

fun replace_first :: "nat \<Rightarrow> re \<Rightarrow> (jstring \<Rightarrow> jstring \<Rightarrow> jstring \<Rightarrow> jstring) \<Rightarrow> jstring \<Rightarrow> jstring \<Rightarrow> jstring" where
  "replace_first n e f before [] = (if match_at n e [] \<noteq> [] then f before [] [] else [])"
| "replace_first n e f before (c # s) =
     (case match_at n e (c # s) of
        q # _ \<Rightarrow> f before (take (Suc (length s) - length q) (c # s)) q @ q
      | [] \<Rightarrow> c # replace_first n e f (before @ [c]) s)"

definition re_replace1 :: "re \<Rightarrow> (jstring \<Rightarrow> jstring \<Rightarrow> jstring \<Rightarrow> jstring) \<Rightarrow> jstring \<Rightarrow> jstring" where
  "re_replace1 e f s = replace_first (length s) e f [] s"

text \<open>
  The groups of a match of \<open>re_hook\<close>: the first is the opening tag, which ends with the first
  \<open>>\<close>, the third the closing tag, the second what is between.
\<close>

definition hook_group :: "nat \<Rightarrow> jstring \<Rightarrow> jstring" where
  "hook_group k m =
     (let open_tag = takeWhile (\<lambda>c. c \<noteq> 62) m @ [62]
      in if k = 1 then open_tag
         else if k = 3 then drop (length m - 5) m
         else take (length m - 5 - length open_tag) (drop (length open_tag) m))"

text \<open>The replacement text of a pattern with three groups.\<close>

fun expand3 :: "(nat \<Rightarrow> jstring) \<Rightarrow> jstring \<Rightarrow> jstring \<Rightarrow> jstring \<Rightarrow> jstring \<Rightarrow> jstring" where
  "expand3 g b m a [] = []"
| "expand3 g b m a [x] = [x]"
| "expand3 g b m a (x # y # r) =
     (if x \<noteq> 36 then x # expand3 g b m a (y # r)
      else if y = 36 then 36 # expand3 g b m a r
      else if y = 38 then m @ expand3 g b m a r
      else if y = 96 then b @ expand3 g b m a r
      else if y = 39 then a @ expand3 g b m a r
      else if 49 \<le> y \<and> y \<le> 51 then g (y - 48) @ expand3 g b m a r
      else if y = 48 \<and> r \<noteq> [] \<and> 49 \<le> hd r \<and> hd r \<le> 51 then g (hd r - 48) @ expand3 g b m a (tl r)
      else x # expand3 g b m a (y # r))"

definition fill_hook :: "jstring \<Rightarrow> jstring \<Rightarrow> jstring" where
  "fill_hook content s =
     re_replace1 re_hook (\<lambda>b m a. expand3 (\<lambda>k. hook_group k m) b m a (js ''$1'' @ content @ js ''$3'')) s"

subsection \<open>Page 1: inserting the form\<close>

record frame_api =
  fr_sys_form :: "jstring \<Rightarrow> bool"    \<comment> \<open>the body has a \<open>form.edm_sys_form\<close>\<close>
  fr_temp_form :: "jstring \<Rightarrow> bool"   \<comment> \<open>the body has a \<open>form#tempForm\<close>\<close>
  fr_fill :: "jstring \<Rightarrow> jstring \<Rightarrow> jstring" \<comment> \<open>the body with the content of \<open>#hook\<close> replaced\<close>
  fr_no_form :: "jstring \<Rightarrow> jstring"  \<comment> \<open>the body without its forms\<close>

definition createForm ::
  "browser \<Rightarrow> editor_api \<Rightarrow> frame_api \<Rightarrow> jstring \<Rightarrow> form_prop list \<Rightarrow> 'a tmpl_page_scheme \<Rightarrow> 'a tmpl_page_scheme option" where
  "createForm b E F actionUrl ps t =
     (if length (filter fp_checked ps) > 10 then Some (fail_message b [0x9009, 0x62E9, 0x5C5E, 0x6027, 0x4E0D, 0x80FD, 0x8D85, 0x8FC7, 0x31, 0x30, 0x4E2A] t)
      else map_option (closeDialog b)
        (if eModel t = WYSIWYG
         then on_K (\<lambda>k. if fr_sys_form F k then fr_fill F k (getInputHtml ps)
                         else ed_insert E (fr_no_form F k) (getFormHtml actionUrl ps)) t
         else
           (let text = ta_value (templateContent t)
            in if re_test (re_form (js ''edm_sys_form'')) text
               then Some (t\<lparr>templateContent := set_ta (fill_hook (getInputHtml ps) text) (templateContent t)\<rparr>)
               else
                 (let t = t\<lparr>templateContent := set_ta (re_replace1 re_any_form (\<lambda>_ _ _. []) text) (templateContent t)\<rparr>
                  in Some (t\<lparr>templateContent := insertContent (getFormHtml actionUrl ps) (templateContent t)\<rparr>)))))"

definition form1_check :: "browser \<Rightarrow> frame_api \<Rightarrow> 'a tmpl_page_scheme \<Rightarrow> ('a tmpl_page_scheme + 'a tmpl_page_scheme) option" where
  "form1_check b F t =
     (let t = loading b [] t;
          no = Inl (del_loading b [] (fail_message b [0x8BF7, 0x63D2, 0x5165, 0x8868, 0x5355, 0x5C5E, 0x6027] t))
      in if eModel t = WYSIWYG
         then map_option (\<lambda>k. if \<not> fr_temp_form F k then no else Inr t) (ed_K t)
         else Some (if \<not> re_test (re_form (js ''tempForm'')) (ta_value (templateContent t)) then no else Inr t))"

definition form1_success :: "browser \<Rightarrow> reply \<Rightarrow> jstring \<Rightarrow> 'a ui_scheme \<Rightarrow> 'a ui_scheme" where
  "form1_success b d formId u =
     (if accepted d
      then error_message b (message d) 0 0 1000 (js ''/datasource/form/2?formId='' @ formId) (del_loading b [] u)
      else del_loading b [] (fail_message b (message d) u))"

definition form_preview :: "jstring \<Rightarrow> 'a tmpl_page_scheme \<Rightarrow> 'a tmpl_page_scheme option" where
  "form_preview token t =
     (let url = js ''/datasource/form/preview?token='' @ token
      in if eModel t = WYSIWYG then map_option (\<lambda>k. post url k t) (ed_K t)
         else Some (post url (ta_value (templateContent t)) t))"

subsection \<open>The other pages\<close>

definition showType :: "jstring \<Rightarrow> 'a ui_scheme \<Rightarrow> 'a ui_scheme" where
  "showType type u =
     (if type = js ''0'' then
        set_html (js ''#prompt_txt'') [0x6210, 0x529F, 0x6CE8, 0x518C, 0x540E, 0x53D1, 0x51FA, 0x6210, 0x529F, 0x63D0, 0x793A, 0x90AE, 0x4EF6]
          (set_html (js ''#confirm_txt'') [0x90AE, 0x4EF6, 0x4E8C, 0x6B21, 0x786E, 0x8BA4, 0x6210, 0x529F, 0x540E, 0x518D, 0x6536, 0x96C6, 0x5230, 0x6807, 0x7B7E] (show_el (js ''#confirm'') u))
      else if type = js ''1'' then
        set_html (js ''#prompt_txt'') [0x8BA2, 0x9605, 0x5B8C, 0x6210, 0x540E, 0x53D1, 0x51FA, 0x6210, 0x529F, 0x8BA2, 0x9605, 0x7684, 0x63D0, 0x793A, 0x6216, 0x611F, 0x8C22, 0x90AE, 0x4EF6]
          (set_html (js ''#confirm_txt'') [0x5BF9, 0x586B, 0x5199, 0x7684, 0x90AE, 0x7BB1, 0x53D1, 0x51FA, 0x9A8C, 0x8BC1, 0x90AE, 0x4EF6, 0xFF0C, 0x9A8C, 0x8BC1, 0x6210, 0x529F, 0x518D, 0x6536, 0x96C6, 0x5230, 0x6807, 0x7B7E] (show_el (js ''#confirm'') u))
      else if type = js ''2'' then
        set_html (js ''#prompt_txt'') [0x9000, 0x8BA2, 0x63D0, 0x4EA4, 0x540E, 0x53D1, 0x51FA, 0x6210, 0x529F, 0x9000, 0x8BA2, 0x7684, 0x63D0, 0x793A, 0x90AE, 0x4EF6] (hide_el (js ''#confirm'') u)
      else set_html (js ''#prompt_txt'') [] (set_html (js ''#confirm_txt'') [] (hide_el (js ''#confirm'') u)))"

text \<open>The first page: no mask is shown before the checks, so the messages are written out.\<close>

definition form_smt :: "browser \<Rightarrow> jstring \<Rightarrow> jstring \<Rightarrow> jstring \<Rightarrow> jstring \<Rightarrow> 'a ui_scheme \<Rightarrow> bool \<times> 'a ui_scheme" where
  "form_smt b formName formDesc formType dataStoreId u =
     (let no = (\<lambda>m k. (False, focus_el k (fail_message b m u)))
      in if trim formName = [] then no [0x8BF7, 0x8F93, 0x5165, 0x8868, 0x5355, 0x540D, 0x79F0] (js ''#formName'')
         else if trim formDesc = [] then no [0x8BF7, 0x8F93, 0x5165, 0x8868, 0x5355, 0x7528, 0x9014] (js ''#formDesc'')
         else if trim formType = [] then no [0x8BF7, 0x9009, 0x62E9, 0x8868, 0x5355, 0x7C7B, 0x578B] (js ''#formType'')
         else if trim dataStoreId = [] then no [0x8BF7, 0x9009, 0x62E9, 0x6570, 0x636E, 0x50A8, 0x5B58] (js ''#dataStoreId'')
         else (True, openPop_box b (js ''#confirmCancle'') u))"

definition form_add_success :: "browser \<Rightarrow> reply \<Rightarrow> jstring \<Rightarrow> 'a ui_scheme \<Rightarrow> 'a ui_scheme" where
  "form_add_success b d formId u =
     (let u = del_loading b [] u
      in if accepted d then go_to (js ''/datasource/form/1?formId='' @ formId) u else fail_message b (message d) u)"

record flags =
  emailConfirm :: jsval
  emailPrompt :: jsval

definition form2_success :: "browser \<Rightarrow> reply \<Rightarrow> flags \<Rightarrow> jstring \<Rightarrow> 'a ui_scheme \<Rightarrow> 'a ui_scheme" where
  "form2_success b d fl formId u =
     (if accepted d
      then
        (let u = del_loading b [] u;
             step = (if js_eq (emailConfirm fl) (JInt 1) then js ''3''
                     else if js_eq (emailPrompt fl) (JInt 1) then js ''4'' else js ''5'')
         in error_message b (message d) 0 0 1000 (js ''/datasource/form/'' @ step @ js ''?formId='' @ formId) u)
      else del_loading b [] (fail_message b (message d) u))"

definition form3_rules :: "jstring \<Rightarrow> rule list" where
  "form3_rules tempConfirmSubject = [Rule (tempConfirmSubject = []) [0x4E3B, 0x9898, 0x4E0D, 0x80FD, 0x4E3A, 0x7A7A] None]"

definition form3_check :: "browser \<Rightarrow> jstring \<Rightarrow> 'a ui_scheme \<Rightarrow> 'a ui_scheme + 'a ui_scheme" where
  "form3_check b subject u = check_rules b (form3_rules subject) (loading b [] u)"

definition form3_success :: "browser \<Rightarrow> reply \<Rightarrow> flags \<Rightarrow> jstring \<Rightarrow> 'a ui_scheme \<Rightarrow> 'a ui_scheme" where
  "form3_success b d fl formId u =
     (if accepted d
      then
        (let u = del_loading b [] u;
             step = (if js_eq (emailPrompt fl) (JInt 1) then js ''4'' else js ''5'')
         in error_message b (message d) 0 0 1000 (js ''/datasource/form/'' @ step @ js ''?formId='' @ formId) u)
      else del_loading b [] (fail_message b (message d) u))"

text \<open>The red words of the mail: \<open>special\<close> is the marked text in the editor, given back with the
  subject.\<close>

definition appendText :: "browser \<Rightarrow> jstring \<Rightarrow> 'a ui_scheme \<Rightarrow> (jstring \<times> jstring) option \<times> 'a ui_scheme" where
  "appendText b word u =
     (if trim word = [] then (None, fail_message b [0x4E3B, 0x9898, 0x4E0D, 0x80FD, 0x4E3A, 0x7A7A] u) else (Some (word, word), u))"

definition form4_rules :: "jstring \<Rightarrow> rule list" where
  "form4_rules promptSubject = [Rule (trim promptSubject = []) [0x8BF7, 0x8F93, 0x5165, 0x90AE, 0x4EF6, 0x4E3B, 0x9898] (Some (js ''promptSubject''))]"

definition form4_check :: "browser \<Rightarrow> jstring \<Rightarrow> 'a ui_scheme \<Rightarrow> 'a ui_scheme + 'a ui_scheme" where
  "form4_check b subject u = check_rules b (form4_rules subject) (loading b [] u)"

definition form4_success :: "browser \<Rightarrow> reply \<Rightarrow> jstring \<Rightarrow> 'a ui_scheme \<Rightarrow> 'a ui_scheme" where
  "form4_success b d formId u =
     (let u = del_loading b [] u
      in if js_eq (code d) (JInt 1) then go_to (js ''/datasource/form/5?formId='' @ formId) u
         else if js_eq (code d) (JInt 2) then popTips b (js ''#remindFilter'') (message d) u
         else fail_message b (message d) u)"

definition form4_submit ::
  "browser \<Rightarrow> (jstring \<times> jstring) list \<Rightarrow> 'a tmpl_page_scheme \<Rightarrow> ('a tmpl_page_scheme \<times> bool) option" where
  "form4_submit b prop_list t =
     (case hasPrama prop_list t of
        None \<Rightarrow> None
      | Some flag \<Rightarrow>
          if flag \<and> personal t = Some (js ''false'')
          then Some (popTips b (js ''#remindParam'') [0x94FE, 0x63A5, 0x542B, 0x6709, 0x53D8, 0x91CF, 0xFF0C, 0x53EF, 0x80FD, 0x5BFC, 0x81F4, 0x94FE, 0x63A5, 0x5931, 0x5E38, 0xFF0C, 0x8BBE, 0x7F6E, 0x94FE, 0x63A5, 0x4E2A, 0x6027, 0x5316, 0xFF1F] t, False)
          else if \<not> flag \<and> personal t = Some (js ''true'')
          then Some (popTips b (js ''#remindParam'') [0x94FE, 0x63A5, 0x6CA1, 0x6709, 0x53EF, 0x66FF, 0x6362, 0x7684, 0x53D8, 0x91CF, 0xFF0C, 0x94FE, 0x63A5, 0x4E2A, 0x6027, 0x5316, 0x4F1A, 0x5931, 0x6548, 0xFF0C, 0x53D6, 0x6D88, 0x94FE, 0x63A5, 0x4E2A, 0x6027, 0x5316, 0xFF1F] t, False)
          else Some (t, True))"

interpretation form3: form_check "form3_check b n" "\<lambda>t. form3_rules n" b for b n
  by unfold_locales (simp add: form3_check_def guarded_def)

interpretation form4: form_check "form4_check b n" "\<lambda>t. form4_rules n" b for b n
  by unfold_locales (simp add: form4_check_def guarded_def)

subsection \<open>Lemmas\<close>

lemma lang_not_gt: "denotes not_gt (list_all (\<lambda>c. c \<noteq> 62))"
  unfolding not_gt_def using denotes_Star [OF denotes_Chr] by (rule denotes_cong) (rule lang_star_chr)

lemma lang_any: "denotes any_lazy (\<lambda>p. True)"
  unfolding any_lazy_def using denotes_LazyStar [OF denotes_Chr]
  by (rule denotes_cong) (simp add: lang_star_chr [of "\<lambda>c. True", unfolded HOL.simp_thms] list_all_iff)

lemma lang_seq_intro: "L p \<Longrightarrow> M q \<Longrightarrow> lang_seq L M (p @ q)"
  by (auto simp: lang_seq_def)

text \<open>A form with its name in the opening tag is found wherever it stands.\<close>

lemma form_found:
  assumes "list_all (\<lambda>c. c \<noteq> 62) x" and "list_all (\<lambda>c. c \<noteq> 62) y"
  shows "re_test (re_form name) (a @ (js ''<form'' @ x @ name @ y @ js ''>'' @ z @ js ''</form>'') @ r)"
proof (rule re_test_inside)
  let ?l = "\<lambda>w p. length p = length w \<and> eq_i w p"
  show "denotes (re_form name)
     (lang_seq (?l (js ''<form'')) (lang_seq (list_all (\<lambda>c. c \<noteq> 62)) (lang_seq (?l name)
       (lang_seq (list_all (\<lambda>c. c \<noteq> 62)) (lang_seq (?l (js ''>'')) (lang_seq (\<lambda>p. True) (?l (js ''</form>'')))))))) "
    unfolding re_form_def by (intro denotes_Seq denotes_lit_i lang_not_gt lang_any)
  show "lang_seq (?l (js ''<form'')) (lang_seq (list_all (\<lambda>c. c \<noteq> 62)) (lang_seq (?l name)
       (lang_seq (list_all (\<lambda>c. c \<noteq> 62)) (lang_seq (?l (js ''>'')) (lang_seq (\<lambda>p. True) (?l (js ''</form>'')))))))
     (js ''<form'' @ x @ name @ y @ js ''>'' @ z @ js ''</form>'')"
    by (intro lang_seq_intro) (simp_all add: assms eq_i_def)
qed

lemma getFormHtml_form:
  assumes "62 \<notin> set actionUrl"
  shows "\<exists>x y z. getFormHtml actionUrl ps = js ''<form'' @ x @ js ''tempForm'' @ y @ js ''>'' @ z @ js ''</form>''
    \<and> list_all (\<lambda>c. c \<noteq> 62) x \<and> list_all (\<lambda>c. c \<noteq> 62) y"
proof (intro exI conjI)
  let ?x = "js '' id=\"''"
  let ?y = "js ''\" method=\"post\" action=\"'' @ actionUrl @ js ''\" data-ke-src=\"'' @ actionUrl @ js ''\" style=\"margin:0;\"''"
  show "list_all (\<lambda>c. c \<noteq> 62) ?x" by (simp add: js_def)
  show "list_all (\<lambda>c. c \<noteq> 62) ?y" using assms by (auto simp: js_def list_all_iff)
  show "getFormHtml actionUrl ps = js ''<form'' @ ?x @ js ''tempForm'' @ ?y @ js ''>''
    @ (js ''<table border=0 cellspacing=0 cellpadding=5>''
     @ concat (map (\<lambda>p. if fp_checked p then row_html p else []) ps)
     @ [0x3C, 0x74, 0x72, 0x3E, 0x3C, 0x74, 0x64, 0x20, 0x77, 0x69, 0x64, 0x74, 0x68, 0x3D, 0x22, 0x36, 0x30, 0x22, 0x3E, 0x3C, 0x2F, 0x74, 0x64, 0x3E, 0x3C, 0x74, 0x64, 0x20, 0x77, 0x69, 0x64, 0x74, 0x68, 0x3D, 0x22, 0x36, 0x22, 0x3E, 0x3C, 0x2F, 0x74, 0x64, 0x3E, 0x3C, 0x74, 0x64, 0x3E, 0x3C, 0x69, 0x6E, 0x70, 0x75, 0x74, 0x20, 0x74, 0x79, 0x70, 0x65, 0x3D, 0x22, 0x73, 0x75, 0x62, 0x6D, 0x69, 0x74, 0x22, 0x20, 0x76, 0x61, 0x6C, 0x75, 0x65, 0x3D, 0x22, 0x6CE8, 0x518C, 0x22, 0x20, 0x73, 0x74, 0x79, 0x6C, 0x65, 0x3D, 0x22, 0x63, 0x75, 0x72, 0x73, 0x6F, 0x72, 0x3A, 0x70, 0x6F, 0x69, 0x6E, 0x74, 0x65, 0x72, 0x22, 0x3E, 0x3C, 0x2F, 0x74, 0x64, 0x3E, 0x3C, 0x2F, 0x74, 0x72, 0x3E]
     @ js ''</table>''
     @ [0x3C, 0x73, 0x63, 0x72, 0x69, 0x70, 0x74, 0x20, 0x73, 0x72, 0x63, 0x3D, 0x22, 0x68, 0x74, 0x74, 0x70, 0x3A, 0x2F, 0x2F, 0x31, 0x33, 0x39, 0x65, 0x64, 0x6D, 0x2E, 0x63, 0x6F, 0x6D, 0x2F, 0x66, 0x6F, 0x72, 0x6D, 0x2F, 0x6A, 0x71, 0x75, 0x65, 0x72, 0x79, 0x2D, 0x31, 0x2E, 0x37, 0x2E, 0x31, 0x2E, 0x6D, 0x69, 0x6E, 0x2E, 0x6A, 0x73, 0x22, 0x3E, 0x3C, 0x2F, 0x73, 0x63, 0x72, 0x69, 0x70, 0x74, 0x3E]
     @ [0x3C, 0x73, 0x63, 0x72, 0x69, 0x70, 0x74, 0x20, 0x73, 0x72, 0x63, 0x3D, 0x22, 0x68, 0x74, 0x74, 0x70, 0x3A, 0x2F, 0x2F, 0x31, 0x33, 0x39, 0x65, 0x64, 0x6D, 0x2E, 0x63, 0x6F, 0x6D, 0x2F, 0x66, 0x6F, 0x72, 0x6D, 0x2F, 0x6D, 0x65, 0x6E, 0x75, 0x2E, 0x6A, 0x73, 0x22, 0x3E, 0x3C, 0x2F, 0x73, 0x63, 0x72, 0x69, 0x70, 0x74, 0x3E]) @ js ''</form>''"
    unfolding getFormHtml_def by (simp add: js_def)
qed

text \<open>What page 1 inserts is what page 1 asks for. In the text mode, inserting the chosen fields
  (at most ten) into a template without a form of the system, wherever the cursor is, leaves a
  text that passes the check of the page, so the form can be sent.\<close>

lemma created_form_passes:
  assumes "eModel t \<noteq> WYSIWYG" and "length (filter fp_checked ps) \<le> 10" and "62 \<notin> set actionUrl"
    and "\<not> re_test (re_form (js ''edm_sys_form'')) (ta_value (templateContent t))"
    and "ta_sel (templateContent t) = Some (i, j)"
  shows "\<exists>v w. createForm b E F actionUrl ps t = Some v \<and> form1_check b F v = Some (Inr w)"
proof -
  define rest where "rest = re_replace1 re_any_form (\<lambda>_ _ _. []) (ta_value (templateContent t))"
  have "\<exists>v. createForm b E F actionUrl ps t = Some v \<and> eModel v = eModel t
      \<and> ta_value (templateContent v) = take i rest @ getFormHtml actionUrl ps @ drop j rest"
    using assms(1,2,4,5)
    by (simp add: createForm_def Let_def closeDialog_def insertContent_def set_ta_def rest_def)
  then obtain v where v: "createForm b E F actionUrl ps t = Some v" "eModel v = eModel t"
    "ta_value (templateContent v) = take i rest @ getFormHtml actionUrl ps @ drop j rest" by blast
  have l: "eModel (loading b [] v) = eModel v" "templateContent (loading b [] v) = templateContent v"
    by (simp_all add: loading_def show_el_def Let_def)
  have "re_test (re_form (js ''tempForm'')) (x @ getFormHtml actionUrl ps @ r)" for x r
    using getFormHtml_form [OF assms(3), of ps] form_found by metis
  then have "form1_check b F v = Some (Inr (loading b [] v))"
    using assms(1) by (simp add: form1_check_def Let_def l v)
  with v show ?thesis by blast
qed

definition bare_frame :: frame_api where
  "bare_frame = \<lparr>fr_sys_form = (\<lambda>k. False), fr_temp_form = (\<lambda>k. False), fr_fill = (\<lambda>k s. s), fr_no_form = (\<lambda>k. k)\<rparr>"

subsection \<open>The way through the pages\<close>

text \<open>The answer handler of a page, the addresses, and the page the flags of the form call for next.\<close>

definition form_answer :: "browser \<Rightarrow> reply \<Rightarrow> flags \<Rightarrow> jstring \<Rightarrow> nat \<Rightarrow> 'a ui_scheme \<Rightarrow> 'a ui_scheme" where
  "form_answer b d fl formId n u =
     (if n = 0 then form_add_success b d formId u
      else if n = 1 then form1_success b d formId u
      else if n = 2 then form2_success b d fl formId u
      else if n = 3 then form3_success b d fl formId u
      else form4_success b d formId u)"

definition form_url :: "nat \<Rightarrow> jstring \<Rightarrow> jstring" where
  "form_url n formId = js ''/datasource/form/'' @ [48 + n] @ js ''?formId='' @ formId"

definition wants :: "jsval \<Rightarrow> bool" where
  "wants v \<longleftrightarrow> js_eq v (JInt 1)"

definition form_next :: "flags \<Rightarrow> nat \<Rightarrow> nat" where
  "form_next fl n =
     (if n < 2 then Suc n
      else if n = 2 \<and> wants (emailConfirm fl) then 3
      else if n < 4 \<and> wants (emailPrompt fl) then 4 else 5)"

function form_visits :: "flags \<Rightarrow> nat \<Rightarrow> nat list" where
  "form_visits fl n = n # (if n \<ge> 5 then [] else form_visits fl (form_next fl n))"
  by pat_completeness auto

termination form_visits
  by (relation "measure (\<lambda>(fl, n). 5 - n)") (auto simp: form_next_def)

declare form_visits.simps [simp del]

lemma redirect_after_message:
  "timers u = [] \<Longrightarrow> navs (run_timers (error_message b m 0 0 1000 url u)) = navs u @ [url]"
proof -
  assume "timers u = []"
  then have "\<exists>i. timers (error_message b m 0 0 1000 url u) = [(i, GoTo url, 1000)]"
    by (simp add: error_message_def Let_def setTimeout_def clearTimeout_def)
  then obtain i where t: "timers (error_message b m 0 0 1000 url u) = [(i, GoTo url, 1000)]" ..
  let ?v = "fire (i, GoTo url, 1000) (error_message b m 0 0 1000 url u)"
  have "timers ?v = []" using t by simp
  then have "run_timers (error_message b m 0 0 1000 url u) = ?v"
    by (simp add: run_timers.simps [of "error_message b m 0 0 1000 url u"] run_timers.simps [of ?v] t)
  then show ?thesis by (simp add: fire_def go_to_def)
qed

lemma timers_idle: "timers u = [] \<Longrightarrow> run_timers u = u"
  by (simp add: run_timers.simps)

lemma form_answer_next:
  assumes "accepted d" and "timers u = []" and "n < 5"
  shows "navs (run_timers (form_answer b d fl formId n u)) = navs u @ [form_url (form_next fl n) formId]"
proof -
  have d: "js_eq (code d) (JInt 1)" using assms(1) by (simp add: accepted_def)
  consider "n = 0" | "n = 1" | "n = 2" | "n = 3" | "n = 4" using assms(3) by linarith
  then show ?thesis
    by cases
      (simp_all add: form_answer_def form_add_success_def form1_success_def form2_success_def form3_success_def
        form4_success_def Let_def assms(1,2) d redirect_after_message timers_idle go_to_def form_next_def wants_def
        form_url_def js_def)
qed

text \<open>C25: The guided form comes to its end. On every page but the last, when the server accepts what
  was sent, the page leads to the next page of this form: the mail of confirmation (page 3) only for
  forms that ask for one, the mail of thanks (page 4) only for forms that send one. From the first
  page these steps visit exactly the pages the form calls for, in order, each once, and end at the
  last page.\<close>

theorem form_wizard_ends:
  assumes "accepted d" and "timers u = []"
  shows "(\<forall>n. n < 5 \<longrightarrow>
      navs (run_timers (form_answer b d fl formId n u)) = navs u @ [form_url (form_next fl n) formId])
    \<and> form_visits fl 0 = [0, 1, 2] @ (if wants (emailConfirm fl) then [3] else [])
           @ (if wants (emailPrompt fl) then [4] else []) @ [5]"
proof -
  have "form_visits fl 0 = [0, 1, 2] @ (if wants (emailConfirm fl) then [3] else [])
           @ (if wants (emailPrompt fl) then [4] else []) @ [5]"
    by (simp add: form_visits.simps form_next_def)
  then show ?thesis using form_answer_next [OF assms] by blast
qed

theorem form_wizard_ends_witness:
  "navs (run_timers (form_answer browser0 \<lparr>code = JInt 1, message = []\<rparr> \<lparr>emailConfirm = JInt 0, emailPrompt = JInt 1\<rparr> (js ''7'') 2 page0))
     = [js ''/datasource/form/4?formId=7'']"
proof -
  have a: "accepted \<lparr>code = JInt 1, message = []\<rparr>" by (simp add: accepted_def)
  have t: "timers page0 = []" "navs page0 = []" by (simp_all add: page0_def)
  show ?thesis
    using form_wizard_ends [OF a t(1), of browser0 "\<lparr>emailConfirm = JInt 0, emailPrompt = JInt 1\<rparr>" "js ''7''"]
    by (auto simp: t(2) form_url_def form_next_def wants_def js_def dest: spec [of _ 2])
qed

end
