(* ===== verification/Steps.thy ===== *)
theory Steps
  imports FormPages
begin

text \<open>
  The guided way to a mailing task: \<open>static/js/step.1.js\<close>, where a template is made or chosen, and
  \<open>step.3.js\<close>, where the task is named, kept as a draft or sent; step 2 is in the theories \<open>Import\<close>
  and \<open>Export\<close>. Also \<open>datasource.filter.js\<close>, whose rows of conditions work like the rows there.
\<close>

subsection \<open>Step 1: the template\<close>

definition step1_rules :: "jstring \<Rightarrow> jstring \<Rightarrow> jstring \<Rightarrow> rule list" where
  "step1_rules templateName categoryId subject =
     [Rule (templateName = []) [0x8BF7, 0x8F93, 0x5165, 0x6A21, 0x677F, 0x540D, 0x79F0] (Some (js ''templateName'')),
      Rule (categoryId = []) [0x8BF7, 0x9009, 0x62E9, 0x6A21, 0x677F, 0x7C7B, 0x522B] None,
      Rule (subject = []) [0x8BF7, 0x8F93, 0x5165, 0x90AE, 0x4EF6, 0x4E3B, 0x9898] (Some (js ''subject''))]"

definition step1_check ::
  "browser \<Rightarrow> jstring \<Rightarrow> jstring \<Rightarrow> jstring \<Rightarrow> 'a ui_scheme \<Rightarrow> 'a ui_scheme + 'a ui_scheme" where
  "step1_check b templateName categoryId subject u =
     check_rules b (step1_rules templateName categoryId subject) (loading b [] u)"

definition step1_success :: "browser \<Rightarrow> reply \<Rightarrow> jstring \<Rightarrow> 'a ui_scheme \<Rightarrow> 'a ui_scheme" where
  "step1_success b d taskId u =
     (let u = del_loading b [] u
      in if js_eq (code d) (JInt 1) then go_to (js ''/step/2?id='' @ taskId) u
         else if js_eq (code d) (JInt 2) then popTips b (js ''#remindFilter'') (message d) u
         else fail_message b (message d) u)"

text \<open>A stored template: \<open>templates\<close> are the ids and subjects of \<open>templateData\<close>.\<close>

definition stored_rules :: "jstring \<Rightarrow> jstring \<Rightarrow> rule list" where
  "stored_rules templateId subject =
     [Rule (templateId = []) [0x8BF7, 0x9009, 0x62E9, 0x90AE, 0x4EF6, 0x6A21, 0x677F] None, Rule (subject = []) [0x8BF7, 0x8F93, 0x5165, 0x90AE, 0x4EF6, 0x4E3B, 0x9898] None]"

definition stored_check ::
  "browser \<Rightarrow> (jsval \<times> jstring) list \<Rightarrow> jstring \<Rightarrow> jstring \<Rightarrow> 'a ui_scheme \<Rightarrow> 'a ui_scheme + 'a ui_scheme" where
  "stored_check b templates templateId subject u =
     (let u = loading b [] u
      in if templates = [] then Inl (del_loading b [] (popTips b (js ''#remindCustom'') [] u))
         else check_rules b (stored_rules templateId subject) u)"

definition stored_success :: "browser \<Rightarrow> reply \<Rightarrow> jstring \<Rightarrow> 'a ui_scheme \<Rightarrow> 'a ui_scheme" where
  "stored_success b d taskId u =
     (let u = del_loading b [] u
      in if accepted d then go_to (js ''/step/2?id='' @ taskId) u else fail_message b (message d) u)"

definition action_change :: "jstring \<Rightarrow> 'a ui_scheme \<Rightarrow> 'a ui_scheme" where
  "action_change action u =
     (if action = js ''create'' then show_el (js ''.new_temp'') (hide_el (js ''.old_temp'') u)
      else show_el (js ''.old_temp'') (hide_el (js ''.new_temp'') u))"

text \<open>The button in the box that says there is no template: with the page, the choice it makes.\<close>

definition gotoNewTemp :: "browser \<Rightarrow> 'a ui_scheme \<Rightarrow> jstring \<times> 'a ui_scheme" where
  "gotoNewTemp b u = (js ''create'', closeDialog b (show_el (js ''.new_temp'') (hide_el (js ''.old_temp'') u)))"

text \<open>The loop over \<open>templateData\<close> that writes the subject of the chosen template into its field.\<close>

fun subject_loop :: "jsval \<Rightarrow> (jsval \<times> jstring) list \<Rightarrow> jstring \<Rightarrow> jstring" where
  "subject_loop i [] s = s"
| "subject_loop i (t # ts) s = subject_loop i ts (if js_eq (fst t) i then snd t else s)"

definition step_postSubject ::
  "anchor \<Rightarrow> (jsval \<times> jstring) list \<Rightarrow> picker \<times> jstring \<Rightarrow> picker \<times> jstring" where
  "step_postSubject a templates s =
     (let p = pickData a (fst s) in (p, subject_loop (JStr (pk_value p)) templates (snd s)))"

datatype target = Add_form | User_form

text \<open>The button: which form is sent, if one is.\<close>

definition step1_submit ::
  "browser \<Rightarrow> editor_api \<Rightarrow> (jstring \<Rightarrow> (bool \<times> jstring) list) \<Rightarrow> (jstring \<times> jstring) list \<Rightarrow> jstring
     \<Rightarrow> 'a trig_page_scheme \<Rightarrow> ('a trig_page_scheme \<times> target option) option" where
  "step1_submit b E anchors prop_list action t =
     (if action = js ''create''
      then
        (case hasPrama prop_list t of
           None \<Rightarrow> None
         | Some flag \<Rightarrow>
             if flag \<and> personal t = Some (js ''false'')
             then Some (popTips b (js ''#remindParam'') [0x94FE, 0x63A5, 0x542B, 0x6709, 0x53D8, 0x91CF, 0xFF0C, 0x53EF, 0x80FD, 0x5BFC, 0x81F4, 0x94FE, 0x63A5, 0x5931, 0x5E38, 0xFF0C, 0x8BBE, 0x7F6E, 0x94FE, 0x63A5, 0x4E2A, 0x6027, 0x5316, 0xFF1F] t, None)
             else if \<not> flag \<and> personal t = Some (js ''true'')
             then Some (popTips b (js ''#remindParam'') [0x94FE, 0x63A5, 0x6CA1, 0x6709, 0x53EF, 0x66FF, 0x6362, 0x7684, 0x53D8, 0x91CF, 0xFF0C, 0x94FE, 0x63A5, 0x4E2A, 0x6027, 0x5316, 0x4F1A, 0x5931, 0x6548, 0xFF0C, 0x53D6, 0x6D88, 0x94FE, 0x63A5, 0x4E2A, 0x6027, 0x5316, 0xFF1F] t, None)
             else map_option (\<lambda>(t, ok). (t, if ok then Some Add_form else None)) (compareHref b E anchors False t))
      else Some (t, Some User_form))"

text \<open>The preview: of the text being made, or of a stored template in a window of its own.\<close>

definition step1_preview ::
  "browser \<Rightarrow> jstring \<Rightarrow> jstring \<Rightarrow> jstring \<Rightarrow> (jsval \<times> jstring) list \<Rightarrow> 'a tmpl_page_scheme
     \<Rightarrow> ('a tmpl_page_scheme \<times> jstring option) option" where
  "step1_preview b token action userTempId templates t =
     (if action = js ''create''
      then
        (let url = js ''/mailing/template/preview?token='' @ token
         in if eModel t = WYSIWYG then map_option (\<lambda>k. (post url k t, None)) (ed_K t)
            else Some (post url (ta_value (templateContent t)) t, None))
      else if userTempId \<noteq> [] then Some (t, Some (js ''/mailing/template/view?templateId='' @ userTempId))
      else if templates = [] then Some (popTips b (js ''#remindCustom'') [] t, None)
      else Some (fail_message b [0x8BF7, 0x9009, 0x62E9, 0x90AE, 0x4EF6, 0x6A21, 0x677F] t, None))"

subsection \<open>Step 3: the task\<close>

record step3_page = ui +
  s3_taskName :: jstring
  s3_corp :: "jstring option"    \<comment> \<open>the field of the company, where the page has it\<close>
  s3_senderEmail :: jstring
  s3_sms :: "jstring option"
  s3_assProp :: "(jstring \<times> row list) option" \<comment> \<open>the associated properties and their array\<close>
  s3_taskId :: jstring
  s3_planId :: jstring
  s3_orgTaskName :: jstring

definition interest :: jstring where
  "interest = [0x884C, 0x4E1A, 0x5174, 0x8DA3]"

definition step3_rules :: "'a step3_page_scheme \<Rightarrow> rule list" where
  "step3_rules p =
     [Rule (s3_taskName p = []) [0x8BF7, 0x8F93, 0x5165, 0x4EFB, 0x52A1, 0x540D, 0x79F0] (Some (js ''taskName'')),
      Rule (s3_corp p = Some []) [0x8BF7, 0x9009, 0x62E9, 0x6240, 0x5C5E, 0x4F01, 0x4E1A] None,
      Rule (s3_senderEmail p = []) [0x8BF7, 0x8F93, 0x5165, 0x53D1, 0x4EF6, 0x4EBA, 0x90AE, 0x7BB1] None,
      Rule (s3_sms p = Some []) [0x8BF7, 0x9009, 0x62E9, 0x77ED, 0x4FE1, 0x901A, 0x77E5] None,
      Rule (case s3_assProp p of None \<Rightarrow> False
            | Some (val, subArr) \<Rightarrow> val \<noteq> [] \<and> findArrItem subArr 2 (JStr interest) = -1)
        [0x8BF7, 0x9009, 0x62E9, 0x5173, 0x8054, 0x5C5E, 0x6027, 0x7684, 0x884C, 0x4E1A, 0x5174, 0x8DA3] None]"

definition step3_check :: "browser \<Rightarrow> 'a step3_page_scheme \<Rightarrow> 'a step3_page_scheme + 'a step3_page_scheme" where
  "step3_check b p = check_rules b (step3_rules p) (loading b [] p)"

definition step3_success :: "browser \<Rightarrow> reply \<Rightarrow> 'a ui_scheme \<Rightarrow> 'a ui_scheme" where
  "step3_success b d u =
     (let u = del_loading b [] u
      in if accepted d then error_message b (message d) 0 0 1000 (js ''/mailing/task/page'') u
         else fail_message b (message d) u)"

definition gotoDrafted :: "browser \<Rightarrow> 'a step3_page_scheme \<Rightarrow> 'a step3_page_scheme" where
  "gotoDrafted b p =
     (case check_rules b (step3_rules p) p of Inl v \<Rightarrow> v | Inr v \<Rightarrow> popTips b (js ''#draftedRemind'') [] v)"

record step3_reply = reply +
  r_taskId :: jstring
  r_planId :: jstring
  r_taskName :: jstring

definition step3_drafted :: "browser \<Rightarrow> step3_reply \<Rightarrow> 'a step3_page_scheme \<Rightarrow> 'a step3_page_scheme" where
  "step3_drafted b d p =
     closeDialog b (del_loading b []
       (if accepted (reply.truncate d)
        then ok_message b (message d)
               (p\<lparr>s3_taskId := r_taskId d, s3_planId := r_planId d, s3_orgTaskName := r_taskName d\<rparr>)
        else fail_message b (message d) p))"

definition step3_back :: "browser \<Rightarrow> reply \<Rightarrow> jstring \<Rightarrow> 'a ui_scheme \<Rightarrow> 'a ui_scheme" where
  "step3_back b d taskId u =
     (if accepted d then go_to (js ''/step/2?id='' @ taskId) u else fail_message b (message d) u)"

interpretation step1: form_check "step1_check b n c s" "\<lambda>u. step1_rules n c s" b for b n c s
  by unfold_locales (simp add: step1_check_def guarded_def)

interpretation step3: form_check "step3_check b" step3_rules b for b
  by unfold_locales (simp add: step3_check_def guarded_def)

subsection \<open>The rows of a filter\<close>

record filter_page = ui +
  f_index :: nat
  f_ids :: "nat list"   \<comment> \<open>the numbers of the rows of the table\<close>

definition add_filter :: "browser \<Rightarrow> 'a filter_page_scheme \<Rightarrow> 'a filter_page_scheme" where
  "add_filter b p =
     (let p = p\<lparr>f_index := Suc (f_index p)\<rparr>
      in if length (f_ids p) \<ge> 8 then fail_message b [0x8FC7, 0x6EE4, 0x673A, 0x5236, 0x4E0D, 0x80FD, 0x8D85, 0x8FC7, 0x38, 0x4E2A] p
         else p\<lparr>f_ids := f_ids p @ [f_index p]\<rparr>)"

definition del_filter :: "nat \<Rightarrow> 'a filter_page_scheme \<Rightarrow> 'a filter_page_scheme" where
  "del_filter i p = p\<lparr>f_ids := remove1 i (f_ids p)\<rparr>"

definition filter_rules :: "jstring \<Rightarrow> rule list" where
  "filter_rules filterName = [Rule (filterName = []) [0x8BF7, 0x8F93, 0x5165, 0x8FC7, 0x6EE4, 0x5668, 0x540D, 0x79F0] (Some (js ''filterName''))]"

definition filter_check :: "browser \<Rightarrow> jstring \<Rightarrow> 'a ui_scheme \<Rightarrow> 'a ui_scheme + 'a ui_scheme" where
  "filter_check b filterName u = check_rules b (filter_rules filterName) (loading b [] u)"

definition filter_success :: "browser \<Rightarrow> reply \<Rightarrow> 'a ui_scheme \<Rightarrow> 'a ui_scheme" where
  "filter_success b d u =
     (let u = del_loading b [] u
      in if accepted d then error_message b (message d) 0 0 1000 (js ''/datasource/filter/page'') u
         else fail_message b (message d) u)"

interpretation filter_form: form_check "filter_check b n" "\<lambda>u. filter_rules n" b for b n
  by unfold_locales (simp add: filter_check_def guarded_def)

text \<open>The text of the tip of a row of the list: the conditions, one on a line.\<close>

fun filter_find :: "jsval \<Rightarrow> (jsval \<times> jstring) list \<Rightarrow> jstring list option \<Rightarrow> jstring list option" where
  "filter_find i [] arr = arr"
| "filter_find i (f # fs) arr =
     filter_find i fs (if js_eq (fst f) i then Some (split_chr 0xFF1B (snd f)) else arr)"

definition filter_tip :: "jsval \<Rightarrow> (jsval \<times> jstring) list \<Rightarrow> jstring" where
  "filter_tip i filter_list =
     (case filter_find i filter_list None of
        None \<Rightarrow> [0x3C, 0x70, 0x3E, 0x6682, 0x65E0, 0x6570, 0x636E, 0xFF01, 0x3C, 0x2F, 0x70, 0x3E]
      | Some arr \<Rightarrow> js ''<ul>'' @ concat (map (\<lambda>x. js ''<li>'' @ x @ js ''</li>'') arr) @ js ''</ul>'')"

subsection \<open>Lemmas\<close>

text \<open>The subject written is that of the last template with the id, if there is one.\<close>

lemma subject_loop_last:
  "subject_loop i ts s = (case filter (\<lambda>t. js_eq (fst t) i) ts of [] \<Rightarrow> s | hits \<Rightarrow> snd (last hits))"
  by (induction ts arbitrary: s) (auto split: list.split)

lemma filter_page_more: "ui.more v = ui.more u \<Longrightarrow> f_ids v = f_ids u \<and> f_index v = f_index u"
  for u v :: "'a filter_page_scheme"
  by (cases u; cases v) simp

lemma add_filter_fields:
  "f_index (add_filter b p) = Suc (f_index p)"
  "f_ids (add_filter b p) = (if length (f_ids p) \<ge> 8 then f_ids p else f_ids p @ [Suc (f_index p)])"
proof -
  have "f_ids (fail_message b m q) = f_ids q \<and> f_index (fail_message b m q) = f_index q" for m and q :: "'a filter_page_scheme"
    by (rule filter_page_more) simp
  then show "f_index (add_filter b p) = Suc (f_index p)"
    "f_ids (add_filter b p) = (if length (f_ids p) \<ge> 8 then f_ids p else f_ids p @ [Suc (f_index p)])"
    by (simp_all add: add_filter_def Let_def)
qed

inductive filter_step :: "browser \<Rightarrow> 'a filter_page_scheme \<Rightarrow> 'a filter_page_scheme \<Rightarrow> bool" for b where
  more: "filter_step b p (add_filter b p)"
| less: "filter_step b p (del_filter i p)"

inductive_simps filter_step_iff: "filter_step b p q"

definition filter_ok :: "'a filter_page_scheme \<Rightarrow> bool" where
  "filter_ok p \<longleftrightarrow> distinct (f_ids p) \<and> (\<forall>i \<in> set (f_ids p). i \<le> f_index p) \<and> length (f_ids p) \<le> 8"

lemma filter_step_ok: "filter_step b p q \<Longrightarrow> filter_ok p \<Longrightarrow> filter_ok q"
  unfolding filter_step_iff
proof (elim disjE exE)
  assume "q = add_filter b p" and "filter_ok p"
  then show ?thesis by (auto simp: filter_ok_def add_filter_fields)
next
  fix i assume "q = del_filter i p" and "filter_ok p"
  then show ?thesis by (auto simp: filter_ok_def del_filter_def length_remove1 distinct_remove1 dest: set_remove1_subset [THEN subsetD])
qed

text \<open>Whatever rows of conditions are added and deleted, a filter has at most eight, no two with
  the same number, so that deleting a row takes away that row and no other.\<close>

lemma filter_rows_distinct:
  assumes "filter_ok p" and "(filter_step b)\<^sup>*\<^sup>* p q"
  shows "length (f_ids q) \<le> 8 \<and> distinct (f_ids q) \<and> f_ids (del_filter i q) = removeAll i (f_ids q)"
proof -
  have "filter_ok q" using assms(2,1) by induction (auto intro: filter_step_ok)
  then show ?thesis by (simp add: filter_ok_def del_filter_def distinct_remove1_removeAll)
qed

definition filter0 :: filter_page where
  "filter0 = ui.extend page0 (filter_page.fields 1 [1])"

text \<open>A draft is held to what the task itself is held to. The question whether to keep a draft is
  asked exactly when the task could be sent, and a refused draft gives the message that sending
  would give, without a mask left over the page.\<close>

lemma step3_draft_same_checks:
  assumes "ui_ok p"
  shows "case step3_check b p of
      Inr v \<Rightarrow> gotoDrafted b p = popTips b (js ''#draftedRemind'') [] p
    | Inl v \<Rightarrow> err_boxes (gotoDrafted b p) = err_boxes v \<and> focused (gotoDrafted b p) = focused v
               \<and> loading_bgs (gotoDrafted b p) = 0"
proof (cases "find failed (step3_rules p)")
  case None
  then show ?thesis by (simp add: step3_check_def gotoDrafted_def check_rules_eq)
next
  case (Some r)
  have "focused (reject b r u) = (case rule_focus r of Some k \<Rightarrow> Some k | None \<Rightarrow> focused u)" for u :: "'a step3_page_scheme"
    by (simp add: reject_def Let_def focus_el_def split: option.split)
  with Some assms show ?thesis
    by (simp add: step3_check_def gotoDrafted_def check_rules_eq reject_box split: option.split)
qed

definition step3_0 :: step3_page where
  "step3_0 = ui.extend page0 (step3_page.fields [] None (js ''a'') None None [] [] [])"

end
