(* ===== verification/Export.thy ===== *)
theory Export
  imports Search Forms
begin

text \<open>
  Choosing recipients by tags, \<open>static/js/datasource.selection.export.js\<close> and \<open>step.2.export.js\<close>: the tags
  to include and to exclude, the number of recipients that is shown for them, and the forms that
  make a file or a tag of them.
\<close>

record export_page = ui +
  x_en :: picker          \<comment> \<open>\<open>#en_cate\<close>, whose hidden field is \<open>includeTagIds\<close>\<close>
  x_out :: picker         \<comment> \<open>\<open>#out_cate\<close>\<close>
  x_sum :: "int option"   \<comment> \<open>the number in \<open>#personSum\<close> or \<open>#emailCount2\<close>; \<open>None\<close> is \<open>NaN\<close>\<close>
  x_emailCount :: jstring
  x_type :: jstring       \<comment> \<open>\<open>#type\<close>, in the guided form \<open>#opt\<close>\<close>
  x_tagId :: jstring
  x_active :: jstring     \<comment> \<open>the value of the button \<open>#active\<close>\<close>
  x_period :: jstring     \<comment> \<open>\<open>#activePeriod\<close>\<close>
  x_categoryId :: jstring
  x_newCate :: jstring
  x_sent :: "(jstring \<times> jstring \<times> jstring) list" \<comment> \<open>forms sent: included tags, type, tag\<close>

type_synonym catedata = "(jstring \<times> tag list) list"

definition sum_text :: "int option \<Rightarrow> jstring" where
  "sum_text s = (case s of Some i \<Rightarrow> int_to_str i | None \<Rightarrow> js ''NaN'')"

subsection \<open>The choice and its number\<close>

definition callReloadSum :: "catedata \<Rightarrow> 'a export_page_scheme \<Rightarrow> 'a export_page_scheme" where
  "callReloadSum catedata x =
     (let x = x\<lparr>x_sum := reloadPersonSum catedata (pk_sub (x_en x)) (pk_sub (x_out x))\<rparr>
      in x\<lparr>x_emailCount := sum_text (x_sum x)\<rparr>)"

text \<open>The guided form writes beside the number that repetitions are not taken out.\<close>

definition step_callReloadSum :: "catedata \<Rightarrow> 'a export_page_scheme \<Rightarrow> 'a export_page_scheme" where
  "step_callReloadSum catedata x =
     set_html (js ''#exportTips'') [0xFF08, 0x672A, 0x8FC7, 0x6EE4, 0x53BB, 0x91CD, 0xFF09]
       (x\<lparr>x_sum := reloadPersonSum catedata (pk_sub (x_en x)) (pk_sub (x_out x))\<rparr>)"

text \<open>An entry of the search list was clicked, for the field to include or to exclude.\<close>

definition pick_en ::
  "(jstring \<Rightarrow> int) \<Rightarrow> (picker \<Rightarrow> picker) \<Rightarrow> catedata \<Rightarrow> anchor \<Rightarrow> 'a export_page_scheme \<Rightarrow> 'a export_page_scheme" where
  "pick_en sh posfix catedata a x = callReloadSum catedata (x\<lparr>x_en := pickArr sh posfix a (x_en x)\<rparr>)"

definition pick_out ::
  "(jstring \<Rightarrow> int) \<Rightarrow> (picker \<Rightarrow> picker) \<Rightarrow> catedata \<Rightarrow> anchor \<Rightarrow> 'a export_page_scheme \<Rightarrow> 'a export_page_scheme" where
  "pick_out sh posfix catedata a x = callReloadSum catedata (x\<lparr>x_out := pickArr sh posfix a (x_out x)\<rparr>)"

text \<open>A key in a field: the entry at the cursor goes with the backspace, every other key is
  swallowed.\<close>

definition delete_item :: "(jstring \<Rightarrow> int) \<Rightarrow> (picker \<Rightarrow> picker) \<Rightarrow> cursor \<Rightarrow> picker \<Rightarrow> picker" where
  "delete_item sh posfix c p =
     (let item = getDeleteItem (pk_text p) (getCursorPosition (pk_text p) c);
          arr = removeArrItem item (pk_sub p)
      in addItemInput sh posfix arr (p\<lparr>pk_sub := arr\<rparr>))"

definition deleteCate_en ::
  "(jstring \<Rightarrow> int) \<Rightarrow> (picker \<Rightarrow> picker) \<Rightarrow> catedata \<Rightarrow> nat \<Rightarrow> cursor \<Rightarrow> 'a export_page_scheme \<Rightarrow> 'a export_page_scheme" where
  "deleteCate_en sh posfix catedata keyCode c x =
     (if keyCode = 8 then callReloadSum catedata (x\<lparr>x_en := delete_item sh posfix c (x_en x)\<rparr>) else x)"

definition deleteCate_out ::
  "(jstring \<Rightarrow> int) \<Rightarrow> (picker \<Rightarrow> picker) \<Rightarrow> catedata \<Rightarrow> nat \<Rightarrow> cursor \<Rightarrow> 'a export_page_scheme \<Rightarrow> 'a export_page_scheme" where
  "deleteCate_out sh posfix catedata keyCode c x =
     (if keyCode = 8 then callReloadSum catedata (x\<lparr>x_out := delete_item sh posfix c (x_out x)\<rparr>) else x)"

subsection \<open>Activity of the recipients\<close>

text \<open>\<open>active\<close>: the button with \<open>data-info=1\<close> is the chosen one. \<open>#period_list\<close> is a link, which has
  no value to empty.\<close>

definition activeCnd_change :: "bool \<Rightarrow> 'a ui_scheme \<Rightarrow> 'a ui_scheme" where
  "activeCnd_change active u =
     (if active then show_el (js ''#period_list'') u else hide_el (js ''#period_list'') u)"

definition activeCnd :: "'a export_page_scheme \<Rightarrow> 'a export_page_scheme" where
  "activeCnd x = x\<lparr>x_active := x_period x\<rparr>"

subsection \<open>Making a file or a tag\<close>

definition no_include :: jstring where
  "no_include = [0x8BF7, 0x9009, 0x62E9, 0x5305, 0x542B, 0x6807, 0x7B7E]"

definition no_tag :: jstring where
  "no_tag = [0x8BF7, 0x9009, 0x62E9, 0x6807, 0x7B7E]"

definition create_click :: "browser \<Rightarrow> 'a export_page_scheme \<Rightarrow> 'a export_page_scheme option" where
  "create_click b x =
     (if pk_value (x_en x) = [] then Some (fail_message b no_include x)
      else openPop b (js ''/datasource/tag/add?action=selection.export'') [] (js ''#newTag'')
             (x\<lparr>x_type := js ''0'', x_tagId := []\<rparr>))"

definition importTag :: "json \<Rightarrow> jstring \<Rightarrow> jstring \<Rightarrow> 'a ui_scheme \<Rightarrow> 'a ui_scheme" where
  "importTag json fn boxId u =
     set_html (boxId @ js '' .search_result'') (createSearch json fn None)
       (set_html (boxId @ js '' .search_result'') [] u)"

definition import_keyup :: "json \<Rightarrow> jstring \<Rightarrow> jstring \<Rightarrow> jstring \<Rightarrow> 'a ui_scheme \<Rightarrow> 'a ui_scheme" where
  "import_keyup json fn boxId val u =
     (let val_txt = strip_ws val
      in set_html (boxId @ js '' .search_result'')
           (if val_txt = [] then createSearch json fn None else keySearch json fn val_txt None) u)"

definition import_click :: "browser \<Rightarrow> json \<Rightarrow> 'a export_page_scheme \<Rightarrow> 'a export_page_scheme" where
  "import_click b json x =
     (if pk_value (x_en x) = [] then fail_message b no_include x
      else openPop_box b (js ''#popSearch'')
             (importTag json (js ''appendTagId(this)'') (js ''#popSearch'') (x\<lparr>x_type := js ''1'', x_tagId := []\<rparr>)))"

definition appendTagId :: "anchor \<Rightarrow> 'a export_page_scheme \<Rightarrow> 'a export_page_scheme" where
  "appendTagId a x = x\<lparr>x_tagId := (case an_id a of Some v \<Rightarrow> v | None \<Rightarrow> [])\<rparr>"

text \<open>\<open>selected\<close> is the number of entries marked in the search box.\<close>

definition exports :: "browser \<Rightarrow> nat \<Rightarrow> jstring \<Rightarrow> 'a export_page_scheme \<Rightarrow> 'a export_page_scheme" where
  "exports b selected type x =
     (if pk_value (x_en x) = [] then fail_message b no_include x
      else if type = js ''1'' \<and> x_tagId x = [] then fail_message b no_tag x
      else if type = js ''1'' \<and> shown x (js ''#popSearch'') \<and> selected < 1 then fail_message b no_tag x
      else
        (let x = (closeDialog b x)\<lparr>x_type := type\<rparr>
         in loading b [] (x\<lparr>x_sent := x_sent x @ [(pk_value (x_en x), x_type x, x_tagId x)]\<rparr>)))"

definition export_success :: "browser \<Rightarrow> reply \<Rightarrow> 'a ui_scheme \<Rightarrow> 'a ui_scheme" where
  "export_success b d u =
     (let u = del_loading b [] u
      in if accepted d then popTips b (js ''#remindCustom'') [] u else fail_message b (message d) u)"

definition exportCounter_success :: "browser \<Rightarrow> reply \<Rightarrow> 'a ui_scheme \<Rightarrow> 'a ui_scheme" where
  "exportCounter_success b d u = (if accepted d then popTips b (js ''#remindCustom'') [] u else u)"

definition showNewCate :: "'a export_page_scheme \<Rightarrow> 'a export_page_scheme" where
  "showNewCate x =
     show_el (js ''.new_cate_box'')
       ((set_html (js ''#category_list'') [] (closeSelectDiv x))\<lparr>x_categoryId := []\<rparr>)"

definition hideNewCate :: "'a export_page_scheme \<Rightarrow> 'a export_page_scheme" where
  "hideNewCate x = (hide_el (js ''.new_cate_box'') x)\<lparr>x_newCate := []\<rparr>"

subsection \<open>The guided form\<close>

definition step_export_rules :: "jstring \<Rightarrow> rule list" where
  "step_export_rules includeTagIds = [Rule (includeTagIds = []) no_include None]"

definition step_export_check :: "browser \<Rightarrow> 'a export_page_scheme \<Rightarrow> 'a export_page_scheme + 'a export_page_scheme" where
  "step_export_check b x = check_rules b (step_export_rules (pk_value (x_en x))) (loading b [] x)"

definition step_export_success :: "browser \<Rightarrow> reply \<Rightarrow> jstring \<Rightarrow> 'a ui_scheme \<Rightarrow> 'a ui_scheme" where
  "step_export_success b d emailCount u =
     (let u = del_loading b [] (closeDialog b u)
      in if accepted d
         then popTips b (js ''#remindCustom2'')
                ([0x3C, 0x70, 0x3E, 0x7B5B, 0x9009, 0x6210, 0x529F, 0xFF1A, 0x5F53, 0x524D, 0x5171, 0x9009, 0x4E2D, 0x4E86, 0x3C, 0x73, 0x70, 0x61, 0x6E, 0x20, 0x63, 0x6C, 0x61, 0x73, 0x73, 0x3D, 0x27, 0x72, 0x65, 0x64, 0x27, 0x3E] @ emailCount @ [0x3C, 0x2F, 0x73, 0x70, 0x61, 0x6E, 0x3E, 0x4E2A, 0x6536, 0x4EF6, 0x4EBA, 0x7528, 0x4E8E, 0x6295, 0x9012, 0x3C, 0x73, 0x70, 0x61, 0x6E, 0x20, 0x63, 0x6C, 0x61, 0x73, 0x73, 0x3D, 0x22, 0x66, 0x36, 0x36, 0x36, 0x22, 0x3E, 0xFF08, 0x5DF2, 0x53BB, 0x91CD, 0x8FC7, 0x6EE4, 0xFF09, 0x3C, 0x2F, 0x73, 0x70, 0x61, 0x6E, 0x3E, 0x3C, 0x2F, 0x70, 0x3E]) u
         else fail_message b (message d) u)"

definition step_exports :: "browser \<Rightarrow> jstring \<Rightarrow> 'a export_page_scheme \<Rightarrow> 'a export_page_scheme" where
  "step_exports b opt x =
     (if pk_value (x_en x) = [] then fail_message b no_include x
      else if opt = js ''input'' \<and> x_tagId x = [] then fail_message b no_tag x
      else
        (let x = (closeDialog b x)\<lparr>x_type := opt\<rparr>
         in case step_export_check b x of
              Inl v \<Rightarrow> v
            | Inr v \<Rightarrow> v\<lparr>x_sent := x_sent v @ [(pk_value (x_en v), x_type v, x_tagId v)]\<rparr>))"

interpretation step_export: form_check "step_export_check b" "\<lambda>x. step_export_rules (pk_value (x_en x))" b for b
  by unfold_locales (simp add: step_export_check_def guarded_def)

subsection \<open>The page as a state machine\<close>

text \<open>What a user does to the two choices. The entries of the list carry an id as the server writes
  it.\<close>

inductive export_step ::
  "(jstring \<Rightarrow> int) \<Rightarrow> (picker \<Rightarrow> picker) \<Rightarrow> catedata \<Rightarrow> 'a export_page_scheme \<Rightarrow> 'a export_page_scheme \<Rightarrow> bool"
  for sh posfix catedata where
  add: "canonical (an_data a) \<Longrightarrow> export_step sh posfix catedata x (pick_en sh posfix catedata a x)"
| add_out: "canonical (an_data a) \<Longrightarrow> export_step sh posfix catedata x (pick_out sh posfix catedata a x)"
| key: "export_step sh posfix catedata x (deleteCate_en sh posfix catedata k c x)"
| key_out: "export_step sh posfix catedata x (deleteCate_out sh posfix catedata k c x)"

inductive_cases export_stepE: "export_step sh posfix catedata x y"

definition fresh_picker :: "picker \<Rightarrow> bool" where
  "fresh_picker p \<longleftrightarrow> pk_sub p = [] \<and> pk_text p = [] \<and> pk_value p = []"

inductive export_reach ::
  "(jstring \<Rightarrow> int) \<Rightarrow> (picker \<Rightarrow> picker) \<Rightarrow> catedata \<Rightarrow> 'a export_page_scheme \<Rightarrow> bool"
  for sh posfix catedata where
  start: "fresh_picker (x_en x) \<Longrightarrow> fresh_picker (x_out x) \<Longrightarrow> x_sum x = Some 0 \<Longrightarrow> export_reach sh posfix catedata x"
| step: "export_reach sh posfix catedata x \<Longrightarrow> export_step sh posfix catedata x y \<Longrightarrow> export_reach sh posfix catedata y"

definition export_ok :: "catedata \<Rightarrow> 'a export_page_scheme \<Rightarrow> bool" where
  "export_ok catedata x \<longleftrightarrow>
     picker_sync (x_en x) \<and> rows_ok (pk_sub (x_en x)) \<and> picker_sync (x_out x) \<and> rows_ok (pk_sub (x_out x))
     \<and> x_sum x = reloadPersonSum catedata (pk_sub (x_en x)) (pk_sub (x_out x))
     \<and> (pk_sub (x_en x) \<noteq> [] \<longrightarrow> x_emailCount x = sum_text (x_sum x))"

lemma callReloadSum_ok:
  "picker_sync (x_en x) \<Longrightarrow> rows_ok (pk_sub (x_en x)) \<Longrightarrow> picker_sync (x_out x) \<Longrightarrow> rows_ok (pk_sub (x_out x))
     \<Longrightarrow> export_ok catedata (callReloadSum catedata x)"
  by (simp add: export_ok_def callReloadSum_def Let_def)

lemma delete_item_ok:
  assumes "layout_only posfix" and "rows_ok (pk_sub p)"
  shows "picker_sync (delete_item sh posfix c p)" and "rows_ok (pk_sub (delete_item sh posfix c p))"
  using assms addItemInput_sync [OF assms(1)]
  by (simp_all add: delete_item_def Let_def addItemInput_fields [OF assms(1)] rows_ok_removeArrItem)

lemma pickArr_ok:
  assumes "layout_only posfix" and "rows_ok (pk_sub p)" and "canonical (an_data a)"
  shows "picker_sync (pickArr sh posfix a p)" and "rows_ok (pk_sub (pickArr sh posfix a p))"
  using pickArr_keeps_sync [OF assms] by blast+

lemma export_step_ok:
  assumes "layout_only posfix" and "export_step sh posfix catedata x y" and "export_ok catedata x"
  shows "export_ok catedata y"
proof -
  have ok: "picker_sync (x_en x)" "rows_ok (pk_sub (x_en x))" "picker_sync (x_out x)" "rows_ok (pk_sub (x_out x))"
    using assms(3) by (simp_all add: export_ok_def)
  show ?thesis
    using assms(2)
  proof cases
    case (add a)
    with pickArr_ok [OF assms(1) ok(2)] ok show ?thesis
      by (simp add: pick_en_def callReloadSum_ok)
  next
    case (add_out a)
    with pickArr_ok [OF assms(1) ok(4)] ok show ?thesis
      by (simp add: pick_out_def callReloadSum_ok)
  next
    case (key k c)
    with delete_item_ok [OF assms(1) ok(2)] ok assms(3) show ?thesis
      by (simp add: deleteCate_en_def callReloadSum_ok)
  next
    case (key_out k c)
    with delete_item_ok [OF assms(1) ok(4)] ok assms(3) show ?thesis
      by (simp add: deleteCate_out_def callReloadSum_ok)
  qed
qed

lemma fold_same: "fold (\<lambda>_ s. s) xs s = s"
  by (induction xs) auto

lemma no_choice_no_sum: "reloadPersonSum catedata [] [] = Some 0"
proof -
  have p: "person_step [] [] = (\<lambda>_ s. s)" by (intro ext) (simp add: person_step_def Let_def)
  have "(\<lambda>(key :: jstring, obj) s. fold (person_step [] []) obj s) = (\<lambda>_ s. s)"
    by (auto simp: fun_eq_iff p fold_same)
  then show ?thesis by (simp add: reloadPersonSum_def fold_same)
qed

lemma export_reach_ok:
  assumes "layout_only posfix" and "export_reach sh posfix catedata x"
  shows "export_ok catedata x"
  using assms(2)
proof induction
  case (start x)
  then show ?case by (simp add: export_ok_def fresh_picker_def picker_sync_def no_choice_no_sum)
next
  case (step x y)
  then show ?case using export_step_ok [OF assms(1)] by blast
qed

text \<open>C8: The number shown is always that of the choice. However tags are chosen and deleted in the
  two fields, the number of recipients is the sum over the tags that are included and not excluded,
  the hidden fields hold the ids of the entries shown, and as soon as a tag is included the number
  sent with the form is the number shown.\<close>

theorem export_sum_in_sync:
  assumes "layout_only posfix" and "export_reach sh posfix catedata x"
    and "\<forall>t \<in> set (concat (map snd catedata)). canonical (tag_id t) \<and> count_num t = Some (cnt t)"
  shows "\<exists>n. n = (\<Sum>t \<leftarrow> concat (map snd catedata).
             if tag_key t \<in> ids_of (pk_sub (x_en x)) - ids_of (pk_sub (x_out x)) then cnt t else 0)
      \<and> x_sum x = Some n \<and> (pk_sub (x_en x) \<noteq> [] \<longrightarrow> x_emailCount x = int_to_str n)
      \<and> picker_sync (x_en x) \<and> picker_sync (x_out x)"
proof -
  have ok: "export_ok catedata x" using assms(1,2) by (rule export_reach_ok)
  with reloadPersonSum_eq [OF _ _ assms(3)] show ?thesis
    by (auto simp: export_ok_def sum_text_def)
qed

definition export0 :: export_page where
  "export0 = ui.extend page0 (export_page.fields
     \<lparr>pk_text = [], pk_value = [], pk_sub = [], pk_height = Some 28, pk_disabled = False\<rparr>
     \<lparr>pk_text = [], pk_value = [], pk_sub = [], pk_height = Some 28, pk_disabled = False\<rparr>
     (Some 0) [] [] [] (js ''1week'') (js ''1week'') [] [] [])"

definition tag_anchor :: "int \<Rightarrow> anchor" where
  "tag_anchor i = \<lparr>an_id = Some (int_to_str i), an_data = JInt i, an_text = [65], an_info = None, an_type = None, an_selected = False\<rparr>"

lemma export0_fields [simp]:
  "fresh_picker (x_en export0)" "fresh_picker (x_out export0)" "x_sum export0 = Some 0"
  by (simp_all add: export0_def page0_def ui.defs export_page.defs fresh_picker_def)

theorem export_sum_in_sync_witness:
  "x_emailCount (pick_en (\<lambda>s. 28) (\<lambda>p. p) [([97], [\<lparr>tag_id = JInt 1, tag_count = JInt 5\<rparr>])] (tag_anchor 1) export0) = [53]"
proof -
  let ?j = "[([97] :: jstring, [\<lparr>tag_id = JInt 1, tag_count = JInt 5\<rparr>])]"
  let ?x = "pick_en (\<lambda>s. 28) (\<lambda>p. p) ?j (tag_anchor 1) export0"
  have "export_reach (\<lambda>s. 28) (\<lambda>p. p) ?j ?x"
    by (rule export_reach.step [OF export_reach.start export_step.add]) (simp_all add: tag_anchor_def)
  from export_sum_in_sync [OF _ this, of "\<lambda>_. 5"]
  have "\<exists>n. n = (\<Sum>t \<leftarrow> concat (map snd ?j). if tag_key t \<in> ids_of (pk_sub (x_en ?x)) - ids_of (pk_sub (x_out ?x)) then 5 else 0)
      \<and> (pk_sub (x_en ?x) \<noteq> [] \<longrightarrow> x_emailCount ?x = int_to_str n)"
    by (auto simp: layout_only_def count_num_def to_str_def)
  moreover have "pk_sub (x_en ?x) = [[JInt 1, JStr [65]]]" "pk_sub (x_out ?x) = []"
    by (simp_all add: pick_en_def callReloadSum_def Let_def pickArr_sub [unfolded layout_only_def] tag_anchor_def
        filterArr_def export0_def ui.defs export_page.defs page0_def)
  moreover have "int_to_str 5 = [53]" by code_simp
  ultimately show ?thesis by (simp add: tag_key_def ids_of_def row_id_def cell_def)
qed

text \<open>A form leaves the page exactly when tags are included and, for an import into a tag, a tag is
  named and still marked in the open list. Otherwise one message says what is missing and nothing
  changes.\<close>

lemma exports_sent_iff:
  "x_sent (exports b n ty x) =
     (if pk_value (x_en x) \<noteq> [] \<and> (ty = js ''1'' \<longrightarrow> x_tagId x \<noteq> [] \<and> (shown x (js ''#popSearch'') \<longrightarrow> n \<ge> 1))
      then x_sent x @ [(pk_value (x_en x), ty, x_tagId x)] else x_sent x)"
proof -
  have more: "x_sent v = x_sent u" if "ui.more v = ui.more u" for u v :: "'a export_page_scheme"
    using that by (cases u; cases v) simp
  have l: "x_sent (loading b [] u) = x_sent u" for u :: "'a export_page_scheme" by (rule more) simp
  have f: "x_sent (fail_message b m u) = x_sent u" for m and u :: "'a export_page_scheme" by (rule more) simp
  show ?thesis by (auto simp: exports_def Let_def closeDialog_def l f)
qed

end
