(* ===== verification/Reports.thy ===== *)
theory Reports
  imports Forms
begin

text \<open>
  The comparison of a campaign's figures by week, month and quarter:
  \<open>static/js/report.detail.compare.js\<close> of the customers' site and its counterpart
  \<open>resources/script/campaign/campaign.stat.compare.js\<close> of the operators' site. The chart
  itself is drawn by Highcharts and not modelled.
\<close>

subsection \<open>The lists of months and quarters\<close>

definition month_entry :: "int \<Rightarrow> nat \<Rightarrow> jstring \<times> jstring" where
  "month_entry y k =
     (if k < 10 then int_to_str y @ js ''0'' @ nat_to_str k else int_to_str y @ nat_to_str k,
      int_to_str y @ [0x5E74] @ nat_to_str k @ [0x6708])"

definition season_entry :: "int \<Rightarrow> nat \<Rightarrow> jstring \<times> jstring" where
  "season_entry y k = (int_to_str y @ nat_to_str k, int_to_str y @ [0x5E74] @ nat_to_str k @ [0x5B63])"

text \<open>The two nested loops: \<open>unshift\<close> puts an entry in front, \<open>break\<close> leaves the inner loop at the
  period that is current.\<close>

fun period_loop ::
  "(int \<Rightarrow> nat \<Rightarrow> 'e) \<Rightarrow> int \<Rightarrow> nat \<Rightarrow> int \<Rightarrow> nat list \<Rightarrow> 'e list \<Rightarrow> 'e list" where
  "period_loop entry nowYear cur y [] arr = arr"
| "period_loop entry nowYear cur y (k # ks) arr =
     (let arr = entry y k # arr
      in if y = nowYear \<and> k = cur then arr else period_loop entry nowYear cur y ks arr)"

fun year_loop ::
  "(int \<Rightarrow> nat \<Rightarrow> 'e) \<Rightarrow> int \<Rightarrow> nat \<Rightarrow> nat list \<Rightarrow> int list \<Rightarrow> 'e list \<Rightarrow> 'e list" where
  "year_loop entry nowYear cur ks [] arr = arr"
| "year_loop entry nowYear cur ks (y # ys) arr =
     year_loop entry nowYear cur ks ys (period_loop entry nowYear cur y ks arr)"

definition currentSeason :: "nat \<Rightarrow> nat" where
  "currentSeason nowMonth =
     nat \<lfloor>if nowMonth mod 3 = 0 then of_nat nowMonth / 3 else of_nat nowMonth / 3 + (1 :: rat)\<rfloor>"

definition createDateArr ::
  "int \<Rightarrow> nat \<Rightarrow> (jstring \<times> jstring) list \<times> (jstring \<times> jstring) list
     \<Rightarrow> (jstring \<times> jstring) list \<times> (jstring \<times> jstring) list" where
  "createDateArr nowYear nowMonth arrs =
     (let dataYears = [nowYear - 2, nowYear - 1, nowYear]
      in (year_loop month_entry nowYear nowMonth [1,2,3,4,5,6,7,8,9,10,11,12] dataYears (fst arrs),
          year_loop season_entry nowYear (currentSeason nowMonth) [1,2,3,4] dataYears (snd arrs)))"

subsection \<open>Choosing what to compare\<close>

text \<open>The fields of the pop-up in their order, of which the first two have to be filled.\<close>

definition required_missing :: "jstring list \<Rightarrow> bool" where
  "required_missing vals \<longleftrightarrow> (case vals of [] \<Rightarrow> False | [x] \<Rightarrow> x = [] | x # y # _ \<Rightarrow> x = [] \<or> y = [])"

definition compare_click ::
  "browser \<Rightarrow> jstring \<Rightarrow> jstring \<Rightarrow> jstring \<Rightarrow> jstring list \<Rightarrow> 'a ui_scheme \<Rightarrow> 'a ui_scheme" where
  "compare_click b pad cid period vals u =
     (if required_missing vals then set_html (pad @ js '' .err'') [0x8BF7, 0x9009, 0x62E9, 0x5FC5, 0x586B, 0x9879] u
      else
        (let arr = filter (\<lambda>v. v \<noteq> []) vals
         in if isRepeat (map JStr arr) then set_html (pad @ js '' .err'') [0x8BF7, 0x53BB, 0x9664, 0x91CD, 0x590D, 0x9009, 0x62E9] u
            else closeDialog b (go_to (js ''compare?campaignId='' @ cid @ js ''&m='' @ period
                   @ js ''&checkeds='' @ join (js '','') arr) u)))"

definition postParam :: "browser \<Rightarrow> jstring \<Rightarrow> jstring \<Rightarrow> jstring \<Rightarrow> 'a ui_scheme \<Rightarrow> 'a ui_scheme" where
  "postParam b cid period num u =
     (if num = js ''otherMonth'' then openPop_box b (js ''#monthPad'') u
      else if num = js ''otherSeason'' then openPop_box b (js ''#seasonPad'') u
      else go_to (js ''/report/detail/campaign/compare?campaignId='' @ cid @ js ''&m='' @ period
             @ js ''&recents='' @ num) u)"

text \<open>\<open>num p\<close> is the value kept in the box of the period \<open>p\<close>.\<close>

definition period_box :: "jstring \<Rightarrow> 'a ui_scheme \<Rightarrow> 'a ui_scheme" where
  "period_box period u =
     show_el (js ''#'' @ period @ js ''Box'')
       (hide_el (js ''#seasonBox'') (hide_el (js ''#monthBox'') (hide_el (js ''#weekBox'') u)))"

definition swicthBox :: "browser \<Rightarrow> jstring \<Rightarrow> jstring \<Rightarrow> (jstring \<Rightarrow> jstring) \<Rightarrow> 'a ui_scheme \<Rightarrow> 'a ui_scheme" where
  "swicthBox b cid period num u = postParam b cid period (num period) (period_box period u)"

definition campaign_exports ::
  "browser \<Rightarrow> jstring \<Rightarrow> jstring \<Rightarrow> jstring \<Rightarrow> jstring list \<Rightarrow> jstring list \<Rightarrow> 'a ui_scheme \<Rightarrow> 'a ui_scheme" where
  "campaign_exports b cid m recents mth sth u =
     (if cid = [] then fail_message b [0x6CA1, 0x6709, 0x9700, 0x8981, 0x5BFC, 0x51FA, 0x7684, 0x5BF9, 0x6BD4, 0x62A5, 0x544A] u
      else
        (let arr = (if recents = js ''otherSeason'' then filter (\<lambda>v. v \<noteq> []) sth
                    else if recents = js ''otherMonth'' then filter (\<lambda>v. v \<noteq> []) mth else [])
         in go_to (js ''/report/export/campaign/compare?campaignId='' @ cid @ js ''&m='' @ m
              @ js ''&recents='' @ recents @ js ''&checkeds='' @ join (js '','') arr) u))"

text \<open>The operators' page: no test for repetitions, and the address comes from a field.\<close>

definition m_compare_click ::
  "browser \<Rightarrow> jstring \<Rightarrow> jstring \<Rightarrow> jstring \<Rightarrow> jstring list \<Rightarrow> 'a ui_scheme \<Rightarrow> 'a ui_scheme" where
  "m_compare_click b pad listUrl period vals u =
     (if required_missing vals then set_html (pad @ js '' .err'') [0x8BF7, 0x9009, 0x62E9, 0x5FC5, 0x586B, 0x9879] u
      else
        (let arr = filter (\<lambda>v. v \<noteq> []) vals
         in closeDialog b (go_to (listUrl @ js ''&extra=other&m='' @ period @ js ''&checkeds='' @ join (js '','') arr) u)))"

definition m_postParam :: "browser \<Rightarrow> jstring \<Rightarrow> jstring \<Rightarrow> jstring \<Rightarrow> 'a ui_scheme \<Rightarrow> 'a ui_scheme" where
  "m_postParam b listUrl period num u =
     (if num = js ''otherMonth'' then openPop_box b (js ''#monthPad'') u
      else if num = js ''otherSeason'' then openPop_box b (js ''#seasonPad'') u
      else go_to (listUrl @ js ''&m='' @ period @ js ''&recents='' @ num) u)"

definition exportCsv_href :: "jstring \<Rightarrow> jstring \<Rightarrow> jstring \<Rightarrow> jstring \<Rightarrow> jstring" where
  "exportCsv_href url checkeds period num =
     url @ js ''&extra='' @ (if checkeds \<noteq> [] then js ''other'' else js ''normal'') @ js ''&m='' @ period
       @ js ''&recents='' @ num @ js ''&checkeds='' @ checkeds"

subsection \<open>Lemmas\<close>

lemma currentSeason_eq: "currentSeason m = (m + 2) div 3"
proof -
  have "\<lfloor>of_nat m / (3 :: rat)\<rfloor> = int (m div 3)" by (simp add: floor_divide_of_nat_eq [of m 3, simplified])
  moreover have "nat (int (m div 3) + 1) = (m + 2) div 3" if "m mod 3 \<noteq> 0"
  proof -
    have "m div 3 + 1 = (m + 2) div 3" using that by presburger
    then show ?thesis by simp
  qed
  moreover have "m div 3 = (m + 2) div 3" if "m mod 3 = 0" using that by presburger
  ultimately show ?thesis by (simp add: currentSeason_def del: add_2_eq_Suc add_2_eq_Suc')
qed

lemma period_loop_past:
  "y \<noteq> nowYear \<Longrightarrow> period_loop entry nowYear cur y ks arr = rev (map (entry y) ks) @ arr"
  by (induction ks arbitrary: arr) (simp_all add: Let_def)

lemma period_loop_now:
  "cur \<notin> set ks \<Longrightarrow> period_loop entry y cur y (ks @ cur # rest) arr = entry y cur # rev (map (entry y) ks) @ arr"
  by (induction ks arbitrary: arr) (simp_all add: Let_def)

lemma upt_split: "1 \<le> k \<Longrightarrow> k \<le> n \<Longrightarrow> [1..<Suc n] = [1..<k] @ k # [Suc k..<Suc n]"
  using upt_add_eq_append [of 1 k "Suc n - k"] by (simp add: upt_conv_Cons del: upt_Suc)

lemma year_loop_closed:
  assumes "1 \<le> cur" and "cur \<le> n"
  shows "year_loop entry Y cur [1..<Suc n] [Y - 2, Y - 1, Y] arr
    = map (\<lambda>i. entry ((int n * Y + int cur - 1 - int i) div int n) (nat ((int n * Y + int cur - 1 - int i) mod int n) + 1))
        [0..<2 * n + cur] @ arr"
proof -
  let ?e = "\<lambda>i. entry ((int n * Y + int cur - 1 - int i) div int n) (nat ((int n * Y + int cur - 1 - int i) mod int n) + 1)"
  have n: "0 < int n" using assms by simp
  have at: "?e i = entry (Y - int j) (n - r)" if "i + n = cur + n * j + r" "r < n" for i j r
  proof -
    have "int n * Y + int cur - 1 - int i = (int n - 1 - int r) + int n * (Y - int j)"
    proof -
      have "int i + int n = int cur + int n * int j + int r" using that(1) by (simp flip: of_nat_add of_nat_mult)
      then show ?thesis by (simp add: algebra_simps)
    qed
    moreover have "0 \<le> int n - 1 - int r" "int n - 1 - int r < int n" using that(2) by auto
    ultimately have "(int n * Y + int cur - 1 - int i) div int n = Y - int j"
      "(int n * Y + int cur - 1 - int i) mod int n = int n - 1 - int r"
      using n by (simp_all only: div_mult_self2 mod_mult_self2 div_pos_pos_trivial mod_pos_pos_trivial)
    moreover have "nat (int n - 1 - int r) + 1 = n - r" using that(2) by simp
    ultimately show ?thesis by simp
  qed
  have block: "map ?e [cur + n * j..<cur + n * Suc j] = rev (map (entry (Y - int (Suc j))) [1..<Suc n])" for j
    by (rule nth_equalityI) (use at [of _ "Suc j"] in \<open>simp_all add: rev_nth algebra_simps Suc_diff_Suc del: upt_Suc\<close>)
  have first: "map ?e [0..<cur] = rev (map (entry Y) [1..<Suc cur])"
  proof (rule nth_equalityI)
    fix i assume "i < length (map ?e [0..<cur])"
    then have i: "i < cur" by simp
    have "?e i = entry (Y - int 0) (n - (n - cur + i))"
      by (rule at) (use i assms in auto)
    then show "map ?e [0..<cur] ! i = rev (map (entry Y) [1..<Suc cur]) ! i"
      using i assms by (simp add: rev_nth Suc_diff_Suc del: upt_Suc)
  qed (simp del: upt_Suc)
  have "[0..<2 * n + cur] = [0..<cur] @ [cur + n * 0..<cur + n * Suc 0] @ [cur + n * 1..<cur + n * Suc 1]"
    using upt_add_eq_append [of 0 cur "n + n"] upt_add_eq_append [of cur "cur + n" n] by (simp add: ac_simps mult_2 mult_2_right)
  then have "map ?e [0..<2 * n + cur] = rev (map (entry Y) [1..<Suc cur])
      @ rev (map (entry (Y - 1)) [1..<Suc n]) @ rev (map (entry (Y - 2)) [1..<Suc n])"
    using block [of 0] block [of 1] first by (simp del: upt_Suc)
  moreover have "period_loop entry Y cur Y [1..<Suc n] a = rev (map (entry Y) [1..<Suc cur]) @ a" for a
    using period_loop_now [of cur "[1..<cur]" entry Y "[Suc cur..<Suc n]" a] upt_split [OF assms] assms by simp
  ultimately show ?thesis by (simp add: period_loop_past del: upt_Suc)
qed

text \<open>C37: The lists to choose from are complete and in order. Whatever the date, the list of months
  starts with the current month and goes back month by month to the January two years before, and
  the list of quarters does the same from the current quarter; what was in the lists stays behind
  them.\<close>

theorem createDateArr_complete:
  assumes "1 \<le> m" and "m \<le> 12"
  shows "createDateArr Y m (ds, ss) =
    (map (\<lambda>i. month_entry ((12 * Y + int m - 1 - int i) div 12) (nat ((12 * Y + int m - 1 - int i) mod 12) + 1))
       [0..<24 + m] @ ds,
     map (\<lambda>i. season_entry ((4 * Y + int ((m + 2) div 3) - 1 - int i) div 4)
             (nat ((4 * Y + int ((m + 2) div 3) - 1 - int i) mod 4) + 1))
       [0..<8 + (m + 2) div 3] @ ss)"
proof -
  have m: "[1..<Suc 12] = [1,2,3,4,5,6,7,8,9,10,11,12]" and s: "[1..<Suc 4] = [1,2,3,4]" by (simp_all add: upt_rec)
  have "1 \<le> (m + 2) div 3" "(m + 2) div 3 \<le> 4" using assms by auto
  from year_loop_closed [OF this, of season_entry Y ss] year_loop_closed [OF assms, of month_entry Y ds]
  show ?thesis unfolding m s createDateArr_def Let_def currentSeason_eq by simp
qed

theorem createDateArr_complete_witness:
  "length (fst (createDateArr 2014 7 ([], []))) = 31 \<and> fst (createDateArr 2014 7 ([], [])) ! 7 = month_entry 2013 12"
  using createDateArr_complete [of 7 2014 "[]" "[]"] by simp

text \<open>The comparison of other months is asked for exactly when the two required fields are filled
  and no month is chosen twice; then the address has the months chosen, in order.\<close>

lemma compare_click_iff:
  assumes "\<forall>v \<in> set vals. v \<notin> set proto_keys"
  shows "navs (compare_click b pad cid period vals u) =
    (if \<not> required_missing vals \<and> distinct (filter (\<lambda>v. v \<noteq> []) vals)
     then navs u @ [js ''compare?campaignId='' @ cid @ js ''&m='' @ period @ js ''&checkeds='' @ join (js '','') (filter (\<lambda>v. v \<noteq> []) vals)]
     else navs u)"
proof -
  have "isRepeat (map JStr (filter (\<lambda>v. v \<noteq> []) vals)) \<longleftrightarrow> \<not> distinct (filter (\<lambda>v. v \<noteq> []) vals)"
    using assms by (subst isRepeat_detects_duplicates) (auto simp: to_str_def comp_def)
  then show ?thesis by (simp add: compare_click_def Let_def closeDialog_def go_to_def set_html_def)
qed

end
