(* ===== verification/Corp.thy ===== *)
theory Corp
  imports Master
begin

text \<open>
  The tree of institutions on the operators' site, \<open>resources/script/corp/corpList.js\<close>. The tree widget is
  zTree (\<open>common/zTree/js/jquery.ztree.all-3.5.js\<close>); modelled of it is what the page relies on:
  adding, removing, renaming and finding nodes. A node is known by its \<open>tId\<close>, which zTree
  counts up; \<open>children\<close> is \<open>None\<close> until a child is added and stays an (empty) array when the last
  child is removed.
\<close>

datatype corp = Corp (tId: nat) (corp_id: jsval) (corp_name: jstring) (children: "corp list option")

subsection \<open>The tree widget\<close>

definition kids :: "corp list option \<Rightarrow> corp list" where
  "kids ss = (case ss of None \<Rightarrow> [] | Some xs \<Rightarrow> xs)"

fun add_under :: "nat \<Rightarrow> corp \<Rightarrow> corp \<Rightarrow> corp" where
  "add_under t n (Corp i c m ss) =
     (if i = t then Corp i c m (Some (kids ss @ [n])) else Corp i c m (map_option (map (add_under t n)) ss))"

definition addNodes :: "nat option \<Rightarrow> corp \<Rightarrow> corp list \<Rightarrow> corp list" where
  "addNodes parent n nodes = (case parent of None \<Rightarrow> nodes @ [n] | Some t \<Rightarrow> map (add_under t n) nodes)"

fun remove_sub :: "nat \<Rightarrow> corp \<Rightarrow> corp list" where
  "remove_sub t (Corp i c m ss) =
     (if i = t then [] else [Corp i c m (map_option (\<lambda>xs. concat (map (remove_sub t) xs)) ss)])"

definition removeNode :: "nat \<Rightarrow> corp list \<Rightarrow> corp list" where
  "removeNode t nodes = concat (map (remove_sub t) nodes)"

fun set_name :: "nat \<Rightarrow> jstring \<Rightarrow> corp \<Rightarrow> corp" where
  "set_name t name (Corp i c m ss) = Corp i c (if i = t then name else m) (map_option (map (set_name t name)) ss)"

lemma kids_size [termination_simp]: "x \<in> set (kids ss) \<Longrightarrow> size x < Suc (size_option (size_list size) ss)"
  by (cases ss) (auto simp: kids_def dest: size_list_estimation' [of _ _ _ size, OF _ order_refl])

text \<open>The nodes in the order of the search, each with its level.\<close>

fun flat :: "nat \<Rightarrow> corp \<Rightarrow> (nat \<times> corp) list" where
  "flat l (Corp i c m ss) = (l, Corp i c m ss) # concat (map (flat (Suc l)) (kids ss))"

definition all_nodes :: "corp list \<Rightarrow> (nat \<times> corp) list" where
  "all_nodes nodes = concat (map (flat 0) nodes)"

definition node_of :: "nat \<Rightarrow> corp list \<Rightarrow> (nat \<times> corp) option" where
  "node_of t nodes = find (\<lambda>(l, x). tId x = t) (all_nodes nodes)"

definition getNodeByParam :: "jsval \<Rightarrow> corp list \<Rightarrow> (nat \<times> corp) option" where
  "getNodeByParam i nodes = find (\<lambda>(l, x). js_eq (corp_id x) i) (all_nodes nodes)"

subsection \<open>The page\<close>

record corp_page = ui +
  nodes :: "corp list"
  next_tId :: nat
  glb_fun :: "jstring option"
  glb_node :: "nat option"
  top_masks :: nat               \<comment> \<open>masks over the window around the page\<close>
  alerts :: "jstring list"
  corp_loads :: "(jstring \<times> (jstring \<times> jstring) list) list" \<comment> \<open>requests that fill \<open>#corpPad\<close>\<close>

definition getCorpHtml :: "browser \<Rightarrow> jstring \<Rightarrow> (jstring \<times> jstring) list \<Rightarrow> 'a corp_page_scheme \<Rightarrow> 'a corp_page_scheme" where
  "getCorpHtml b url data s =
     (hide_el (js ''#corpPad'') s)\<lparr>corp_loads := corp_loads s @ [(with_rnd b url, data)]\<rparr>"

definition say :: "jstring \<Rightarrow> 'a corp_page_scheme \<Rightarrow> 'a corp_page_scheme" where
  "say m s = s\<lparr>alerts := alerts s @ [m]\<rparr>"

text \<open>\<open>pId\<close> is the id of the node above, 0 for a node without one.\<close>

definition zTreeOnClick :: "browser \<Rightarrow> jstring \<Rightarrow> corp \<Rightarrow> 'a corp_page_scheme \<Rightarrow> 'a corp_page_scheme" where
  "zTreeOnClick b pId x s =
     getCorpHtml b (js ''/corp/corpView'') [(js ''pId'', pId), (js ''id'', to_str (corp_id x)), (js ''type'', js ''show'')] s"

definition beforeEditName :: "browser \<Rightarrow> bool \<Rightarrow> jstring \<Rightarrow> corp \<Rightarrow> 'a corp_page_scheme \<Rightarrow> 'a corp_page_scheme" where
  "beforeEditName b confirmed pId x s =
     (if \<not> confirmed then s
      else getCorpHtml b (js ''/corp/corpEdit'') [(js ''pId'', pId), (js ''id'', to_str (corp_id x)), (js ''type'', js ''update'')]
             (s\<lparr>glb_fun := Some (js ''update''), glb_node := Some (tId x)\<rparr>))"

text \<open>The button of a node for a new node under it; \<open>level\<close> is that of the node.\<close>

definition add_sub_click :: "browser \<Rightarrow> bool \<Rightarrow> nat \<Rightarrow> corp \<Rightarrow> 'a corp_page_scheme \<Rightarrow> 'a corp_page_scheme" where
  "add_sub_click b confirmed level x s =
     (if \<not> confirmed then s
      else if level \<ge> 5 then say [0x673A, 0x6784, 0x6700, 0x5927, 0x5C42, 0x7EA7, 0x4E3A, 0x36, 0x7EA7] s
      else getCorpHtml b (js ''/corp/createCorp'') [(js ''pId'', to_str (corp_id x)), (js ''type'', js ''add'')]
             (s\<lparr>glb_fun := Some (js ''addSub''), glb_node := Some (tId x)\<rparr>))"

definition addItem :: "browser \<Rightarrow> 'a corp_page_scheme \<Rightarrow> 'a corp_page_scheme" where
  "addItem b s =
     getCorpHtml b (js ''/corp/createCorp'') [(js ''pId'', js ''0''), (js ''type'', js ''add'')]
       (s\<lparr>glb_fun := Some (js ''addPrt'')\<rparr>)"

text \<open>\<open>crud\<close>: the synchronous request to delete; \<open>None\<close> when it fails. What it returns decides whether
  the tree removes the node.\<close>

definition crud :: "browser \<Rightarrow> reply option \<Rightarrow> 'a corp_page_scheme \<Rightarrow> bool \<times> 'a corp_page_scheme" where
  "crud b answer s =
     (let s = s\<lparr>top_masks := 0\<rparr>
      in case answer of
           None \<Rightarrow> (False, say [0x8BF7, 0x6C42, 0x5931, 0x8D25, 0xFF01] s)
         | Some d \<Rightarrow>
             (True, if accepted d then m_error_message b (message d) 0 0 0 [] (set_html (js ''#corpPad'') [] s)
                    else m_error_message b (message d) 1 0 0 [] s))"

definition default_corp :: jstring where
  "default_corp = [0x9ED8, 0x8BA4, 0x673A, 0x6784]"

definition beforeRemove ::
  "browser \<Rightarrow> bool \<Rightarrow> reply option \<Rightarrow> corp \<Rightarrow> 'a corp_page_scheme \<Rightarrow> bool \<times> 'a corp_page_scheme" where
  "beforeRemove b confirmed answer x s =
     (if \<not> confirmed then (False, s)
      else if children x \<noteq> None then (False, say [0x5F53, 0x524D, 0x673A, 0x6784, 0x4E0B, 0x6709, 0x5B50, 0x673A, 0x6784, 0x2C, 0x4E0D, 0x80FD, 0x5220, 0x9664, 0xFF01] s)
      else if corp_name x = default_corp then (False, say [0x4E0D, 0x80FD, 0x5220, 0x9664, 0x9ED8, 0x8BA4, 0x673A, 0x6784, 0xFF01] s)
      else if length (nodes s) \<le> 1 then (False, say [0x5FC5, 0x987B, 0x4FDD, 0x7559, 0x4E00, 0x4E2A, 0x673A, 0x6784] s)
      else crud b answer (s\<lparr>top_masks := Suc (top_masks s)\<rparr>))"

text \<open>The button of a node that deletes it, as zTree runs it.\<close>

definition remove_click ::
  "browser \<Rightarrow> bool \<Rightarrow> reply option \<Rightarrow> corp \<Rightarrow> 'a corp_page_scheme \<Rightarrow> 'a corp_page_scheme" where
  "remove_click b confirmed answer x s =
     (let (go, s) = beforeRemove b confirmed answer x s
      in if go then s\<lparr>nodes := removeNode (tId x) (nodes s)\<rparr> else s)"

subsection \<open>What happens after a form was saved\<close>

record corp_reply = reply +
  d_id :: jsval
  d_name :: jstring

text \<open>The new node is looked up by its id, selected and clicked. If it is not in the tree, its \<open>tId\<close> is
  asked of \<open>null\<close>: the exception stops the handler, \<open>False\<close>, with the page as it is then.\<close>

definition select_new ::
  "browser \<Rightarrow> (corp \<Rightarrow> jstring) \<Rightarrow> corp_reply \<Rightarrow> 'a corp_page_scheme \<Rightarrow> bool \<times> 'a corp_page_scheme" where
  "select_new b pId d s =
     (case getNodeByParam (d_id d) (nodes s) of None \<Rightarrow> (False, s) | Some (l, x) \<Rightarrow> (True, zTreeOnClick b (pId x) x s))"

definition new_node :: "nat option \<Rightarrow> corp_reply \<Rightarrow> 'a corp_page_scheme \<Rightarrow> 'a corp_page_scheme" where
  "new_node parent d s =
     s\<lparr>nodes := addNodes parent (Corp (next_tId s) (d_id d) (d_name d) None) (nodes s), next_tId := Suc (next_tId s)\<rparr>"

definition addPrt ::
  "browser \<Rightarrow> (corp \<Rightarrow> jstring) \<Rightarrow> corp_reply \<Rightarrow> 'a corp_page_scheme \<Rightarrow> bool \<times> 'a corp_page_scheme" where
  "addPrt b pId d s = select_new b pId d (new_node None d s)"

definition addSub ::
  "browser \<Rightarrow> (corp \<Rightarrow> jstring) \<Rightarrow> corp_reply \<Rightarrow> 'a corp_page_scheme \<Rightarrow> bool \<times> 'a corp_page_scheme" where
  "addSub b pId d s = select_new b pId d (new_node (glb_node s) d s)"

definition update_corp :: "corp_reply \<Rightarrow> 'a corp_page_scheme \<Rightarrow> bool \<times> 'a corp_page_scheme" where
  "update_corp d s =
     (True, case glb_node s of None \<Rightarrow> s | Some t \<Rightarrow> s\<lparr>nodes := map (set_name t (d_name d)) (nodes s)\<rparr>)"

text \<open>The form's answer: \<open>fnlist[glb.fun](data)\<close> and the message.\<close>

definition corp_saved ::
  "browser \<Rightarrow> (corp \<Rightarrow> jstring) \<Rightarrow> corp_reply \<Rightarrow> 'a corp_page_scheme \<Rightarrow> 'a corp_page_scheme" where
  "corp_saved b pId d s =
     (if \<not> accepted (reply.truncate d) then m_error_message b (message d) 1 0 0 [] s
      else
        (let (ok, s) = (if glb_fun s = Some (js ''addPrt'') then addPrt b pId d s
                        else if glb_fun s = Some (js ''addSub'') then addSub b pId d s
                        else if glb_fun s = Some (js ''update'') then update_corp d s
                        else (False, s))
         in if ok then m_error_message b (message d) 0 0 0 [] s else s))"

subsection \<open>Lemmas: nodes and levels\<close>

definition levels :: "corp list \<Rightarrow> (nat \<times> nat) list" where
  "levels ns = map (\<lambda>(l, x). (tId x, l)) (all_nodes ns)"

fun lev :: "nat \<Rightarrow> corp \<Rightarrow> (nat \<times> nat) list" where
  "lev l (Corp i c m ss) = (i, l) # concat (map (lev (Suc l)) (kids ss))"

lemma lev_flat: "map (\<lambda>(l, x). (tId x, l)) (flat l x) = lev l x"
proof (induction l x rule: flat.induct)
  case (1 l i c m ss)
  then show ?case by (simp add: map_concat cong: map_cong)
qed

lemma levels_lev: "levels ns = concat (map (lev 0) ns)"
  by (simp add: levels_def all_nodes_def map_concat lev_flat comp_def)

lemma kids_map [simp]: "kids (map_option (map f) ss) = map f (kids ss)" "kids None = []" "kids (Some xs) = xs"
  by (cases ss) (simp_all add: kids_def)

lemma kids_concat [simp]: "kids (map_option (\<lambda>xs. concat (map f xs)) ss) = concat (map f (kids ss))"
  by (cases ss) simp_all

lemma lev_set_name [simp]: "lev l (set_name t name x) = lev l x"
proof (induction x arbitrary: l rule: set_name.induct)
  case (1 t name i c m ss)
  have "lev k (set_name t name x) = lev k x" if "x \<in> set (kids ss)" for x k
    using that 1 by (cases ss) simp_all
  then show ?case by (simp add: comp_def cong: map_cong)
qed

text \<open>Adding a leaf adds one pair one level below its parent.\<close>

lemma set_lev_add:
  "set (lev l (add_under t (Corp i c m None) x)) \<subseteq> set (lev l x) \<union> {(i, Suc k) |k. (t, k) \<in> set (lev l x)}"
proof (induction x arbitrary: l rule: corp.induct)
  case (Corp j d n ss)
  have IH: "set (lev k (add_under t (Corp i c m None) x)) \<subseteq> set (lev k x) \<union> {(i, Suc k') |k'. (t, k') \<in> set (lev k x)}"
    if "x \<in> set (kids ss)" for x k
    using that Corp by (cases ss) auto
  show ?case
  proof (cases "j = t")
    case False
    then show ?thesis using IH by (fastforce)
  qed auto
qed

lemma set_lev_remove: "(\<Union>y \<in> set (remove_sub t x). set (lev l y)) \<subseteq> set (lev l x)"
proof (induction x arbitrary: l rule: corp.induct)
  case (Corp j d n ss)
  have IH: "(\<Union>y \<in> set (remove_sub t x). set (lev k y)) \<subseteq> set (lev k x)" if "x \<in> set (kids ss)" for x k
    using that Corp by (cases ss) auto
  have "(\<Union>x \<in> set (kids ss). \<Union>y \<in> set (remove_sub t x). set (lev (Suc l) y)) \<subseteq> (\<Union>x \<in> set (kids ss). set (lev (Suc l) x))"
    by (rule UN_mono [OF order_refl]) (rule IH)
  then show ?case by (cases "j = t") (simp_all add: subset_insertI2)
qed

lemma levels_addNodes:
  "set (levels (addNodes parent (Corp i c m None) ns)) \<subseteq>
     set (levels ns) \<union> (case parent of None \<Rightarrow> {(i, 0)} | Some t \<Rightarrow> {(i, Suc k) |k. (t, k) \<in> set (levels ns)})"
proof (cases parent)
  case (Some t)
  then show ?thesis using set_lev_add [of 0 t i c m] by (fastforce simp: addNodes_def levels_lev)
qed (auto simp: addNodes_def levels_lev)

lemma levels_removeNode: "set (levels (removeNode t ns)) \<subseteq> set (levels ns)"
  using set_lev_remove [where l = 0 and t = t] by (fastforce simp: removeNode_def levels_lev)

lemma levels_set_name: "levels (map (set_name t name) ns) = levels ns"
  by (simp add: levels_lev comp_def)

subsection \<open>Lemmas: the page\<close>

lemma corp_page_more: "ui.more v = ui.more u \<Longrightarrow>
    nodes v = nodes u \<and> next_tId v = next_tId u \<and> glb_fun v = glb_fun u \<and> glb_node v = glb_node u"
  for u v :: "'a corp_page_scheme"
  by (cases u; cases v) simp

definition same_tree :: "'a corp_page_scheme \<Rightarrow> 'a corp_page_scheme \<Rightarrow> bool" where
  "same_tree u v \<longleftrightarrow> nodes v = nodes u \<and> next_tId v = next_tId u \<and> glb_fun v = glb_fun u \<and> glb_node v = glb_node u"

lemma same_tree_simps [simp]:
  "same_tree s (m_error_message b m bg t d url u) = same_tree s u" "same_tree s (getCorpHtml b url ps u) = same_tree s u"
  "same_tree s (say m u) = same_tree s u" "same_tree s (zTreeOnClick b i x u) = same_tree s u"
  "same_tree s (set_html k h u) = same_tree s u" "same_tree s (u\<lparr>top_masks := n\<rparr>) = same_tree s u" "same_tree s s"
proof -
  have "ui.more (m_error_message b m bg t d url u) = ui.more u" by (rule m_error_message_fields)
  from corp_page_more [OF this] show "same_tree s (m_error_message b m bg t d url u) = same_tree s u"
    by (simp add: same_tree_def)
qed (simp_all add: same_tree_def getCorpHtml_def say_def zTreeOnClick_def hide_el_def set_html_def)

definition corp_ok :: "'a corp_page_scheme \<Rightarrow> bool" where
  "corp_ok s \<longleftrightarrow>
     single_valued (set (levels (nodes s))) \<and> (\<forall>(t, l) \<in> set (levels (nodes s)). t < next_tId s \<and> l \<le> 5)
     \<and> (glb_fun s = Some (js ''addSub'') \<longrightarrow>
          (\<exists>t. glb_node s = Some t \<and> t < next_tId s \<and> (\<forall>l. (t, l) \<in> set (levels (nodes s)) \<longrightarrow> l \<le> 4)))"

lemma corp_ok_same: "same_tree u v \<Longrightarrow> corp_ok u \<Longrightarrow> corp_ok v"
  by (simp add: corp_ok_def same_tree_def)

lemma corp_ok_subset:
  assumes "corp_ok s" and "set (levels ns) \<subseteq> set (levels (nodes s))"
  shows "corp_ok (s\<lparr>nodes := ns\<rparr>)"
  using assms by (auto simp: corp_ok_def intro: single_valued_subset)

lemma crud_tree: "same_tree s (snd (crud b answer u)) = same_tree s u"
  by (simp add: crud_def Let_def split: option.split)

lemma beforeRemove_tree: "same_tree s (snd (beforeRemove b c answer x s))"
  by (simp add: beforeRemove_def crud_tree)

lemma remove_click_nodes:
  "nodes (remove_click b c answer x s) =
     (if fst (beforeRemove b c answer x s) then removeNode (tId x) (nodes s) else nodes s)"
  using beforeRemove_tree [of s b c answer x] by (auto simp: remove_click_def same_tree_def split: prod.split)

lemma remove_click_ok: "corp_ok s \<Longrightarrow> corp_ok (remove_click b c answer x s)"
proof -
  assume s: "corp_ok s"
  obtain go v where v: "beforeRemove b c answer x s = (go, v)" by (cases "beforeRemove b c answer x s")
  have "corp_ok v" using corp_ok_same [OF beforeRemove_tree s, of b c answer x] v by simp
  then show ?thesis by (simp add: remove_click_def v corp_ok_subset levels_removeNode)
qed

lemma new_node_ok:
  assumes s: "corp_ok s" and p: "parent = None \<or> parent = glb_node s \<and> glb_fun s = Some (js ''addSub'')"
  shows "corp_ok (new_node parent d s)"
proof -
  let ?L = "set (levels (nodes s))"
  let ?N = "case parent of None \<Rightarrow> {(next_tId s, 0)} | Some t \<Rightarrow> {(next_tId s, Suc k) |k. (t, k) \<in> ?L}"
  have sub: "set (levels (nodes (new_node parent d s))) \<subseteq> ?L \<union> ?N"
    using levels_addNodes by (simp add: new_node_def)
  have L: "single_valued ?L" "\<And>t l. (t, l) \<in> ?L \<Longrightarrow> t < next_tId s \<and> l \<le> 5" using s by (auto simp: corp_ok_def)
  have N: "\<And>t l. (t, l) \<in> ?N \<Longrightarrow> t = next_tId s \<and> l \<le> 5"
    using p s by (fastforce simp: corp_ok_def split: option.splits)
  have "single_valued ?N" using L(1) by (cases parent) (auto simp: single_valued_def)
  then have sv: "single_valued (?L \<union> ?N)"
    using L N unfolding single_valued_def by (metis (no_types, lifting) Un_iff less_irrefl)
  let ?L' = "set (levels (nodes (new_node parent d s)))"
  have "\<forall>(t, l) \<in> ?L'. t < Suc (next_tId s) \<and> l \<le> 5"
  proof clarify
    fix t l assume "(t, l) \<in> ?L'"
    then have "(t, l) \<in> ?L \<union> ?N" using sub by blast
    then show "t < Suc (next_tId s) \<and> l \<le> 5" using L(2) [of t l] N [of t l] by auto
  qed
  moreover have "\<exists>t. glb_node s = Some t \<and> t < Suc (next_tId s) \<and> (\<forall>l. (t, l) \<in> ?L' \<longrightarrow> l \<le> 4)"
    if "glb_fun s = Some (js ''addSub'')"
  proof -
    from that s obtain t where t: "glb_node s = Some t" "t < next_tId s" "\<forall>l. (t, l) \<in> ?L \<longrightarrow> l \<le> 4"
      by (auto simp: corp_ok_def)
    have "l \<le> 4" if "(t, l) \<in> ?L'" for l
    proof -
      have "(t, l) \<in> ?L \<union> ?N" using that sub by blast
      with t N [of t l] show ?thesis by auto
    qed
    with t show ?thesis by auto
  qed
  moreover have "glb_fun (new_node parent d s) = glb_fun s" "glb_node (new_node parent d s) = glb_node s"
    "next_tId (new_node parent d s) = Suc (next_tId s)" by (simp_all add: new_node_def)
  ultimately show ?thesis using single_valued_subset [OF sub sv] unfolding corp_ok_def by simp
qed

inductive corp_step :: "browser \<Rightarrow> 'a corp_page_scheme \<Rightarrow> 'a corp_page_scheme \<Rightarrow> bool" for b where
  sub: "(l, x) \<in> set (all_nodes (nodes s)) \<Longrightarrow> corp_step b s (add_sub_click b c l x s)"
| edit: "(l, x) \<in> set (all_nodes (nodes s)) \<Longrightarrow> corp_step b s (beforeEditName b c i x s)"
| view: "(l, x) \<in> set (all_nodes (nodes s)) \<Longrightarrow> corp_step b s (zTreeOnClick b i x s)"
| remove: "(l, x) \<in> set (all_nodes (nodes s)) \<Longrightarrow> corp_step b s (remove_click b c answer x s)"
| item: "corp_step b s (addItem b s)"
| saved: "corp_step b s (corp_saved b pId d s)"

lemma node_level: "(l, x) \<in> set (all_nodes ns) \<Longrightarrow> (tId x, l) \<in> set (levels ns)"
  by (force simp: levels_def)

lemma corp_ok_glb:
  "corp_ok s \<Longrightarrow> f \<noteq> js ''addSub'' \<Longrightarrow> corp_ok (s\<lparr>glb_fun := Some f, glb_node := t\<rparr>)"
  "corp_ok s \<Longrightarrow> f \<noteq> js ''addSub'' \<Longrightarrow> corp_ok (s\<lparr>glb_fun := Some f\<rparr>)"
  by (simp_all add: corp_ok_def)

lemma corp_ok_getCorpHtml: "corp_ok (getCorpHtml b url ps s) = corp_ok s"
  using corp_ok_same [of s "getCorpHtml b url ps s"] corp_ok_same [of "getCorpHtml b url ps s" s]
  by (auto simp: same_tree_def getCorpHtml_def hide_el_def)

lemma add_sub_click_ok:
  assumes "corp_ok s" and "(l, x) \<in> set (all_nodes (nodes s))"
  shows "corp_ok (add_sub_click b c l x s)"
proof -
  have x: "(tId x, l) \<in> set (levels (nodes s))" using assms(2) by (rule node_level)
  have "corp_ok (s\<lparr>glb_fun := Some (js ''addSub''), glb_node := Some (tId x)\<rparr>)" if "l < 5"
  proof -
    have "k \<le> 4" if "(tId x, k) \<in> set (levels (nodes s))" for k
      using assms(1) x that \<open>l < 5\<close> by (auto simp: corp_ok_def dest: single_valuedD)
    with assms(1) x show ?thesis by (auto simp: corp_ok_def)
  qed
  moreover have "corp_ok (say m s)" for m using assms(1) by (rule corp_ok_same [rotated]) simp
  ultimately show ?thesis using assms(1) by (simp add: add_sub_click_def corp_ok_getCorpHtml)
qed

lemma select_new_ok: "corp_ok s \<Longrightarrow> corp_ok (snd (select_new b pId d s))"
  by (auto simp: select_new_def zTreeOnClick_def corp_ok_getCorpHtml split: option.split)

lemma update_corp_ok: "corp_ok s \<Longrightarrow> corp_ok (snd (update_corp d s))"
  by (auto simp: update_corp_def levels_set_name intro!: corp_ok_subset split: option.split)

lemma m_message_ok: "corp_ok s \<Longrightarrow> corp_ok (m_error_message b m bg t d url s)"
  by (erule corp_ok_same [rotated]) simp

lemma corp_saved_ok: "corp_ok s \<Longrightarrow> corp_ok (corp_saved b pId d s)"
proof -
  assume s: "corp_ok s"
  let ?r = "if glb_fun s = Some (js ''addPrt'') then addPrt b pId d s
      else if glb_fun s = Some (js ''addSub'') then addSub b pId d s
      else if glb_fun s = Some (js ''update'') then update_corp d s else (False, s)"
  have "corp_ok (snd ?r)"
    using s by (simp add: addPrt_def addSub_def select_new_ok new_node_ok update_corp_ok)
  then show ?thesis using s by (auto simp: corp_saved_def m_message_ok Let_def split: prod.split)
qed

lemma corp_step_ok: "corp_step b s s' \<Longrightarrow> corp_ok s \<Longrightarrow> corp_ok s'"
proof (induction rule: corp_step.induct)
  case (edit l x s c i)
  then show ?case by (simp add: beforeEditName_def corp_ok_getCorpHtml corp_ok_glb js_def)
next
  case (view l x s i)
  then show ?case by (simp add: zTreeOnClick_def corp_ok_getCorpHtml)
next
  case (item s)
  then show ?case by (simp add: addItem_def corp_ok_getCorpHtml corp_ok_glb js_def)
qed (simp_all add: add_sub_click_ok remove_click_ok corp_saved_ok)

text \<open>The tree keeps its shape, whatever is clicked, confirmed, saved, refused or deleted, in any order.\<close>

lemma corp_steps_ok: "(corp_step b)\<^sup>*\<^sup>* s s' \<Longrightarrow> corp_ok s \<Longrightarrow> corp_ok s'"
  by (induction rule: rtranclp_induct) (auto intro: corp_step_ok)

definition corp0 :: corp_page where
  "corp0 = ui.extend page0 (corp_page.fields [Corp 1 (JInt 1) (js ''a'') None, Corp 2 (JInt 2) (js ''b'') None] 3 None None 0 [] [])"

lemma corp0_fields [simp]:
  "nodes corp0 = [Corp 1 (JInt 1) (js ''a'') None, Corp 2 (JInt 2) (js ''b'') None]" "next_tId corp0 = 3" "glb_fun corp0 = None"
  by (simp_all add: corp0_def ui.defs corp_page.defs page0_def)

text \<open>C30: What the delete button of a node does. The node leaves the tree exactly when the user
  confirms, the node has never had nodes under it since the page was loaded, it is not the default
  institution, the tree has more than one institution at the top, and the server answers. The answer
  itself does not count: a node the server refuses to delete leaves the tree as well.\<close>

theorem corp_removed_iff:
  "nodes (remove_click b confirmed answer x s) =
     (if confirmed \<and> children x = None \<and> corp_name x \<noteq> default_corp \<and> length (nodes s) > 1 \<and> answer \<noteq> None
      then removeNode (tId x) (nodes s) else nodes s)"
proof -
  have "fst (crud b answer u) \<longleftrightarrow> answer \<noteq> None" for u :: "'a corp_page_scheme"
    by (simp add: crud_def Let_def split: option.split)
  then show ?thesis by (auto simp: remove_click_nodes beforeRemove_def)
qed

end
