(* ===== verification/ZTree.thy ===== *)
theory ZTree
  imports Corp
begin

text \<open>
  How the tree of institutions is loaded (\<open>$.fn.zTree.init\<close> in \<open>common/zTree/js/jquery.ztree.all-3.5.js\<close>,
  with \<open>simpleData\<close> enabled): the page has a list of institutions, each with its id and the id of the one
  above it. \<open>transformTozTreeFormat\<close> hangs every node under another one by writing into the objects,
  and \<open>appendNodes\<close> then walks over them and numbers them. The objects are the positions of the list;
  their \<open>children\<close> are a map from positions.
\<close>

subsection \<open>From the list to the objects\<close>

record snode =
  sn_id :: jsval
  sn_pId :: jsval
  sn_name :: jstring

text \<open>\<open>tmpMap\<close>: the keys are texts, a later node with the same id takes the place of an earlier one.
  (The ids are numbers of the data base, so that none is the name of a member of arrays.)\<close>

definition tmpMap :: "snode list \<Rightarrow> jstring \<rightharpoonup> nat" where
  "tmpMap ns = fold (\<lambda>i m. m(to_str (sn_id (ns ! i)) \<mapsto> i)) [0..<length ns] (\<lambda>k. None)"

type_synonym kid_map = "nat \<rightharpoonup> nat list"

definition format_step :: "snode list \<Rightarrow> nat \<Rightarrow> nat list \<times> kid_map \<Rightarrow> nat list \<times> kid_map" where
  "format_step ns i st =
     (case st of (r, kd) \<Rightarrow>
        (case tmpMap ns (to_str (sn_pId (ns ! i))) of
           Some j \<Rightarrow>
             if \<not> js_eq (sn_id (ns ! i)) (sn_pId (ns ! i))
             then (r, kd(j \<mapsto> (case kd j of None \<Rightarrow> [] | Some ks \<Rightarrow> ks) @ [i])) else (r @ [i], kd)
         | None \<Rightarrow> (r @ [i], kd)))"

definition transformTozTreeFormat :: "snode list \<Rightarrow> nat list \<times> kid_map" where
  "transformTozTreeFormat ns = fold (format_step ns) [0..<length ns] ([], \<lambda>i. None)"

subsection \<open>Numbering\<close>

text \<open>\<open>appendNodes\<close> with \<open>initNode\<close>: a node gets the next number before the nodes under it. The fuel is the
  number of levels it may go down.\<close>

fun appendNodes :: "snode list \<Rightarrow> kid_map \<Rightarrow> nat \<Rightarrow> nat \<Rightarrow> nat list \<Rightarrow> corp list \<times> nat" where
  "appendNodes ns kd f zId [] = ([], zId)"
| "appendNodes ns kd 0 zId (i # is) = ([], zId)"
| "appendNodes ns kd (Suc f) zId (i # is) =
     (let (cs, z) = appendNodes ns kd f (Suc zId) (case kd i of None \<Rightarrow> [] | Some ks \<Rightarrow> ks);
          (xs, z) = appendNodes ns kd (Suc f) z is
      in (Corp (Suc zId) (sn_id (ns ! i)) (sn_name (ns ! i)) (map_option (\<lambda>ks. cs) (kd i)) # xs, z))"

definition zTree_init :: "snode list \<Rightarrow> corp list \<times> nat" where
  "zTree_init ns = (let (r, kd) = transformTozTreeFormat ns in appendNodes ns kd (length ns) 0 r)"

subsection \<open>What a place in the tree is\<close>

text \<open>The node above: the last one with the id, unless the node names itself.\<close>

definition upper :: "snode list \<Rightarrow> nat \<Rightarrow> nat option" where
  "upper ns i =
     (if js_eq (sn_id (ns ! i)) (sn_pId (ns ! i)) then None
      else find (\<lambda>j. to_str (sn_id (ns ! j)) = to_str (sn_pId (ns ! i))) (rev [0..<length ns]))"

text \<open>The nodes from the top down to one, if the way up from it ends.\<close>

fun chain :: "snode list \<Rightarrow> nat \<Rightarrow> nat \<Rightarrow> nat list option" where
  "chain ns 0 i = None"
| "chain ns (Suc f) i = (case upper ns i of None \<Rightarrow> Some [i] | Some j \<Rightarrow> map_option (\<lambda>q. q @ [i]) (chain ns f j))"

text \<open>The places of a tree: the ids on the way to a node, and its name.\<close>

fun places :: "jsval list \<Rightarrow> corp \<Rightarrow> (jsval list \<times> jstring) list" where
  "places p (Corp t c m ss) = (p @ [c], m) # concat (map (places (p @ [c])) (kids ss))"

definition place_of :: "snode list \<Rightarrow> nat list \<Rightarrow> jsval list \<times> jstring" where
  "place_of ns q = (map (\<lambda>i. sn_id (ns ! i)) q, sn_name (ns ! last q))"

subsection \<open>The objects in closed form\<close>

lemma tmpMap_eq: "tmpMap ns k = find (\<lambda>j. to_str (sn_id (ns ! j)) = k) (rev [0..<length ns])"
proof -
  have "fold (\<lambda>i m. m(to_str (sn_id (ns ! i)) \<mapsto> i)) ks m k =
      (case find (\<lambda>j. to_str (sn_id (ns ! j)) = k) (rev ks) of None \<Rightarrow> m k | Some j \<Rightarrow> Some j)" for ks and m :: "jstring \<rightharpoonup> nat"
    by (induction ks rule: rev_induct) auto
  then show ?thesis by (simp add: tmpMap_def split: option.split)
qed

definition under :: "snode list \<Rightarrow> nat list \<Rightarrow> nat \<Rightarrow> nat list" where
  "under ns ks j = filter (\<lambda>i. upper ns i = Some j) ks"

lemma format_step_eq:
  "format_step ns i (r, kd) =
     (case upper ns i of None \<Rightarrow> (r @ [i], kd) | Some j \<Rightarrow> (r, kd(j \<mapsto> (case kd j of None \<Rightarrow> [] | Some ks \<Rightarrow> ks) @ [i])))"
  by (auto simp: format_step_def upper_def tmpMap_eq split: option.split)

lemma format_eq:
  "fold (format_step ns) ks ([], \<lambda>i. None) =
     (filter (\<lambda>i. upper ns i = None) ks, \<lambda>j. if under ns ks j = [] then None else Some (under ns ks j))"
proof (induction ks rule: rev_induct)
  case (snoc i ks)
  show ?case
    by (cases "upper ns i") (auto simp: snoc format_step_eq under_def)
qed (simp add: under_def)

lemma upper_less: "upper ns i = Some j \<Longrightarrow> j < length ns"
  by (auto simp: upper_def find_Some_iff rev_nth split: if_splits)

subsection \<open>Chains\<close>

fun linked :: "snode list \<Rightarrow> nat list \<Rightarrow> bool" where
  "linked ns [] = True"
| "linked ns [x] = (x < length ns)"
| "linked ns (x # y # q) = (x < length ns \<and> upper ns y = Some x \<and> linked ns (y # q))"

lemma linked_snoc: "q \<noteq> [] \<Longrightarrow> linked ns (q @ [i]) \<longleftrightarrow> linked ns q \<and> i < length ns \<and> upper ns i = Some (last q)"
proof (induction q)
  case (Cons x q)
  then show ?case by (cases q) auto
qed simp

lemma linked_bound: "linked ns q \<Longrightarrow> set q \<subseteq> {..<length ns}"
  by (induction ns q rule: linked.induct) auto

lemma linked_prefix: "linked ns (q @ q') \<Longrightarrow> linked ns q"
proof (induction ns q rule: linked.induct)
  case (2 ns x)
  then show ?case by (cases q') auto
qed auto

text \<open>A node has one chain from the top.\<close>

lemma linked_unique:
  "linked ns p \<Longrightarrow> linked ns q \<Longrightarrow> p \<noteq> [] \<Longrightarrow> q \<noteq> [] \<Longrightarrow> upper ns (hd p) = None \<Longrightarrow> upper ns (hd q) = None
     \<Longrightarrow> last p = last q \<Longrightarrow> p = q"
proof (induction p arbitrary: q rule: rev_induct)
  case (snoc i p)
  obtain q' j where q: "q = q' @ [j]" using snoc.prems(4) by (cases q rule: rev_cases) auto
  then have ij: "i = j" using snoc.prems(7) by simp
  show ?case
  proof (cases "p = [] \<or> q' = []")
    case True
    have "upper ns i = None" using True snoc.prems(5,6) q ij by auto
    then have "r = []" if "linked ns (r @ [i])" for r
      using that by (cases "r = []") (auto simp: linked_snoc)
    from this [of p] this [of q'] show ?thesis using snoc.prems(1,2) q ij by simp
  next
    case False
    with snoc.prems q ij have "linked ns p" "linked ns q'" "last p = last q'" by (auto simp: linked_snoc)
    moreover have "hd (p @ [i]) = hd p" "hd q = hd q'" using False q by auto
    ultimately have "p = q'" using snoc.IH [of q'] snoc.prems(5,6) False by auto
    then show ?thesis using q ij by simp
  qed
qed simp

lemma linked_distinct:
  assumes "linked ns q" "q \<noteq> []" "upper ns (hd q) = None"
  shows "distinct q"
proof -
  have "a = b" if "a < length q" "b < length q" "q ! a = q ! b" for a b
  proof -
    let ?p = "\<lambda>k. take (Suc k) q"
    have "linked ns (?p k)" "?p k \<noteq> []" "hd (?p k) = hd q" for k
      using assms linked_prefix [of ns "?p k" "drop (Suc k) q"] by (cases q; simp)+
    moreover have "last (?p k) = q ! k" if "k < length q" for k
      using that by (simp add: take_Suc_conv_app_nth)
    ultimately have "?p a = ?p b" using that assms(3) linked_unique [of ns "?p a" "?p b"] by simp
    then have "length (?p a) = length (?p b)" by simp
    then show "a = b" using that by simp
  qed
  then show ?thesis by (auto simp: distinct_conv_nth)
qed

lemma linked_length: "linked ns q \<Longrightarrow> q \<noteq> [] \<Longrightarrow> upper ns (hd q) = None \<Longrightarrow> length q \<le> length ns"
  using linked_distinct [of ns q] linked_bound [of ns q] card_mono [of "{..<length ns}" "set q"]
  by (simp add: distinct_card)

text \<open>The chain the definition finds, with enough fuel.\<close>

lemma chain_iff:
  "i < length ns \<Longrightarrow> chain ns f i = Some q \<longleftrightarrow>
     linked ns q \<and> q \<noteq> [] \<and> last q = i \<and> upper ns (hd q) = None \<and> length q \<le> f"
proof (induction f arbitrary: i q)
  case (Suc f)
  show ?case
  proof (cases "upper ns i")
    case None
    have "linked ns q \<and> q \<noteq> [] \<and> last q = i \<longrightarrow> q = [i]"
      using None by (cases q rule: rev_cases) (auto simp: linked_snoc, metis linked_snoc option.distinct(1))
    with None Suc.prems show ?thesis by auto
  next
    case (Some j)
    then have j: "j < length ns" by (rule upper_less)
    note IH = Suc.IH [OF j]
    show ?thesis
    proof
      assume "chain ns (Suc f) i = Some q"
      then obtain p where p: "chain ns f j = Some p" "q = p @ [i]" using Some by auto
      then show "linked ns q \<and> q \<noteq> [] \<and> last q = i \<and> upper ns (hd q) = None \<and> length q \<le> Suc f"
        using IH Some Suc.prems by (auto simp: linked_snoc)
    next
      assume q: "linked ns q \<and> q \<noteq> [] \<and> last q = i \<and> upper ns (hd q) = None \<and> length q \<le> Suc f"
      then obtain p where p: "q = p @ [i]" by (cases q rule: rev_cases) auto
      with q Some have "p \<noteq> []" by auto
      with p q Some have "linked ns p" "last p = j" "upper ns (hd p) = None" "length p \<le> f" by (auto simp: linked_snoc)
      with \<open>p \<noteq> []\<close> have "chain ns f j = Some p" by (simp add: IH)
      with p Some show "chain ns (Suc f) i = Some q" by simp
    qed
  qed
qed auto

subsection \<open>The walk\<close>

text \<open>The ways from the top that \<open>appendNodes\<close> takes.\<close>

fun walk :: "snode list \<Rightarrow> nat \<Rightarrow> nat list \<Rightarrow> nat list \<Rightarrow> nat list list" where
  "walk ns f p [] = []"
| "walk ns 0 p (i # is) = []"
| "walk ns (Suc f) p (i # is) =
     (p @ [i]) # walk ns f (p @ [i]) (under ns [0..<length ns] i) @ walk ns (Suc f) p is"

definition kid_map_of :: "snode list \<Rightarrow> kid_map" where
  "kid_map_of ns j = (if under ns [0..<length ns] j = [] then None else Some (under ns [0..<length ns] j))"

lemma kid_map_of_kids: "(case kid_map_of ns i of None \<Rightarrow> [] | Some ks \<Rightarrow> ks) = under ns [0..<length ns] i"
  by (simp add: kid_map_of_def)

lemma append_places:
  "concat (map (places (map (\<lambda>i. sn_id (ns ! i)) p)) (fst (appendNodes ns (kid_map_of ns) f z is))) = map (place_of ns) (walk ns f p is)"
proof (induction ns f p "is" arbitrary: z rule: walk.induct)
  case (3 ns f p i "is")
  let ?ks = "under ns [0..<length ns] i"
  obtain cs z1 where a: "appendNodes ns (kid_map_of ns) f (Suc z) ?ks = (cs, z1)" by fastforce
  obtain xs z2 where b: "appendNodes ns (kid_map_of ns) (Suc f) z1 is = (xs, z2)" by fastforce
  have "kids (map_option (\<lambda>ks. cs) (kid_map_of ns i)) = cs"
    using a by (cases "?ks = []") (auto simp: kid_map_of_def)
  moreover have "concat (map (places (map (\<lambda>i. sn_id (ns ! i)) (p @ [i]))) cs) = map (place_of ns) (walk ns f (p @ [i]) ?ks)"
    using "3.IH"(1) [of "Suc z"] a by simp
  moreover have "concat (map (places (map (\<lambda>i. sn_id (ns ! i)) p)) xs) = map (place_of ns) (walk ns (Suc f) p is)"
    using "3.IH"(2) [of z1] b by simp
  ultimately show ?case by (simp add: kid_map_of_kids a b place_of_def)
qed simp_all

lemma walk_set:
  "set is \<subseteq> {..<length ns} \<Longrightarrow> set (walk ns f p is) = {p @ q | q. q \<noteq> [] \<and> hd q \<in> set is \<and> length q \<le> f \<and> linked ns q}"
proof (induction ns f p "is" rule: walk.induct)
  case (3 ns f p i "is")
  let ?U = "under ns [0..<length ns] i"
  have u: "j \<in> set ?U \<longleftrightarrow> j < length ns \<and> upper ns j = Some i" for j
    by (auto simp: under_def)
  have i: "i < length ns" using "3.prems" by simp
  have "{p @ q | q. q \<noteq> [] \<and> hd q = i \<and> length q \<le> Suc f \<and> linked ns q} =
      insert (p @ [i]) {(p @ [i]) @ q | q. q \<noteq> [] \<and> hd q \<in> set ?U \<and> length q \<le> f \<and> linked ns q}"
    (is "?A = insert _ ?B")
  proof (intro set_eqI iffI)
    fix x assume "x \<in> ?A"
    then obtain r where r: "x = p @ i # r" "length r \<le> f" "linked ns (i # r)" by (auto simp: neq_Nil_conv)
    show "x \<in> insert (p @ [i]) ?B"
    proof (cases r)
      case (Cons y s)
      with r have "x = (p @ [i]) @ r \<and> r \<noteq> [] \<and> hd r \<in> set ?U \<and> length r \<le> f \<and> linked ns r"
        using linked_bound [of ns r] by (simp add: u)
      then show ?thesis by blast
    qed (use r in simp)
  next
    fix x assume "x \<in> insert (p @ [i]) ?B"
    then consider "x = p @ [i]" | y s where "x = p @ i # y # s" "y \<in> set ?U" "length s < f" "linked ns (y # s)"
      by (auto simp: neq_Nil_conv)
    then show "x \<in> ?A"
    proof cases
      case (2 y s)
      then have "x = p @ (i # y # s) \<and> length (i # y # s) \<le> Suc f \<and> linked ns (i # y # s)" using i by (simp add: u)
      then show ?thesis by force
    qed (use i in force)
  qed
  moreover have "{p @ q | q. q \<noteq> [] \<and> hd q \<in> set (i # is) \<and> length q \<le> Suc f \<and> linked ns q} =
      {p @ q | q. q \<noteq> [] \<and> hd q = i \<and> length q \<le> Suc f \<and> linked ns q}
      \<union> {p @ q | q. q \<noteq> [] \<and> hd q \<in> set is \<and> length q \<le> Suc f \<and> linked ns q}"
    by auto
  moreover have "set ?U \<subseteq> {..<length ns}" using u by auto
  ultimately show ?case using "3.IH" "3.prems" by simp
qed auto

lemma walk_starts: "set is \<subseteq> {..<length ns} \<Longrightarrow> x \<in> set (walk ns f p is) \<Longrightarrow> \<exists>j \<in> set is. \<exists>q. x = p @ j # q"
  by (auto simp: walk_set neq_Nil_conv)

lemma under_bound: "set (under ns [0..<length ns] i) \<subseteq> {..<length ns}"
  by (auto simp: under_def)

lemma walk_distinct: "distinct is \<Longrightarrow> set is \<subseteq> {..<length ns} \<Longrightarrow> distinct (walk ns f p is)"
proof (induction ns f p "is" rule: walk.induct)
  case (3 ns f p i "is")
  let ?U = "under ns [0..<length ns] i"
  have "distinct (walk ns f (p @ [i]) ?U)" using "3.IH"(1) under_bound by (simp add: under_def)
  moreover have "distinct (walk ns (Suc f) p is)" using "3.IH"(2) "3.prems" by simp
  moreover have "x \<noteq> y" if "x = p @ [i] \<or> x \<in> set (walk ns f (p @ [i]) ?U)" "y \<in> set (walk ns (Suc f) p is)" for x y
  proof -
    from that(1) obtain q where "x = p @ i # q" using walk_starts [OF under_bound, of x ns f "p @ [i]" i] by auto
    moreover from that(2) obtain j r where "y = p @ j # r" "j \<in> set is" using walk_starts [of "is" ns y "Suc f" p] "3.prems" by auto
    ultimately show ?thesis using "3.prems"(1) by auto
  qed
  moreover have "p @ [i] \<notin> set (walk ns f (p @ [i]) ?U)"
    using walk_starts [OF under_bound, of "p @ [i]" ns f "p @ [i]" i] by auto
  ultimately show ?case by auto
qed auto

text \<open>The ways taken are the chains.\<close>

abbreviation tops :: "snode list \<Rightarrow> nat list" where
  "tops ns \<equiv> filter (\<lambda>i. upper ns i = None) [0..<length ns]"

lemma transform_eq: "transformTozTreeFormat ns = (tops ns, kid_map_of ns)"
  by (simp add: transformTozTreeFormat_def format_eq kid_map_of_def [abs_def])

lemma walk_tops:
  "set (walk ns f [] (tops ns)) = {q. q \<noteq> [] \<and> upper ns (hd q) = None \<and> length q \<le> f \<and> linked ns q}"
proof -
  have R: "set (tops ns) \<subseteq> {..<length ns}" by auto
  show ?thesis using linked_bound by (force simp: walk_set [OF R] neq_Nil_conv)
qed

lemma chains_set:
  "set (List.map_filter (chain ns f) [0..<length ns]) = {q. q \<noteq> [] \<and> upper ns (hd q) = None \<and> length q \<le> f \<and> linked ns q}"
proof -
  have "last q < length ns" if "linked ns q" "q \<noteq> []" for q
    using linked_bound [OF that(1)] last_in_set [OF that(2)] by auto
  moreover have "set (List.map_filter (chain ns f) [0..<length ns]) = {q. \<exists>i < length ns. chain ns f i = Some q}"
    by (force simp: map_filter_def)
  moreover have "(\<exists>i < length ns. chain ns f i = Some q) \<longleftrightarrow> q \<noteq> [] \<and> upper ns (hd q) = None \<and> length q \<le> f \<and> linked ns q" for q
    using chain_iff [of _ ns f q] calculation(1) [of q] by blast
  ultimately show ?thesis by simp
qed

lemma chains_distinct: "distinct ks \<Longrightarrow> set ks \<subseteq> {..<length ns} \<Longrightarrow> distinct (List.map_filter (chain ns f) ks)"
proof (induction ks)
  case (Cons k ks)
  show ?case
  proof (cases "chain ns f k")
    case (Some q)
    have "q \<notin> set (List.map_filter (chain ns f) ks)"
    proof
      assume "q \<in> set (List.map_filter (chain ns f) ks)"
      then obtain i where "i \<in> set ks" "chain ns f i = Some q" by (auto simp: map_filter_def)
      moreover have "last q = k" using Some Cons.prems(2) by (simp add: chain_iff)
      ultimately show False using Cons.prems chain_iff [of i ns f q] by auto
    qed
    with Some Cons show ?thesis by (simp add: map_filter_simps)
  qed (use Cons in \<open>simp add: map_filter_simps\<close>)
qed (simp add: map_filter_simps)

lemma walk_chains:
  "mset (walk ns f [] (tops ns)) = mset (List.map_filter (chain ns f) [0..<length ns])"
proof -
  have "distinct (walk ns f [] (tops ns))" by (rule walk_distinct) auto
  moreover have "distinct (List.map_filter (chain ns f) [0..<length ns])" by (rule chains_distinct) auto
  ultimately show ?thesis by (simp add: set_eq_iff_mset_eq_distinct [symmetric] walk_tops chains_set)
qed

subsection \<open>Numbers and levels\<close>

lemma append_levels:
  "concat (map (lev (length p)) (fst (appendNodes ns (kid_map_of ns) f z is))) =
     zip [Suc z..<Suc (snd (appendNodes ns (kid_map_of ns) f z is))] (map (\<lambda>q. length q - 1) (walk ns f p is))
   \<and> snd (appendNodes ns (kid_map_of ns) f z is) = z + length (walk ns f p is)"
proof (induction ns f p "is" arbitrary: z rule: walk.induct)
  case (3 ns f p i "is")
  let ?ks = "under ns [0..<length ns] i"
  obtain cs z1 where a: "appendNodes ns (kid_map_of ns) f (Suc z) ?ks = (cs, z1)" by fastforce
  obtain xs z2 where b: "appendNodes ns (kid_map_of ns) (Suc f) z1 is = (xs, z2)" by fastforce
  let ?A = "walk ns f (p @ [i]) ?ks" and ?B = "walk ns (Suc f) p is"
  have k: "kids (map_option (\<lambda>ks. cs) (kid_map_of ns i)) = cs"
    using a by (cases "?ks = []") (auto simp: kid_map_of_def)
  have A: "concat (map (lev (Suc (length p))) cs) = zip [Suc (Suc z)..<Suc z1] (map (\<lambda>q. length q - 1) ?A)"
    and z1: "z1 = Suc z + length ?A"
    using "3.IH"(1) [of "Suc z"] a by (simp_all del: upt_Suc)
  have B: "concat (map (lev (length p)) xs) = zip [Suc z1..<Suc z2] (map (\<lambda>q. length q - 1) ?B)"
    and z2: "z2 = z1 + length ?B"
    using "3.IH"(2) [of z1] b by (simp_all del: upt_Suc)
  have e: "appendNodes ns (kid_map_of ns) (Suc f) z (i # is) =
      (Corp (Suc z) (sn_id (ns ! i)) (sn_name (ns ! i)) (map_option (\<lambda>ks. cs) (kid_map_of ns i)) # xs, z2)"
    by (simp add: kid_map_of_kids a b)
  have u: "[Suc z..<Suc z2] = Suc z # [Suc (Suc z)..<Suc z1] @ [Suc z1..<Suc z2]"
    using z1 z2 upt_add_eq_append [of "Suc (Suc z)" "Suc z1" "z2 - z1"] by (simp add: upt_conv_Cons del: upt_Suc)
  have l: "length [Suc (Suc z)..<Suc z1] = length (map (\<lambda>q. length q - 1) ?A)" using z1 by (simp del: upt_Suc)
  have "concat (map (lev (length p)) (Corp (Suc z) (sn_id (ns ! i)) (sn_name (ns ! i)) (map_option (\<lambda>ks. cs) (kid_map_of ns i)) # xs)) =
      zip [Suc z..<Suc z2] (map (\<lambda>q. length q - 1) (walk ns (Suc f) p (i # is)))"
    unfolding u using zip_append [OF l, of "[Suc z1..<Suc z2]" "map (\<lambda>q. length q - 1) ?B"] by (simp add: k A B del: upt_Suc)
  moreover have "z2 = z + length (walk ns (Suc f) p (i # is))" using z1 z2 by simp
  ultimately show ?case unfolding e by simp
qed simp_all

lemma loaded_levels:
  "levels (fst (zTree_init ns)) =
     zip [1..<Suc (snd (zTree_init ns))] (map (\<lambda>q. length q - 1) (walk ns (length ns) [] (tops ns)))"
  using append_levels [of "[]" ns "length ns" 0 "tops ns"]
  by (simp add: zTree_init_def transform_eq levels_lev del: upt_Suc)

text \<open>The page as it is loaded.\<close>

definition corp_loaded :: "snode list \<Rightarrow> 'a corp_page_scheme \<Rightarrow> bool" where
  "corp_loaded ns s \<longleftrightarrow> nodes s = fst (zTree_init ns) \<and> next_tId s = Suc (snd (zTree_init ns)) \<and> glb_fun s = None"

lemma corp_loaded_ok:
  assumes "corp_loaded ns s" and "\<forall>q \<in> set (List.map_filter (chain ns (length ns)) [0..<length ns]). length q \<le> 6"
  shows "corp_ok s"
proof -
  let ?w = "walk ns (length ns) [] (tops ns)"
  have w: "length q \<le> 6" if "q \<in> set ?w" for q using assms(2) that by (simp add: walk_tops chains_set)
  have L: "levels (nodes s) = zip [1..<next_tId s] (map (\<lambda>q. length q - 1) ?w)"
    using assms(1) by (simp add: corp_loaded_def loaded_levels)
  have "single_valued (set (levels (nodes s)))"
    unfolding L by (auto simp: single_valued_def in_set_zip nth_eq_iff_index_eq)
  moreover have "t < next_tId s \<and> l \<le> 5" if "(t, l) \<in> set (levels (nodes s))" for t l
    using that w unfolding L by (fastforce dest: set_zip_leftD set_zip_rightD)
  ultimately show ?thesis using assms(1) by (auto simp: corp_ok_def corp_loaded_def)
qed

text \<open>C11: The tree that is loaded from the list of institutions holds every institution whose chain of
  upper institutions ends exactly once, under its upper institution (the last one in the list with that
  id; at the top if there is none or it names itself), and nothing else: institutions in a circle are
  not shown.\<close>

theorem tree_loaded:
  "mset (concat (map (places []) (fst (zTree_init ns)))) =
     mset (map (place_of ns) (List.map_filter (chain ns (length ns)) [0..<length ns]))"
proof -
  have "concat (map (places []) (fst (zTree_init ns))) = map (place_of ns) (walk ns (length ns) [] (tops ns))"
    using append_places [of ns "[]" "length ns" 0 "tops ns"] by (simp add: zTree_init_def transform_eq)
  then show ?thesis using walk_chains [of ns "length ns"] by (simp add: mset_map)
qed


text \<open>Two institutions, the lower one first in the list.\<close>

definition list0 :: "snode list" where
  "list0 = [\<lparr>sn_id = JInt 2, sn_pId = JInt 1, sn_name = js ''b''\<rparr>, \<lparr>sn_id = JInt 1, sn_pId = JInt 0, sn_name = js ''a''\<rparr>]"

definition loaded0 :: corp_page where
  "loaded0 = corp0\<lparr>nodes := fst (zTree_init list0), next_tId := Suc (snd (zTree_init list0))\<rparr>"


end
