(* ===== verification/Validate.thy ===== *)
theory Validate
  imports Master
begin

text \<open>
  The validation of forms on the operators' site: the part of the bundled plugin
  \<open>resources/script/common/jquery.validate.js\<close> that the forms use (text fields, passwords and single
  selects; the rules below; no remote checks), with the placement of messages that every form of
  the site gives it: the text goes into the element \<open>ID_span\<close>, and a change of the field empties
  that element. The label the plugin makes is never put into the document, so the plugin finds
  none and places every message anew.

  Rules that come from the markup of a field (its class, its attributes, its data) are part of
  the field.
\<close>

subsection \<open>Rules and fields\<close>

datatype vmethod = Required | Email | Url | DateOf | Digits | Minlength | Maxlength | Rangelength | Min | EqualTo | Custom jstring

datatype vparam = Flag bool | Num int | Range int int | Target jstring

type_synonym vrules = "(vmethod \<times> vparam) list"

record v_field =
  v_name :: jstring
  v_id :: jstring
  v_select :: bool
  v_options :: nat      \<comment> \<open>selected options of a select\<close>
  v_raw :: jstring      \<comment> \<open>\<open>val()\<close>\<close>
  v_visible :: bool
  v_enabled :: bool
  v_title :: jstring
  v_markup :: vrules

definition v_active :: "v_field \<Rightarrow> bool" where
  "v_active e \<longleftrightarrow> v_visible e \<and> v_enabled e"

datatype vmessage = Whole jstring | Each "(vmethod \<times> jstring) list"

record v_settings =
  vs_rules :: "(jstring \<times> vrules) list"
  vs_messages :: "(jstring \<times> vmessage) list"
  vs_methods :: "jstring \<Rightarrow> jstring \<Rightarrow> bool"  \<comment> \<open>methods added with \<open>addMethod\<close>\<close>
  vs_method_msg :: "jstring \<Rightarrow> jstring"
  vs_date :: "jstring \<Rightarrow> bool"      \<comment> \<open>what \<open>new Date\<close> of the browser can read\<close>

text \<open>\<open>$.extend\<close> on objects: a key that is there keeps its place.\<close>

fun put_rule :: "'k \<Rightarrow> 'v \<Rightarrow> ('k \<times> 'v) list \<Rightarrow> ('k \<times> 'v) list" where
  "put_rule k v [] = [(k, v)]"
| "put_rule k v ((a, w) # rs) = (if a = k then (k, v) # rs else (a, w) # put_rule k v rs)"

definition extend_rules :: "('k \<times> 'v) list \<Rightarrow> ('k \<times> 'v) list \<Rightarrow> ('k \<times> 'v) list" where
  "extend_rules a b = fold (\<lambda>(k, v). put_rule k v) b a"

definition normalizeRules :: "vrules \<Rightarrow> vrules" where
  "normalizeRules rs = filter (\<lambda>r. snd r \<noteq> Flag False) rs"

definition required_first :: "vrules \<Rightarrow> vrules" where
  "required_first rs =
     (case map_of rs Required of None \<Rightarrow> rs | Some q \<Rightarrow> (Required, q) # filter (\<lambda>r. fst r \<noteq> Required) rs)"

definition staticRules :: "v_settings \<Rightarrow> v_field \<Rightarrow> vrules" where
  "staticRules S e = (case map_of (vs_rules S) (v_name e) of None \<Rightarrow> [] | Some rs \<Rightarrow> rs)"

definition rules_of :: "v_settings \<Rightarrow> v_field \<Rightarrow> vrules" where
  "rules_of S e = required_first (normalizeRules (extend_rules (v_markup e) (staticRules S e)))"

definition elementValue :: "v_field \<Rightarrow> jstring" where
  "elementValue e = filter (\<lambda>c. c \<noteq> 13) (v_raw e)"

subsection \<open>Patterns\<close>

definition is_u :: "nat \<Rightarrow> bool" where
  "is_u c \<longleftrightarrow> 0xA0 \<le> c \<and> c \<le> 0xD7FF \<or> 0xF900 \<le> c \<and> c \<le> 0xFDCF \<or> 0xFDF0 \<le> c \<and> c \<le> 0xFFEF"

definition is_alpha :: "nat \<Rightarrow> bool" where
  "is_alpha c \<longleftrightarrow> 97 \<le> lower c \<and> lower c \<le> 122"

definition atom_chr :: "nat \<Rightarrow> bool" where
  "atom_chr c \<longleftrightarrow> is_alpha c \<or> is_digit c \<or> c \<in> set (js ''!#$%&*+-/=?^_`{|}~'') \<or> c = 39 \<or> is_u c"

definition name_chr :: "nat \<Rightarrow> bool" where
  "name_chr c \<longleftrightarrow> is_alpha c \<or> is_digit c \<or> is_u c"

definition mid_chr :: "nat \<Rightarrow> bool" where
  "mid_chr c \<longleftrightarrow> is_alpha c \<or> is_digit c \<or> c \<in> set (js ''-._~'') \<or> is_u c"

definition top_chr :: "nat \<Rightarrow> bool" where
  "top_chr c \<longleftrightarrow> is_alpha c \<or> is_u c"

definition ends :: "(nat \<Rightarrow> bool) \<Rightarrow> re" where
  "ends P = Alt (Chr P) (Seq (Chr P) (Seq (Star (Chr mid_chr)) (Chr P)))"

definition blank_chr :: "nat \<Rightarrow> bool" where
  "blank_chr c \<longleftrightarrow> c = 32 \<or> c = 9"

definition re_fold :: re where
  "re_fold = Seq (opt (Seq (Star (Chr blank_chr)) (Seq (Chr (\<lambda>c. c = 13)) (Chr (\<lambda>c. c = 10))))) (plus (Chr blank_chr))"

definition quoted_chr :: "nat \<Rightarrow> bool" where
  "quoted_chr c \<longleftrightarrow> 1 \<le> c \<and> c \<le> 8 \<or> c = 11 \<or> c = 12 \<or> 14 \<le> c \<and> c \<le> 31 \<or> c = 127 \<or> c = 33
     \<or> 35 \<le> c \<and> c \<le> 91 \<or> 93 \<le> c \<and> c \<le> 126 \<or> is_u c"

definition escaped_chr :: "nat \<Rightarrow> bool" where
  "escaped_chr c \<longleftrightarrow> 1 \<le> c \<and> c \<le> 9 \<or> c = 11 \<or> c = 12 \<or> 13 \<le> c \<and> c \<le> 127 \<or> is_u c"

definition re_quoted :: re where
  "re_quoted = Seq (Chr (\<lambda>c. c = 34))
     (Seq (Star (Seq (opt re_fold) (Alt (Chr quoted_chr) (Seq (Chr (\<lambda>c. c = 92)) (Chr escaped_chr)))))
       (Seq (opt re_fold) (Chr (\<lambda>c. c = 34))))"

definition re_email :: re where
  "re_email = whole (Seq
     (Alt (Seq (plus (Chr atom_chr)) (Star (Seq (Chr (\<lambda>c. c = 46)) (plus (Chr atom_chr))))) re_quoted)
     (Seq (Chr (\<lambda>c. c = 64)) (Seq (plus (Seq (ends name_chr) (Chr (\<lambda>c. c = 46)))) (ends top_chr))))"

definition hex_chr :: "nat \<Rightarrow> bool" where
  "hex_chr c \<longleftrightarrow> is_digit c \<or> 97 \<le> lower c \<and> lower c \<le> 102"

definition re_escape :: re where
  "re_escape = Seq (Chr (\<lambda>c. c = 37)) (Seq (Chr hex_chr) (Chr hex_chr))"

definition sub_chr :: "nat \<Rightarrow> bool" where
  "sub_chr c \<longleftrightarrow> c \<in> set (js ''!$&()*+,;='') \<or> c = 39"

text \<open>A character of a path, with further ones.\<close>

definition path_chr :: "(nat \<Rightarrow> bool) \<Rightarrow> re" where
  "path_chr P = Alt (Chr (\<lambda>c. mid_chr c \<or> sub_chr c \<or> c = 58 \<or> P c)) re_escape"

definition re_byte :: re where
  "re_byte = Alt digit (Alt (Seq (Chr (\<lambda>c. 49 \<le> c \<and> c \<le> 57)) digit)
     (Alt (Seq (Chr (\<lambda>c. c = 49)) (Seq digit digit))
       (Alt (Seq (Chr (\<lambda>c. c = 50)) (Seq (Chr (\<lambda>c. 48 \<le> c \<and> c \<le> 52)) digit))
         (Seq (Chr (\<lambda>c. c = 50)) (Seq (Chr (\<lambda>c. c = 53)) (Chr (\<lambda>c. 48 \<le> c \<and> c \<le> 53)))))))"

definition re_host :: re where
  "re_host = Alt
     (Seq re_byte (Seq (Chr (\<lambda>c. c = 46)) (Seq re_byte (Seq (Chr (\<lambda>c. c = 46)) (Seq re_byte (Seq (Chr (\<lambda>c. c = 46)) re_byte))))))
     (Seq (plus (Seq (ends name_chr) (Chr (\<lambda>c. c = 46)))) (Seq (ends top_chr) (opt (Chr (\<lambda>c. c = 46)))))"

definition re_url :: re where
  "re_url = whole
     (Seq (Alt (Seq (lit_i (js ''http'')) (opt (lit_i (js ''s'')))) (Seq (opt (lit_i (js ''s''))) (lit_i (js ''ftp''))))
     (Seq (lit (js ''://''))
     (Seq (opt (Seq (Star (path_chr (\<lambda>c. False))) (Chr (\<lambda>c. c = 64))))
     (Seq re_host
     (Seq (opt (Seq (Chr (\<lambda>c. c = 58)) (Star digit)))
     (Seq (opt (Seq (Chr (\<lambda>c. c = 47)) (opt (Seq (plus (path_chr (\<lambda>c. c = 64)))
             (Star (Seq (Chr (\<lambda>c. c = 47)) (Star (path_chr (\<lambda>c. c = 64)))))))))
     (Seq (opt (Seq (Chr (\<lambda>c. c = 63)) (Star (Alt (path_chr (\<lambda>c. c = 64)) (Chr (\<lambda>c. 0xE000 \<le> c \<and> c \<le> 0xF8FF \<or> c = 47 \<or> c = 63))))))
       (opt (Seq (Chr (\<lambda>c. c = 35)) (Star (Alt (path_chr (\<lambda>c. c = 64)) (Chr (\<lambda>c. c = 47 \<or> c = 63)))))))))))))"

definition re_digits :: re where
  "re_digits = whole (plus digit)"

subsection \<open>Methods\<close>

datatype vresult = Mismatch | Fine | Bad

definition required_ok :: "v_field \<Rightarrow> bool" where
  "required_ok e = (if v_select e then v_raw e \<noteq> [] else trim (elementValue e) \<noteq> [])"

text \<open>\<open>this.optional(element) || test\<close>\<close>

definition optional_or :: "v_field \<Rightarrow> bool \<Rightarrow> vresult" where
  "optional_or e b = (if \<not> required_ok e then Mismatch else if b then Fine else Bad)"

definition getLength :: "v_field \<Rightarrow> int" where
  "getLength e = int (if v_select e then v_options e else length (trim (elementValue e)))"

definition num_ge :: "jnum \<Rightarrow> int \<Rightarrow> bool" where
  "num_ge x i = (case x of NaN \<Rightarrow> False | Infinite neg \<Rightarrow> \<not> neg | Fin r \<Rightarrow> r \<ge> of_int i)"

definition field_of :: "jstring \<Rightarrow> v_field list \<Rightarrow> v_field option" where
  "field_of sel es = find (\<lambda>e. js ''#'' @ v_id e = sel) es"

definition vcall :: "v_settings \<Rightarrow> v_field list \<Rightarrow> v_field \<Rightarrow> vmethod \<times> vparam \<Rightarrow> vresult" where
  "vcall S es e r =
     (let v = elementValue e
      in case r of
           (Required, q) \<Rightarrow> if q = Flag False then Mismatch else if required_ok e then Fine else Bad
         | (Email, q) \<Rightarrow> optional_or e (re_test re_email v)
         | (Url, q) \<Rightarrow> optional_or e (re_test re_url v)
         | (DateOf, q) \<Rightarrow> optional_or e (vs_date S v)
         | (Digits, q) \<Rightarrow> optional_or e (re_test re_digits v)
         | (Minlength, Num k) \<Rightarrow> optional_or e (getLength e \<ge> k)
         | (Maxlength, Num k) \<Rightarrow> optional_or e (getLength e \<le> k)
         | (Rangelength, Range a b) \<Rightarrow> optional_or e (a \<le> getLength e \<and> getLength e \<le> b)
         | (Min, Num k) \<Rightarrow> optional_or e (num_ge (to_number v) k)
         | (EqualTo, Target sel) \<Rightarrow> (case field_of sel es of None \<Rightarrow> Bad | Some t \<Rightarrow> if v = v_raw t then Fine else Bad)
         | (Custom m, q) \<Rightarrow> if vs_methods S m v then Fine else Bad
         | _ \<Rightarrow> Fine)"

subsection \<open>Checking a field\<close>

text \<open>The loop over the rules: the rule that fails, if one does.\<close>

fun vcheck :: "v_settings \<Rightarrow> v_field list \<Rightarrow> v_field \<Rightarrow> vrules \<Rightarrow> (vmethod \<times> vparam) option" where
  "vcheck S es e [] = None"
| "vcheck S es e (r # rs) =
     (case vcall S es e r of Mismatch \<Rightarrow> vcheck S es e rs | Fine \<Rightarrow> vcheck S es e rs | Bad \<Rightarrow> Some r)"

text \<open>The fields whose blur checks the field again: those an \<open>equalTo\<close> was called with.\<close>

fun vtargets :: "v_settings \<Rightarrow> v_field list \<Rightarrow> v_field \<Rightarrow> vrules \<Rightarrow> jstring list" where
  "vtargets S es e [] = []"
| "vtargets S es e (r # rs) =
     (case r of (EqualTo, Target sel) \<Rightarrow> [sel] | _ \<Rightarrow> [])
     @ (if vcall S es e r = Bad then [] else vtargets S es e rs)"

definition customMessage :: "v_settings \<Rightarrow> jstring \<Rightarrow> vmethod \<Rightarrow> jstring option" where
  "customMessage S name m =
     (case map_of (vs_messages S) name of
        None \<Rightarrow> None | Some (Whole t) \<Rightarrow> Some t | Some (Each ms) \<Rightarrow> map_of ms m)"

text \<open>The messages of the plugin, with their parameters filled in.\<close>

definition validator_message :: "v_settings \<Rightarrow> vmethod \<times> vparam \<Rightarrow> jstring" where
  "validator_message S r =
     (case r of
        (Required, q) \<Rightarrow> js ''This field is required.''
      | (Email, q) \<Rightarrow> js ''Please enter a valid email address.''
      | (Url, q) \<Rightarrow> js ''Please enter a valid URL.''
      | (DateOf, q) \<Rightarrow> js ''Please enter a valid date.''
      | (Digits, q) \<Rightarrow> js ''Please enter only digits.''
      | (EqualTo, q) \<Rightarrow> js ''Please enter the same value again.''
      | (Maxlength, Num k) \<Rightarrow> js ''Please enter no more than '' @ int_to_str k @ js '' characters.''
      | (Minlength, Num k) \<Rightarrow> js ''Please enter at least '' @ int_to_str k @ js '' characters.''
      | (Rangelength, Range a b) \<Rightarrow>
          js ''Please enter a value between '' @ int_to_str a @ js '' and '' @ int_to_str b @ js '' characters long.''
      | (Min, Num k) \<Rightarrow> js ''Please enter a value greater than or equal to '' @ int_to_str k @ js ''.''
      | (Custom m, q) \<Rightarrow> vs_method_msg S m
      | _ \<Rightarrow> [])"

definition defaultMessage :: "v_settings \<Rightarrow> v_field \<Rightarrow> vmethod \<times> vparam \<Rightarrow> jstring" where
  "defaultMessage S e r =
     (case customMessage S (v_name e) (fst r) of
        Some m \<Rightarrow> m | None \<Rightarrow> if v_title e \<noteq> [] then v_title e else validator_message S r)"

subsection \<open>The form on the page\<close>

text \<open>
  The validator's state beside the fields: the names that failed once (\<open>submitted\<close>), the last
  element checked and the last one focused, the handlers that \<open>equalTo\<close> binds (one for each target)
  and those the placement of a message binds, and the fields with the class \<open>error\<close>. Elements are
  given by their id. The rest is what the site's handlers work on: disabled buttons, requests,
  delayed scripts and alerts.
\<close>

record v_page = robot_page +
  v_fields :: "v_field list"
  v_submitted :: "jstring list"
  v_last_el :: "jstring option"
  v_last_active :: "jstring option"
  v_eq :: "(jstring \<times> jstring) list"
  v_clear :: "jstring list"
  v_error :: "jstring \<Rightarrow> bool"
  m_disabled :: "jstring \<Rightarrow> bool"
  m_extra :: "(jstring \<times> jstring) list"      \<comment> \<open>hidden fields and ticked buttons\<close>
  m_posts :: "(jstring \<times> (jstring \<times> jstring) list) list"
  m_later :: "(jstring \<times> int) list"
  m_alerts :: "jstring list"
  m_closed :: bool

definition v_page0 :: "v_field list \<Rightarrow> v_page" where
  "v_page0 fs = ui.extend page0 \<lparr>robots = [], mbox = [], v_fields = fs, v_submitted = [], v_last_el = None,
     v_last_active = None, v_eq = [], v_clear = [], v_error = (\<lambda>i. False), m_disabled = (\<lambda>i. False), m_extra = [],
     m_posts = [], m_later = [], m_alerts = [], m_closed = False\<rparr>"

lemma v_page0_sel [simp]:
  "v_fields (v_page0 fs) = fs" "html (v_page0 fs) = (\<lambda>k. [])" "v_clear (v_page0 fs) = []"
  "v_submitted (v_page0 fs) = []" "m_posts (v_page0 fs) = []" "m_extra (v_page0 fs) = []"
  "m_alerts (v_page0 fs) = []" "m_disabled (v_page0 fs) = (\<lambda>i. False)" "robots (v_page0 fs) = []"
  by (simp_all add: v_page0_def page0_def ui.defs)

definition span_of :: "v_field \<Rightarrow> jstring" where
  "span_of e = js ''#'' @ v_id e @ js ''_span''"

definition by_id :: "jstring \<Rightarrow> v_field list \<Rightarrow> v_field option" where
  "by_id i es = find (\<lambda>e. v_id e = i) es"

text \<open>The first active element of each name that has rules.\<close>

fun v_elements :: "v_settings \<Rightarrow> jstring list \<Rightarrow> v_field list \<Rightarrow> v_field list" where
  "v_elements S cache [] = []"
| "v_elements S cache (e # es) =
     (if \<not> v_active e \<or> v_name e \<in> set cache \<or> rules_of S e = [] then v_elements S cache es
      else e # v_elements S (v_name e # cache) es)"

definition bind_equal :: "jstring \<Rightarrow> jstring \<Rightarrow> (jstring \<times> jstring) list \<Rightarrow> (jstring \<times> jstring) list" where
  "bind_equal i sel bs = filter (\<lambda>q. fst q \<noteq> sel) bs @ [(sel, i)]"

text \<open>\<open>check\<close> with \<open>formatAndAdd\<close>: the message, if a rule fails.\<close>

definition v_message :: "v_settings \<Rightarrow> v_field list \<Rightarrow> v_field \<Rightarrow> jstring option" where
  "v_message S es e = map_option (defaultMessage S e) (vcheck S es e (rules_of S e))"

definition v_check :: "v_settings \<Rightarrow> v_field \<Rightarrow> 'a v_page_scheme \<Rightarrow> (v_field \<times> jstring) list \<times> 'a v_page_scheme" where
  "v_check S e s =
     (let s = s\<lparr>v_eq := fold (bind_equal (v_id e)) (vtargets S (v_fields s) e (rules_of S e)) (v_eq s)\<rparr>
      in case v_message S (v_fields s) e of
           None \<Rightarrow> ([], s)
         | Some m \<Rightarrow> ([(e, m)], s\<lparr>v_submitted := List.insert (v_name e) (v_submitted s)\<rparr>))"

fun checkForm :: "v_settings \<Rightarrow> v_field list \<Rightarrow> 'a v_page_scheme \<Rightarrow> (v_field \<times> jstring) list \<times> 'a v_page_scheme" where
  "checkForm S [] s = ([], s)"
| "checkForm S (e # es) s =
     (let (a, s) = v_check S e s; (b, s) = checkForm S es s in (a @ b, s))"

text \<open>The placement of a message, and the handler of changes it binds.\<close>

definition errorPlacement :: "v_field \<Rightarrow> jstring \<Rightarrow> 'a v_page_scheme \<Rightarrow> 'a v_page_scheme" where
  "errorPlacement e m s =
     (let s = set_html (span_of e) (js ''<font color='' @ [39] @ js ''red'' @ [39] @ js ''>'' @ m @ js ''</font>'') s
      in s\<lparr>v_clear := List.insert (v_id e) (v_clear s)\<rparr>)"

definition highlight :: "bool \<Rightarrow> v_field \<Rightarrow> 'a v_page_scheme \<Rightarrow> 'a v_page_scheme" where
  "highlight b e s = s\<lparr>v_error := (v_error s)(v_id e := b)\<rparr>"

definition defaultShowErrors ::
  "v_field list \<Rightarrow> (v_field \<times> jstring) list \<Rightarrow> 'a v_page_scheme \<Rightarrow> 'a v_page_scheme" where
  "defaultShowErrors es errs s =
     (let s = fold (\<lambda>(e, m) s. errorPlacement e m (highlight True e s)) errs s
      in fold (highlight False) (filter (\<lambda>e. e \<notin> fst ` set errs) es) s)"

definition v_form :: "v_settings \<Rightarrow> 'a v_page_scheme \<Rightarrow> (v_field \<times> jstring) list \<times> 'a v_page_scheme" where
  "v_form S s =
     (let es = v_elements S [] (v_fields s);
          (errs, s) = checkForm S es s
      in (errs, defaultShowErrors es errs s))"

definition v_element :: "v_settings \<Rightarrow> v_field \<Rightarrow> 'a v_page_scheme \<Rightarrow> 'a v_page_scheme" where
  "v_element S e s =
     (let (errs, s) = v_check S e (s\<lparr>v_last_el := Some (v_id e)\<rparr>) in defaultShowErrors [e] errs s)"

definition findLastActive :: "(v_field \<times> jstring) list \<Rightarrow> 'a v_page_scheme \<Rightarrow> v_field option" where
  "findLastActive errs s =
     (case v_last_active s of
        None \<Rightarrow> None
      | Some i \<Rightarrow>
          (case by_id i (v_fields s) of
             None \<Rightarrow> None
           | Some e \<Rightarrow> if length (filter (\<lambda>n. v_name (fst n) = v_name e) errs) = 1 then Some e else None))"

definition focusInvalid :: "(v_field \<times> jstring) list \<Rightarrow> 'a v_page_scheme \<Rightarrow> 'a v_page_scheme" where
  "focusInvalid errs s =
     (case (case findLastActive errs s of
              Some e \<Rightarrow> Some e | None \<Rightarrow> (case errs of [] \<Rightarrow> None | n # ns \<Rightarrow> Some (fst n))) of
        None \<Rightarrow> s
      | Some e \<Rightarrow> if v_active e then (focus_el (js ''#'' @ v_id e) s)\<lparr>v_last_active := Some (v_id e)\<rparr> else s)"

definition v_submit ::
  "v_settings \<Rightarrow> ('a v_page_scheme \<Rightarrow> 'a v_page_scheme) \<Rightarrow> 'a v_page_scheme \<Rightarrow> 'a v_page_scheme" where
  "v_submit S submitHandler s =
     (let (errs, s) = v_form S s in if errs = [] then submitHandler s else focusInvalid errs s)"

definition serializeArray :: "'a v_page_scheme \<Rightarrow> (jstring \<times> jstring) list" where
  "serializeArray s = map (\<lambda>e. (v_name e, v_raw e)) (filter v_enabled (v_fields s))
     @ map (\<lambda>r. (js ''robots'', snd r)) (robots s) @ m_extra s"

text \<open>What the user does with a field.\<close>

datatype v_input =
    Type jstring jstring
  | FocusIn jstring
  | FocusOut jstring
  | Blur jstring
  | KeyUp jstring nat
  | Click jstring      \<comment> \<open>of a select\<close>
  | Change jstring
  | Submit      \<comment> \<open>without what a handler does with an accepted form\<close>

definition set_value :: "jstring \<Rightarrow> jstring \<Rightarrow> 'a v_page_scheme \<Rightarrow> 'a v_page_scheme" where
  "set_value i v s = s\<lparr>v_fields := map (\<lambda>e. if v_id e = i then e\<lparr>v_raw := v\<rparr> else e) (v_fields s)\<rparr>"

definition onfocusout :: "v_settings \<Rightarrow> v_field \<Rightarrow> 'a v_page_scheme \<Rightarrow> 'a v_page_scheme" where
  "onfocusout S e s = (if v_name e \<in> set (v_submitted s) \<or> required_ok e then v_element S e s else s)"

definition onkeyup :: "v_settings \<Rightarrow> v_field \<Rightarrow> nat \<Rightarrow> 'a v_page_scheme \<Rightarrow> 'a v_page_scheme" where
  "onkeyup S e which s =
     (if which = 9 \<and> elementValue e = [] then s
      else if v_name e \<in> set (v_submitted s) \<or> v_last_el s = Some (v_id e) then v_element S e s
      else s)"

definition onclick :: "v_settings \<Rightarrow> v_field \<Rightarrow> 'a v_page_scheme \<Rightarrow> 'a v_page_scheme" where
  "onclick S e s = (if v_name e \<in> set (v_submitted s) then v_element S e s else s)"

definition onblur_equalTo :: "v_settings \<Rightarrow> v_field \<Rightarrow> 'a v_page_scheme \<Rightarrow> 'a v_page_scheme" where
  "onblur_equalTo S e s =
     (case map_of (v_eq s) (js ''#'' @ v_id e) of
        None \<Rightarrow> s
      | Some i \<Rightarrow> (case by_id i (v_fields s) of None \<Rightarrow> s | Some c \<Rightarrow> v_element S c s))"

definition onchange :: "v_field \<Rightarrow> 'a v_page_scheme \<Rightarrow> 'a v_page_scheme" where
  "onchange e s = (if v_id e \<in> set (v_clear s) then set_html (span_of e) [] s else s)"

definition v_event :: "v_settings \<Rightarrow> v_input \<Rightarrow> 'a v_page_scheme \<Rightarrow> 'a v_page_scheme" where
  "v_event S ev s =
     (let on = (\<lambda>i f. case by_id i (v_fields s) of None \<Rightarrow> s | Some e \<Rightarrow> f e s)
      in case ev of
           Type i v \<Rightarrow> set_value i v s
         | FocusIn i \<Rightarrow> on i (\<lambda>e s. s\<lparr>v_last_active := Some i\<rparr>)
         | FocusOut i \<Rightarrow> on i (onfocusout S)
         | Blur i \<Rightarrow> on i (onblur_equalTo S)
         | KeyUp i which \<Rightarrow> on i (\<lambda>e. onkeyup S e which)
         | Click i \<Rightarrow> on i (onclick S)
         | Change i \<Rightarrow> on i onchange
         | Submit \<Rightarrow> v_submit S id s)"

subsection \<open>Lemmas\<close>

lemma vcall_Bad [simp]:
  "vcall S es e (Required, Flag True) = Bad \<longleftrightarrow> \<not> required_ok e"
  "vcall S es e (Email, Flag b) = Bad \<longleftrightarrow> required_ok e \<and> \<not> re_test re_email (elementValue e)"
  "vcall S es e (Url, Flag b) = Bad \<longleftrightarrow> required_ok e \<and> \<not> re_test re_url (elementValue e)"
  "vcall S es e (DateOf, Flag b) = Bad \<longleftrightarrow> required_ok e \<and> \<not> vs_date S (elementValue e)"
  "vcall S es e (Digits, Flag b) = Bad \<longleftrightarrow> required_ok e \<and> \<not> re_test re_digits (elementValue e)"
  "vcall S es e (Minlength, Num k) = Bad \<longleftrightarrow> required_ok e \<and> getLength e < k"
  "vcall S es e (Maxlength, Num k) = Bad \<longleftrightarrow> required_ok e \<and> getLength e > k"
  "vcall S es e (Rangelength, Range i k) = Bad \<longleftrightarrow> required_ok e \<and> \<not> (i \<le> getLength e \<and> getLength e \<le> k)"
  "vcall S es e (Min, Num k) = Bad \<longleftrightarrow> required_ok e \<and> \<not> num_ge (to_number (elementValue e)) k"
  "vcall S es e (EqualTo, Target sel) = Bad \<longleftrightarrow> map_option v_raw (field_of sel es) \<noteq> Some (elementValue e)"
  "vcall S es e (Custom m, q) = Bad \<longleftrightarrow> \<not> vs_methods S m (elementValue e)"
  by (auto simp: vcall_def optional_or_def Let_def split: option.splits)

lemma vcheck_None_iff: "vcheck S es e rs = None \<longleftrightarrow> list_all (\<lambda>r. vcall S es e r \<noteq> Bad) rs"
  by (induction rs) (auto split: vresult.splits)

lemma vcheck_SomeD:
  "vcheck S es e rs = Some r \<Longrightarrow>
     \<exists>a b. rs = a @ r # b \<and> vcall S es e r = Bad \<and> list_all (\<lambda>q. vcall S es e q \<noteq> Bad) a"
proof (induction rs)
  case (Cons q rs)
  show ?case
  proof (cases "vcall S es e q = Bad")
    case True
    with Cons.prems show ?thesis by (intro exI [of _ "[]"] exI [of _ rs]) simp
  next
    case False
    with Cons obtain a b where "rs = a @ r # b" "vcall S es e r = Bad" "list_all (\<lambda>q. vcall S es e q \<noteq> Bad) a"
      by (auto split: vresult.splits)
    with False show ?thesis by (intro exI [of _ "q # a"] exI [of _ b]) simp
  qed
qed simp

text \<open>What checking finds, without its effects.\<close>

definition v_errors :: "v_settings \<Rightarrow> v_field list \<Rightarrow> v_field list \<Rightarrow> (v_field \<times> jstring) list" where
  "v_errors S fs es = concat (map (\<lambda>e. case v_message S fs e of None \<Rightarrow> [] | Some m \<Rightarrow> [(e, m)]) es)"

lemma v_errors_simps [simp]:
  "v_errors S fs [] = []"
  "v_errors S fs (e # es) = (case v_message S fs e of None \<Rightarrow> [] | Some m \<Rightarrow> [(e, m)]) @ v_errors S fs es"
  by (simp_all add: v_errors_def)

lemma set_v_errors: "(e, m) \<in> set (v_errors S fs es) \<longleftrightarrow> e \<in> set es \<and> v_message S fs e = Some m"
  by (induction es) (auto split: option.splits)

lemma v_errors_Nil: "v_errors S fs es = [] \<longleftrightarrow> list_all (\<lambda>e. v_message S fs e = None) es"
  by (induction es) (auto split: option.splits)

lemma v_errors_map_fst: "set (map fst (v_errors S fs es)) \<subseteq> set es"
  using set_v_errors by fastforce

lemma v_message_None:
  "v_message S fs e = None \<longleftrightarrow> list_all (\<lambda>r. vcall S fs e r \<noteq> Bad) (rules_of S e)"
  by (simp add: v_message_def vcheck_None_iff)

lemma v_check_fields [simp]:
  "v_fields (snd (v_check S e s)) = v_fields s" "html (snd (v_check S e s)) = html s"
  "v_clear (snd (v_check S e s)) = v_clear s" "v_error (snd (v_check S e s)) = v_error s"
  "set (v_submitted (snd (v_check S e s))) =
     (if v_message S (v_fields s) e = None then set (v_submitted s) else insert (v_name e) (set (v_submitted s)))"
  "fst (v_check S e s) = v_errors S (v_fields s) [e]"
  by (simp_all add: v_check_def Let_def split: option.splits)

lemma checkForm_fields [simp]:
  "v_fields (snd (checkForm S es s)) = v_fields s" "html (snd (checkForm S es s)) = html s"
  "v_clear (snd (checkForm S es s)) = v_clear s" "v_error (snd (checkForm S es s)) = v_error s"
  by (induction es arbitrary: s) (simp_all add: Let_def split_beta)

lemma checkForm_errors [simp]: "fst (checkForm S es s) = v_errors S (v_fields s) es"
  by (induction es arbitrary: s) (simp_all add: Let_def split_beta)

lemma checkForm_submitted [simp]:
  "set (v_submitted (snd (checkForm S es s))) =
     set (v_submitted s) \<union> v_name ` {e \<in> set es. v_message S (v_fields s) e \<noteq> None}"
  by (induction es arbitrary: s) (auto simp: Let_def split_beta)

definition label_html :: "jstring \<Rightarrow> jstring" where
  "label_html m = js ''<font color='' @ [39] @ js ''red'' @ [39] @ js ''>'' @ m @ js ''</font>''"

lemma label_html_ne [simp]: "label_html m \<noteq> []"
  by (simp add: label_html_def js_def)

lemma span_of_inj [simp]: "span_of e = span_of f \<longleftrightarrow> v_id e = v_id f"
  by (simp add: span_of_def)

lemma span_image: "span_of e \<in> span_of ` A \<longleftrightarrow> v_id e \<in> v_id ` A"
  by (auto simp: image_iff)

lemma errorPlacement_fields [simp]:
  "html (errorPlacement e m s) = (html s)(span_of e := label_html m)"
  "set (v_clear (errorPlacement e m s)) = insert (v_id e) (set (v_clear s))"
  "v_fields (errorPlacement e m s) = v_fields s" "v_submitted (errorPlacement e m s) = v_submitted s"
  "v_error (errorPlacement e m s) = v_error s"
  by (simp_all add: errorPlacement_def label_html_def set_html_def Let_def)

lemma highlight_fields [simp]:
  "html (highlight b e s) = html s" "v_clear (highlight b e s) = v_clear s"
  "v_fields (highlight b e s) = v_fields s" "v_submitted (highlight b e s) = v_submitted s"
  "v_error (highlight b e s) = (v_error s)(v_id e := b)"
  by (simp_all add: highlight_def)

lemma fold_highlight [simp]:
  "html (fold (highlight b) es s) = html s" "v_clear (fold (highlight b) es s) = v_clear s"
  "v_fields (fold (highlight b) es s) = v_fields s" "v_submitted (fold (highlight b) es s) = v_submitted s"
  by (induction es arbitrary: s) simp_all

lemma fold_highlight_error:
  "v_error (fold (highlight b) es s) i = (if i \<in> v_id ` set es then b else v_error s i)"
  by (induction es arbitrary: s) auto

abbreviation place :: "v_field \<times> jstring \<Rightarrow> 'a v_page_scheme \<Rightarrow> 'a v_page_scheme" where
  "place \<equiv> \<lambda>n s. errorPlacement (fst n) (snd n) (highlight True (fst n) s)"

lemma fold_place [simp]:
  "v_fields (fold place errs s) = v_fields s" "v_submitted (fold place errs s) = v_submitted s"
  "set (v_clear (fold place errs s)) = set (v_clear s) \<union> v_id ` fst ` set errs"
  by (induction errs arbitrary: s) auto

lemma fold_place_error:
  "v_error (fold place errs s) i \<longleftrightarrow> i \<in> v_id ` fst ` set errs \<or> v_error s i"
  by (induction errs arbitrary: s) auto

lemma fold_place_other:
  "k \<notin> span_of ` fst ` set errs \<Longrightarrow> html (fold place errs s) k = html s k"
  by (induction errs arbitrary: s) auto

lemma fold_place_html:
  "distinct (map (v_id \<circ> fst) errs) \<Longrightarrow> (e, m) \<in> set errs \<Longrightarrow>
     html (fold place errs s) (span_of e) = label_html m"
proof (induction errs arbitrary: s)
  case (Cons n errs)
  then show ?case
    by (cases "n = (e, m)") (auto simp: fold_place_other image_iff)
qed simp

lemma fold_place_ne: "html s k \<noteq> [] \<Longrightarrow> html (fold place errs s) k \<noteq> []"
  by (induction errs arbitrary: s) simp_all

lemmas show_errors = defaultShowErrors_def case_prod_beta' Let_def fold_place fold_highlight_error fold_place_error

lemma v_elements_sub: "set (v_elements S c es) \<subseteq> set es"
  by (induction S c es rule: v_elements.induct) auto

lemma v_elements_distinct: "distinct (map v_id es) \<Longrightarrow> distinct (map v_id (v_elements S c es))"
proof (induction S c es rule: v_elements.induct)
  case (2 S c e es)
  then show ?case using v_elements_sub [of S "v_name e # c" es] by auto
qed simp

lemma v_errors_distinct: "distinct (map v_id es) \<Longrightarrow> distinct (map (v_id \<circ> fst) (v_errors S fs es))"
proof (induction es)
  case (Cons e es)
  then show ?case using v_errors_map_fst [of S fs es] by (auto split: option.splits)
qed simp

lemma id_eq: "distinct (map v_id es) \<Longrightarrow> e \<in> set es \<Longrightarrow> f \<in> set es \<Longrightarrow> v_id e = v_id f \<longleftrightarrow> e = f"
  by (induction es) (auto simp: image_iff)

lemma show_errors_html:
  assumes "distinct (map v_id es)" "e \<in> set es"
  shows "html (defaultShowErrors es (v_errors S fs es) s) (span_of e) =
           (case v_message S fs e of None \<Rightarrow> html s (span_of e) | Some m \<Rightarrow> label_html m)"
    and "v_error (defaultShowErrors es (v_errors S fs es) s) (v_id e) \<longleftrightarrow> v_message S fs e \<noteq> None"
proof -
  let ?E = "v_errors S fs es"
  have "e \<in> fst ` set ?E \<longleftrightarrow> (\<exists>m. (e, m) \<in> set ?E)" by force
  with assms(2) have in_E: "e \<in> fst ` set ?E \<longleftrightarrow> v_message S fs e \<noteq> None" by (simp add: set_v_errors)
  have ids: "v_id e \<in> v_id ` fst ` set ?E \<longleftrightarrow> e \<in> fst ` set ?E"
    using v_errors_map_fst [of S fs es] id_eq [OF assms(1,2)] by (auto simp: image_iff)
  have spans: "span_of e \<in> span_of ` fst ` set ?E \<longleftrightarrow> v_id e \<in> v_id ` fst ` set ?E" by (rule span_image)
  show "html (defaultShowErrors es ?E s) (span_of e) =
          (case v_message S fs e of None \<Rightarrow> html s (span_of e) | Some m \<Rightarrow> label_html m)"
  proof (cases "v_message S fs e")
    case None
    then show ?thesis using in_E ids spans by (simp add: show_errors fold_place_other)
  next
    case (Some m)
    with assms have "(e, m) \<in> set ?E" by (simp add: set_v_errors)
    with Some v_errors_distinct [OF assms(1)] show ?thesis
      by (simp add: show_errors fold_place_html)
  qed
  have "v_id e \<in> v_id ` {x \<in> set es. x \<notin> fst ` set ?E} \<longleftrightarrow> e \<notin> fst ` set ?E"
    using assms id_eq [OF assms] by (auto simp: image_iff)
  with ids in_E show "v_error (defaultShowErrors es ?E s) (v_id e) \<longleftrightarrow> v_message S fs e \<noteq> None"
    by (simp add: show_errors)
qed

lemma show_errors_fields [simp]:
  "v_fields (defaultShowErrors es errs s) = v_fields s"
  "v_submitted (defaultShowErrors es errs s) = v_submitted s"
  "set (v_clear (defaultShowErrors es errs s)) = set (v_clear s) \<union> v_id ` fst ` set errs"
  by (simp_all add: show_errors)

lemma show_errors_other:
  "k \<notin> span_of ` fst ` set errs \<Longrightarrow> html (defaultShowErrors es errs s) k = html s k"
  by (simp add: show_errors fold_place_other)

lemma show_errors_ne: "html s k \<noteq> [] \<Longrightarrow> html (defaultShowErrors es errs s) k \<noteq> []"
  by (simp add: show_errors fold_place_ne)

lemma v_form_eq:
  "v_form S s =
     (let es = v_elements S [] (v_fields s); s' = snd (checkForm S es s); errs = v_errors S (v_fields s) es
      in (errs, defaultShowErrors es errs s'))"
  by (simp add: v_form_def Let_def split_beta)


text \<open>A field that needs a text, and one that needs an address.\<close>

definition two_fields :: "v_field list" where
  "two_fields =
     [\<lparr>v_name = js ''a'', v_id = js ''a'', v_select = False, v_options = 0, v_raw = js ''x'', v_visible = True,
       v_enabled = True, v_title = [], v_markup = []\<rparr>,
      \<lparr>v_name = js ''b'', v_id = js ''b'', v_select = False, v_options = 0, v_raw = [], v_visible = True,
       v_enabled = True, v_title = [], v_markup = []\<rparr>]"

definition two_settings :: v_settings where
  "two_settings = \<lparr>vs_rules = [(js ''a'', [(Required, Flag True)]), (js ''b'', [(Required, Flag True), (Email, Flag True)])],
     vs_messages = [(js ''b'', Whole (js ''missing''))], vs_methods = (\<lambda>m v. True), vs_method_msg = (\<lambda>m. []),
     vs_date = (\<lambda>v. True)\<rparr>"

lemmas two_simps = two_fields_def two_settings_def rules_of_def staticRules_def extend_rules_def normalizeRules_def
  required_first_def v_active_def

lemma two_rules:
  "rules_of two_settings (two_fields ! 0) = [(Required, Flag True)]"
  "rules_of two_settings (two_fields ! 1) = [(Required, Flag True), (Email, Flag True)]"
  "v_elements two_settings [] two_fields = two_fields"
  "required_ok (two_fields ! 0)" "\<not> required_ok (two_fields ! 1)"
  by (simp_all add: two_simps required_ok_def elementValue_def js_def trim_def trim_left_def is_ws_def)


subsection \<open>Messages over time\<close>

definition v_run :: "v_settings \<Rightarrow> v_input list \<Rightarrow> 'a v_page_scheme \<Rightarrow> 'a v_page_scheme" where
  "v_run S evs s = fold (v_event S) evs s"

text \<open>A field with a message has failed before and has the handler that empties it.\<close>

definition spans_ok :: "'a v_page_scheme \<Rightarrow> bool" where
  "spans_ok s \<longleftrightarrow> distinct (map v_id (v_fields s)) \<and>
     (\<forall>e \<in> set (v_fields s). html s (span_of e) \<noteq> [] \<longrightarrow>
        v_id e \<in> set (v_clear s) \<and> v_name e \<in> set (v_submitted s))"

lemma v_element_fields:
  "v_fields (v_element S e s) = v_fields s"
  "set (v_clear (v_element S e s)) = set (v_clear s) \<union> (if v_message S (v_fields s) e = None then {} else {v_id e})"
  "set (v_submitted (v_element S e s)) =
     set (v_submitted s) \<union> (if v_message S (v_fields s) e = None then {} else {v_name e})"
  by (auto simp: v_element_def split_beta split: option.splits)

lemma v_element_html:
  "html (v_element S e s) k =
     (if k = span_of e then (case v_message S (v_fields s) e of None \<Rightarrow> html s k | Some m \<Rightarrow> label_html m)
      else html s k)"
proof -
  let ?s = "snd (v_check S e (s\<lparr>v_last_el := Some (v_id e)\<rparr>))"
  have eq: "v_element S e s = defaultShowErrors [e] (v_errors S (v_fields s) [e]) ?s"
    by (simp add: v_element_def split_beta)
  show ?thesis
  proof (cases "k = span_of e")
    case True
    then show ?thesis unfolding eq using show_errors_html(1) [of "[e]" e S "v_fields s" ?s]
      by (simp split: option.splits)
  next
    case False
    then have "k \<notin> span_of ` fst ` set (v_errors S (v_fields s) [e])" by (auto split: option.splits)
    with False show ?thesis unfolding eq by (simp add: show_errors_other)
  qed
qed

lemma v_element_spans_ok:
  assumes "spans_ok s" "e \<in> set (v_fields s)"
  shows "spans_ok (v_element S e s)"
proof -
  have "v_id f \<in> set (v_clear (v_element S e s)) \<and> v_name f \<in> set (v_submitted (v_element S e s))"
    if f: "f \<in> set (v_fields s)" "html (v_element S e s) (span_of f) \<noteq> []" for f
  proof (cases "f = e \<and> v_message S (v_fields s) e \<noteq> None")
    case True
    then show ?thesis by (auto simp: v_element_fields)
  next
    case False
    with f assms id_eq [of "v_fields s" f e] have "html s (span_of f) \<noteq> []"
      by (auto simp: v_element_html spans_ok_def split: if_splits)
    with f assms show ?thesis by (auto simp: spans_ok_def v_element_fields)
  qed
  with assms show ?thesis by (simp add: spans_ok_def v_element_fields)
qed

lemma by_id_Some: "by_id i es = Some e \<Longrightarrow> e \<in> set es \<and> v_id e = i"
  by (auto simp: by_id_def find_Some_iff)

lemma by_id_mem: "distinct (map v_id es) \<Longrightarrow> e \<in> set es \<Longrightarrow> by_id (v_id e) es = Some e"
  by (induction es) (auto simp: by_id_def image_iff)

lemma by_id_update: "by_id i (map (\<lambda>e. if v_id e = j then e\<lparr>v_raw := v\<rparr> else e) es) =
    map_option (\<lambda>e. if v_id e = j then e\<lparr>v_raw := v\<rparr> else e) (by_id i es)"
  by (induction es) (simp_all add: by_id_def)

lemma update_ids: "map v_id (map (\<lambda>e. if v_id e = j then e\<lparr>v_raw := v\<rparr> else e) es) = map v_id es"
  by simp

lemma set_value_spans_ok: "spans_ok s \<Longrightarrow> spans_ok (set_value i v s)"
proof -
  assume "spans_ok s"
  moreover have "map v_id (map (\<lambda>e. if v_id e = i then e\<lparr>v_raw := v\<rparr> else e) (v_fields s)) = map v_id (v_fields s)"
    by simp
  ultimately show ?thesis
    by (auto simp: spans_ok_def set_value_def span_of_def simp del: map_map)
qed

lemma onchange_spans_ok: "spans_ok s \<Longrightarrow> spans_ok (onchange e s)"
  by (auto simp: spans_ok_def onchange_def set_html_def)

lemma v_form_spans_ok:
  assumes "spans_ok s" "v_form S s = (errs, s')"
  shows "spans_ok s'"
proof -
  let ?es = "v_elements S [] (v_fields s)"
  have d: "distinct (map v_id ?es)" using assms(1) by (auto simp: spans_ok_def intro: v_elements_distinct)
  have eqs: "errs = v_errors S (v_fields s) ?es" "s' = defaultShowErrors ?es errs (snd (checkForm S ?es s))"
    using assms(2) by (auto simp: v_form_eq Let_def)
  have "v_id f \<in> set (v_clear s') \<and> v_name f \<in> set (v_submitted s')"
    if f: "f \<in> set (v_fields s)" "html s' (span_of f) \<noteq> []" for f
  proof (cases "f \<in> fst ` set errs")
    case True
    then obtain m where "(f, m) \<in> set errs" by auto
    with True show ?thesis by (auto simp: eqs set_v_errors)
  next
    case False
    have sub: "fst ` set errs \<subseteq> set (v_fields s)"
      using v_errors_map_fst [of S "v_fields s" ?es] v_elements_sub [of S "[]" "v_fields s"] by (auto simp: eqs)
    have "v_id f \<noteq> v_id g" if "g \<in> fst ` set errs" for g
      using that sub False f(1) assms(1) id_eq [of "v_fields s" f g] by (auto simp: spans_ok_def)
    then have "v_id f \<notin> v_id ` fst ` set errs" by blast
    then have "span_of f \<notin> span_of ` fst ` set errs" by (simp add: span_image)
    with f assms(1) show ?thesis by (auto simp: eqs show_errors_other spans_ok_def)
  qed
  with assms(1) show ?thesis by (auto simp: spans_ok_def eqs)
qed

lemma focusInvalid_fields [simp]:
  "html (focusInvalid errs s) = html s" "v_clear (focusInvalid errs s) = v_clear s"
  "v_fields (focusInvalid errs s) = v_fields s" "v_submitted (focusInvalid errs s) = v_submitted s"
  by (simp_all add: focusInvalid_def focus_el_def split: option.splits list.splits)

lemma spans_ok_cong:
  "html t = html s \<Longrightarrow> v_clear t = v_clear s \<Longrightarrow> v_fields t = v_fields s \<Longrightarrow> v_submitted t = v_submitted s \<Longrightarrow>
     spans_ok t = spans_ok s"
  by (simp add: spans_ok_def)

lemma v_submit_spans_ok: "spans_ok s \<Longrightarrow> spans_ok (v_submit S id s)"
  using v_form_spans_ok [of s S "fst (v_form S s)" "snd (v_form S s)"]
  by (simp add: v_submit_def split_beta spans_ok_cong [of "focusInvalid _ _"])

lemma v_event_spans_ok: "spans_ok s \<Longrightarrow> spans_ok (v_event S ev s)"
proof (cases ev)
  case (FocusIn i)
  assume "spans_ok s"
  with FocusIn show ?thesis by (auto simp: v_event_def spans_ok_def split: option.splits)
qed (auto simp: v_event_def Let_def set_value_spans_ok onchange_spans_ok onfocusout_def onblur_equalTo_def
      onkeyup_def onclick_def v_submit_spans_ok dest!: by_id_Some intro!: v_element_spans_ok split: option.splits)

lemma v_run_spans_ok: "spans_ok s \<Longrightarrow> spans_ok (v_run S evs s)"
  unfolding v_run_def by (induction evs arbitrary: s) (simp_all add: v_event_spans_ok)


lemma v_form_ne: "html s k \<noteq> [] \<Longrightarrow> html (snd (v_form S s)) k \<noteq> []"
  by (simp add: v_form_eq Let_def show_errors_ne)

lemma v_element_ne: "html s k \<noteq> [] \<Longrightarrow> html (v_element S e s) k \<noteq> []"
  by (auto simp: v_element_html split: option.splits)

lemma v_event_ne:
  assumes "html s (span_of e) \<noteq> []" "ev \<noteq> Change (v_id e)"
  shows "html (v_event S ev s) (span_of e) \<noteq> []"
proof (cases ev)
  case (Change i)
  with assms show ?thesis
    by (auto simp: v_event_def onchange_def set_html_def dest!: by_id_Some split: option.splits)
next
  case Submit
  with assms v_form_ne [OF assms(1), of S] show ?thesis
    by (simp add: v_event_def v_submit_def split_beta)
qed (use assms in \<open>auto simp: v_event_def set_value_def onfocusout_def onblur_equalTo_def onkeyup_def onclick_def
      v_element_ne split: option.splits\<close>)

text \<open>A message is removed by a change of its own field only: it stays through every other event,
  be it a check that finds the field in order, a change of the field it is compared with, or an
  accepted submission.\<close>

lemma message_stays:
  assumes "html s (span_of e) \<noteq> []" and "Change (v_id e) \<notin> set evs"
  shows "html (v_run S evs s) (span_of e) \<noteq> []"
  using assms unfolding v_run_def
proof (induction evs arbitrary: s)
  case (Cons ev evs)
  then have "html (v_event S ev s) (span_of e) \<noteq> []" by (intro v_event_ne) auto
  with Cons show ?case by simp
qed simp

text \<open>On a page that opened without messages, leaving a changed field shows the message of its
  first failing rule, or none if no rule fails. Only a field left blank that never failed before is
  not checked; it then shows no message.\<close>

lemma leave_shows:
  assumes "distinct (map v_id (v_fields s0))"
    and "\<forall>e \<in> set (v_fields s0). html s0 (span_of e) = []"
    and "s = v_run S evs s0"
    and "by_id i (v_fields s) = Some e"
  shows "html (v_run S [Change i, FocusOut i] s) (span_of e) =
    (if v_name e \<in> set (v_submitted s) \<or> required_ok e
     then case vcheck S (v_fields s) e (rules_of S e) of None \<Rightarrow> [] | Some r \<Rightarrow> label_html (defaultMessage S e r)
     else [])"
proof -
  have "spans_ok s0" using assms(1,2) by (simp add: spans_ok_def)
  then have ok: "spans_ok s" unfolding assms(3) by (rule v_run_spans_ok)
  note e = by_id_Some [OF assms(4)]
  let ?t = "onchange e s"
  have t: "html ?t (span_of e) = []" "v_fields ?t = v_fields s" "v_submitted ?t = v_submitted s"
    using ok e by (auto simp: onchange_def set_html_def spans_ok_def)
  have "v_run S [Change i, FocusOut i] s = onfocusout S e ?t"
    using assms(4) t(2) by (simp add: v_run_def v_event_def)
  with t show ?thesis
    by (simp add: onfocusout_def v_element_html v_message_def split: option.splits)
qed

end
