(* ===== verification/MasterForms.thy ===== *)
theory MasterForms
  imports Validate
begin

text \<open>
  The forms of the operators' site that are checked by the validation plugin: the password of the
  operator, accounts of operators, customers and readers, sub users, and packages
  (\<open>system/passwordEdit.js\<close>, \<open>system/subUserAdd.js\<close>, \<open>system/subUserEdit.js\<close>,
  \<open>account/accountEdit.js\<close>, \<open>account/accountOperateEdit.js\<close>, \<open>account/accountReadonlyEdit.js\<close>,
  \<open>cos/custom.js\<close>), with the handler of the server's answer they share, and the upload of a
  customer's logo (\<open>system/customEnterpriseAdd.js\<close>).
\<close>

subsection \<open>Rules\<close>

abbreviation need :: "vmethod \<times> vparam" where "need \<equiv> (Required, Flag True)"

abbreviation free :: "vmethod \<times> vparam" where "free \<equiv> (Required, Flag False)"

definition no_methods :: "(jstring \<Rightarrow> bool) \<Rightarrow> (jstring \<times> vrules) list \<Rightarrow> (jstring \<times> vmessage) list \<Rightarrow> v_settings" where
  "no_methods d rs ms = \<lparr>vs_rules = rs, vs_messages = ms, vs_methods = (\<lambda>m v. True), vs_method_msg = (\<lambda>m. []), vs_date = d\<rparr>"

abbreviation msg_pwd8 :: jstring where "msg_pwd8 \<equiv> [0x5BC6, 0x7801, 0x957F, 0x5EA6, 0x81F3, 0x5C11, 0x38, 0x4E2A, 0x5B57, 0x7B26]"
abbreviation msg_same :: jstring where "msg_same \<equiv> [0x4E24, 0x6B21, 0x8F93, 0x5165, 0x7684, 0x5BC6, 0x7801, 0x4E0D, 0x76F8, 0x7B49]"
abbreviation msg_user :: "jstring \<times> vmessage" where
  "msg_user \<equiv> (js ''userId'', Each [(Required, [0x8BF7, 0x8F93, 0x5165, 0x7528, 0x6237, 0x540D]), (Minlength, [0x7528, 0x6237, 0x540D, 0x957F, 0x5EA6, 0x81F3, 0x5C11, 0x34, 0x4E2A, 0x5B57, 0x7B26])])"
abbreviation msg_email :: "jstring \<times> vmessage" where
  "msg_email \<equiv> (js ''email'', Each [(Required, [0x8BF7, 0x8F93, 0x5165, 0x90AE, 0x7BB1]), (Email, [0x8BF7, 0x8F93, 0x5165, 0x6B63, 0x786E, 0x7684, 0x90AE, 0x7BB1, 0x683C, 0x5F0F])])"
abbreviation msg_optional_pwd :: "(jstring \<times> vmessage) list" where
  "msg_optional_pwd \<equiv> [(js ''password'', Each [(Minlength, msg_pwd8)]),
     (js ''confirmPassword'', Each [(Minlength, msg_pwd8), (EqualTo, msg_same)])]"
abbreviation rules_optional_pwd :: "(jstring \<times> vrules) list" where
  "rules_optional_pwd \<equiv> [(js ''password'', [free, (Minlength, Num 8)]),
     (js ''confirmPassword'', [free, (Minlength, Num 8), (EqualTo, Target (js ''#password''))])]"
abbreviation rule_user :: "jstring \<times> vrules" where
  "rule_user \<equiv> (js ''userId'', [need, (Minlength, Num 4)])"
abbreviation rule_email :: "jstring \<times> vrules" where
  "rule_email \<equiv> (js ''email'', [need, (Email, Flag True)])"

definition password_form :: "(jstring \<Rightarrow> bool) \<Rightarrow> v_settings" where
  "password_form d = no_methods d
     [(js ''oldPassword'', [need]),
      (js ''newPassword'', [need, (Rangelength, Range 8 16)]),
      (js ''confirmNewPassword'', [need, (Rangelength, Range 8 16), (EqualTo, Target (js ''#newPassword''))])]
     [(js ''oldPassword'', Each [(Required, [0x8BF7, 0x8F93, 0x5165, 0x539F, 0x5BC6, 0x7801])]),
      (js ''newPassword'', Each [(Required, [0x8BF7, 0x8F93, 0x5165, 0x65B0, 0x5BC6, 0x7801]), (Rangelength, [0x5BC6, 0x7801, 0x957F, 0x5EA6, 0x4E3A, 0x38, 0x2D, 0x31, 0x36, 0x4E2A, 0x5B57, 0x7B26])]),
      (js ''confirmNewPassword'', Each [(Required, [0x8BF7, 0x786E, 0x8BA4, 0x65B0, 0x5BC6, 0x7801]), (Rangelength, [0x5BC6, 0x7801, 0x957F, 0x5EA6, 0x4E3A, 0x38, 0x2D, 0x31, 0x36, 0x4E2A, 0x5B57, 0x7B26]), (EqualTo, [0x4E24, 0x6B21, 0x8F93, 0x5165, 0x7684, 0x65B0, 0x5BC6, 0x7801, 0x4E0D, 0x76F8, 0x7B49])])]"

definition sub_user_add_form :: "(jstring \<Rightarrow> bool) \<Rightarrow> v_settings" where
  "sub_user_add_form d = no_methods d
     [rule_user,
      (js ''trueName'', [need, (Minlength, Num 2)]),
      (js ''password'', [need, (Minlength, Num 8)]),
      (js ''confirmPassword'', [need, (Minlength, Num 8), (EqualTo, Target (js ''#password''))])]
     [msg_user,
      (js ''trueName'', Each [(Required, [0x8BF7, 0x8F93, 0x5165, 0x59D3, 0x540D]), (Minlength, [0x59D3, 0x540D, 0x957F, 0x5EA6, 0x81F3, 0x5C11, 0x32, 0x4E2A, 0x5B57, 0x7B26])]),
      (js ''password'', Each [(Required, [0x8BF7, 0x8F93, 0x5165, 0x5BC6, 0x7801]), (Minlength, msg_pwd8)]),
      (js ''confirmPassword'', Each [(Required, [0x8BF7, 0x8F93, 0x5165, 0x5BC6, 0x7801]), (Minlength, msg_pwd8), (EqualTo, msg_same)])]"

definition sub_user_edit_form :: "(jstring \<Rightarrow> bool) \<Rightarrow> v_settings" where
  "sub_user_edit_form d = no_methods d
     ([rule_user, (js ''trueName'', [need, (Minlength, Num 2)])] @ rules_optional_pwd)
     ([msg_user, (js ''trueName'', Each [(Required, [0x8BF7, 0x8F93, 0x5165, 0x59D3, 0x540D]), (Minlength, [0x59D3, 0x540D, 0x957F, 0x5EA6, 0x81F3, 0x5C11, 0x32, 0x4E2A, 0x5B57, 0x7B26])])]
      @ msg_optional_pwd)"

definition account_form :: "(jstring \<Rightarrow> bool) \<Rightarrow> v_settings" where
  "account_form d = no_methods d
     ([rule_user, (js ''company'', [need])] @ rules_optional_pwd
      @ [rule_email, (js ''roleId'', [need]), (js ''trueName'', [free]), (js ''phone'', [free])])
     ([msg_user, (js ''roleId'', Whole [0x8BF7, 0x9009, 0x62E9, 0x89D2, 0x8272])] @ msg_optional_pwd @ [msg_email])"

definition operate_form :: "(jstring \<Rightarrow> bool) \<Rightarrow> v_settings" where
  "operate_form d = no_methods d
     ([rule_user, (js ''roleId'', [need])] @ rules_optional_pwd
      @ [rule_email, (js ''trueName'', [free]), (js ''phone'', [free]), (js ''robots'', [free])])
     ([msg_user, (js ''roleId'', Whole [0x8BF7, 0x9009, 0x62E9, 0x89D2, 0x8272])] @ msg_optional_pwd @ [msg_email])"

definition readonly_form :: "(jstring \<Rightarrow> bool) \<Rightarrow> v_settings" where
  "readonly_form d = no_methods d
     ([rule_user, (js ''roleId'', [need]), (js ''company'', [need])] @ rules_optional_pwd
      @ [rule_email, (js ''address'', [free]), (js ''website'', [free, (Url, Flag True)]), (js ''contact'', [free]),
         (js ''job'', [free]), (js ''telephone'', [free]), (js ''industry'', [free]), (js ''zip'', [free])])
     ([msg_user, (js ''roleId'', Whole [0x8BF7, 0x9009, 0x62E9, 0x89D2, 0x8272]), (js ''company'', Whole [0x8BF7, 0x8F93, 0x5165, 0x516C, 0x53F8, 0x540D, 0x79F0])] @ msg_optional_pwd
      @ [msg_email, (js ''website'', Whole [0x8BF7, 0x8F93, 0x5165, 0x5408, 0x6CD5, 0x7684, 0x7F51, 0x5740])])"

text \<open>\<open>parseInt\<close> is exact here: the fields with this rule hold at most nine characters, and the rule
  on the length stands first.\<close>

definition sendCount :: "jstring \<Rightarrow> bool" where
  "sendCount v = (case parse_int v of None \<Rightarrow> False | Some a \<Rightarrow> a \<ge> -1 \<and> int_to_str a = v)"

definition cos_form :: "(jstring \<Rightarrow> bool) \<Rightarrow> v_settings" where
  "cos_form d =
     (let count = [need, (Custom (js ''sendCount''), Flag True), (Min, Num 0)];
          bad = Whole [0x8BF7, 0x8F93, 0x5165, 0x5408, 0x6CD5, 0x7684, 0x503C]
      in \<lparr>vs_rules =
            [(js ''type'', [need]), (js ''cosName'', [need]),
             (js ''userCount'', [need, (Digits, Flag True), (Min, Num 0)]),
             (js ''daySend'', count), (js ''weekSend'', count), (js ''monthSend'', count), (js ''totalSend'', count)],
          vs_messages =
            [(js ''type'', Whole [0x8BF7, 0x9009, 0x62E9, 0x5957, 0x9910, 0x7C7B, 0x578B]), (js ''cosName'', Whole [0x8BF7, 0x8F93, 0x5165, 0x5957, 0x9910, 0x540D, 0x79F0]),
             (js ''userCount'', bad), (js ''daySend'', bad), (js ''weekSend'', bad), (js ''monthSend'', bad), (js ''totalSend'', bad)],
          vs_methods = (\<lambda>m v. sendCount v),
          vs_method_msg = (\<lambda>m. [0x8BF7, 0x8F93, 0x5165, 0x5408, 0x6CD5, 0x7684, 0x503C]),
          vs_date = d\<rparr>)"

subsection \<open>Sending and the answer\<close>

text \<open>The answer of the server: none, or an object of which \<open>result\<close> and \<open>message\<close> are read.\<close>

datatype m_answer = NoData | Answer "jstring option" "jstring option"

definition shown_msg :: "jstring option \<Rightarrow> jstring" where
  "shown_msg m = (case m of None \<Rightarrow> js ''undefined'' | Some t \<Rightarrow> t)"

definition set_disabled :: "jstring \<Rightarrow> bool \<Rightarrow> 'a v_page_scheme \<Rightarrow> 'a v_page_scheme" where
  "set_disabled k b s = s\<lparr>m_disabled := (m_disabled s)(k := b)\<rparr>"

definition closeWin :: "'a v_page_scheme \<Rightarrow> 'a v_page_scheme" where
  "closeWin s = s\<lparr>m_closed := True\<rparr>"

definition send_form :: "jstring \<Rightarrow> jstring \<Rightarrow> 'a v_page_scheme \<Rightarrow> 'a v_page_scheme" where
  "send_form btn action s =
     (let s' = show_el (js ''#prompt'') (set_disabled btn True s)
      in s'\<lparr>m_posts := m_posts s' @ [(action, serializeArray s)]\<rparr>)"

definition delay :: "jstring \<Rightarrow> int \<Rightarrow> 'a v_page_scheme \<Rightarrow> 'a v_page_scheme" where
  "delay script t s = s\<lparr>m_later := m_later s @ [(script, t)]\<rparr>"

definition refused :: "jstring \<Rightarrow> jstring option \<Rightarrow> 'a v_page_scheme \<Rightarrow> 'a v_page_scheme" where
  "refused btn mess s =
     messagebox (case mess of None \<Rightarrow> [0x65E0, 0x6CD5, 0x83B7, 0x53D6, 0x54CD, 0x5E94, 0xFF0C, 0x6709, 0x53EF, 0x80FD, 0x8D26, 0x53F7, 0x5DF2, 0x5728, 0x522B, 0x5904, 0x767B, 0x5F55] | Some m \<Rightarrow> m) 0 3000
       (set_disabled btn False (hide_el (js ''#prompt'') s))"

text \<open>The handler of the forms: on success the message and, two seconds later, a script.\<close>

definition answered :: "jstring \<Rightarrow> jstring \<Rightarrow> m_answer \<Rightarrow> 'a v_page_scheme \<Rightarrow> 'a v_page_scheme" where
  "answered btn script data s =
     (case data of
        NoData \<Rightarrow> s
      | Answer res mess \<Rightarrow>
          if res = Some (js ''success'') then delay script 2000 (messagebox (shown_msg mess) 1 2000 s)
          else refused btn mess s)"

subsection \<open>Password of the operator\<close>

definition resetPassword :: "'a v_page_scheme \<Rightarrow> 'a v_page_scheme" where
  "resetPassword s =
     set_value (js ''confirmNewPassword'') [] (set_value (js ''newPassword'') [] (set_value (js ''oldPassword'') [] s))"

definition password_answered :: "m_answer \<Rightarrow> 'a v_page_scheme \<Rightarrow> 'a v_page_scheme" where
  "password_answered data s =
     (case data of
        NoData \<Rightarrow> s
      | Answer res mess \<Rightarrow>
          if res = Some (js ''success'')
          then messagebox (shown_msg mess) 1 2000
                 (set_disabled (js ''#btn_submit'') False (hide_el (js ''#prompt'') (resetPassword s)))
          else refused (js ''#btn_submit'') mess s)"

definition savePassword :: "(jstring \<Rightarrow> bool) \<Rightarrow> jstring \<Rightarrow> 'a v_page_scheme \<Rightarrow> 'a v_page_scheme" where
  "savePassword d url s = v_submit (password_form d) (send_form (js ''#btn_submit'') url) s"

definition cancle :: "jstring \<Rightarrow> 'a v_page_scheme \<Rightarrow> 'a v_page_scheme" where
  "cancle url s = go_to url s"

subsection \<open>Sub users and accounts\<close>

definition addSubUser :: "(jstring \<Rightarrow> bool) \<Rightarrow> jstring \<Rightarrow> 'a v_page_scheme \<Rightarrow> 'a v_page_scheme" where
  "addSubUser d url s = v_submit (sub_user_add_form d) (send_form (js ''#btn_save'') url) s"

definition editSubUser :: "(jstring \<Rightarrow> bool) \<Rightarrow> jstring \<Rightarrow> 'a v_page_scheme \<Rightarrow> 'a v_page_scheme" where
  "editSubUser d url s = v_submit (sub_user_edit_form d) (send_form (js ''#btn_save'') url) s"

text \<open>\<open>prompt\<close>: the message of the page that opened the form (the value of \<open>#msg\<close>).\<close>

definition m_prompt :: "jstring \<Rightarrow> 'a robot_page_scheme \<Rightarrow> 'a robot_page_scheme" where
  "m_prompt msg s = (if msg \<noteq> [] then messagebox msg 1 2000 s else s)"

definition value_of :: "jstring \<Rightarrow> 'a v_page_scheme \<Rightarrow> jstring" where
  "value_of i s = (case by_id i (v_fields s) of None \<Rightarrow> [] | Some e \<Rightarrow> v_raw e)"

text \<open>The choices of \<open>accountEdit.js\<close> that its page may have: whether the interface is wanted (the
  ticked button, if any), the kind of trigger and the text for another kind.\<close>

record api_choice =
  isNeedApi :: "jstring option"
  triggerType :: "jstring option"
  otherTriggerType :: jstring

definition account_pass :: "api_choice \<Rightarrow> jstring \<Rightarrow> 'a robot_page_scheme \<Rightarrow> bool \<times> 'a robot_page_scheme" where
  "account_pass a p s =
     (if p \<noteq> [] then pass_ok p s
      else if isNeedApi a = Some (js ''yes'') \<and> triggerType a = Some [0x5176, 0x4ED6] then
        if strip_ws (otherTriggerType a) = []
        then (False, focus_el (js ''#otherTriggerType'') (messagebox [0x8BF7, 0x8F93, 0x5165, 0x89E6, 0x53D1, 0x7C7B, 0x578B] 0 3000 s))
        else (True, s)
      else (True, s))"

definition saveAccount :: "(jstring \<Rightarrow> bool) \<Rightarrow> api_choice \<Rightarrow> jstring \<Rightarrow> 'a v_page_scheme \<Rightarrow> 'a v_page_scheme" where
  "saveAccount d a url s =
     v_submit (account_form d)
       (\<lambda>s. case account_pass a (value_of (js ''password'') s) s of
              (True, s) \<Rightarrow> send_form (js ''#btn_submit'') url s | (False, s) \<Rightarrow> s) s"

definition saveReadonly :: "(jstring \<Rightarrow> bool) \<Rightarrow> jstring \<Rightarrow> 'a v_page_scheme \<Rightarrow> 'a v_page_scheme" where
  "saveReadonly d url s =
     v_submit (readonly_form d)
       (\<lambda>s. case pass_ok (value_of (js ''password'') s) s of
              (True, s) \<Rightarrow> send_form (js ''#btn_submit'') url s | (False, s) \<Rightarrow> s) s"

definition saveOperate :: "(jstring \<Rightarrow> bool) \<Rightarrow> jstring \<Rightarrow> 'a v_page_scheme \<Rightarrow> 'a v_page_scheme" where
  "saveOperate d url s =
     v_submit (operate_form d)
       (\<lambda>s. case checkRobots s of
              (False, s) \<Rightarrow> s
            | (True, s) \<Rightarrow>
                (case pass_ok (value_of (js ''password'') s) s of
                   (True, s) \<Rightarrow> send_form (js ''#btn_submit'') url s | (False, s) \<Rightarrow> s)) s"

text \<open>After success, back to the list, and the other address for another role. Only
  \<open>accountEdit.js\<close> puts the path of the application before the address.\<close>

definition account_success :: "jstring \<Rightarrow> jstring \<Rightarrow> 'a ui_scheme \<Rightarrow> 'a ui_scheme" where
  "account_success ctx url u = go_to (ctx @ url) u"

definition account_back :: "jstring \<Rightarrow> 'a ui_scheme \<Rightarrow> 'a ui_scheme" where
  "account_back ctx u = go_to (ctx @ js ''/account/accountList'') u"

definition changeType :: "jstring \<Rightarrow> jstring \<Rightarrow> 'a ui_scheme \<Rightarrow> 'a ui_scheme" where
  "changeType url accountType u = go_to (url @ accountType) u"

text \<open>\<open>getCosInfo\<close>: the texts of a package, emptied without one.\<close>

definition cos_texts :: "jstring list" where
  "cos_texts = [js ''#subUserCount'', js ''#daySendCount'', js ''#weekSendCount'', js ''#monthSendCount'', js ''#totalSendCount'']"

definition getCosInfo :: "jstring \<Rightarrow> jstring \<Rightarrow> 'a v_page_scheme \<Rightarrow> 'a v_page_scheme" where
  "getCosInfo cosUrl v s =
     (if v = [] then fold (\<lambda>k. set_html k []) cos_texts s
      else s\<lparr>m_posts := m_posts s @ [(cosUrl, [(js ''cosId'', v)])]\<rparr>)"

definition cos_info_answered :: "jstring list option \<Rightarrow> 'a v_page_scheme \<Rightarrow> 'a v_page_scheme" where
  "cos_info_answered data s =
     (case data of None \<Rightarrow> s | Some vs \<Rightarrow> fold (\<lambda>(k, v). set_html k v) (zip cos_texts vs) s)"

subsection \<open>Packages\<close>

definition show_fields :: "jstring list \<Rightarrow> bool \<Rightarrow> 'a v_page_scheme \<Rightarrow> 'a v_page_scheme" where
  "show_fields is b s =
     s\<lparr>v_fields := map (\<lambda>e. if v_id e \<in> set is then e\<lparr>v_visible := b\<rparr> else e) (v_fields s)\<rparr>"

text \<open>The dates of a trial stand in \<open>#test\<close>.\<close>

definition cos_type_changed :: "'a v_page_scheme \<Rightarrow> 'a v_page_scheme" where
  "cos_type_changed s =
     (let dates = [js ''startTime'', js ''endTime'']
      in if value_of (js ''type'') s = js ''0'' then show_fields dates True (show_el (js ''#test'') s)
         else show_fields dates False (hide_el (js ''#test'') s))"

definition m_alert :: "jstring \<Rightarrow> 'a v_page_scheme \<Rightarrow> 'a v_page_scheme" where
  "m_alert m s = s\<lparr>m_alerts := m_alerts s @ [m]\<rparr>"

definition cos_checked :: "jstring \<Rightarrow> 'a v_page_scheme \<Rightarrow> 'a v_page_scheme" where
  "cos_checked action s =
     (let ty = value_of (js ''type'') s; uc = value_of (js ''userCount'') s;
          trial = (to_number ty = Fin 0); formal = (to_number ty = Fin 1);
          s = (if trial \<and> (value_of (js ''startTime'') s = [] \<or> value_of (js ''endTime'') s = [])
               then m_alert [0x8BD5, 0x7528, 0x65F6, 0x95F4, 0x4E0D, 0x80FD, 0x4E3A, 0x7A7A] s else s)
      in if trial \<and> str_gt uc 1
         then focus_el (js ''#userCount'') (m_alert [0x8BD5, 0x7528, 0x5957, 0x9910, 0x5B50, 0x8D26, 0x53F7, 0x4E2A, 0x6570, 0x4E0D, 0x80FD, 0x5927, 0x4E8E, 0x31] s)
         else if formal \<and> str_gt uc 50
         then focus_el (js ''#userCount'') (m_alert [0x6B63, 0x5F0F, 0x5957, 0x9910, 0x5B50, 0x8D26, 0x53F7, 0x4E2A, 0x6570, 0x4E0D, 0x80FD, 0x5927, 0x4E8E, 0x35, 0x30] s)
         else send_form (js ''#btn_save'') action s)"

definition saveCos :: "(jstring \<Rightarrow> bool) \<Rightarrow> jstring \<Rightarrow> 'a v_page_scheme \<Rightarrow> 'a v_page_scheme" where
  "saveCos d action s = (let (errs, s) = v_form (cos_form d) s in if errs = [] then cos_checked action s else s)"

definition cos_answered :: "m_answer \<Rightarrow> 'a v_page_scheme \<Rightarrow> 'a v_page_scheme" where
  "cos_answered data s =
     answered (js ''#btn_save'') (js ''closeWin()'')
       (case data of Answer (Some r) m \<Rightarrow> Answer (Some r) (if r = js ''success'' then Some [0x81EA, 0x5B9A, 0x4E49, 0x5957, 0x9910, 0x6210, 0x529F] else m) | _ \<Rightarrow> data) s"

subsection \<open>Logo of a customer\<close>

definition logo_clicked :: "jstring \<Rightarrow> 'a v_page_scheme \<Rightarrow> 'a v_page_scheme" where
  "logo_clicked i s =
     (if i = js ''newLogo'' then set_disabled (js ''.button'') False (hide_el (js ''#showLogo'') s)
      else set_disabled (js ''.button'') True (show_el (js ''#showLogo'') s))"

definition subimtBtn :: "jstring option \<Rightarrow> 'a v_page_scheme \<Rightarrow> 'a v_page_scheme" where
  "subimtBtn type s =
     (if type = Some (js ''2'')
      then (show_el (js ''#prompt'') s)\<lparr>m_posts := m_posts s @ [(js ''/custom/save'', serializeArray s)]\<rparr>
      else closeWin s)"

definition logo_answered :: "jstring \<Rightarrow> 'a v_page_scheme \<Rightarrow> 'a v_page_scheme" where
  "logo_answered error s =
     (if error = js ''0'' then delay (js ''closeWindow()'') 2000 (messagebox [0x65B0, 0x5EFA, 0x4F01, 0x4E1A, 0x6C, 0x6F, 0x67, 0x6F, 0x6210, 0x529F, 0x2C, 0x5982, 0x4F7F, 0x7528, 0x8BF7, 0x6FC0, 0x6D3B, 0x3002] 1 2000 s)
      else messagebox [0x65B0, 0x5EFA, 0x4F01, 0x4E1A, 0x6C, 0x6F, 0x67, 0x6F, 0x5931, 0x8D25] 0 3000 (hide_el (js ''#prompt'') s))"

subsection \<open>What is sent\<close>

lemma v_check_posts [simp]:
  "m_posts (snd (v_check S e s)) = m_posts s" "m_extra (snd (v_check S e s)) = m_extra s"
  "m_alerts (snd (v_check S e s)) = m_alerts s" "m_disabled (snd (v_check S e s)) = m_disabled s"
  "mbox (snd (v_check S e s)) = mbox s" "robots (snd (v_check S e s)) = robots s"
  by (simp_all add: v_check_def Let_def split: option.splits)

lemma checkForm_posts [simp]:
  "m_posts (snd (checkForm S es s)) = m_posts s" "m_extra (snd (checkForm S es s)) = m_extra s"
  "m_alerts (snd (checkForm S es s)) = m_alerts s" "m_disabled (snd (checkForm S es s)) = m_disabled s"
  "mbox (snd (checkForm S es s)) = mbox s" "robots (snd (checkForm S es s)) = robots s"
  by (induction es arbitrary: s) (simp_all add: Let_def split_beta)

lemma place_posts [simp]:
  "m_posts (errorPlacement e m s) = m_posts s" "m_extra (errorPlacement e m s) = m_extra s"
  "m_alerts (errorPlacement e m s) = m_alerts s" "m_disabled (errorPlacement e m s) = m_disabled s"
  "mbox (errorPlacement e m s) = mbox s" "robots (errorPlacement e m s) = robots s"
  "m_posts (highlight b e s) = m_posts s" "m_extra (highlight b e s) = m_extra s"
  "m_alerts (highlight b e s) = m_alerts s" "m_disabled (highlight b e s) = m_disabled s"
  "mbox (highlight b e s) = mbox s" "robots (highlight b e s) = robots s"
  by (simp_all add: errorPlacement_def highlight_def set_html_def Let_def)

lemma fold_place_posts [simp]:
  "m_posts (fold place es s) = m_posts s" "m_extra (fold place es s) = m_extra s"
  "m_alerts (fold place es s) = m_alerts s" "m_disabled (fold place es s) = m_disabled s"
  "mbox (fold place es s) = mbox s" "robots (fold place es s) = robots s"
  by (induction es arbitrary: s) simp_all

lemma fold_highlight_posts [simp]:
  "m_posts (fold (highlight b) es s) = m_posts s" "m_extra (fold (highlight b) es s) = m_extra s"
  "m_alerts (fold (highlight b) es s) = m_alerts s" "m_disabled (fold (highlight b) es s) = m_disabled s"
  "mbox (fold (highlight b) es s) = mbox s" "robots (fold (highlight b) es s) = robots s"
  by (induction es arbitrary: s) simp_all

lemma show_errors_posts [simp]:
  "m_posts (defaultShowErrors es errs s) = m_posts s" "m_extra (defaultShowErrors es errs s) = m_extra s"
  "m_alerts (defaultShowErrors es errs s) = m_alerts s" "m_disabled (defaultShowErrors es errs s) = m_disabled s"
  "mbox (defaultShowErrors es errs s) = mbox s" "robots (defaultShowErrors es errs s) = robots s"
  by (simp_all add: defaultShowErrors_def case_prod_beta' Let_def)

lemma v_form_posts [simp]:
  "m_posts (snd (v_form S s)) = m_posts s" "m_extra (snd (v_form S s)) = m_extra s"
  "m_alerts (snd (v_form S s)) = m_alerts s" "m_disabled (snd (v_form S s)) = m_disabled s"
  "mbox (snd (v_form S s)) = mbox s" "robots (snd (v_form S s)) = robots s"
  "v_fields (snd (v_form S s)) = v_fields s"
  by (simp_all add: v_form_eq Let_def)

lemma focusInvalid_posts [simp]: "m_posts (focusInvalid errs s) = m_posts s"
  by (simp add: focusInvalid_def focus_el_def split: option.splits list.splits)

text \<open>No rule of the form fails.\<close>

definition form_ok :: "v_settings \<Rightarrow> v_field list \<Rightarrow> bool" where
  "form_ok S fs \<longleftrightarrow> list_all (\<lambda>e. v_message S fs e = None) (v_elements S [] fs)"

lemma v_form_ok: "fst (v_form S s) = [] \<longleftrightarrow> form_ok S (v_fields s)"
  by (simp add: v_form_eq Let_def v_errors_Nil form_ok_def)

lemma send_form_posts [simp]: "m_posts (send_form btn url s) = m_posts s @ [(url, serializeArray s)]"
  by (simp add: send_form_def set_disabled_def show_el_def Let_def)

lemma serialize_form [simp]: "serializeArray (snd (v_form S s)) = serializeArray s"
  by (simp add: serializeArray_def)

lemma v_submit_posts:
  "m_posts (v_submit S f s) = (if form_ok S (v_fields s) then m_posts (f (snd (v_form S s))) else m_posts s)"
  by (simp add: v_submit_def split_beta v_form_ok)

text \<open>A text field whose name is its id, with a limit in its markup.\<close>

definition text_field :: "jstring \<Rightarrow> int \<Rightarrow> jstring \<Rightarrow> v_field" where
  "text_field i n v = \<lparr>v_name = i, v_id = i, v_select = False, v_options = 0, v_raw = v,
     v_visible = True, v_enabled = True, v_title = [], v_markup = [(Maxlength, Num n)]\<rparr>"

lemma text_field_sel [simp]:
  "v_name (text_field i n v) = i" "v_id (text_field i n v) = i" "v_raw (text_field i n v) = v"
  "v_active (text_field i n v)" "v_enabled (text_field i n v)" "v_markup (text_field i n v) = [(Maxlength, Num n)]"
  by (simp_all add: text_field_def v_active_def)

lemma elementValue_plain: "13 \<notin> set (v_raw e) \<Longrightarrow> elementValue e = v_raw e"
  unfolding elementValue_def by (rule filter_True) auto

lemma text_field_value [simp]:
  assumes "13 \<notin> set v"
  shows "elementValue (text_field i n v) = v" "required_ok (text_field i n v) \<longleftrightarrow> trim v \<noteq> []"
    "getLength (text_field i n v) = int (length (trim v))"
  using assms elementValue_plain [of "text_field i n v"]
  by (simp_all add: required_ok_def getLength_def) (simp_all add: text_field_def)

lemmas rule_simps = rules_of_def staticRules_def extend_rules_def normalizeRules_def required_first_def

definition password_fields :: "jstring \<Rightarrow> jstring \<Rightarrow> jstring \<Rightarrow> v_field list" where
  "password_fields old new conf =
     [text_field (js ''oldPassword'') 16 old, text_field (js ''newPassword'') 16 new,
      text_field (js ''confirmNewPassword'') 16 conf]"

lemma password_form_ok:
  assumes "13 \<notin> set old" "13 \<notin> set new" "13 \<notin> set conf"
  shows "form_ok (password_form d) (password_fields old new conf) \<longleftrightarrow>
    trim old \<noteq> [] \<and> length (trim old) \<le> 16 \<and> 8 \<le> length (trim new) \<and> length (trim new) \<le> 16 \<and> conf = new"
proof -
  let ?S = "password_form d"
  have r: "rules_of ?S (text_field (js ''oldPassword'') 16 old) = [need, (Maxlength, Num 16)]"
    "rules_of ?S (text_field (js ''newPassword'') 16 new) = [need, (Maxlength, Num 16), (Rangelength, Range 8 16)]"
    "rules_of ?S (text_field (js ''confirmNewPassword'') 16 conf) =
       [need, (Maxlength, Num 16), (Rangelength, Range 8 16), (EqualTo, Target (js ''#newPassword''))]"
    by (simp_all add: rule_simps password_form_def no_methods_def js_def)
  have f: "map_option v_raw (field_of (js ''#newPassword'') (password_fields old new conf)) = Some new"
    by (simp add: field_of_def password_fields_def js_def)
  have es: "v_elements ?S [] (password_fields old new conf) = password_fields old new conf"
    by (simp add: password_fields_def r)
  show ?thesis
    using assms unfolding form_ok_def es
    by (auto simp: v_message_None password_fields_def r f [unfolded password_fields_def] length_greater_0_conv [symmetric]
        simp del: length_greater_0_conv)
qed

lemma field_names:
  "serializeArray s = map (\<lambda>e. (v_name e, v_raw e)) (filter v_enabled fs)
     @ map (\<lambda>r. (js ''robots'', snd r)) (robots s) @ m_extra s" if "v_fields s = fs"
  using that by (simp add: serializeArray_def)

text \<open>Saving the operator's password sends the three fields exactly if the old password is not blank
  and the new one has 8 to 16 characters (blanks around a password do not count) and is repeated
  exactly; otherwise nothing is sent.\<close>

lemma password_sent_iff:
  assumes "v_fields s = password_fields old new conf" and "robots s = []" and "13 \<notin> set (old @ new @ conf)"
  shows "m_posts (savePassword d url s) = m_posts s @
    (if trim old \<noteq> [] \<and> length (trim old) \<le> 16 \<and> 8 \<le> length (trim new) \<and> length (trim new) \<le> 16 \<and> conf = new
     then [(url, [(js ''oldPassword'', old), (js ''newPassword'', new), (js ''confirmNewPassword'', conf)] @ m_extra s)]
     else [])"
  using assms password_form_ok [of old new conf d]
  by (simp add: savePassword_def v_submit_posts field_names [OF assms(1)])
     (simp add: password_fields_def)

subsection \<open>Sub users\<close>

definition sub_user_fields :: "jstring \<Rightarrow> jstring \<Rightarrow> jstring \<Rightarrow> jstring \<Rightarrow> jstring \<Rightarrow> v_field list" where
  "sub_user_fields user name pw conf phone =
     [text_field (js ''userId'') 20 user, text_field (js ''trueName'') 20 name, text_field (js ''password'') 16 pw,
      text_field (js ''confirmPassword'') 16 conf, text_field (js ''phone'') 20 phone]"

abbreviation long :: "nat \<Rightarrow> nat \<Rightarrow> jstring \<Rightarrow> bool" where
  "long a b v \<equiv> a \<le> length (trim v) \<and> length (trim v) \<le> b"

lemma sub_user_target:
  "map_option v_raw (field_of (js ''#password'') (sub_user_fields user name pw conf phone)) = Some pw"
  by (simp add: field_of_def sub_user_fields_def js_def)

lemma sub_user_add_ok:
  assumes "13 \<notin> set (user @ name @ pw @ conf @ phone)"
  shows "form_ok (sub_user_add_form d) (sub_user_fields user name pw conf phone) \<longleftrightarrow>
    long 4 20 user \<and> long 2 20 name \<and> long 8 16 pw \<and> conf = pw \<and> long 0 20 phone"
proof -
  let ?S = "sub_user_add_form d" and ?F = "sub_user_fields user name pw conf phone"
  have r: "rules_of ?S (text_field (js ''userId'') 20 user) = [need, (Maxlength, Num 20), (Minlength, Num 4)]"
    "rules_of ?S (text_field (js ''trueName'') 20 name) = [need, (Maxlength, Num 20), (Minlength, Num 2)]"
    "rules_of ?S (text_field (js ''password'') 16 pw) = [need, (Maxlength, Num 16), (Minlength, Num 8)]"
    "rules_of ?S (text_field (js ''confirmPassword'') 16 conf) =
       [need, (Maxlength, Num 16), (Minlength, Num 8), (EqualTo, Target (js ''#password''))]"
    "rules_of ?S (text_field (js ''phone'') 20 phone) = [(Maxlength, Num 20)]"
    by (simp_all add: rule_simps sub_user_add_form_def no_methods_def js_def)
  have es: "v_elements ?S [] ?F = ?F" by (simp add: sub_user_fields_def r)
  show ?thesis
    using assms unfolding form_ok_def es
    by (auto simp: v_message_None sub_user_fields_def r sub_user_target [unfolded sub_user_fields_def])
qed

lemma sub_user_edit_ok:
  assumes "13 \<notin> set (user @ name @ pw @ conf @ phone)"
  shows "form_ok (sub_user_edit_form d) (sub_user_fields user name pw conf phone) \<longleftrightarrow>
    long 4 20 user \<and> long 2 20 name \<and> (trim pw = [] \<or> long 8 16 pw) \<and> conf = pw \<and> long 0 20 phone"
proof -
  let ?S = "sub_user_edit_form d" and ?F = "sub_user_fields user name pw conf phone"
  have r: "rules_of ?S (text_field (js ''userId'') 20 user) = [need, (Maxlength, Num 20), (Minlength, Num 4)]"
    "rules_of ?S (text_field (js ''trueName'') 20 name) = [need, (Maxlength, Num 20), (Minlength, Num 2)]"
    "rules_of ?S (text_field (js ''password'') 16 pw) = [(Maxlength, Num 16), (Minlength, Num 8)]"
    "rules_of ?S (text_field (js ''confirmPassword'') 16 conf) =
       [(Maxlength, Num 16), (Minlength, Num 8), (EqualTo, Target (js ''#password''))]"
    "rules_of ?S (text_field (js ''phone'') 20 phone) = [(Maxlength, Num 20)]"
    by (simp_all add: rule_simps sub_user_edit_form_def no_methods_def js_def)
  have es: "v_elements ?S [] ?F = ?F" by (simp add: sub_user_fields_def r)
  show ?thesis
    using assms unfolding form_ok_def es
    by (auto simp: v_message_None sub_user_fields_def r sub_user_target [unfolded sub_user_fields_def])
qed

text \<open>A new sub user is sent exactly with a name, a true name and a password of the right lengths
  and the password repeated. In editing the password may be left out, and then one that consists of
  blanks passes as well and is sent as it stands.\<close>

lemma sub_user_sent_iff:
  assumes "v_fields s = sub_user_fields user name pw conf phone" and "13 \<notin> set (user @ name @ pw @ conf @ phone)"
  shows "m_posts (addSubUser d url s) = m_posts s @
           (if long 4 20 user \<and> long 2 20 name \<and> long 8 16 pw \<and> conf = pw \<and> long 0 20 phone
            then [(url, serializeArray s)] else [])
       \<and> m_posts (editSubUser d url s) = m_posts s @
           (if long 4 20 user \<and> long 2 20 name \<and> (trim pw = [] \<or> long 8 16 pw) \<and> conf = pw \<and> long 0 20 phone
            then [(url, serializeArray s)] else [])"
  using sub_user_add_ok [OF assms(2), of d] sub_user_edit_ok [OF assms(2), of d]
  by (simp add: addSubUser_def editSubUser_def v_submit_posts assms(1))

subsection \<open>Packages: what is saved\<close>

lemma re_digits_iff: "re_test re_digits v \<longleftrightarrow> v \<noteq> [] \<and> list_all is_digit v"
  unfolding re_digits_def digit_def is_digit_def [abs_def] by (rule re_test_whole [OF denotes_plus_Chr])

lemma sendCount_iff: "sendCount v \<longleftrightarrow> (\<exists>a \<ge> -1. v = int_to_str a)"
  by (auto simp: sendCount_def split: option.splits)

lemma count_ok: "sendCount v \<and> num_ge (to_number v) 0 \<longleftrightarrow> (\<exists>n. v = nat_to_str n)"
proof
  assume "sendCount v \<and> num_ge (to_number v) 0"
  then obtain a where "v = int_to_str a" "a \<ge> 0" by (auto simp: sendCount_iff num_ge_def)
  then show "\<exists>n. v = nat_to_str n" by (intro exI [of _ "nat a"]) (simp add: int_to_str_def)
next
  assume "\<exists>n. v = nat_to_str n"
  then obtain n where "v = int_to_str (int n)" by (auto simp: int_to_str_def)
  then show "sendCount v \<and> num_ge (to_number v) 0" by (auto simp: sendCount_iff num_ge_def intro!: exI [of _ "int n"])
qed

definition type_field :: "jstring \<Rightarrow> v_field" where
  "type_field v = \<lparr>v_name = js ''type'', v_id = js ''type'', v_select = True, v_options = 1, v_raw = v,
     v_visible = True, v_enabled = True, v_title = [], v_markup = []\<rparr>"

definition date_field :: "jstring \<Rightarrow> bool \<Rightarrow> jstring \<Rightarrow> v_field" where
  "date_field i vis v = \<lparr>v_name = i, v_id = i, v_select = False, v_options = 0, v_raw = v,
     v_visible = vis, v_enabled = True, v_title = [], v_markup = [(DateOf, Flag True), (Maxlength, Num 40)]\<rparr>"

text \<open>The fields of a package, the dates visible for a trial.\<close>

record cos_values =
  c_trial :: bool
  c_name :: jstring
  c_users :: jstring
  c_day :: jstring
  c_week :: jstring
  c_month :: jstring
  c_total :: jstring
  c_start :: jstring
  c_end :: jstring

definition cos_fields :: "cos_values \<Rightarrow> v_field list" where
  "cos_fields c =
     [type_field (if c_trial c then js ''0'' else js ''1''), text_field (js ''cosName'') 20 (c_name c),
      text_field (js ''userCount'') 2 (c_users c), text_field (js ''daySend'') 7 (c_day c),
      text_field (js ''weekSend'') 8 (c_week c), text_field (js ''monthSend'') 9 (c_month c),
      text_field (js ''totalSend'') 9 (c_total c), date_field (js ''startTime'') (c_trial c) (c_start c),
      date_field (js ''endTime'') (c_trial c) (c_end c)]"

definition plain :: "cos_values \<Rightarrow> bool" where
  "plain c \<longleftrightarrow> 13 \<notin> set (c_name c @ c_users c @ c_day c @ c_week c @ c_month c @ c_total c @ c_start c @ c_end c)"

definition num_text :: "nat \<Rightarrow> jstring \<Rightarrow> bool" where
  "num_text k v \<longleftrightarrow> (\<exists>n. v = nat_to_str n) \<and> length v \<le> k"

definition date_text :: "(jstring \<Rightarrow> bool) \<Rightarrow> jstring \<Rightarrow> bool" where
  "date_text d v \<longleftrightarrow> trim v = [] \<or> d v \<and> length (trim v) \<le> 40"

lemma date_field_sel [simp]:
  "v_name (date_field i b v) = i" "v_id (date_field i b v) = i" "v_raw (date_field i b v) = v"
  "v_active (date_field i b v) = b" "v_enabled (date_field i b v)"
  "13 \<notin> set v \<Longrightarrow> elementValue (date_field i b v) = v"
  "13 \<notin> set v \<Longrightarrow> required_ok (date_field i b v) \<longleftrightarrow> trim v \<noteq> []"
  "13 \<notin> set v \<Longrightarrow> getLength (date_field i b v) = int (length (trim v))"
  using elementValue_plain [of "date_field i b v"]
  by (simp_all add: required_ok_def getLength_def) (simp_all add: date_field_def v_active_def)

lemma type_field_sel [simp]:
  "v_name (type_field v) = js ''type''" "v_id (type_field v) = js ''type''" "v_raw (type_field v) = v"
  "v_active (type_field v)" "v_enabled (type_field v)" "required_ok (type_field v) \<longleftrightarrow> v \<noteq> []"
  by (simp_all add: type_field_def v_active_def required_ok_def)

lemma cos_rules:
  "rules_of (cos_form d) (type_field v) = [need]"
  "rules_of (cos_form d) (text_field (js ''cosName'') n v) = [need, (Maxlength, Num n)]"
  "rules_of (cos_form d) (text_field (js ''userCount'') n v) = [need, (Maxlength, Num n), (Digits, Flag True), (Min, Num 0)]"
  "rules_of (cos_form d) (date_field (js ''startTime'') b v) = [(DateOf, Flag True), (Maxlength, Num 40)]"
  "rules_of (cos_form d) (date_field (js ''endTime'') b v) = [(DateOf, Flag True), (Maxlength, Num 40)]"
  by (simp_all add: rule_simps cos_form_def Let_def) (simp_all add: type_field_def date_field_def)

lemma count_rules:
  "i \<in> {js ''daySend'', js ''weekSend'', js ''monthSend'', js ''totalSend''} \<Longrightarrow>
     rules_of (cos_form d) (text_field i n v) =
       [need, (Maxlength, Num n), (Custom (js ''sendCount''), Flag True), (Min, Num 0)]"
  by (auto simp: rule_simps cos_form_def Let_def)

lemma nat_to_str_trim [simp]: "trim (nat_to_str n) = nat_to_str n"
  using nat_to_str_digits by (intro trim_digits) (simp add: list_all_iff)

lemma count_message:
  assumes "i \<in> {js ''daySend'', js ''weekSend'', js ''monthSend'', js ''totalSend''}" "13 \<notin> set v"
  shows "v_message (cos_form d) fs (text_field i (int k) v) = None \<longleftrightarrow> num_text k v"
proof -
  have m: "vs_methods (cos_form d) m w = sendCount w" for m w by (simp add: cos_form_def Let_def)
  show ?thesis
  proof (cases "\<exists>n. v = nat_to_str n")
    case True
    with assms(2) count_ok [of v] show ?thesis by (auto simp: v_message_None count_rules [OF assms(1)] m num_text_def)
  next
    case False
    with assms(2) count_ok [of v] show ?thesis by (auto simp: v_message_None count_rules [OF assms(1)] m num_text_def)
  qed
qed

lemma users_message:
  assumes "13 \<notin> set v"
  shows "v_message (cos_form d) fs (text_field (js ''userCount'') (int k) v) = None \<longleftrightarrow>
    v \<noteq> [] \<and> list_all is_digit v \<and> length v \<le> k"
  using assms to_number_digits [of v] trim_digits [of v]
  by (auto simp: v_message_None cos_rules re_digits_iff num_ge_def)

lemma date_message:
  assumes "i \<in> {js ''startTime'', js ''endTime''}" "13 \<notin> set v"
  shows "v_message (cos_form d) fs (date_field i b v) = None \<longleftrightarrow> date_text d v"
proof -
  have m: "vs_date (cos_form d) = d" by (simp add: cos_form_def Let_def)
  show ?thesis
    using assms by (auto simp: v_message_None cos_rules m date_text_def)
qed

lemma cos_form_ok:
  assumes "plain c"
  shows "form_ok (cos_form d) (cos_fields c) \<longleftrightarrow>
    trim (c_name c) \<noteq> [] \<and> length (trim (c_name c)) \<le> 20
    \<and> c_users c \<noteq> [] \<and> list_all is_digit (c_users c) \<and> length (c_users c) \<le> 2
    \<and> num_text 7 (c_day c) \<and> num_text 8 (c_week c) \<and> num_text 9 (c_month c) \<and> num_text 9 (c_total c)
    \<and> (c_trial c \<longrightarrow> date_text d (c_start c) \<and> date_text d (c_end c))"
proof -
  have p: "13 \<notin> set (c_name c)" "13 \<notin> set (c_users c)" "13 \<notin> set (c_day c)" "13 \<notin> set (c_week c)"
    "13 \<notin> set (c_month c)" "13 \<notin> set (c_total c)" "13 \<notin> set (c_start c)" "13 \<notin> set (c_end c)"
    using assms by (auto simp: plain_def)
  have es: "v_elements (cos_form d) [] (cos_fields c) = (if c_trial c then cos_fields c else take 7 (cos_fields c))"
    by (simp add: cos_fields_def cos_rules count_rules)
  have n: "v_message (cos_form d) fs (text_field (js ''cosName'') 20 (c_name c)) = None \<longleftrightarrow>
      trim (c_name c) \<noteq> [] \<and> length (trim (c_name c)) \<le> 20"
    and t: "v_message (cos_form d) fs (type_field v) = None \<longleftrightarrow> v \<noteq> []" for fs v
    using p(1) by (auto simp: v_message_None cos_rules)
  note counts = count_message [where k = 7, simplified] count_message [where k = 8, simplified]
    count_message [where k = 9, simplified] users_message [where k = 2, simplified]
  show ?thesis
    unfolding form_ok_def es using p by (simp add: cos_fields_def n t counts date_message)
qed

lemma value_of_cos:
  assumes "v_fields s = cos_fields c"
  shows "value_of (js ''type'') s = (if c_trial c then js ''0'' else js ''1'')"
    and "value_of (js ''userCount'') s = c_users c"
    and "value_of (js ''startTime'') s = c_start c" and "value_of (js ''endTime'') s = c_end c"
  using assms by (simp_all add: value_of_def by_id_def cos_fields_def)

lemma type_number: "to_number (js ''0'') = Fin 0" "to_number (js ''1'') = Fin 1"
  using to_number_digits [of "js ''0''"] to_number_digits [of "js ''1''"]
  by (simp_all add: js_def is_digit_def digits_val_def)

lemma str_gt_digits:
  "list_all is_digit v \<Longrightarrow> v \<noteq> [] \<Longrightarrow> str_gt v (of_nat k) \<longleftrightarrow> digits_val v > k"
  by (simp add: str_gt_def to_number_digits)

definition cos_accepted :: "(jstring \<Rightarrow> bool) \<Rightarrow> cos_values \<Rightarrow> bool" where
  "cos_accepted d c \<longleftrightarrow>
    trim (c_name c) \<noteq> [] \<and> length (trim (c_name c)) \<le> 20
    \<and> c_users c \<noteq> [] \<and> list_all is_digit (c_users c) \<and> length (c_users c) \<le> 2
    \<and> digits_val (c_users c) \<le> (if c_trial c then 1 else 50)
    \<and> num_text 7 (c_day c) \<and> num_text 8 (c_week c) \<and> num_text 9 (c_month c) \<and> num_text 9 (c_total c)
    \<and> (c_trial c \<longrightarrow> date_text d (c_start c) \<and> date_text d (c_end c))"

text \<open>C17: A package is sent exactly if it has a name, at most one sub user for a trial and at most 50
  otherwise, and four limits written as plain numbers without sign or leading zeros, although the
  site's own rule for them also lets minus one pass, and if the dates of a trial are readable. A
  trial without its dates is sent all the same, after a message that they may not be empty.\<close>

theorem package_sent_iff:
  assumes "v_fields s = cos_fields c" and "plain c"
  shows "m_posts (saveCos d action s) =
           m_posts s @ (if cos_accepted d c then [(action, serializeArray s)] else [])
       \<and> (cos_accepted d c \<longrightarrow> m_alerts (saveCos d action s) = m_alerts s @
           (if c_trial c \<and> (c_start c = [] \<or> c_end c = []) then [[0x8BD5, 0x7528, 0x65F6, 0x95F4, 0x4E0D, 0x80FD, 0x4E3A, 0x7A7A]] else []))"
proof (cases "form_ok (cos_form d) (cos_fields c)")
  case False
  then show ?thesis
    using cos_form_ok [OF assms(2), of d] v_form_ok [of "cos_form d" s] assms(1)
    by (auto simp: saveCos_def split_beta cos_accepted_def)
next
  case True
  let ?s = "snd (v_form (cos_form d) s)"
  have F: "v_fields ?s = cos_fields c" using assms(1) by simp
  have u: "list_all is_digit (c_users c)" "c_users c \<noteq> []" using True cos_form_ok [OF assms(2), of d] by auto
  have acc: "cos_accepted d c \<longleftrightarrow> digits_val (c_users c) \<le> (if c_trial c then 1 else 50)"
    using True cos_form_ok [OF assms(2), of d] by (auto simp: cos_accepted_def)
  have g: "str_gt (c_users c) 1 \<longleftrightarrow> digits_val (c_users c) > 1" "str_gt (c_users c) 50 \<longleftrightarrow> digits_val (c_users c) > 50"
    using str_gt_digits [OF u, of 1] str_gt_digits [OF u, of 50] by simp_all
  have "saveCos d action s = cos_checked action ?s"
    using True assms(1) v_form_ok [of "cos_form d" s] by (simp add: saveCos_def split_beta)
  moreover have "serializeArray (m_alert m ?s) = serializeArray s" for m
    using serialize_form [of "cos_form d" s] by (simp add: serializeArray_def m_alert_def)
  ultimately show ?thesis
    unfolding acc
    by (auto simp: cos_checked_def Let_def value_of_cos [OF F] type_number g m_alert_def focus_el_def
        send_form_def set_disabled_def show_el_def)
qed

definition cos_example :: cos_values where
  "cos_example = \<lparr>c_trial = True, c_name = js ''trial'', c_users = js ''1'', c_day = nat_to_str 100, c_week = nat_to_str 200,
     c_month = nat_to_str 300, c_total = nat_to_str 300, c_start = [], c_end = []\<rparr>"

theorem package_sent_iff_witness:
  "m_posts (saveCos (\<lambda>v. False) (js ''/cos/save'') (v_page0 (cos_fields cos_example))) =
     [(js ''/cos/save'', serializeArray (v_page0 (cos_fields cos_example)))]
   \<and> m_alerts (saveCos (\<lambda>v. False) (js ''/cos/save'') (v_page0 (cos_fields cos_example))) = [[0x8BD5, 0x7528, 0x65F6, 0x95F4, 0x4E0D, 0x80FD, 0x4E3A, 0x7A7A]]"
proof -
  have l: "length (nat_to_str 100) = 3" "length (nat_to_str 200) = 3" "length (nat_to_str 300) = 3"
    by (simp_all add: nat_to_str.simps)
  have "13 \<notin> set (nat_to_str n)" for n using nat_to_str_digits [of n] by (auto simp: is_digit_def)
  then have "plain cos_example" by (simp add: plain_def cos_example_def) (simp add: js_def)
  moreover have "cos_accepted (\<lambda>v. False) cos_example"
    using l by (auto simp: cos_accepted_def cos_example_def num_text_def date_text_def js_def is_digit_def digits_val_def
        trim_def trim_left_def is_ws_def)
  ultimately show ?thesis
    using package_sent_iff [of "v_page0 (cos_fields cos_example)" cos_example "\<lambda>v. False" "js ''/cos/save''"]
    by (simp add: cos_example_def)
qed

subsection \<open>Accounts\<close>

lemma checkRobots_more:
  "m_posts (snd (checkRobots s)) = m_posts s" "v_fields (snd (checkRobots s)) = v_fields s"
  "m_extra (snd (checkRobots s)) = m_extra s" "robots (snd (checkRobots s)) = robots s"
  by (simp_all add: checkRobots_def focus_el_def messagebox_def split: option.splits)

lemma pass_ok_more:
  "m_posts (snd (pass_ok p s)) = m_posts s" "v_fields (snd (pass_ok p s)) = v_fields s"
  "m_extra (snd (pass_ok p s)) = m_extra s" "robots (snd (pass_ok p s)) = robots s"
  by (simp_all add: pass_ok_def focus_el_def messagebox_def)

lemma account_pass_more:
  "m_posts (snd (account_pass a p s)) = m_posts s" "v_fields (snd (account_pass a p s)) = v_fields s"
  "m_extra (snd (account_pass a p s)) = m_extra s" "robots (snd (account_pass a p s)) = robots s"
  by (simp_all add: account_pass_def pass_ok_more focus_el_def messagebox_def)

lemma checkRobots_passes:
  "fst (checkRobots s) \<longleftrightarrow> (\<exists>r \<in> set (robots s). snd r \<noteq> []) \<and> (\<forall>r \<in> set (robots s). snd r = [] \<or> isEmail (snd r))"
  using checkRobots_iff [of s] by (simp add: list_all_iff)

lemma pass_ok_iff: "fst (pass_ok p s) \<longleftrightarrow> p = [] \<or> strip_ws p \<noteq> []"
  by (simp add: pass_ok_def)

lemmas account_simps = v_submit_posts case_prod_beta value_of_def serializeArray_def

text \<open>An account is sent exactly if no rule of its form fails, its password does not consist of
  blanks only and, for an account that sends, there is a sender and every sender given is an address;
  an account that uses the interface with a trigger of another kind has to name the kind, unless a
  password is given: then the test is skipped.\<close>

lemma account_sent_iff:
  "m_posts (saveOperate d url s) = m_posts s @
     (if form_ok (operate_form d) (v_fields s)
         \<and> (\<exists>r \<in> set (robots s). snd r \<noteq> []) \<and> (\<forall>r \<in> set (robots s). snd r = [] \<or> isEmail (snd r))
         \<and> (value_of (js ''password'') s = [] \<or> strip_ws (value_of (js ''password'') s) \<noteq> [])
      then [(url, serializeArray s)] else [])
   \<and> m_posts (saveReadonly d url s) = m_posts s @
     (if form_ok (readonly_form d) (v_fields s)
         \<and> (value_of (js ''password'') s = [] \<or> strip_ws (value_of (js ''password'') s) \<noteq> [])
      then [(url, serializeArray s)] else [])
   \<and> m_posts (saveAccount d a url s) = m_posts s @
     (if form_ok (account_form d) (v_fields s)
         \<and> (if value_of (js ''password'') s \<noteq> [] then strip_ws (value_of (js ''password'') s) \<noteq> []
            else isNeedApi a = Some (js ''yes'') \<and> triggerType a = Some [0x5176, 0x4ED6] \<longrightarrow> strip_ws (otherTriggerType a) \<noteq> [])
      then [(url, serializeArray s)] else [])"
proof -
  have o: "m_posts (saveOperate d url s) = m_posts s @
     (if form_ok (operate_form d) (v_fields s) \<and> fst (checkRobots s) \<and> fst (pass_ok (value_of (js ''password'') s) s)
      then [(url, serializeArray s)] else [])"
  proof -
    have c: "fst (checkRobots (snd (v_form S s))) = fst (checkRobots s)" for S by (simp add: checkRobots_passes)
    show ?thesis
      by (simp add: saveOperate_def account_simps checkRobots_more pass_ok_more c pass_ok_iff split: bool.splits)
  qed
  have r: "m_posts (saveReadonly d url s) = m_posts s @
     (if form_ok (readonly_form d) (v_fields s) \<and> fst (pass_ok (value_of (js ''password'') s) s)
      then [(url, serializeArray s)] else [])"
    by (simp add: saveReadonly_def account_simps pass_ok_more pass_ok_iff split: bool.splits)
  have a: "m_posts (saveAccount d a url s) = m_posts s @
     (if form_ok (account_form d) (v_fields s) \<and> fst (account_pass a (value_of (js ''password'') s) s)
      then [(url, serializeArray s)] else [])"
  proof -
    have c: "fst (account_pass a p (snd (v_form S s))) = fst (account_pass a p s)" for S p
      by (simp add: account_pass_def pass_ok_def)
    show ?thesis
      by (simp add: saveAccount_def account_simps account_pass_more c split: bool.splits)
  qed
  show ?thesis
    unfolding o r a by (simp add: checkRobots_passes pass_ok_iff account_pass_def)
qed

end
