(* ===== verification/MasterProps.thy ===== *)
theory MasterProps
  imports MasterForms Selection
begin

text \<open>
  Properties of recipients on the operators' site: the choice of properties in \<open>common/common.js\<close>
  (\<open>addAssProp\<close>, \<open>addPropSelect\<close>, \<open>removeProp\<close>), which is a multiple choice that allows one property
  of each category and several of the category of interests, and the pages that use it
  (\<open>property/labelImport.js\<close>, \<open>labelImport2.js\<close>, \<open>labelExport.js\<close>, \<open>export.js\<close>, \<open>labelEdit.js\<close>). The
  arrays of rows and the fields behind them are those of \<open>Selection\<close>; the functions on them are the
  same on both sites.
\<close>

subsection \<open>Choosing\<close>

definition hobby :: jstring where
  "hobby = [0x884C, 0x4E1A, 0x5174, 0x8DA3]"

abbreviation m_tagLimit :: nat where "m_tagLimit \<equiv> 10"

text \<open>The ids whose items in the box carry the class \<open>selected\<close>.\<close>

definition m_addPropSelect :: "picker \<Rightarrow> jstring list" where
  "m_addPropSelect p = (if pk_value p = [] then [] else split_chr 44 (pk_value p))"

definition id_cell :: "anchor \<Rightarrow> jsval" where
  "id_cell a = (case an_id a of None \<Rightarrow> JUndef | Some i \<Rightarrow> JStr i)"

definition marked :: "jstring list \<Rightarrow> anchor \<Rightarrow> bool" where
  "marked marks a = (case an_id a of None \<Rightarrow> False | Some i \<Rightarrow> i \<in> set marks)"

definition opt_cell :: "jstring option \<Rightarrow> jsval" where
  "opt_cell x = (case x of None \<Rightarrow> JUndef | Some t \<Rightarrow> JStr t)"

text \<open>The new array, or \<open>None\<close> where the limit stops it; \<open>info_of\<close> is \<open>data-info\<close> of the item with an
  id.\<close>

definition prop_rows :: "(jstring \<Rightarrow> jstring option) \<Rightarrow> anchor \<Rightarrow> jstring list \<Rightarrow> row list \<Rightarrow> row list option" where
  "prop_rows info_of a marks itemArr =
     (let cate_info = an_info a; val = id_cell a; txt = JStr (an_text a)
      in if marked marks a then Some (removeArrItem (an_text a) itemArr)
         else if length itemArr \<ge> m_tagLimit then None
         else if cate_info = Some hobby then Some (filterArr itemArr [val, txt, opt_cell cate_info])
         else Some (filterArr (splice_scan (\<lambda>r. info_of (row_id r) = cate_info) itemArr) [val, txt]))"

definition set_rows ::
  "(jstring \<Rightarrow> int) \<Rightarrow> (picker \<Rightarrow> picker) \<Rightarrow> row list \<Rightarrow> picker \<Rightarrow> jstring list \<times> picker" where
  "set_rows sh posfix arr p =
     (let p = addItemInput sh posfix arr (p\<lparr>pk_sub := arr\<rparr>) in (m_addPropSelect p, p))"

definition m_addAssProp ::
  "(jstring \<Rightarrow> jstring option) \<Rightarrow> (jstring \<Rightarrow> int) \<Rightarrow> (picker \<Rightarrow> picker) \<Rightarrow> anchor \<Rightarrow> jstring list \<times> picker
     \<Rightarrow> (jstring list \<times> picker) option" where
  "m_addAssProp info_of sh posfix a mp =
     map_option (\<lambda>arr. set_rows sh posfix arr (snd mp)) (prop_rows info_of a (fst mp) (pk_sub (snd mp)))"

definition m_removeProp ::
  "(jstring \<Rightarrow> int) \<Rightarrow> (picker \<Rightarrow> picker) \<Rightarrow> jstring \<Rightarrow> picker \<Rightarrow> jstring list \<times> picker" where
  "m_removeProp sh posfix item p = set_rows sh posfix (removeArrItem item (pk_sub p)) p"

text \<open>The page: the choice, the marks in the box, and the messages.\<close>

record prop_page = v_page +
  pp :: picker
  pp_marks :: "jstring list"

definition prop_click ::
  "browser \<Rightarrow> (jstring \<Rightarrow> jstring option) \<Rightarrow> (jstring \<Rightarrow> int) \<Rightarrow> (picker \<Rightarrow> picker) \<Rightarrow> anchor
     \<Rightarrow> 'a prop_page_scheme \<Rightarrow> 'a prop_page_scheme" where
  "prop_click b info_of sh posfix a s =
     (case m_addAssProp info_of sh posfix a (pp_marks s, pp s) of
        None \<Rightarrow> m_fail b [0x9009, 0x62E9, 0x6807, 0x7B7E, 0x6570, 0x4E0D, 0x80FD, 0x5927, 0x4E8E, 0x31, 0x30, 0x4E2A, 0xFF01] s
      | Some (marks, p) \<Rightarrow> s\<lparr>pp_marks := marks, pp := p\<rparr>)"

text \<open>Every key is kept from the field; backspace removes the item at the cursor.\<close>

definition prop_keydown ::
  "(jstring \<Rightarrow> int) \<Rightarrow> (picker \<Rightarrow> picker) \<Rightarrow> nat \<Rightarrow> cursor \<Rightarrow> 'a prop_page_scheme \<Rightarrow> 'a prop_page_scheme" where
  "prop_keydown sh posfix keyCode c s =
     (if keyCode = 8
      then (let (marks, p) = m_removeProp sh posfix (getDeleteItem (pk_text (pp s)) (getCursorPosition (pk_text (pp s)) c)) (pp s)
            in s\<lparr>pp_marks := marks, pp := p\<rparr>)
      else s)"

subsection \<open>Import by a task\<close>

text \<open>\<open>has_prop\<close>: the page has the choice (\<open>$("#assProp").size()\<close>).\<close>

definition bad_task :: "'a v_page_scheme \<Rightarrow> 'a v_page_scheme" where
  "bad_task s = focus_el (js ''#task'') (messagebox [0x8BF7, 0x8F93, 0x5165, 0x6B63, 0x786E, 0x7684, 0x4EFB, 0x52A1, 0x49, 0x44, 0xFF01] 0 2000 s)"

definition importPropLib :: "jstring \<Rightarrow> bool \<Rightarrow> jstring \<Rightarrow> 'a prop_page_scheme \<Rightarrow> 'a prop_page_scheme" where
  "importPropLib action has_prop taskId s =
     (let array = split_chr 46 taskId
      in if isEmpty taskId then bad_task s
         else if length array \<noteq> 3 then bad_task s
         else if isNaN (array ! 0) \<or> isNaN (array ! 1) \<or> isNaN (array ! 2) then bad_task s
         else if has_prop \<and> findArrItem (pk_sub (pp s)) 2 (JStr hobby) = -1
         then messagebox [0x8BF7, 0x81F3, 0x5C11, 0x8BBE, 0x7F6E, 0x4E00, 0x9879, 0x884C, 0x4E1A, 0x5174, 0x8DA3, 0x5173, 0x8054, 0x5C5E, 0x6027, 0xFF01] 0 2000 s
         else send_form (js ''#btn_save'') action s)"

text \<open>The handler of the answer differs from the others in one time.\<close>

definition import_answered :: "m_answer \<Rightarrow> 'a v_page_scheme \<Rightarrow> 'a v_page_scheme" where
  "import_answered data s =
     (case data of
        NoData \<Rightarrow> s
      | Answer res mess \<Rightarrow>
          if res = Some (js ''success'')
          then delay (js ''toPropertyIndex()'') 2000 (messagebox (shown_msg mess) 1 2000 s)
          else (case mess of
                  None \<Rightarrow> refused (js ''#btn_save'') None s
                | Some m \<Rightarrow> messagebox m 0 2000 (hide_el (js ''#prompt'') (set_disabled (js ''#btn_save'') False s))))"

text \<open>The older page checks the id by a rule of the validator that only counts the parts.\<close>

definition taskid :: "jstring \<Rightarrow> bool" where
  "taskid v \<longleftrightarrow> length (split_chr 46 v) = 3"

definition task_form :: "(jstring \<Rightarrow> bool) \<Rightarrow> v_settings" where
  "task_form d =
     \<lparr>vs_rules = [(js ''task'', [need, (Custom (js ''taskid''), Flag True)])],
      vs_messages = [(js ''task'', Whole [0x8BF7, 0x8F93, 0x5165, 0x6B63, 0x786E, 0x7684, 0x4EFB, 0x52A1, 0x49, 0x44])],
      vs_methods = (\<lambda>m v. taskid v), vs_method_msg = (\<lambda>m. [0x8BF7, 0x8F93, 0x5165, 0x5408, 0x6CD5, 0x7684, 0x503C]), vs_date = d\<rparr>"

definition importPropLib2 :: "(jstring \<Rightarrow> bool) \<Rightarrow> jstring \<Rightarrow> bool \<Rightarrow> nat \<Rightarrow> 'a prop_page_scheme \<Rightarrow> 'a prop_page_scheme" where
  "importPropLib2 d action has_prop hobbies s =
     v_submit (task_form d)
       (\<lambda>s. if has_prop \<and> hobbies = 0 then messagebox [0x8BF7, 0x81F3, 0x5C11, 0x8BBE, 0x7F6E, 0x4E00, 0x9879, 0x884C, 0x4E1A, 0x5174, 0x8DA3, 0x5173, 0x8054, 0x5C5E, 0x6027, 0xFF01] 0 3000 s
            else send_form (js ''#btn_save'') action s) s"

subsection \<open>Labels and export\<close>

definition saveLabel :: "jstring \<Rightarrow> jstring \<Rightarrow> 'a v_page_scheme \<Rightarrow> 'a v_page_scheme" where
  "saveLabel action labelName s =
     (if isEmpty labelName then messagebox [0x8BF7, 0x8F93, 0x5165, 0x6807, 0x7B7E, 0x540D, 0x79F0, 0xFF01] 0 3000 (focus_el (js ''#labelName'') s)
      else send_form (js ''#btn_save'') action s)"

definition label_list_url :: "jstring \<Rightarrow> jstring \<Rightarrow> jstring" where
  "label_list_url url i = url @ js ''?categoryId='' @ i"

text \<open>The page of the export: the ids and the sum that the choice shows, and what the last filtering
  gave.\<close>

record label_export = v_page +
  le_enTagId :: jstring
  le_personSum :: jstring
  le_path :: jstring
  le_counter :: jstring
  le_lcId :: jstring

definition m_closeDialog :: "'a ui_scheme \<Rightarrow> 'a ui_scheme" where
  "m_closeDialog u = (hide_el (js ''.popBox'') u)\<lparr>covers := covers u - 1\<rparr>"

definition statNum :: "browser \<Rightarrow> jstring \<Rightarrow> 'a label_export_scheme \<Rightarrow> 'a label_export_scheme" where
  "statNum b action s =
     (if le_enTagId s = [] then messagebox [0x8BF7, 0x81F3, 0x5C11, 0x9009, 0x62E9, 0x4E00, 0x4E2A, 0x5305, 0x542B, 0x6807, 0x7B7E, 0xFF01] 0 3000 s
      else if parse_int (le_personSum s) = Some 0 then messagebox [0x6536, 0x4EF6, 0x4EBA, 0x603B, 0x6570, 0x4E3A, 0x30] 0 3000 s
      else (let s = m_popTips b (js ''#remindCustom'') [0x5BFC, 0x51FA, 0x6570, 0x636E] [0x6B63, 0x5728, 0x7B5B, 0x9009, 0x20, 0x3C, 0x69, 0x6D, 0x67, 0x20, 0x73, 0x72, 0x63, 0x3D, 0x27, 0x2F, 0x72, 0x65, 0x73, 0x6F, 0x75, 0x72, 0x63, 0x65, 0x73, 0x2F, 0x69, 0x6D, 0x67, 0x2F, 0x6C, 0x6F, 0x61, 0x64, 0x69, 0x6E, 0x67, 0x2E, 0x67, 0x69, 0x66, 0x27, 0x2F, 0x3E] False s;
                s' = set_disabled (js ''#export_btn'') True s
            in s'\<lparr>m_posts := m_posts s' @ [(action, serializeArray s)]\<rparr>))"

definition stat_answered ::
  "browser \<Rightarrow> m_answer \<Rightarrow> jstring \<Rightarrow> jstring \<Rightarrow> jstring \<Rightarrow> 'a label_export_scheme \<Rightarrow> 'a label_export_scheme" where
  "stat_answered b data lcId counter fileName s =
     (let s = set_disabled (js ''#export_btn'') False s
      in case data of
           NoData \<Rightarrow> s
         | Answer res mess \<Rightarrow>
             if res = Some (js ''success'')
             then m_popTips b (js ''#remindCustom'') [0x5BFC, 0x51FA, 0x6570, 0x636E]
                    ([0x3C, 0x70, 0x3E, 0x3C, 0x73, 0x74, 0x72, 0x6F, 0x6E, 0x67, 0x3E, 0x5904, 0x7406, 0x6210, 0x529F, 0xFF01, 0x3C, 0x2F, 0x73, 0x74, 0x72, 0x6F, 0x6E, 0x67, 0x3E, 0x3C, 0x2F, 0x70, 0x3E, 0x3C, 0x70, 0x3E, 0x7B5B, 0x9009, 0x6210, 0x529F, 0xFF1A, 0x5F53, 0x524D, 0x5171, 0x7B5B, 0x9009, 0x3C, 0x73, 0x70, 0x61, 0x6E, 0x20, 0x63, 0x6C, 0x61, 0x73, 0x73, 0x3D, 0x27, 0x72, 0x65, 0x64, 0x27, 0x3E] @ counter @ [0x3C, 0x2F, 0x73, 0x70, 0x61, 0x6E, 0x3E, 0x4E2A, 0x6536, 0x4EF6, 0x4EBA, 0x3C, 0x2F, 0x70, 0x3E]) True
                    (s\<lparr>le_lcId := lcId, le_path := fileName, le_counter := counter\<rparr>)
             else messagebox (case mess of None \<Rightarrow> [0x65E0, 0x6CD5, 0x83B7, 0x53D6, 0x54CD, 0x5E94, 0xFF0C, 0x6709, 0x53EF, 0x80FD, 0x8D26, 0x53F7, 0x5DF2, 0x5728, 0x522B, 0x5904, 0x767B, 0x5F55] | Some m \<Rightarrow> m) 0 3000
                    (hide_el (js ''#prompt'') (m_closeDialog s)))"

definition downloadFile :: "'a label_export_scheme \<Rightarrow> 'a label_export_scheme" where
  "downloadFile s =
     (if to_number (le_counter s) = Fin 0
      then messagebox [0x7B5B, 0x9009, 0x7ED3, 0x679C, 0x4E3A, 0x30, 0xFF0C, 0x65E0, 0x6570, 0x636E, 0x53EF, 0x5BFC, 0x51FA, 0xFF01] 0 3000 (m_closeDialog s)
      else (m_closeDialog s)\<lparr>m_posts := m_posts s @ [(js ''#addPath'', [(js ''exportPath'', le_path s), (js ''counter'', le_counter s)])]\<rparr>)"

subsection \<open>One property of a category\<close>

definition of_category :: "(jstring \<Rightarrow> jstring option) \<Rightarrow> jstring option \<Rightarrow> row \<Rightarrow> bool" where
  "of_category info_of c r \<longleftrightarrow> info_of (row_id r) = c"

definition one_each :: "(jstring \<Rightarrow> jstring option) \<Rightarrow> row list \<Rightarrow> bool" where
  "one_each info_of arr \<longleftrightarrow> (\<forall>c. c \<noteq> Some hobby \<longrightarrow> length (filter (of_category info_of c) arr) \<le> 1)"

definition props_ok :: "(jstring \<Rightarrow> jstring option) \<Rightarrow> row list \<Rightarrow> bool" where
  "props_ok info_of arr \<longleftrightarrow> rows_ok arr \<and> length arr \<le> m_tagLimit \<and> one_each info_of arr"

lemma filter_skip_le: "length (filter Q (skip_filter P xs)) \<le> length (filter Q xs)"
  by (induction P xs rule: skip_filter.induct) auto

lemma filter_scan_le: "length (filter Q (splice_scan P xs)) \<le> length (filter Q xs)"
  by (simp add: splice_scan_eq filter_skip_le)

lemma length_scan_le: "length (splice_scan P xs) \<le> length xs"
  using filter_scan_le [of "\<lambda>x. True"] by simp

lemma single_no_adjacent: "length (filter P xs) \<le> 1 \<Longrightarrow> no_adjacent P xs"
  by (induction P xs rule: no_adjacent.induct) (auto split: if_splits)

lemma props_ok_scan: "props_ok info_of arr \<Longrightarrow> props_ok info_of (splice_scan P arr)"
  using filter_scan_le [of _ P arr] length_scan_le [of P arr]
  unfolding props_ok_def one_each_def by (auto simp: rows_ok_splice_scan intro: le_trans)

lemma props_ok_remove: "props_ok info_of arr \<Longrightarrow> props_ok info_of (removeArrItem t arr)"
  by (simp add: removeArrItem_def props_ok_scan)

lemma props_ok_Nil [simp]: "props_ok info_of []"
  by (simp add: props_ok_def one_each_def)

lemma filterArr_length: "rows_ok arr \<Longrightarrow> row_good new \<Longrightarrow> length (filterArr arr new) \<le> Suc (length arr)"
  using length_filter_le [of "\<lambda>r. row_id r \<noteq> row_id new" arr] by (simp add: filterArr_filter)

lemma props_ok_filterArr:
  assumes "props_ok info_of arr" "row_good new" "length arr < m_tagLimit"
    and "info_of (row_id new) = Some hobby \<or> filter (of_category info_of (info_of (row_id new))) arr = []"
  shows "props_ok info_of (filterArr arr new)"
proof -
  have r: "rows_ok arr" using assms(1) by (simp add: props_ok_def)
  have "length (filter (of_category info_of c) (filterArr arr new)) \<le> 1" if c: "c \<noteq> Some hobby" for c
  proof -
    let ?A = "filter (\<lambda>r. row_id r \<noteq> row_id new) arr"
    have le: "length (filter (of_category info_of c) ?A) \<le> length (filter (of_category info_of c) arr)"
      by (induction arr) auto
    have one: "length (filter (of_category info_of c) arr) \<le> 1" using assms(1) c by (auto simp: props_ok_def one_each_def)
    show ?thesis
    proof (cases "info_of (row_id new) = c")
      case True
      with assms(4) c have "length (filter (of_category info_of c) arr) = 0" by auto
      with le have "filter (of_category info_of c) ?A = []" by simp
      then show ?thesis by (simp add: filterArr_filter [OF r assms(2)])
    next
      case False
      then have "filter (of_category info_of c) [new] = []" by (simp add: of_category_def)
      with le one show ?thesis by (simp add: filterArr_filter [OF r assms(2)])
    qed
  qed
  with filterArr_length [OF r assms(2)] assms show ?thesis
    by (auto simp: props_ok_def one_each_def rows_ok_filterArr)
qed

text \<open>An item of the box: it has an id in canonical form, and its category is the one that the
  document gives for the id.\<close>

definition item_ok :: "(jstring \<Rightarrow> jstring option) \<Rightarrow> anchor \<Rightarrow> bool" where
  "item_ok info_of a \<longleftrightarrow> (\<exists>i. an_id a = Some i \<and> canonical (JStr i) \<and> info_of i = an_info a)"

lemma prop_rows_ok:
  assumes "props_ok info_of arr" "item_ok info_of a" "prop_rows info_of a marks arr = Some arr'"
  shows "props_ok info_of arr'"
proof -
  obtain i where i: "an_id a = Some i" "canonical (JStr i)" "info_of i = an_info a"
    using assms(2) by (auto simp: item_ok_def)
  have new: "row_good (id_cell a # cs)" "row_id (id_cell a # cs) = i" for cs
    using i by (simp_all add: row_good_def row_id_def id_cell_def to_str_def)
  consider "marked marks a" "arr' = removeArrItem (an_text a) arr"
    | "length arr < m_tagLimit" "an_info a = Some hobby" "arr' = filterArr arr [id_cell a, JStr (an_text a), opt_cell (an_info a)]"
    | "length arr < m_tagLimit" "an_info a \<noteq> Some hobby"
      "arr' = filterArr (splice_scan (of_category info_of (an_info a)) arr) [id_cell a, JStr (an_text a)]"
    using assms(3) by (auto simp: prop_rows_def Let_def of_category_def [abs_def] split: if_splits)
  then show ?thesis
  proof cases
    case 1
    then show ?thesis using assms(1) by (simp add: props_ok_remove)
  next
    case 2
    then show ?thesis using assms(1) new i by (auto intro!: props_ok_filterArr)
  next
    case 3
    let ?P = "of_category info_of (an_info a)"
    have "length (filter ?P arr) \<le> 1" using assms(1) 3(2) by (auto simp: props_ok_def one_each_def)
    then have "splice_scan ?P arr = filter (\<lambda>r. \<not> ?P r) arr"
      by (intro splice_scan_filter single_no_adjacent)
    then have "filter ?P (splice_scan ?P arr) = []" by simp
    then show ?thesis
      using 3 assms(1) new i length_scan_le [of ?P arr]
      by (auto intro!: props_ok_filterArr props_ok_scan)
  qed
qed

datatype prop_input = PClick anchor | PKey nat cursor

definition prop_event ::
  "browser \<Rightarrow> (jstring \<Rightarrow> jstring option) \<Rightarrow> (jstring \<Rightarrow> int) \<Rightarrow> (picker \<Rightarrow> picker) \<Rightarrow> prop_input
     \<Rightarrow> 'a prop_page_scheme \<Rightarrow> 'a prop_page_scheme" where
  "prop_event b info_of sh posfix ev s =
     (case ev of PClick a \<Rightarrow> prop_click b info_of sh posfix a s | PKey k c \<Rightarrow> prop_keydown sh posfix k c s)"

definition prop_page_ok :: "(jstring \<Rightarrow> jstring option) \<Rightarrow> 'a prop_page_scheme \<Rightarrow> bool" where
  "prop_page_ok info_of s \<longleftrightarrow>
     props_ok info_of (pk_sub (pp s)) \<and> picker_sync (pp s) \<and> pp_marks s = m_addPropSelect (pp s)"

lemma set_rows_ok:
  assumes "layout_only posfix" "set_rows sh posfix arr p = (marks, q)"
  shows "pk_sub q = arr" "picker_sync q" "marks = m_addPropSelect q"
  using assms addItemInput_sync [OF assms(1), of sh arr p]
  by (auto simp: set_rows_def Let_def addItemInput_fields)

lemma m_fail_more: "ui.more (m_fail b m s) = ui.more s"
  by (simp add: m_error_message_fields)

lemma m_fail_props [simp]: "pp (m_fail b m s) = pp s" "pp_marks (m_fail b m s) = pp_marks s"
  using m_fail_more [of b m s] by (cases "m_fail b m s"; cases s; simp)+

lemma prop_event_ok:
  assumes "prop_page_ok info_of s" "layout_only posfix" "\<forall>a. ev = PClick a \<longrightarrow> item_ok info_of a"
  shows "prop_page_ok info_of (prop_event b info_of sh posfix ev s)"
proof (cases ev)
  case (PClick a)
  show ?thesis
  proof (cases "prop_rows info_of a (pp_marks s) (pk_sub (pp s))")
    case None
    then show ?thesis using assms(1) by (simp add: PClick prop_event_def prop_click_def m_addAssProp_def prop_page_ok_def)
  next
    case (Some arr)
    obtain marks q where q: "set_rows sh posfix arr (pp s) = (marks, q)" by fastforce
    from Some assms PClick have "props_ok info_of arr"
      by (auto simp: prop_page_ok_def intro: prop_rows_ok)
    with set_rows_ok [OF assms(2) q] Some q show ?thesis
      by (simp add: PClick prop_event_def prop_click_def m_addAssProp_def prop_page_ok_def)
  qed
next
  case (PKey k c)
  let ?arr = "removeArrItem (getDeleteItem (pk_text (pp s)) (getCursorPosition (pk_text (pp s)) c)) (pk_sub (pp s))"
  obtain marks q where q: "set_rows sh posfix ?arr (pp s) = (marks, q)" by fastforce
  with set_rows_ok [OF assms(2) q] assms(1) show ?thesis
    by (auto simp: PKey prop_event_def prop_keydown_def m_removeProp_def prop_page_ok_def props_ok_remove)
qed

text \<open>C7: Whatever is clicked and deleted in the choice of properties, starting from an empty one: at most
  ten are chosen, none twice, and of every category but the interests at most one; the field shows the
  titles of the chosen ones, the hidden field holds their ids, and the marks in the box are those ids.\<close>

theorem props_reachable_ok:
  assumes "pk_sub (pp s) = []" "pk_text (pp s) = []" "pk_value (pp s) = []" "pp_marks s = []"
    and "layout_only posfix"
    and "\<forall>ev \<in> set evs. \<forall>a. ev = PClick a \<longrightarrow> item_ok info_of a"
  shows "prop_page_ok info_of (fold (prop_event b info_of sh posfix) evs s)"
proof -
  have "prop_page_ok info_of s"
    using assms(1-4) by (simp add: prop_page_ok_def picker_sync_def m_addPropSelect_def)
  with assms(6) show ?thesis
    by (induction evs arbitrary: s) (simp_all add: prop_event_ok [OF _ assms(5)])
qed

definition info_example :: "jstring \<Rightarrow> jstring option" where
  "info_example i = (if i = js ''1'' \<or> i = js ''2'' then Some (js ''sex'') else None)"

definition item_example :: "jstring \<Rightarrow> anchor" where
  "item_example i = \<lparr>an_id = Some i, an_data = JStr i, an_text = i, an_info = info_example i, an_type = None, an_selected = False\<rparr>"

definition prop_page0 :: prop_page where
  "prop_page0 = ui.extend page0 \<lparr>robots = [], mbox = [], v_fields = [], v_submitted = [], v_last_el = None,
     v_last_active = None, v_eq = [], v_clear = [], v_error = (\<lambda>i. False), m_disabled = (\<lambda>i. False), m_extra = [],
     m_posts = [], m_later = [], m_alerts = [], m_closed = False,
     pp = \<lparr>pk_text = [], pk_value = [], pk_sub = [], pk_height = Some 28, pk_disabled = False\<rparr>, pp_marks = []\<rparr>"

lemma prop_page0_sel [simp]:
  "pp prop_page0 = \<lparr>pk_text = [], pk_value = [], pk_sub = [], pk_height = Some 28, pk_disabled = False\<rparr>"
  "pp_marks prop_page0 = []" "m_posts prop_page0 = []"
  by (simp_all add: prop_page0_def page0_def ui.defs)

theorem props_reachable_ok_witness:
  "prop_page_ok info_example
     (fold (prop_event browser0 info_example (\<lambda>t. 28) id) [PClick (item_example (js ''1'')), PClick (item_example (js ''2''))] prop_page0)"
proof -
  have "canonical (JStr (js ''1''))" "canonical (JStr (js ''2''))"
    using canonical_int_str [of 1] canonical_int_str [of 2]
    by (simp_all add: int_to_str_def nat_to_str.simps js_def)
  then have "\<forall>ev \<in> set [PClick (item_example (js ''1'')), PClick (item_example (js ''2''))]. \<forall>a. ev = PClick a \<longrightarrow> item_ok info_example a"
    by (auto simp: item_ok_def item_example_def)
  moreover have "layout_only id" by (simp add: layout_only_def)
  ultimately show ?thesis
    by (intro props_reachable_ok) simp_all
qed

text \<open>With ten chosen, another one is refused even where it would take the place of one.\<close>

lemma limit_refuses_replacement:
  "length (pk_sub p) \<ge> m_tagLimit \<Longrightarrow> \<not> marked marks a \<Longrightarrow> m_addAssProp info_of sh posfix a (marks, p) = None"
  by (simp add: m_addAssProp_def prop_rows_def Let_def)

subsection \<open>What is imported\<close>

text \<open>Recipients are imported by the id of a task exactly if the id is not blank and has three parts
  between dots, each a number or blank, so that an id with missing parts passes as well, and, where the
  page has the choice of properties, an interest is chosen.\<close>

lemma import_sent_iff:
  "m_posts (importPropLib action has_prop taskId s) = m_posts s @
     (if \<not> isEmpty taskId \<and> length (split_chr 46 taskId) = 3 \<and> list_all (\<lambda>q. to_number q \<noteq> NaN) (split_chr 46 taskId)
         \<and> (has_prop \<longrightarrow> (\<exists>r \<in> set (pk_sub (pp s)). js_eq (cell r 2) (JStr hobby)))
      then [(action, serializeArray s)] else [])"
proof -
  have three: "list_all P xs \<longleftrightarrow> P (xs ! 0) \<and> P (xs ! 1) \<and> P (xs ! 2)" if "length xs = 3" for P and xs :: "jstring list"
  proof -
    obtain x y z where "xs = [x, y, z]"
      using \<open>length xs = 3\<close> by (auto simp: length_Suc_conv eval_nat_numeral)
    then show ?thesis by (simp add: eval_nat_numeral)
  qed
  show ?thesis
    using three [of "split_chr 46 taskId" "\<lambda>q. to_number q \<noteq> NaN"]
    by (auto simp: importPropLib_def Let_def isNaN_def findArrItem_iff bad_task_def messagebox_def focus_el_def)
qed

end
