(* ===== verification/MasterLists.thy ===== *)
theory MasterLists
  imports MasterProps
begin

text \<open>
  The lists of the operators' site: accounts, sub users, packages, channels, logos, tasks, campaigns
  and customers' statistics, each with its commands. A list is a form of filters with a page number;
  commands submit it, go to another address, open a window or ask first. What a question is answered
  is an argument.
\<close>

subsection \<open>The page of a list\<close>

record list_page = v_page +
  lf_values :: "jstring \<Rightarrow> jstring"      \<comment> \<open>values by id\<close>
  lf_method :: "jstring \<Rightarrow> jstring"      \<comment> \<open>of a form, by its id\<close>
  lf_action :: "jstring \<Rightarrow> jstring"
  lf_boxes :: "(bool \<times> jstring \<times> jstring) list"  \<comment> \<open>the boxes \<open>checkedIds\<close>: ticked, value, \<open>data-value\<close>\<close>
  lf_sent :: "(jstring \<times> jstring \<times> jstring \<times> jstring) list"  \<comment> \<open>form, method, action, page number\<close>
  lf_windows :: "jstring list"
  lf_asked :: "jstring list"

abbreviation list_form :: jstring where "list_form \<equiv> js ''#ListForm''"

definition set_val :: "jstring \<Rightarrow> jstring \<Rightarrow> 'a list_page_scheme \<Rightarrow> 'a list_page_scheme" where
  "set_val k v s = s\<lparr>lf_values := (lf_values s)(k := v)\<rparr>"

definition set_action :: "jstring \<Rightarrow> jstring \<Rightarrow> 'a list_page_scheme \<Rightarrow> 'a list_page_scheme" where
  "set_action f url s = s\<lparr>lf_action := (lf_action s)(f := url)\<rparr>"

definition set_method :: "jstring \<Rightarrow> jstring \<Rightarrow> 'a list_page_scheme \<Rightarrow> 'a list_page_scheme" where
  "set_method f m s = s\<lparr>lf_method := (lf_method s)(f := m)\<rparr>"

definition submit_list :: "jstring \<Rightarrow> 'a list_page_scheme \<Rightarrow> 'a list_page_scheme" where
  "submit_list f s =
     s\<lparr>lf_sent := lf_sent s @ [(f, lf_method s f, lf_action s f, lf_values s (js ''#currentPage''))]\<rparr>"

definition open_window :: "jstring \<Rightarrow> 'a list_page_scheme \<Rightarrow> 'a list_page_scheme" where
  "open_window url s = s\<lparr>lf_windows := lf_windows s @ [url]\<rparr>"

definition ask ::
  "jstring \<Rightarrow> bool \<Rightarrow> ('a list_page_scheme \<Rightarrow> 'a list_page_scheme) \<Rightarrow> 'a list_page_scheme \<Rightarrow> 'a list_page_scheme" where
  "ask question yes f s =
     (let s = s\<lparr>lf_asked := lf_asked s @ [question]\<rparr> in if yes then f s else s)"

definition list_url :: "'a list_page_scheme \<Rightarrow> jstring" where
  "list_url s = lf_values s (js ''#listUrl'')"

definition clear_vals :: "jstring list \<Rightarrow> 'a list_page_scheme \<Rightarrow> 'a list_page_scheme" where
  "clear_vals is s = fold (\<lambda>i. set_val i []) is s"

definition checked_ids :: "'a list_page_scheme \<Rightarrow> jstring" where
  "checked_ids s = checked_csv (map (\<lambda>(c, v, d). (c, v)) (lf_boxes s))"

definition checked_len :: "'a list_page_scheme \<Rightarrow> nat" where
  "checked_len s = length (filter fst (lf_boxes s))"

definition search_list :: "jstring \<Rightarrow> 'a list_page_scheme \<Rightarrow> 'a list_page_scheme" where
  "search_list f s = submit_list f (set_val (js ''#currentPage'') (js ''1'') s)"

definition search_at_url :: "jstring \<Rightarrow> 'a list_page_scheme \<Rightarrow> 'a list_page_scheme" where
  "search_at_url f s =
     (let s = set_val (js ''#currentPage'') (js ''1'') s in submit_list f (set_action f (list_url s) s))"

definition post_list :: "jstring \<Rightarrow> jstring \<Rightarrow> 'a list_page_scheme \<Rightarrow> 'a list_page_scheme" where
  "post_list method url s = submit_list list_form (set_action list_form url (set_method list_form method s))"

text \<open>The form is sent to another address and gets the list's own back.\<close>

definition export_form :: "jstring \<Rightarrow> 'a list_page_scheme \<Rightarrow> 'a list_page_scheme" where
  "export_form url s =
     (let s = submit_list list_form (set_action list_form url s) in set_action list_form (list_url s) s)"

definition list_alert :: "jstring \<Rightarrow> 'a list_page_scheme \<Rightarrow> 'a list_page_scheme" where
  "list_alert m s = s\<lparr>m_alerts := m_alerts s @ [m]\<rparr>"

subsection \<open>Commands\<close>

datatype list_cmd =
    Search
  | Search2
  | Reset
  | Reset2
  | Reset3
  | Activate jstring jstring      \<comment> \<open>address and what is named in the question\<close>
  | Freeze jstring jstring
  | Unfreeze jstring jstring
  | Delete jstring jstring
  | Switch jstring jstring
  | Go jstring                    \<comment> \<open>the commands that only go to an address\<close>
  | Open jstring
  | Export jstring
  | ExportOf jstring jstring
  | ExportNew jstring
  | Print jstring
  | Compare jstring
  | CompareTask jstring
  | Order
  | ChangeRes jstring

definition ask_about :: "jstring \<Rightarrow> jstring \<Rightarrow> jstring \<Rightarrow> jstring" where
  "ask_about verb x what = [0x786E, 0x5B9A, 0x8981] @ verb @ [32] @ x @ [32] @ what"

abbreviation q_account :: "jstring \<Rightarrow> jstring \<Rightarrow> jstring" where
  "q_account verb x \<equiv> ask_about verb x [0x8FD9, 0x4E2A, 0x8D26, 0x53F7, 0x5417, 0xFF1F]"

definition accountList :: "list_cmd \<Rightarrow> bool \<Rightarrow> 'a list_page_scheme \<Rightarrow> 'a list_page_scheme" where
  "accountList c yes s =
     (case c of
        Go url \<Rightarrow> go_to url s
      | Search \<Rightarrow> search_list list_form s
      | Reset \<Rightarrow> clear_vals [js ''#search_userId'', js ''#search_companyName'', js ''#d4311'', js ''#d4312''] s
      | Freeze url x \<Rightarrow> ask (q_account [0x51BB, 0x7ED3] x) yes (post_list (js ''POST'') url) s
      | Delete url x \<Rightarrow> ask [0x5220, 0x9664, 0x6B64, 0x8D26, 0x53F7, 0x5C06, 0x4F1A, 0x5BF9, 0x8BE5, 0x8D26, 0x53F7, 0x4E0B, 0x521B, 0x5EFA, 0x7684, 0x5168, 0x90E8, 0x4FE1, 0x606F, 0x4E00, 0x5E76, 0x8FDB, 0x884C, 0x5220, 0x9664, 0xFF0C, 0x5305, 0x62EC, 0x5E94, 0x7528, 0x4E8E, 0x90AE, 0x4EF6, 0x4E2D, 0x7684, 0x6A21, 0x677F, 0x3001, 0x6536, 0x4EF6, 0x4EBA, 0x6570, 0x636E, 0x53CA, 0x65D7, 0x4E0B, 0x5B50, 0x8D26, 0x6237, 0x7B49, 0x3002, 0x6570, 0x636E, 0x5220, 0x9664, 0x540E, 0x4E0D, 0x53EF, 0x6062, 0x590D, 0xFF0C, 0x8BF7, 0x505A, 0x597D, 0x6570, 0x636E, 0x5907, 0x4EFD, 0x5DE5, 0x4F5C, 0x3002, 0x786E, 0x8BA4, 0x5220, 0x9664, 0x5417, 0xFF1F]
          yes (post_list (js ''POST'') url) s
      | Activate url x \<Rightarrow> ask (q_account [0x6FC0, 0x6D3B] x) yes (post_list (js ''POST'') url) s
      | _ \<Rightarrow> s)"

definition waitForActivateList :: "list_cmd \<Rightarrow> bool \<Rightarrow> 'a list_page_scheme \<Rightarrow> 'a list_page_scheme" where
  "waitForActivateList c yes s =
     (case c of
        Go url \<Rightarrow> go_to url s
      | Search \<Rightarrow> search_list list_form s
      | Reset \<Rightarrow> clear_vals [js ''#search_userId'', js ''#search_companyName'', js ''#d4311'', js ''#d4312''] s
      | Activate url x \<Rightarrow> ask (q_account [0x6FC0, 0x6D3B] x) yes (post_list (js ''POST'') url) s
      | Delete url x \<Rightarrow> ask (q_account [0x5220, 0x9664] x) yes (post_list (js ''POST'') url) s
      | _ \<Rightarrow> s)"

definition hadBeenActivatedList :: "list_cmd \<Rightarrow> bool \<Rightarrow> 'a list_page_scheme \<Rightarrow> 'a list_page_scheme" where
  "hadBeenActivatedList c yes s =
     (case c of
        Go url \<Rightarrow> go_to url s
      | Search \<Rightarrow> search_list list_form s
      | Reset \<Rightarrow> clear_vals [js ''#search_userId'', js ''#search_companyName'', js ''#d4311'', js ''#d4312'',
          js ''#search_singleStatus'', js ''#search_cosId'', js ''#search_way''] s
      | Activate url x \<Rightarrow> ask (q_account [0x6FC0, 0x6D3B] x) yes (post_list (js ''POST'') url) s
      | Delete url x \<Rightarrow> ask (q_account [0x5220, 0x9664] x) yes (post_list (js ''POST'') url) s
      | Freeze url x \<Rightarrow> ask (q_account [0x51BB, 0x7ED3] x) yes (post_list (js ''POST'') url) s
      | Unfreeze url x \<Rightarrow> ask (q_account [0x89E3, 0x51BB] x) yes (post_list (js ''POST'') url) s
      | _ \<Rightarrow> s)"

definition corpReadonlyAccountList :: "list_cmd \<Rightarrow> bool \<Rightarrow> 'a list_page_scheme \<Rightarrow> 'a list_page_scheme" where
  "corpReadonlyAccountList c yes s =
     (case c of
        Go url \<Rightarrow> go_to url s
      | Search \<Rightarrow> search_list list_form s
      | Reset \<Rightarrow> clear_vals [js ''#search_userId'', js ''#d4311'', js ''#d4312'', js ''#search_singleStatus''] s
      | Activate url x \<Rightarrow> ask (q_account [0x6FC0, 0x6D3B] x) yes (post_list (js ''post'') url) s
      | Delete url x \<Rightarrow> ask (q_account [0x5220, 0x9664] x) yes (post_list (js ''post'') url) s
      | Freeze url x \<Rightarrow> ask (q_account [0x51BB, 0x7ED3] x) yes (post_list (js ''post'') url) s
      | Unfreeze url x \<Rightarrow> ask (q_account [0x89E3, 0x51BB] x) yes (post_list (js ''post'') url) s
      | _ \<Rightarrow> s)"

text \<open>\<open>showSubUser\<close>: the answer with the users of an account becomes the title of an element.\<close>

definition sub_user_title :: "jstring list \<Rightarrow> jstring option" where
  "sub_user_title users = (let t = concat (map (\<lambda>u. u @ [32]) users) in if t \<noteq> [] then Some t else None)"

text \<open>\<open>openWin\<close>, then the list is sent again.\<close>

definition open_and_submit :: "jstring \<Rightarrow> jstring \<Rightarrow> 'a list_page_scheme \<Rightarrow> 'a list_page_scheme" where
  "open_and_submit f url s = submit_list f (open_window url s)"

definition subUserList :: "list_cmd \<Rightarrow> bool \<Rightarrow> 'a list_page_scheme \<Rightarrow> 'a list_page_scheme" where
  "subUserList c yes s =
     (case c of
        Open url \<Rightarrow> open_and_submit list_form url s
      | Search \<Rightarrow> search_list list_form s
      | Reset \<Rightarrow> clear_vals [js ''#search_userId'', js ''#search_trueName''] s
      | Activate url x \<Rightarrow> ask (q_account [0x6FC0, 0x6D3B] x) yes (go_to url) s
      | Delete url x \<Rightarrow> ask (q_account [0x5220, 0x9664] x) yes (go_to url) s
      | Freeze url x \<Rightarrow> ask (q_account [0x51BB, 0x7ED3] x) yes (go_to url) s
      | Unfreeze url x \<Rightarrow> ask (q_account [0x89E3, 0x51BB] x) yes (go_to url) s
      | _ \<Rightarrow> s)"

definition cosList :: "list_cmd \<Rightarrow> bool \<Rightarrow> 'a list_page_scheme \<Rightarrow> 'a list_page_scheme" where
  "cosList c yes s =
     (case c of
        Open url \<Rightarrow> m_prompt (lf_values s (js ''#msg'')) (open_window url s)
      | Delete url x \<Rightarrow> ask (ask_about [0x5220, 0x9664] x [0x8FD9, 0x4E2A, 0x5957, 0x9910, 0x5417, 0xFF1F]) yes (go_to url) s
      | Freeze url x \<Rightarrow> ask (ask_about [0x7981, 0x7528] x [0x8FD9, 0x4E2A, 0x5957, 0x9910, 0x5417, 0xFF1F]) yes (go_to url) s
      | Unfreeze url x \<Rightarrow> ask (ask_about [0x542F, 0x7528] x [0x8FD9, 0x4E2A, 0x5957, 0x9910, 0x5417, 0xFF1F]) yes (go_to url) s
      | Go url \<Rightarrow> go_to url s
      | Search \<Rightarrow> search_list list_form s
      | _ \<Rightarrow> s)"

definition customEnterprise :: "list_cmd \<Rightarrow> bool \<Rightarrow> 'a list_page_scheme \<Rightarrow> 'a list_page_scheme" where
  "customEnterprise c yes s =
     (case c of
        Delete url x \<Rightarrow> ask (ask_about [0x5220, 0x9664] x [0x8FD9, 0x4E2A, 0x4C, 0x6F, 0x67, 0x6F, 0x5417, 0xFF1F]) yes (go_to url) s
      | Freeze url x \<Rightarrow> ask (ask_about [0x7981, 0x7528] x [0x8FD9, 0x4E2A, 0x4C, 0x6F, 0x67, 0x6F, 0x5417, 0xFF1F]) yes (go_to url) s
      | Unfreeze url x \<Rightarrow> ask (ask_about [0x542F, 0x7528] x [0x8FD9, 0x4E2A, 0x4C, 0x6F, 0x67, 0x6F, 0x5417, 0xFF1F]) yes (go_to url) s
      | Open url \<Rightarrow> open_and_submit (js ''#customForm'') url s
      | Search \<Rightarrow> search_list (js ''#customForm'') s
      | _ \<Rightarrow> s)"

definition resUserList :: "list_cmd \<Rightarrow> bool \<Rightarrow> 'a list_page_scheme \<Rightarrow> 'a list_page_scheme" where
  "resUserList c yes s =
     (case c of
        ChangeRes url \<Rightarrow>
          if lf_values s (js ''#resId'') = [] then focus_el (js ''#resId'') (list_alert [0x8BF7, 0x9009, 0x62E9, 0x901A, 0x9053, 0xFF01] s)
          else if checked_len s = 0 then list_alert [0x8BF7, 0x9009, 0x62E9, 0x8981, 0x66F4, 0x6539, 0x901A, 0x9053, 0x7684, 0x8D26, 0x53F7, 0xFF01] s
          else ask [0x786E, 0x5B9A, 0x8981, 0x4E3A, 0x6240, 0x9009, 0x8D26, 0x53F7, 0x66F4, 0x6539, 0x901A, 0x9053, 0x5417, 0xFF1F] yes (post_list (js ''get'') url) s
      | Search \<Rightarrow> search_list list_form s
      | Reset \<Rightarrow> clear_vals [js ''#search_userId'', js ''#search_companyName'', js ''#d4311'', js ''#d4312'',
          js ''#search_formalId'', js ''#search_cosId'', js ''#search_way''] s
      | _ \<Rightarrow> s)"

subsection \<open>Statistics\<close>

text \<open>Without a ticked record the whole list, after a question; \<open>sep\<close> is what the file writes before
  \<open>checkedIds\<close>.\<close>

definition export_checked ::
  "bool \<Rightarrow> jstring \<Rightarrow> jstring \<Rightarrow> 'a list_page_scheme \<Rightarrow> 'a list_page_scheme" where
  "export_checked yes url sep s =
     (if checked_ids s = [] then ask [0x60A8, 0x672A, 0x9009, 0x62E9, 0x7279, 0x5B9A, 0x8BB0, 0x5F55, 0xFF0C, 0x786E, 0x5B9A, 0x5BFC, 0x51FA, 0x5168, 0x90E8, 0x8BB0, 0x5F55, 0x5417, 0xFF1F] yes (go_to url) s
      else go_to (url @ sep @ js ''checkedIds='' @ checked_ids s) s)"

definition print_checked :: "jstring \<Rightarrow> jstring \<Rightarrow> jstring \<Rightarrow> 'a list_page_scheme \<Rightarrow> 'a list_page_scheme" where
  "print_checked none url rest s =
     (if checked_ids s = [] then list_alert none s
      else open_window (url @ js ''?checkedIds='' @ checked_ids s @ rest) s)"

definition list_compare :: "jstring \<Rightarrow> 'a list_page_scheme \<Rightarrow> 'a list_page_scheme" where
  "list_compare url s =
     (if checked_len s = 0 then list_alert [0x8BF7, 0x9009, 0x62E9, 0x9700, 0x8981, 0x5BF9, 0x6BD4, 0x7684, 0x4EFB, 0x52A1] s
      else if checked_len s > 4 then list_alert [0x5BF9, 0x6BD4, 0x4EFB, 0x52A1, 0x4E0D, 0x80FD, 0x8D85, 0x8FC7, 0x34, 0x4E2A] s
      else open_window (url @ js ''?checkedIds='' @ checked_ids s) s)"

definition compareTask :: "jstring \<Rightarrow> 'a list_page_scheme \<Rightarrow> 'a list_page_scheme" where
  "compareTask url s =
     (if checked_len s = 0 then list_alert [0x8BF7, 0x9009, 0x62E9, 0x8981, 0x5BF9, 0x6BD4, 0x7684, 0x4EFB, 0x52A1] s
      else if checked_len s < 2 then list_alert [0x5BF9, 0x6BD4, 0x4EFB, 0x52A1, 0x4E0D, 0x80FD, 0x5C11, 0x4E8E, 0x32, 0x4E2A] s
      else if checked_len s > 5 then list_alert [0x5BF9, 0x6BD4, 0x4EFB, 0x52A1, 0x4E0D, 0x80FD, 0x8D85, 0x8FC7, 0x35, 0x4E2A] s
      else submit_list list_form (set_action list_form url s))"

definition has_plan_task :: "'a list_page_scheme \<Rightarrow> bool" where
  "has_plan_task s = list_ex (\<lambda>(c, v, d). c \<and> d = js ''planTask'') (lf_boxes s)"

definition campaignDelivery :: "list_cmd \<Rightarrow> bool \<Rightarrow> 'a list_page_scheme \<Rightarrow> 'a list_page_scheme" where
  "campaignDelivery c yes s =
     (case c of
        Order \<Rightarrow> go_to (list_url s @ js ''&orderBy='' @ lf_values s (js ''#order'')) s
      | Search \<Rightarrow> search_at_url list_form s
      | Export url \<Rightarrow> export_checked yes url (js ''&'') s
      | ExportNew url \<Rightarrow> export_form (url @ js ''&orderBy='' @ lf_values s (js ''#order'')) s
      | Go url \<Rightarrow> go_to url s
      | Compare url \<Rightarrow> list_compare url s
      | CompareTask url \<Rightarrow> compareTask url s
      | _ \<Rightarrow> s)"

definition taskReportList :: "list_cmd \<Rightarrow> bool \<Rightarrow> 'a list_page_scheme \<Rightarrow> 'a list_page_scheme" where
  "taskReportList c yes s =
     (case c of
        Search \<Rightarrow> search_at_url list_form s
      | Reset \<Rightarrow> clear_vals [js ''#search_taskName'', js ''#d5311'', js ''#d5312'', js ''#search_cycle'',
          js ''#search_labelStatus'', js ''#search_comTaskId''] s
      | Export url \<Rightarrow> export_checked yes url (js ''&'') s
      | ExportNew url \<Rightarrow> export_form url s
      | Print url \<Rightarrow> print_checked [0x8BF7, 0x9009, 0x62E9, 0x9700, 0x8981, 0x6253, 0x5370, 0x7684, 0x8BB0, 0x5F55] url [] s
      | Go url \<Rightarrow> go_to url s
      | Compare url \<Rightarrow> list_compare url s
      | CompareTask url \<Rightarrow> compareTask url s
      | Open url \<Rightarrow> open_window url s
      | _ \<Rightarrow> s)"

definition taskApiReportList :: "list_cmd \<Rightarrow> bool \<Rightarrow> 'a list_page_scheme \<Rightarrow> 'a list_page_scheme" where
  "taskApiReportList c yes s =
     (case c of
        Search \<Rightarrow> search_at_url list_form s
      | Reset \<Rightarrow> clear_vals [js ''#search_triggerName'', js ''#search_taskName'', js ''#d5311'', js ''#d5312'',
          js ''#search_cycle''] s
      | Export url \<Rightarrow> export_checked yes url (js ''?'') s
      | ExportNew url \<Rightarrow> export_form url s
      | Print url \<Rightarrow> print_checked [0x8BF7, 0x9009, 0x62E9, 0x9700, 0x8981, 0x6253, 0x5370, 0x7684, 0x8BB0, 0x5F55] url [] s
      | Go url \<Rightarrow> go_to url s
      | Compare url \<Rightarrow> list_compare url s
      | Open url \<Rightarrow> open_window url s
      | _ \<Rightarrow> s)"

definition customerTaskStatList :: "list_cmd \<Rightarrow> bool \<Rightarrow> 'a list_page_scheme \<Rightarrow> 'a list_page_scheme" where
  "customerTaskStatList c yes s =
     (case c of
        Search \<Rightarrow> search_list (js ''#ListForm1'') s
      | Reset \<Rightarrow> clear_vals [js ''#search_emailDomain'', js ''#d4311'', js ''#d4312'', js ''#search_cycle1''] s
      | Search2 \<Rightarrow> search_at_url list_form s
      | Reset2 \<Rightarrow> clear_vals [js ''#search_taskName'', js ''#d5311'', js ''#d5312'', js ''#search_cycle2''] s
      | ExportOf url corpId \<Rightarrow> export_checked yes (url @ js ''?corpId='' @ corpId) (js ''&'') s
      | ExportNew url \<Rightarrow> export_form url s
      | Print url \<Rightarrow> print_checked [0x8BF7, 0x9009, 0x62E9, 0x9700, 0x8981, 0x6253, 0x5370, 0x7684, 0x8BB0, 0x5F55] url [] s
      | Go url \<Rightarrow> go_to url s
      | Compare url \<Rightarrow> list_compare url s
      | CompareTask url \<Rightarrow>
          if has_plan_task s then list_alert [0x5BF9, 0x6BD4, 0x4EFB, 0x52A1, 0x4E0D, 0x80FD, 0x5305, 0x62EC, 0x5468, 0x671F, 0x4EFB, 0x52A1] s else compareTask url s
      | _ \<Rightarrow> s)"

definition customerTaskStatApiTriggerList :: "list_cmd \<Rightarrow> bool \<Rightarrow> 'a list_page_scheme \<Rightarrow> 'a list_page_scheme" where
  "customerTaskStatApiTriggerList c yes s =
     (case c of
        Search \<Rightarrow> search_list (js ''#ListForm1'') (set_method (js ''#ListForm1'') (js ''get'') s)
      | Reset \<Rightarrow> clear_vals [js ''#search_emailDomain'', js ''#d4311'', js ''#d4312'', js ''#search_cycle1''] s
      | Search2 \<Rightarrow> search_at_url list_form s
      | Reset2 \<Rightarrow> clear_vals [js ''#search_taskName'', js ''#d5311'', js ''#d5312'', js ''#search_cycle2''] s
      | ExportOf url corpId \<Rightarrow> export_checked yes (url @ js ''?corpId='' @ corpId) (js ''&'') s
      | ExportNew url \<Rightarrow> export_form url s
      | Print url \<Rightarrow> print_checked [0x8BF7, 0x9009, 0x62E9, 0x9700, 0x8981, 0x6253, 0x5370, 0x7684, 0x8BB0, 0x5F55] url [] s
      | Go url \<Rightarrow> go_to url s
      | Compare url \<Rightarrow> list_compare url s
      | Open url \<Rightarrow> open_window url s
      | _ \<Rightarrow> s)"

definition customerStatList :: "list_cmd \<Rightarrow> bool \<Rightarrow> 'a list_page_scheme \<Rightarrow> 'a list_page_scheme" where
  "customerStatList c yes s =
     (case c of
        Search \<Rightarrow> search_at_url list_form (set_method list_form (js ''get'') s)
      | Reset \<Rightarrow> clear_vals [js ''#search_userIdLike'', js ''#d5311'', js ''#d5312'', js ''#search_cycle2''] s
      | Export url \<Rightarrow> export_checked yes url (js ''?'') s
      | ExportNew url \<Rightarrow> export_form url s
      | Print url \<Rightarrow> print_checked [0x8BF7, 0x9009, 0x62E9, 0x9700, 0x8981, 0x6253, 0x5370, 0x7684, 0x8BB0, 0x5F55] url
          (js ''&search_beginTimeStr='' @ lf_values s (js ''#d5311'') @ js ''&search_endTimeStr='' @ lf_values s (js ''#d5312'')) s
      | Go url \<Rightarrow> go_to url s
      | _ \<Rightarrow> s)"

definition customerStatApiTriggerList :: "list_cmd \<Rightarrow> bool \<Rightarrow> 'a list_page_scheme \<Rightarrow> 'a list_page_scheme" where
  "customerStatApiTriggerList c yes s =
     (case c of
        Search \<Rightarrow> search_at_url list_form s
      | Reset \<Rightarrow> clear_vals [js ''#search_triggerName'', js ''#search_userIdLike'', js ''#d5311'', js ''#d5312'',
          js ''#search_cycle2''] s
      | Export url \<Rightarrow> export_checked yes url (js ''?'') s
      | ExportNew url \<Rightarrow> export_form url s
      | Print url \<Rightarrow> print_checked [0x8BF7, 0x9009, 0x62E9, 0x9700, 0x8981, 0x6253, 0x5370, 0x8BB0, 0x5F55] url [] s
      | Go url \<Rightarrow> go_to url s
      | _ \<Rightarrow> s)"

definition historyReportList :: "list_cmd \<Rightarrow> bool \<Rightarrow> 'a list_page_scheme \<Rightarrow> 'a list_page_scheme" where
  "historyReportList c yes s =
     (case c of
        Search \<Rightarrow> search_at_url (js ''#ListForm1'') s
      | Reset \<Rightarrow> clear_vals [js ''#d4311'', js ''#d4312'', js ''#search_cycle1''] s
      | Search2 \<Rightarrow> search_list list_form s
      | Reset2 \<Rightarrow> clear_vals [js ''#search_userId'', js ''#d5311'', js ''#d5312'', js ''#search_cycle2''] s
      | Reset3 \<Rightarrow> clear_vals [js ''#search_triggerName'', js ''#d4311'', js ''#d4312'', js ''#search_cycle1''] s
      | Export url \<Rightarrow> export_checked yes url (js ''?'') s
      | Print url \<Rightarrow> print_checked [0x8BF7, 0x9009, 0x62E9, 0x9700, 0x8981, 0x6253, 0x5370, 0x8BB0, 0x5F55] url [] s
      | Go url \<Rightarrow> go_to url s
      | ExportNew url \<Rightarrow> submit_list (js ''#ListForm1'') (set_action (js ''#ListForm1'') url s)
      | _ \<Rightarrow> s)"

definition senderDomainList :: "list_cmd \<Rightarrow> bool \<Rightarrow> 'a list_page_scheme \<Rightarrow> 'a list_page_scheme" where
  "senderDomainList c yes s =
     (case c of
        Search \<Rightarrow> search_list list_form s
      | Reset \<Rightarrow> clear_vals [js ''#search_senderEmail'', js ''#d5311'', js ''#d5312'', js ''#search_cycle''] s
      | Go url \<Rightarrow> go_to url s
      | _ \<Rightarrow> s)"

definition senderDomainDetailList :: "list_cmd \<Rightarrow> bool \<Rightarrow> 'a list_page_scheme \<Rightarrow> 'a list_page_scheme" where
  "senderDomainDetailList c yes s =
     (case c of
        Search \<Rightarrow> search_list list_form s
      | Reset \<Rightarrow> clear_vals [js ''#search_emailDomain'', js ''#d5311'', js ''#d5312'', js ''#search_cycle''] s
      | Go url \<Rightarrow> go_to url s
      | _ \<Rightarrow> s)"

definition campaignReportList :: "list_cmd \<Rightarrow> bool \<Rightarrow> 'a list_page_scheme \<Rightarrow> 'a list_page_scheme" where
  "campaignReportList c yes s =
     (case c of Search \<Rightarrow> search_at_url list_form s | Go url \<Rightarrow> go_to url s | _ \<Rightarrow> s)"

definition sys_history :: "list_cmd \<Rightarrow> bool \<Rightarrow> 'a list_page_scheme \<Rightarrow> 'a list_page_scheme" where
  "sys_history c yes s =
     (case c of
        Search \<Rightarrow> submit_list list_form s
      | Reset \<Rightarrow> clear_vals [js ''#d4311'', js ''#d4312''] s
      | _ \<Rightarrow> s)"

definition subUserhistory :: "list_cmd \<Rightarrow> bool \<Rightarrow> 'a list_page_scheme \<Rightarrow> 'a list_page_scheme" where
  "subUserhistory c yes s =
     (case c of
        Search \<Rightarrow> search_list list_form s
      | Reset \<Rightarrow> clear_vals [js ''#search_userId'', js ''#d4311'', js ''#d4312''] s
      | _ \<Rightarrow> s)"

subsection \<open>Tasks\<close>

definition task_priority :: "list_cmd \<Rightarrow> bool \<Rightarrow> 'a list_page_scheme \<Rightarrow> 'a list_page_scheme" where
  "task_priority c yes s =
     (case c of
        Switch url name \<Rightarrow> ask (ask_about [] name [0x4EFB, 0x52A1, 0x5417, 0xFF1F]) yes (post_list (js ''POST'') url) s
      | Search \<Rightarrow> search_list list_form s
      | _ \<Rightarrow> s)"

definition unauditList :: "list_cmd \<Rightarrow> bool \<Rightarrow> 'a list_page_scheme \<Rightarrow> 'a list_page_scheme" where
  "unauditList c yes s =
     (case c of
        Search \<Rightarrow> search_list list_form s
      | Reset \<Rightarrow> clear_vals [js ''#search_taskName'', js ''#search_userId'', js ''#d4311'', js ''#d4312''] s
      | Open url \<Rightarrow> open_window url s
      | Switch url name \<Rightarrow> open_and_submit list_form url s
      | Go url \<Rightarrow> go_to url s
      | _ \<Rightarrow> s)"

definition delivery_monitor :: "list_cmd \<Rightarrow> bool \<Rightarrow> 'a list_page_scheme \<Rightarrow> 'a list_page_scheme" where
  "delivery_monitor c yes s =
     (case c of
        Search \<Rightarrow> search_list list_form s
      | Reset \<Rightarrow> clear_vals [js ''#search_fromDomain'', js ''#search_status''] s
      | _ \<Rightarrow> s)"

text \<open>The text of a row and of the cell after it, for a chosen state.\<close>

definition monitor_row :: "jstring \<Rightarrow> jstring \<Rightarrow> jstring \<times> jstring" where
  "monitor_row label state =
     (label, if state = [0x6B63, 0x5E38] then [0x3C, 0x73, 0x70, 0x61, 0x6E, 0x20, 0x63, 0x6C, 0x61, 0x73, 0x73, 0x3D, 0x27, 0x67, 0x72, 0x65, 0x65, 0x6E, 0x27, 0x3E, 0x6B63, 0x5E38, 0x3C, 0x2F, 0x73, 0x70, 0x61, 0x6E, 0x3E] else [0x3C, 0x73, 0x70, 0x61, 0x6E, 0x20, 0x63, 0x6C, 0x61, 0x73, 0x73, 0x3D, 0x27, 0x72, 0x65, 0x64, 0x27, 0x3E, 0x8D85, 0x9650, 0x505C, 0x6B62, 0x3C, 0x2F, 0x73, 0x70, 0x61, 0x6E, 0x3E])"

subsection \<open>Properties\<close>

lemmas list_defs = accountList_def waitForActivateList_def hadBeenActivatedList_def corpReadonlyAccountList_def
  subUserList_def cosList_def customEnterprise_def resUserList_def task_priority_def

lemma set_val_sel [simp]:
  "lf_sent (set_val k v s) = lf_sent s" "lf_asked (set_val k v s) = lf_asked s" "navs (set_val k v s) = navs s"
  "lf_windows (set_val k v s) = lf_windows s" "lf_boxes (set_val k v s) = lf_boxes s"
  "lf_action (set_val k v s) = lf_action s" "lf_method (set_val k v s) = lf_method s"
  "lf_values (set_val k v s) = (lf_values s)(k := v)"
  by (simp_all add: set_val_def)

lemma set_action_sel [simp]:
  "lf_sent (set_action f u s) = lf_sent s" "lf_asked (set_action f u s) = lf_asked s" "navs (set_action f u s) = navs s"
  "lf_windows (set_action f u s) = lf_windows s" "lf_boxes (set_action f u s) = lf_boxes s"
  "lf_action (set_action f u s) = (lf_action s)(f := u)" "lf_method (set_action f u s) = lf_method s"
  "lf_values (set_action f u s) = lf_values s"
  by (simp_all add: set_action_def)

lemma set_method_sel [simp]:
  "lf_sent (set_method f u s) = lf_sent s" "lf_asked (set_method f u s) = lf_asked s" "navs (set_method f u s) = navs s"
  "lf_windows (set_method f u s) = lf_windows s" "lf_boxes (set_method f u s) = lf_boxes s"
  "lf_action (set_method f u s) = lf_action s" "lf_method (set_method f u s) = (lf_method s)(f := u)"
  "lf_values (set_method f u s) = lf_values s"
  by (simp_all add: set_method_def)

lemma submit_list_sel [simp]:
  "lf_sent (submit_list f s) = lf_sent s @ [(f, lf_method s f, lf_action s f, lf_values s (js ''#currentPage''))]"
  "lf_asked (submit_list f s) = lf_asked s" "navs (submit_list f s) = navs s"
  "lf_windows (submit_list f s) = lf_windows s" "lf_boxes (submit_list f s) = lf_boxes s"
  "lf_action (submit_list f s) = lf_action s" "lf_values (submit_list f s) = lf_values s"
  by (simp_all add: submit_list_def)

lemma go_to_list [simp]:
  "lf_sent (go_to u s) = lf_sent s" "lf_asked (go_to u s) = lf_asked s" "navs (go_to u s) = navs s @ [u]"
  "lf_windows (go_to u s) = lf_windows s" "lf_boxes (go_to u s) = lf_boxes s"
  "lf_action (go_to u s) = lf_action s" "lf_values (go_to u s) = lf_values s"
  by (simp_all add: go_to_def)

text \<open>What a page has asked for from the server: addresses gone to, forms sent, windows opened.\<close>

definition requests :: "'a list_page_scheme \<Rightarrow> jstring list" where
  "requests s = navs s @ map (\<lambda>(f, m, a, p). a) (lf_sent s) @ lf_windows s"

lemma ask_no:
  "requests (ask q False f s) = requests s" "lf_asked (ask q False f s) = lf_asked s @ [q]"
  by (simp_all add: ask_def requests_def)

lemma ask_go: "lf_asked (ask q yes (go_to url) s) = lf_asked s @ [q]"
  "mset (requests (ask q yes (go_to url) s)) = mset (requests s) + (if yes then {#url#} else {#})"
  by (simp_all add: ask_def requests_def Let_def go_to_def)

lemma ask_post: "lf_asked (ask q yes (post_list m url) s) = lf_asked s @ [q]"
  "mset (requests (ask q yes (post_list m url) s)) = mset (requests s) + (if yes then {#url#} else {#})"
  by (simp_all add: ask_def requests_def post_list_def Let_def)

datatype change = ToActivate | ToFreeze | ToUnfreeze | ToDelete

fun change_cmd :: "change \<Rightarrow> jstring \<Rightarrow> jstring \<Rightarrow> list_cmd" where
  "change_cmd ToActivate = Activate"
| "change_cmd ToFreeze = Freeze"
| "change_cmd ToUnfreeze = Unfreeze"
| "change_cmd ToDelete = Delete"

text \<open>The changes a list offers.\<close>

definition offers :: "(list_cmd \<Rightarrow> bool \<Rightarrow> list_page \<Rightarrow> list_page) \<Rightarrow> change list \<Rightarrow> bool" where
  "offers page cs \<longleftrightarrow>
     (\<forall>k url x s yes.
        (k \<in> set cs \<longrightarrow>
           (\<exists>q. lf_asked (page (change_cmd k url x) yes s) = lf_asked s @ [q])
           \<and> mset (requests (page (change_cmd k url x) yes s)) = mset (requests s) + (if yes then {#url#} else {#}))
      \<and> (k \<notin> set cs \<longrightarrow> page (change_cmd k url x) yes s = s))"

text \<open>C18: In every list of accounts, packages and logos an activation, a freezing, an unfreezing or a
  deletion asks one question; the server gets the request of that command, and only that one, if the
  answer is yes, and nothing otherwise. A list changes nothing by a command it does not offer.\<close>

theorem lists_ask_first:
  "offers accountList [ToActivate, ToFreeze, ToDelete]
   \<and> offers waitForActivateList [ToActivate, ToDelete]
   \<and> offers hadBeenActivatedList [ToActivate, ToFreeze, ToUnfreeze, ToDelete]
   \<and> offers corpReadonlyAccountList [ToActivate, ToFreeze, ToUnfreeze, ToDelete]
   \<and> offers subUserList [ToActivate, ToFreeze, ToUnfreeze, ToDelete]
   \<and> offers cosList [ToFreeze, ToUnfreeze, ToDelete]
   \<and> offers customEnterprise [ToFreeze, ToUnfreeze, ToDelete]"
  unfolding offers_def
  by (intro conjI allI impI; case_tac k) (simp_all add: list_defs ask_go ask_post)

text \<open>Tasks of a customer are compared exactly if two to five are ticked and none of them is a
  recurring one: then the form goes to the address of the comparison. Otherwise nothing is sent and
  one message says why. The older comparison opens a window for one to four ticked tasks, with the
  ids of exactly these.\<close>

lemma compare_sent_iff:
  "lf_sent (customerTaskStatList (CompareTask url) yes s) = lf_sent s @
     (if 2 \<le> checked_len s \<and> checked_len s \<le> 5 \<and> \<not> has_plan_task s
      then [(list_form, lf_method s list_form, url, lf_values s (js ''#currentPage''))] else [])
   \<and> length (m_alerts (customerTaskStatList (CompareTask url) yes s)) = length (m_alerts s) +
     (if 2 \<le> checked_len s \<and> checked_len s \<le> 5 \<and> \<not> has_plan_task s then 0 else 1)
   \<and> lf_windows (customerTaskStatList (Compare url) yes s) = lf_windows s @
     (if 1 \<le> checked_len s \<and> checked_len s \<le> 4
      then [url @ js ''?checkedIds='' @ concat (map (\<lambda>(c, v, d). v @ js '','') (filter fst (lf_boxes s)))] else [])"
proof -
  have "checked_csv (map (\<lambda>(c, v, d). (c, v)) bs) = concat (map (\<lambda>(c, v, d). v @ js '','') (filter fst bs))" for bs :: "(bool \<times> jstring \<times> jstring) list"
    by (induction bs) (auto simp: checked_csv_def)
  then have ids: "checked_ids s = concat (map (\<lambda>(c, v, d). v @ js '','') (filter fst (lf_boxes s)))"
    by (simp add: checked_ids_def)
  show ?thesis
    by (auto simp: customerTaskStatList_def compareTask_def list_compare_def list_alert_def open_window_def ids
        submit_list_def set_action_def)
qed

lemma clear_vals_values: "k \<notin> set is \<Longrightarrow> lf_values (clear_vals is s) k = lf_values s k"
  unfolding clear_vals_def by (induction "is" arbitrary: s) auto

lemma ask_values: "(\<And>s. lf_values (f s) = lf_values s) \<Longrightarrow> lf_values (ask q yes f s) = lf_values s"
  by (simp add: ask_def Let_def)

lemma list_op_values [simp]:
  "lf_values (export_checked yes url sep s) = lf_values s" "lf_values (print_checked n url rest s) = lf_values s"
  "lf_values (list_compare url s) = lf_values s" "lf_values (compareTask url s) = lf_values s"
  "lf_values (export_form url s) = lf_values s" "lf_values (list_alert m s) = lf_values s"
  "lf_values (open_window url s) = lf_values s"
  by (simp_all add: export_checked_def print_checked_def list_compare_def compareTask_def export_form_def Let_def
      list_alert_def open_window_def ask_values)

text \<open>The lists, each with its command for searching.\<close>

definition stat_pages :: "(list_cmd \<times> (list_cmd \<Rightarrow> bool \<Rightarrow> list_page \<Rightarrow> list_page)) list" where
  "stat_pages = [(Search, campaignDelivery), (Search, taskReportList), (Search, taskApiReportList),
     (Search, customerStatList), (Search, customerStatApiTriggerList),
     (Search2, customerTaskStatList), (Search2, customerTaskStatApiTriggerList)]"

lemmas stat_page_defs = campaignDelivery_def taskReportList_def taskApiReportList_def customerStatList_def
  customerStatApiTriggerList_def customerTaskStatList_def customerTaskStatApiTriggerList_def

lemma stat_page_url: "(cmd, page) \<in> set stat_pages \<Longrightarrow> list_url (page c yes s) = list_url s"
  unfolding stat_pages_def list_url_def
  by (cases c) (auto simp: stat_page_defs search_at_url_def search_list_def clear_vals_values Let_def)

text \<open>In the lists of statistics, whatever was exported, printed, compared, sorted, reset or searched
  before, a search asks for the first page at the address of the list itself.\<close>

lemma search_own_list:
  assumes "(cmd, page) \<in> set stat_pages"
    and "s' = fold (\<lambda>(c, yes). page c yes) cmds s"
  shows "\<exists>m. lf_sent (page cmd yes s') = lf_sent s' @ [(list_form, m, list_url s, js ''1'')]"
proof -
  have u: "list_url s' = list_url s"
    unfolding assms(2) using stat_page_url [OF assms(1)]
    by (induction cmds arbitrary: s) (simp_all add: case_prod_beta)
  have "lf_sent (search_at_url list_form t) = lf_sent t @ [(list_form, lf_method t list_form, list_url t, js ''1'')]" for t :: list_page
    by (simp add: search_at_url_def list_url_def Let_def)
  then show ?thesis
    using assms(1) u by (auto simp: stat_pages_def stat_page_defs list_url_def)
qed

definition list_page0 :: list_page where
  "list_page0 = ui.extend page0 \<lparr>robots = [], mbox = [], v_fields = [], v_submitted = [], v_last_el = None,
     v_last_active = None, v_eq = [], v_clear = [], v_error = (\<lambda>i. False), m_disabled = (\<lambda>i. False), m_extra = [],
     m_posts = [], m_later = [], m_alerts = [], m_closed = False,
     lf_values = (\<lambda>k. if k = js ''#listUrl'' then js ''/list'' else []), lf_method = (\<lambda>k. js ''get''),
     lf_action = (\<lambda>k. []), lf_boxes = [], lf_sent = [], lf_windows = [], lf_asked = []\<rparr>"

subsection \<open>Pages of a list\<close>

text \<open>\<open>paginationQuery\<close>: \<open>parseInt\<close> of a value that is no number gives \<open>NaN\<close>, written back as such.\<close>

definition page_str :: "int option \<Rightarrow> jstring" where
  "page_str x = (case x of None \<Rightarrow> js ''NaN'' | Some i \<Rightarrow> int_to_str i)"

definition jump_page :: "jstring \<Rightarrow> jstring \<Rightarrow> jstring" where
  "jump_page no pages =
     (let t = parse_int pages
      in if (case t of None \<Rightarrow> False | Some i \<Rightarrow> str_gt no (of_int i)) then page_str t
         else if str_lt no 0 \<or> to_number no = Fin 0 then js ''1''
         else no)"

definition paginationQuery :: "jstring \<Rightarrow> 'a list_page_scheme \<Rightarrow> 'a list_page_scheme" where
  "paginationQuery flag s =
     (let v = parse_int (lf_values s (js ''#currentPage''));
          pages = lf_values s (js ''#totalPageCount'');
          no = lf_values s (js ''#jumpPageNo'');
          at_page = (\<lambda>p. submit_list list_form (set_val (js ''#currentPage'') p s))
      in if flag = js ''First'' then at_page (js ''1'')
         else if flag = js ''Previous'' then at_page (page_str (map_option (\<lambda>i. i - 1) v))
         else if flag = js ''Next'' then at_page (page_str (map_option (\<lambda>i. i + 1) v))
         else if flag = js ''Last'' then at_page pages
         else if flag = js ''go'' then
           if no = [] then focus_el (js ''#jumpPageNo'') (list_alert [0x8BF7, 0x8F93, 0x5165, 0x9875, 0x7801, 0x21] s)
           else at_page (jump_page no pages)
         else submit_list list_form s)"

text \<open>The key Enter anywhere on a page with the form (the handler in \<open>common.js\<close>).\<close>

definition enter_key :: "nat \<Rightarrow> 'a list_page_scheme \<Rightarrow> 'a list_page_scheme" where
  "enter_key keyCode s = (if keyCode = 13 then search_list list_form s else s)"

text \<open>\<open>pagination_links\<close>: the commands the page offers on page \<open>p\<close> of \<open>t\<close>.\<close>

definition pagination_link :: "int \<Rightarrow> int \<Rightarrow> jstring \<Rightarrow> bool" where
  "pagination_link p t flag \<longleftrightarrow>
     flag \<in> {js ''First'', js ''Last'', js ''go''} \<or> flag = js ''Previous'' \<and> 1 < p \<or> flag = js ''Next'' \<and> p < t"

lemma str_one: "js ''1'' = int_to_str 1"
  by (simp add: js_def int_to_str_def nat_to_str.simps)

lemma jump_page_digits:
  assumes "1 \<le> t"
  shows "jump_page (int_to_str n) (int_to_str t) = int_to_str (if n > t then t else if n \<le> 0 then 1 else n)"
  using assms by (simp add: jump_page_def page_str_def str_gt_def str_lt_def str_one)

text \<open>On page \<open>p\<close> of a list of \<open>t\<close> pages every command of the pagination asks for one page between
  the first and the last: the first, the last, the neighbour, or the number given, moved into the
  range. Without a number nothing is sent.\<close>

lemma paging_in_range:
  assumes "lf_values s (js ''#currentPage'') = int_to_str p" "lf_values s (js ''#totalPageCount'') = int_to_str t"
    and "lf_values s (js ''#jumpPageNo'') = (case n of None \<Rightarrow> [] | Some i \<Rightarrow> int_to_str i)"
    and "1 \<le> p" "p \<le> t" "pagination_link p t flag"
    and "target = (if flag = js ''First'' then Some 1 else if flag = js ''Previous'' then Some (p - 1)
       else if flag = js ''Next'' then Some (p + 1) else if flag = js ''Last'' then Some t
       else map_option (\<lambda>i. if i > t then t else if i \<le> 0 then 1 else i) n)"
  shows "lf_sent (paginationQuery flag s) = lf_sent s @
      (case target of None \<Rightarrow> [] | Some i \<Rightarrow> [(list_form, lf_method s list_form, lf_action s list_form, int_to_str i)])
    \<and> (\<forall>i. target = Some i \<longrightarrow> 1 \<le> i \<and> i \<le> t)"
proof -
  have "1 \<le> t" using assms(4,5) by simp
  note j = jump_page_digits [OF this]
  show ?thesis
    using assms(6,7) assms(4,5)
    by (auto simp: paginationQuery_def assms(1-3) Let_def page_str_def j pagination_link_def list_alert_def focus_el_def
        str_one split: option.splits)
qed

definition paged0 :: list_page where
  "paged0 = list_page0\<lparr>lf_values := (\<lambda>k. if k = js ''#currentPage'' then int_to_str 2 else if k = js ''#totalPageCount'' then int_to_str 3
     else if k = js ''#jumpPageNo'' then int_to_str 9 else [])\<rparr>"

subsection \<open>Further lists\<close>

definition plan_report_list :: "list_cmd \<Rightarrow> bool \<Rightarrow> 'a list_page_scheme \<Rightarrow> 'a list_page_scheme" where
  "plan_report_list c yes s =
     (case c of
        Search \<Rightarrow> search_list list_form s
      | Go url \<Rightarrow> go_to url s
      | Compare url \<Rightarrow>
          if checked_len s = 0 then list_alert [0x8BF7, 0x9009, 0x62E9, 0x8981, 0x6C47, 0x603B, 0x7684, 0x4EFB, 0x52A1] s
          else if checked_len s < 2 then list_alert [0x8BF7, 0x81F3, 0x5C11, 0x9009, 0x62E9, 0x32, 0x4E2A, 0x4EE5, 0x4E0A, 0x9700, 0x8981, 0x6C47, 0x603B, 0x7684, 0x4EFB, 0x52A1] s
          else go_to (url @ js ''?checkedIds='' @ butlast (checked_ids s)) s
      | _ \<Rightarrow> s)"

definition api_groups_list :: "list_cmd \<Rightarrow> bool \<Rightarrow> 'a list_page_scheme \<Rightarrow> 'a list_page_scheme" where
  "api_groups_list c yes s =
     (case c of
        Search \<Rightarrow> search_at_url list_form s
      | ExportNew url \<Rightarrow> export_form url s
      | Go url \<Rightarrow> go_to url s
      | Print url \<Rightarrow> print_checked [0x8BF7, 0x9009, 0x62E9, 0x9700, 0x8981, 0x6253, 0x5370, 0x7684, 0x8BB0, 0x5F55] url [] s
      | CompareTask url \<Rightarrow> compareTask url s
      | Open url \<Rightarrow> open_window url s
      | _ \<Rightarrow> s)"

definition api_trigger_list :: "list_cmd \<Rightarrow> bool \<Rightarrow> 'a list_page_scheme \<Rightarrow> 'a list_page_scheme" where
  "api_trigger_list c yes s =
     (case c of
        Search \<Rightarrow> search_at_url list_form s
      | ExportNew url \<Rightarrow> export_form url s
      | Open url \<Rightarrow> open_window url s
      | _ \<Rightarrow> s)"

definition customer_apigroups_task_list :: "list_cmd \<Rightarrow> bool \<Rightarrow> 'a list_page_scheme \<Rightarrow> 'a list_page_scheme" where
  "customer_apigroups_task_list c yes s =
     (case c of
        Search \<Rightarrow> search_list (js ''#ListForm1'') s
      | Reset \<Rightarrow> clear_vals [js ''#search_emailDomain'', js ''#d4311'', js ''#d4312'', js ''#search_cycle1''] s
      | Search2 \<Rightarrow> search_at_url list_form s
      | Reset2 \<Rightarrow> clear_vals [js ''#search_taskName'', js ''#d5311'', js ''#d5312'', js ''#search_cycle2''] s
      | ExportNew url \<Rightarrow> export_form url s
      | Go url \<Rightarrow> go_to url s
      | CompareTask url \<Rightarrow>
          if has_plan_task s then list_alert [0x5BF9, 0x6BD4, 0x4EFB, 0x52A1, 0x4E0D, 0x80FD, 0x5305, 0x62EC, 0x5468, 0x671F, 0x4EFB, 0x52A1] s else compareTask url s
      | Print url \<Rightarrow> print_checked [0x8BF7, 0x9009, 0x62E9, 0x9700, 0x8981, 0x6253, 0x5370, 0x7684, 0x8BB0, 0x5F55] url [] s
      | _ \<Rightarrow> s)"

definition customer_apigroups_list :: "list_cmd \<Rightarrow> bool \<Rightarrow> 'a list_page_scheme \<Rightarrow> 'a list_page_scheme" where
  "customer_apigroups_list c yes s =
     (case c of
        Search \<Rightarrow> search_at_url list_form s
      | ExportNew url \<Rightarrow> export_form url s
      | Go url \<Rightarrow> go_to url s
      | _ \<Rightarrow> s)"

definition roleList :: "list_cmd \<Rightarrow> bool \<Rightarrow> 'a list_page_scheme \<Rightarrow> 'a list_page_scheme" where
  "roleList c yes s =
     (case c of
        Go url \<Rightarrow> go_to url s
      | Delete url x \<Rightarrow> ask [0x786E, 0x5B9A, 0x5220, 0x9664, 0xFF1F] yes (go_to url) s
      | _ \<Rightarrow> s)"

text \<open>\<open>goBack\<close> of the comparison: the address depends on where it was called from.\<close>

definition goBack :: "'a list_page_scheme \<Rightarrow> 'a list_page_scheme" where
  "goBack s =
     (let flag = lf_values s (js ''#fromFlag'');
          k = (if flag = js ''apiGroupsByUser'' then js ''#apiGroupsByUserUrl''
               else if flag = js ''apiGroupsByAll'' then js ''#apiGroupsByAllUrl''
               else if flag = js ''customer'' then js ''#customerUrl'' else js ''#taskUrl'')
      in submit_list (js ''#ListForm1'') (set_action (js ''#ListForm1'') (lf_values s k) s))"

text \<open>\<open>selectCategory\<close> and \<open>labelList\<close> of the labels.\<close>

definition selectCategory :: "jstring \<Rightarrow> 'a list_page_scheme \<Rightarrow> 'a list_page_scheme" where
  "selectCategory url s = go_to (label_list_url url (lf_values s (js ''#categoryId''))) s"

end
