(* ===== verification/Lists.thy ===== *)
theory Lists
  imports Forms Selection Master
begin

text \<open>
  Lists and small forms of the customers' site: the information behind a row of a list
  (\<open>mailing.task.js\<close>, \<open>mailing.audit.js\<close>, \<open>datasource.file.js\<close>, \<open>datasource.recipient.js\<close>), the
  tags of a category that are loaded when it is opened (\<open>datasource.category.js\<close>), the commands of
  the lists, the forms of the password, the profile and the settings (\<open>account.password.js\<close>,
  \<open>account.profile.js\<close>, \<open>settings.js\<close>), and the commands of the report pages (\<open>report.js\<close>,
  \<open>report.detail.*.js\<close>, \<open>report.sum.js\<close>, \<open>report.touch.detail.js\<close>), without the charts. Data of the
  page are arguments.
\<close>

subsection \<open>Information about a task\<close>

record task_info =
  ti_task :: jsval
  ti_campaign :: jsval
  ti_template :: jsval
  ti_subject :: jsval
  ti_senderEmail :: jsval
  ti_senderName :: jsval
  ti_robot :: jsval
  ti_replier :: jsval
  ti_includes :: jsval
  ti_excludes :: jsval
  ti_receiverName :: jsval
  ti_unsubscribe :: jsval
  ti_sendCode :: jsval

definition no_data :: jstring where
  "no_data = [0x3C, 0x70, 0x3E, 0x6682, 0x65E0, 0x6570, 0x636E, 0xFF01, 0x3C, 0x2F, 0x70, 0x3E]"

definition li_line :: "jstring \<Rightarrow> jsval \<Rightarrow> jstring" where
  "li_line label v = js ''<li>'' @ label @ to_str v @ js ''</li>''"

text \<open>\<open>excl\<close> is the label of the excluded tags, which the two sites write differently.\<close>

definition task_html :: "jstring \<Rightarrow> task_info \<Rightarrow> jstring" where
  "task_html excl t =
     [0x3C, 0x68, 0x34, 0x3E, 0x90AE, 0x4EF6, 0x8BBE, 0x7F6E, 0x3C, 0x2F, 0x68, 0x34, 0x3E] @ js ''<ul>''
     @ li_line [0x4EFB, 0x52A1, 0x540D, 0x79F0, 0xFF1A] (ti_task t) @ li_line [0x6240, 0x5C5E, 0x6D3B, 0x52A8, 0xFF1A] (ti_campaign t)
     @ li_line [0x90AE, 0x4EF6, 0x6A21, 0x677F, 0xFF1A] (ti_template t) @ li_line [0x90AE, 0x4EF6, 0x4E3B, 0x9898, 0xFF1A] (ti_subject t) @ js ''</ul>''
     @ [0x3C, 0x68, 0x34, 0x3E, 0x53D1, 0x4EF6, 0x4EBA, 0x8BBE, 0x7F6E, 0x3C, 0x2F, 0x68, 0x34, 0x3E] @ js ''<ul>''
     @ li_line [0x53D1, 0x4EF6, 0x4EBA, 0x90AE, 0x7BB1, 0xFF1A] (ti_senderEmail t) @ li_line [0x53D1, 0x4EF6, 0x4EBA, 0x6635, 0x79F0, 0xFF1A] (ti_senderName t)
     @ li_line [0x7F51, 0x7EDC, 0x53D1, 0x4EF6, 0x4EBA, 0xFF1A] (ti_robot t) @ li_line [0x56DE, 0x590D, 0x90AE, 0x7BB1, 0xFF1A] (ti_replier t) @ js ''</ul>''
     @ [0x3C, 0x68, 0x34, 0x3E, 0x6536, 0x4EF6, 0x4EBA, 0x8BBE, 0x7F6E, 0x3C, 0x2F, 0x68, 0x34, 0x3E] @ js ''<ul>''
     @ li_line [0x6240, 0x5C5E, 0x6807, 0x7B7E, 0xFF1A] (ti_includes t) @ li_line excl (ti_excludes t)
     @ li_line [0x6536, 0x4EF6, 0x4EBA, 0x6635, 0x79F0, 0xFF1A] (ti_receiverName t) @ li_line [0x9ED8, 0x8BA4, 0x9000, 0x8BA2, 0xFF1A] (ti_unsubscribe t) @ js ''</ul>''
     @ [0x3C, 0x68, 0x34, 0x3E, 0x53D1, 0x9001, 0x8BBE, 0x7F6E, 0x3C, 0x2F, 0x68, 0x34, 0x3E] @ js ''<ul>'' @ li_line [0x53D1, 0x9001, 0x65B9, 0x5F0F, 0xFF1A] (ti_sendCode t) @ js ''</ul>''"

text \<open>The data of a row, by the loop over the keys.\<close>

definition row_tip :: "('t \<Rightarrow> jstring) \<Rightarrow> (jstring \<times> 't) list \<Rightarrow> jstring option \<Rightarrow> jstring" where
  "row_tip f data i =
     (case i of None \<Rightarrow> no_data | Some k \<Rightarrow> (case map_of data k of None \<Rightarrow> no_data | Some t \<Rightarrow> f t))"

definition mailing_task_tip :: "(jstring \<times> task_info) list \<Rightarrow> jstring option \<Rightarrow> jstring" where
  "mailing_task_tip taskData i = row_tip (task_html [0x6392, 0x9664, 0x6807, 0x7B7E, 0xFF1A]) taskData i"

definition mailing_audit_tip :: "(jstring \<times> task_info) list \<Rightarrow> jstring option \<Rightarrow> jstring" where
  "mailing_audit_tip taskData i = row_tip (task_html [0x6392, 0x9664, 0x6807, 0x7B7E, 0xFF1A]) taskData i"

definition refusal_tip :: "jstring \<Rightarrow> jstring" where
  "refusal_tip p = [0x3C, 0x64, 0x69, 0x76, 0x20, 0x73, 0x74, 0x79, 0x6C, 0x65, 0x3D, 0x27, 0x70, 0x61, 0x64, 0x64, 0x69, 0x6E, 0x67, 0x3A, 0x30, 0x20, 0x31, 0x30, 0x70, 0x78, 0x3B, 0x6D, 0x61, 0x78, 0x2D, 0x77, 0x69, 0x64, 0x74, 0x68, 0x3A, 0x32, 0x30, 0x30, 0x70, 0x78, 0x27, 0x3E] @ p @ js ''</div>''"

record file_info =
  fi_includes :: jsval
  fi_activeCnd :: jsval
  fi_inCnd :: jsval
  fi_excludes :: jsval
  fi_filter :: jsval
  fi_emailCount :: jsval
  fi_repeat :: jsval

definition file_html :: "file_info \<Rightarrow> jstring" where
  "file_html t =
     [0x3C, 0x68, 0x34, 0x3E, 0x5305, 0x542B, 0x6807, 0x7B7E, 0xFF1A, 0x3C, 0x2F, 0x68, 0x34, 0x3E] @ js ''<ul>'' @ li_line [] (fi_includes t)
     @ li_line [0x9009, 0x53D6, 0x6807, 0x7B7E, 0x4E0B, 0x7684, 0x6536, 0x4EF6, 0x4EBA, 0xFF1A] (fi_activeCnd t) @ li_line [0x53D6, 0x6807, 0x7B7E, 0x4E4B, 0x95F4, 0x7684, 0x6536, 0x4EF6, 0x4EBA, 0xFF1A] (fi_inCnd t) @ js ''</ul>''
     @ [0x3C, 0x68, 0x34, 0x3E, 0x6392, 0x9664, 0x6807, 0x7B7E, 0xFF1A, 0x3C, 0x2F, 0x68, 0x34, 0x3E] @ js ''<ul>'' @ li_line [] (fi_excludes t) @ js ''</ul>''
     @ [0x3C, 0x68, 0x34, 0x3E, 0x8FC7, 0x6EE4, 0x5668, 0xFF1A, 0x3C, 0x2F, 0x68, 0x34, 0x3E] @ js ''<ul>'' @ li_line [] (fi_filter t) @ js ''</ul>''
     @ [0x3C, 0x68, 0x34, 0x3E, 0x5F53, 0x524D, 0x6536, 0x4EF6, 0x4EBA, 0x603B, 0x6570, 0xFF1A, 0x3C, 0x73, 0x70, 0x61, 0x6E, 0x20, 0x63, 0x6C, 0x61, 0x73, 0x73, 0x3D, 0x22, 0x72, 0x65, 0x64, 0x22, 0x3E] @ to_str (fi_emailCount t)
     @ [0x3C, 0x2F, 0x73, 0x70, 0x61, 0x6E, 0x3E, 0x3C, 0x73, 0x70, 0x61, 0x6E, 0x20, 0x63, 0x6C, 0x61, 0x73, 0x73, 0x3D, 0x22, 0x66, 0x36, 0x36, 0x36, 0x22, 0x3E, 0xFF08] @ to_str (fi_repeat t) @ [0xFF09, 0x3C, 0x2F, 0x73, 0x70, 0x61, 0x6E, 0x3E, 0x3C, 0x2F, 0x68, 0x34, 0x3E]"

definition file_tip :: "(jstring \<times> file_info) list \<Rightarrow> jstring option \<Rightarrow> jstring" where
  "file_tip selectionData i = row_tip file_html selectionData i"

definition file_del :: "browser \<Rightarrow> (bool \<times> jstring) list \<Rightarrow> 'a ui_scheme \<Rightarrow> 'a ui_scheme" where
  "file_del b boxes u = del_tab b boxes [0x8BF7, 0x9009, 0x62E9, 0x9700, 0x8981, 0x5220, 0x9664, 0x7684, 0x6587, 0x4EF6] (js ''del'') 0 u"

subsection \<open>Properties of a recipient\<close>

definition prop_url :: "jstring \<Rightarrow> jstring \<Rightarrow> jstring \<Rightarrow> jstring" where
  "prop_url i e token = js ''prop?tagId='' @ i @ js ''&email='' @ e @ js ''&token='' @ token"

text \<open>The answer, key by key; \<open>None\<close> is an error. The result: what is kept for the element, if
  anything, and what is shown.\<close>

definition prop_items :: "(jstring \<times> jsval) list \<Rightarrow> jstring list" where
  "prop_items data = map (\<lambda>(k, v). k @ [0x26, 0x6E, 0x62, 0x73, 0x70, 0x3B, 0x7B49, 0x4E8E, 0x26, 0x6E, 0x62, 0x73, 0x70, 0x3B] @ to_str v) (filter (\<lambda>(k, v). k \<noteq> []) data)"

definition prop_answer :: "(jstring \<times> jsval) list option \<Rightarrow> jstring option \<times> jstring" where
  "prop_answer answer =
     (case answer of
        None \<Rightarrow> (None, [0x3C, 0x70, 0x3E, 0x52A0, 0x8F7D, 0x5931, 0x8D25, 0xFF01, 0x3C, 0x2F, 0x70, 0x3E])
      | Some data \<Rightarrow>
          (let newarr = prop_items data;
               filter_text = js ''<ul>'' @ concat (map (\<lambda>t. js ''<li>'' @ t @ js ''</li>'') newarr) @ js ''</ul>''
           in if newarr \<noteq> [] then (Some filter_text, filter_text) else (None, no_data)))"

definition recipient_go :: "jstring \<Rightarrow> 'a ui_scheme \<Rightarrow> 'a ui_scheme" where
  "recipient_go url u = go_to url u"

definition recipient_del :: "browser \<Rightarrow> (bool \<times> jstring) list \<Rightarrow> jstring \<Rightarrow> 'a ui_scheme \<Rightarrow> 'a ui_scheme" where
  "recipient_del b boxes action u = del_tab b boxes [0x8BF7, 0x9009, 0x62E9, 0x9700, 0x8981, 0x5220, 0x9664, 0x7684, 0x6536, 0x4EF6, 0x4EBA] (js ''del?action='' @ action) 0 u"

subsection \<open>Categories and their tags\<close>

text \<open>A category of the list: its id, whether its row is marked and its box open, and what the box
  holds; \<open>Table\<close> is the table of tags, the only content with the class that is asked for.\<close>

datatype tag_content = Empty | Loading | Table jstring | NoTags

record category =
  ca_id :: jstring
  ca_marked :: bool
  ca_open :: bool
  ca_content :: tag_content

record tag_row =
  tr_categoryName :: jstring
  tr_tagId :: jsval
  tr_tagName :: jsval
  tr_tagDesc :: jsval
  tr_emailCount :: jsval
  tr_createTime :: jsval
  tr_modifyTime :: jsval

definition tag_line :: "tag_row \<Rightarrow> jstring" where
  "tag_line t =
     js ''<tr>'' @ [0x3C, 0x74, 0x64, 0x20, 0x77, 0x69, 0x64, 0x74, 0x68, 0x3D, 0x27, 0x32, 0x35, 0x27, 0x3E, 0x3C, 0x2F, 0x74, 0x64, 0x3E]
     @ (if tr_categoryName t = [0x4E34, 0x65F6, 0x6587, 0x4EF6] then js ''<td>'' @ to_str (tr_tagName t) @ js ''</td>''
        else [0x3C, 0x74, 0x64, 0x3E, 0x3C, 0x61, 0x20, 0x68, 0x72, 0x65, 0x66, 0x3D, 0x27, 0x2F, 0x64, 0x61, 0x74, 0x61, 0x73, 0x6F, 0x75, 0x72, 0x63, 0x65, 0x2F, 0x72, 0x65, 0x63, 0x69, 0x70, 0x69, 0x65, 0x6E, 0x74, 0x2F, 0x70, 0x61, 0x67, 0x65, 0x3F, 0x61, 0x63, 0x74, 0x69, 0x6F, 0x6E, 0x3D, 0x63, 0x61, 0x74, 0x65, 0x67, 0x6F, 0x72, 0x79, 0x26, 0x74, 0x61, 0x67, 0x49, 0x64, 0x3D] @ to_str (tr_tagId t) @ [0x27, 0x3E]
             @ to_str (tr_tagName t) @ js ''</a></td>'')
     @ [0x3C, 0x74, 0x64, 0x20, 0x77, 0x69, 0x64, 0x74, 0x68, 0x3D, 0x27, 0x32, 0x30, 0x25, 0x27, 0x3E] @ to_str (tr_tagDesc t) @ js ''</td>'' @ [0x3C, 0x74, 0x64, 0x20, 0x77, 0x69, 0x64, 0x74, 0x68, 0x3D, 0x27, 0x31, 0x30, 0x25, 0x27, 0x3E] @ to_str (tr_emailCount t) @ js ''</td>''
     @ [0x3C, 0x74, 0x64, 0x20, 0x77, 0x69, 0x64, 0x74, 0x68, 0x3D, 0x27, 0x31, 0x32, 0x25, 0x27, 0x3E] @ to_str (tr_createTime t) @ js ''</td>'' @ [0x3C, 0x74, 0x64, 0x20, 0x77, 0x69, 0x64, 0x74, 0x68, 0x3D, 0x27, 0x31, 0x32, 0x25, 0x27, 0x3E] @ to_str (tr_modifyTime t) @ js ''</td>''
     @ [0x3C, 0x74, 0x64, 0x20, 0x63, 0x6C, 0x61, 0x73, 0x73, 0x3D, 0x27, 0x65, 0x64, 0x69, 0x74, 0x27, 0x20, 0x77, 0x69, 0x64, 0x74, 0x68, 0x3D, 0x27, 0x31, 0x36, 0x25, 0x27, 0x3E, 0x3C, 0x75, 0x6C, 0x20, 0x63, 0x6C, 0x61, 0x73, 0x73, 0x3D, 0x27, 0x66, 0x5F, 0x75, 0x6C, 0x27, 0x3E, 0x3C, 0x2F, 0x75, 0x6C, 0x3E, 0x3C, 0x2F, 0x74, 0x64, 0x3E] @ js ''</tr>''"

definition tag_table :: "tag_row list \<Rightarrow> jstring" where
  "tag_table ts =
     [0x3C, 0x74, 0x61, 0x62, 0x6C, 0x65, 0x20, 0x77, 0x69, 0x64, 0x74, 0x68, 0x3D, 0x27, 0x31, 0x30, 0x30, 0x25, 0x27, 0x20, 0x63, 0x65, 0x6C, 0x6C, 0x73, 0x70, 0x61, 0x63, 0x69, 0x6E, 0x67, 0x3D, 0x27, 0x30, 0x27, 0x20, 0x63, 0x65, 0x6C, 0x6C, 0x70, 0x61, 0x64, 0x64, 0x69, 0x6E, 0x67, 0x3D, 0x27, 0x30, 0x27, 0x20, 0x62, 0x6F, 0x72, 0x64, 0x65, 0x72, 0x3D, 0x27, 0x30, 0x27, 0x20, 0x63, 0x6C, 0x61, 0x73, 0x73, 0x3D, 0x27, 0x73, 0x6F, 0x72, 0x74, 0x5F, 0x74, 0x61, 0x62, 0x6C, 0x65, 0x27, 0x3E]
     @ concat (map tag_line ts) @ js ''</table>''"

text \<open>A click on a category; the result says whether its tags are asked for. The mark of a closed
  category goes when the animation ends (\<open>category_closed\<close>).\<close>

definition category_click :: "category \<Rightarrow> category \<times> bool" where
  "category_click c =
     (if ca_open c then (c\<lparr>ca_open := False\<rparr>, False)
      else (let c = c\<lparr>ca_marked := True, ca_open := True\<rparr>
            in case ca_content c of Table t \<Rightarrow> (c, False) | _ \<Rightarrow> (c\<lparr>ca_content := Loading\<rparr>, True)))"

definition category_closed :: "category \<Rightarrow> category" where
  "category_closed c = (if ca_open c then c else c\<lparr>ca_marked := False\<rparr>)"

definition category_url :: "jstring \<Rightarrow> category \<Rightarrow> jstring" where
  "category_url token c = js ''/datasource/tag/array?categoryId='' @ ca_id c @ js ''&token='' @ token"

definition category_answer :: "(jsval \<times> tag_row list) option \<Rightarrow> category \<Rightarrow> category" where
  "category_answer answer c =
     (case answer of
        Some (result, ts) \<Rightarrow> c\<lparr>ca_content := (if js_eq result (JInt 1) then Table (tag_table ts) else NoTags)\<rparr>
      | None \<Rightarrow> c\<lparr>ca_content := NoTags\<rparr>)"

definition category_del :: "browser \<Rightarrow> (bool \<times> jstring) list \<Rightarrow> 'a ui_scheme \<Rightarrow> 'a ui_scheme" where
  "category_del b boxes u = del_tab b boxes [0x8BF7, 0x9009, 0x62E9, 0x9700, 0x8981, 0x5220, 0x9664, 0x7684, 0x7C7B, 0x522B] (js ''del'') 0 u"

subsection \<open>Password, profile and settings\<close>

record password_page = ui +
  oldPassword :: jstring
  newPassword :: jstring
  passwordConfirm :: jstring

definition password_rules :: "jstring \<Rightarrow> jstring \<Rightarrow> jstring \<Rightarrow> rule list" where
  "password_rules old new conf =
     [Rule (old = []) [0x8BF7, 0x8F93, 0x5165, 0x539F, 0x5BC6, 0x7801] (Some (js ''oldPassword'')),
      Rule (new = []) [0x8BF7, 0x8F93, 0x5165, 0x65B0, 0x5BC6, 0x7801] (Some (js ''password'')),
      Rule (conf = []) [0x8BF7, 0x8F93, 0x5165, 0x786E, 0x8BA4, 0x5BC6, 0x7801] (Some (js ''passwordConfirm''))]"

definition password_check :: "browser \<Rightarrow> 'a password_page_scheme \<Rightarrow> 'a password_page_scheme + 'a password_page_scheme" where
  "password_check b s = check_rules b (password_rules (oldPassword s) (newPassword s) (passwordConfirm s)) (loading b [] s)"

interpretation password_form: form_check "password_check b"
  "\<lambda>s. password_rules (oldPassword s) (newPassword s) (passwordConfirm s)" b for b
  by unfold_locales (simp add: password_check_def guarded_def)

definition password_success :: "browser \<Rightarrow> reply \<Rightarrow> 'a password_page_scheme \<Rightarrow> 'a password_page_scheme" where
  "password_success b d s =
     (let s = s\<lparr>oldPassword := [], newPassword := [], passwordConfirm := []\<rparr>
      in del_loading b [] (if accepted d then ok_message b (message d) s else fail_message b (message d) s))"

text \<open>The field of the company is not on every page.\<close>

definition profile_rules :: "jstring \<Rightarrow> jstring option \<Rightarrow> rule list" where
  "profile_rules email company =
     [Rule (email = []) [0x8BF7, 0x8F93, 0x5165, 0x90AE, 0x7BB1, 0x5730, 0x5740] (Some (js ''email'')),
      Rule (company = Some []) [0x8BF7, 0x8F93, 0x5165, 0x516C, 0x53F8, 0x5730, 0x5740] (Some (js ''company''))]"

definition profile_check ::
  "browser \<Rightarrow> jstring \<Rightarrow> jstring option \<Rightarrow> 'a ui_scheme \<Rightarrow> 'a ui_scheme + 'a ui_scheme" where
  "profile_check b email company u = check_rules b (profile_rules email company) (loading b [] u)"

interpretation profile_form: form_check "profile_check b e c" "\<lambda>u. profile_rules e c" b for b e c
  by unfold_locales (simp add: profile_check_def guarded_def)

definition profile_success :: "browser \<Rightarrow> reply \<Rightarrow> 'a ui_scheme \<Rightarrow> 'a ui_scheme" where
  "profile_success b d u =
     del_loading b [] (if accepted d then ok_message b (message d) u else fail_message b (message d) u)"

text \<open>The page of the settings shows no mask.\<close>

definition settings_check :: "browser \<Rightarrow> jstring \<Rightarrow> jstring \<Rightarrow> 'a ui_scheme \<Rightarrow> 'a ui_scheme + 'a ui_scheme" where
  "settings_check b pw conf u =
     (if pw = [] then Inl (focus_el (js ''password'') (fail_message b [0x8BF7, 0x8F93, 0x5165, 0x5BC6, 0x7801] u))
      else if conf = [] then Inl (focus_el (js ''passwordConfirm'') (fail_message b [0x8BF7, 0x8F93, 0x5165, 0x91CD, 0x590D, 0x5BC6, 0x7801] u))
      else Inr u)"

definition settings_success :: "browser \<Rightarrow> reply \<Rightarrow> 'a ui_scheme \<Rightarrow> 'a ui_scheme" where
  "settings_success b d u =
     (if js_eq (code d) (JStr (js ''1'')) then error_message b (message d) 0 0 1000 (js ''/login'') u
      else fail_message b (message d) u)"

definition settings_timeout :: "browser \<Rightarrow> 'a ui_scheme \<Rightarrow> 'a ui_scheme" where
  "settings_timeout b u = fail_message b [0x4FEE, 0x6539, 0x5BC6, 0x7801, 0x8D85, 0x65F6] u"

subsection \<open>Reports\<close>

text \<open>\<open>m\<close> is the value of the field \<open>#m\<close>, on the pages that have it.\<close>

definition report_action ::
  "browser \<Rightarrow> jstring \<Rightarrow> jstring \<Rightarrow> jstring option \<Rightarrow> (bool \<times> jstring) list \<Rightarrow> 'a ui_scheme \<Rightarrow> 'a ui_scheme" where
  "report_action b action mess m boxes u =
     (let checkedIds = map snd (filter fst boxes)
      in if length checkedIds < 2
         then fail_message b ([0x8BF7, 0x81F3, 0x5C11, 0x9009, 0x62E9, 0x32, 0x4E2A, 0x4EE5, 0x4E0A, 0x9700, 0x8981] @ mess @ [0x7684, 0x4EFB, 0x52A1]) u
         else if action = js ''compare'' \<and> length checkedIds > 5
         then fail_message b ([0x8BF7, 0x81F3, 0x591A, 0x9009, 0x62E9, 0x35, 0x4E2A, 0x4EE5, 0x4E0B, 0x9700, 0x8981] @ mess @ [0x7684, 0x4EFB, 0x52A1]) u
         else case m of
                Some v \<Rightarrow> go_to (action @ js ''?m='' @ v @ js ''&checkedIds='' @ join (js '','') checkedIds) u
              | None \<Rightarrow> go_to (action @ js ''?checkedIds='' @ join (js '','') checkedIds) u)"

definition export_or_refuse :: "browser \<Rightarrow> jstring \<Rightarrow> jstring \<Rightarrow> jstring \<Rightarrow> jstring \<Rightarrow> 'a ui_scheme \<Rightarrow> 'a ui_scheme" where
  "export_or_refuse b none url i rest u = (if i = [] then fail_message b none u else go_to (url @ i @ rest) u)"

definition cover_task_exports :: "browser \<Rightarrow> jstring \<Rightarrow> 'a ui_scheme \<Rightarrow> 'a ui_scheme" where
  "cover_task_exports b tid u = export_or_refuse b [0x6CA1, 0x6709, 0x9700, 0x8981, 0x5BFC, 0x51FA, 0x7684, 0x6982, 0x89C8, 0x62A5, 0x544A] (js ''/report/export/task/cover?taskId='') tid [] u"

definition cover_campaign_exports :: "browser \<Rightarrow> jstring \<Rightarrow> 'a ui_scheme \<Rightarrow> 'a ui_scheme" where
  "cover_campaign_exports b cid u =
     export_or_refuse b [0x6CA1, 0x6709, 0x9700, 0x8981, 0x5BFC, 0x51FA, 0x7684, 0x6982, 0x89C8, 0x62A5, 0x544A] (js ''/report/export/campaign/cover?campaignId='') cid [] u"

definition cover_plan_exports :: "browser \<Rightarrow> jstring \<Rightarrow> 'a ui_scheme \<Rightarrow> 'a ui_scheme" where
  "cover_plan_exports b pid u = export_or_refuse b [0x6CA1, 0x6709, 0x9700, 0x8981, 0x5BFC, 0x51FA, 0x7684, 0x5468, 0x671F, 0x62A5, 0x544A] (js ''/report/export/plan?planId='') pid [] u"

definition client_campaign_exports :: "browser \<Rightarrow> jstring \<Rightarrow> 'a ui_scheme \<Rightarrow> 'a ui_scheme" where
  "client_campaign_exports b cid u =
     export_or_refuse b [0x6CA1, 0x6709, 0x9700, 0x8981, 0x5BFC, 0x51FA, 0x7684, 0x7EC8, 0x7AEF, 0x62A5, 0x544A] (js ''/report/export/campaign/client?campaignId='') cid [] u"

definition domain_task_exports :: "browser \<Rightarrow> jstring \<Rightarrow> 'a ui_scheme \<Rightarrow> 'a ui_scheme" where
  "domain_task_exports b tid u = export_or_refuse b [0x6CA1, 0x6709, 0x9700, 0x8981, 0x5BFC, 0x51FA, 0x7684, 0x57DF, 0x540D, 0x62A5, 0x544A] (js ''/report/export/task/domain?taskId='') tid [] u"

definition domain_campaign_exports :: "browser \<Rightarrow> jstring \<Rightarrow> 'a ui_scheme \<Rightarrow> 'a ui_scheme" where
  "domain_campaign_exports b cid u =
     export_or_refuse b [0x6CA1, 0x6709, 0x9700, 0x8981, 0x5BFC, 0x51FA, 0x7684, 0x57DF, 0x540D, 0x62A5, 0x544A] (js ''/report/export/campaign/domain?campaignId='') cid [] u"

definition send_task_exports :: "browser \<Rightarrow> jstring \<Rightarrow> 'a ui_scheme \<Rightarrow> 'a ui_scheme" where
  "send_task_exports b tid u = export_or_refuse b [0x6CA1, 0x6709, 0x9700, 0x8981, 0x5BFC, 0x51FA, 0x7684, 0x5F39, 0x56DE, 0x62A5, 0x544A] (js ''/report/export/task/send?taskId='') tid [] u"

definition send_campaign_exports :: "browser \<Rightarrow> jstring \<Rightarrow> 'a ui_scheme \<Rightarrow> 'a ui_scheme" where
  "send_campaign_exports b cid u =
     export_or_refuse b [0x6CA1, 0x6709, 0x9700, 0x8981, 0x5BFC, 0x51FA, 0x7684, 0x53D1, 0x9001, 0x62A5, 0x544A] (js ''/report/export/campaign/send?campaignId='') cid [] u"

definition open_task_exports :: "browser \<Rightarrow> jstring \<Rightarrow> 'a ui_scheme \<Rightarrow> 'a ui_scheme" where
  "open_task_exports b tid u = export_or_refuse b [0x6CA1, 0x6709, 0x9700, 0x8981, 0x5BFC, 0x51FA, 0x7684, 0x6253, 0x5F00, 0x62A5, 0x544A] (js ''/report/export/task/open?taskId='') tid [] u"

definition open_campaign_exports :: "browser \<Rightarrow> jstring \<Rightarrow> 'a ui_scheme \<Rightarrow> 'a ui_scheme" where
  "open_campaign_exports b cid u =
     export_or_refuse b [0x6CA1, 0x6709, 0x9700, 0x8981, 0x5BFC, 0x51FA, 0x7684, 0x6253, 0x5F00, 0x62A5, 0x544A] (js ''/report/export/campaign/open?campaignId='') cid [] u"

definition click_task_exports :: "browser \<Rightarrow> jstring \<Rightarrow> 'a ui_scheme \<Rightarrow> 'a ui_scheme" where
  "click_task_exports b tid u = export_or_refuse b [0x6CA1, 0x6709, 0x9700, 0x8981, 0x5BFC, 0x51FA, 0x7684, 0x70B9, 0x51FB, 0x62A5, 0x544A] (js ''/report/export/task/click?taskId='') tid [] u"

definition click_campaign_exports :: "browser \<Rightarrow> jstring \<Rightarrow> 'a ui_scheme \<Rightarrow> 'a ui_scheme" where
  "click_campaign_exports b cid u =
     export_or_refuse b [0x6CA1, 0x6709, 0x9700, 0x8981, 0x5BFC, 0x51FA, 0x7684, 0x70B9, 0x51FB, 0x62A5, 0x544A] (js ''/report/export/campaign/click?campaignId='') cid [] u"

definition region_task_exports :: "browser \<Rightarrow> jstring \<Rightarrow> 'a ui_scheme \<Rightarrow> 'a ui_scheme" where
  "region_task_exports b tid u = export_or_refuse b [0x6CA1, 0x6709, 0x9700, 0x8981, 0x5BFC, 0x51FA, 0x7684, 0x5730, 0x57DF, 0x62A5, 0x544A] (js ''/report/export/task/region?taskId='') tid [] u"

definition region_campaign_exports :: "browser \<Rightarrow> jstring \<Rightarrow> 'a ui_scheme \<Rightarrow> 'a ui_scheme" where
  "region_campaign_exports b cid u =
     export_or_refuse b [0x6CA1, 0x6709, 0x9700, 0x8981, 0x5BFC, 0x51FA, 0x7684, 0x5730, 0x57DF, 0x62A5, 0x544A] (js ''/report/export/campaign/region?campaignId='') cid [] u"

definition touch_exports :: "browser \<Rightarrow> jstring \<Rightarrow> jstring \<Rightarrow> 'a ui_scheme \<Rightarrow> 'a ui_scheme" where
  "touch_exports b taskId templateId u =
     export_or_refuse b [0x6CA1, 0x6709, 0x9700, 0x8981, 0x5BFC, 0x51FA, 0x7684, 0x6982, 0x89C8, 0x62A5, 0x544A] (js ''/report/export/touch/touch?taskId='') taskId (js ''&templateId='' @ templateId) u"

definition touch_cover_exports :: "browser \<Rightarrow> jstring \<Rightarrow> jstring \<Rightarrow> 'a ui_scheme \<Rightarrow> 'a ui_scheme" where
  "touch_cover_exports b touchId templateId u =
     export_or_refuse b [0x6CA1, 0x6709, 0x9700, 0x8981, 0x5BFC, 0x51FA, 0x7684, 0x6982, 0x89C8, 0x62A5, 0x544A] (js ''/report/export/touch/cover?touchId='') touchId (js ''&templateId='' @ templateId) u"

definition recipients_exports :: "browser \<Rightarrow> jstring \<Rightarrow> jstring \<Rightarrow> 'a ui_scheme \<Rightarrow> 'a ui_scheme" where
  "recipients_exports b taskId templateId u =
     export_or_refuse b [0x6CA1, 0x6709, 0x9700, 0x8981, 0x5BFC, 0x51FA, 0x7684, 0x89E3, 0x53D1, 0x8BA1, 0x5212, 0x62A5, 0x544A] (js ''/report/export/touch/recipients?taskId='') taskId (js ''&templateId='' @ templateId) u"

definition history_order :: "jstring \<Rightarrow> jstring \<Rightarrow> 'a ui_scheme \<Rightarrow> 'a ui_scheme" where
  "history_order cid order u = go_to (js ''history?campaignId='' @ cid @ js ''&orderBy='' @ order) u"

definition history_campaign_exports :: "browser \<Rightarrow> jstring \<Rightarrow> jstring \<Rightarrow> 'a ui_scheme \<Rightarrow> 'a ui_scheme" where
  "history_campaign_exports b cid order u =
     export_or_refuse b [0x6CA1, 0x6709, 0x9700, 0x8981, 0x5BFC, 0x51FA, 0x7684, 0x5386, 0x53F2, 0x62A5, 0x544A] (js ''/report/export/campaign/history?campaignId='') cid (js ''&orderBy='' @ order) u"

definition history_plan_exports :: "browser \<Rightarrow> jstring \<Rightarrow> 'a ui_scheme \<Rightarrow> 'a ui_scheme" where
  "history_plan_exports b pid u = export_or_refuse b [0x6CA1, 0x6709, 0x9700, 0x8981, 0x5BFC, 0x51FA, 0x7684, 0x5468, 0x671F, 0x62A5, 0x544A] (js ''/report/export/plan?planId='') pid [] u"

definition sum_exports :: "jstring \<Rightarrow> jstring \<Rightarrow> jstring \<Rightarrow> 'a ui_scheme \<Rightarrow> 'a ui_scheme" where
  "sum_exports action beginTime endTime u =
     go_to (js ''/report/export/'' @ action @ js ''?beginTime='' @ beginTime @ js ''&endTime='' @ endTime) u"

text \<open>\<open>cover\<close>: the two charts of the overview take turns; the second component is the chart drawn.\<close>

definition cover :: "jstring \<Rightarrow> 'a ui_scheme \<Rightarrow> 'a ui_scheme \<times> jstring" where
  "cover kind u =
     (if kind = js ''column'' then (show_el (js ''#column'') (hide_el (js ''#funnel'') u), js ''#column'')
      else (show_el (js ''#funnel'') (hide_el (js ''#column'') u), js ''#funnel''))"

subsection \<open>Ranges of dates\<close>

text \<open>\<open>select_data\<close>: the dates are set by the calendar plugin, which reads a number of days from today;
  \<open>set_date\<close> is the text it then shows.\<close>

definition select_data :: "(jstring \<Rightarrow> jstring) \<Rightarrow> jstring \<Rightarrow> jstring \<times> jstring" where
  "select_data set_date cycle =
     (if str_gt cycle 0 then (set_date (js ''-'' @ cycle @ js ''d''), set_date (js ''-0d'')) else ([], []))"

text \<open>\<open>getDateRange\<close> of the operators' site; \<open>date_of\<close> gives year, month (from 1) and day of a time in
  milliseconds.\<close>

definition pad_two :: "nat \<Rightarrow> jstring" where
  "pad_two n = (if n < 10 then js ''0'' @ nat_to_str n else nat_to_str n)"

definition date_str :: "int \<times> nat \<times> nat \<Rightarrow> jstring" where
  "date_str d = (case d of (y, m, day) \<Rightarrow> int_to_str y @ js ''-'' @ pad_two m @ js ''-'' @ pad_two day)"

definition getDateRange :: "(int \<Rightarrow> int \<times> nat \<times> nat) \<Rightarrow> int \<Rightarrow> int option \<Rightarrow> jstring \<times> jstring" where
  "getDateRange date_of time days =
     (case days of
        None \<Rightarrow> ([], [])
      | Some r \<Rightarrow> (date_str (date_of (time - 24 * 60 * 60 * 1000 * r)), date_str (date_of time)))"

subsection \<open>Lemmas\<close>

lemma password_passes:
  "(\<exists>v. password_check b s = Inr v) \<longleftrightarrow> oldPassword s \<noteq> [] \<and> newPassword s \<noteq> [] \<and> passwordConfirm s \<noteq> []"
  by (simp add: password_form.passes password_rules_def)

lemma profile_passes: "(\<exists>v. profile_check b e c u = Inr v) \<longleftrightarrow> e \<noteq> [] \<and> c \<noteq> Some []"
  by (simp add: profile_form.passes profile_rules_def)

text \<open>The ids of a comparison can be read off its address.\<close>

lemma report_action_compare:
  assumes "ids = map snd (filter fst boxes)"
  shows "navs (report_action b (js ''compare'') mess None boxes u) = navs u @
    (if 2 \<le> length ids \<and> length ids \<le> 5 then [js ''compare?checkedIds='' @ join (js '','') ids] else [])"
proof -
  have f: "navs (fail_message b x u) = navs u" for x
    by (simp add: error_message_def Let_def setTimeout_def clearTimeout_def)
  show ?thesis
    using assms by (auto simp: report_action_def Let_def f go_to_def js_append [symmetric] simp del: js_append)
qed

text \<open>A category that is closed and opened again before its tags arrive asks for them twice, and an
  error as the second answer takes the table of the first away.\<close>

lemma category_asked_twice:
  assumes "\<not> ca_open c" "ca_content c = Empty \<or> ca_content c = Loading \<or> ca_content c = NoTags"
  shows "category_click c = (c\<lparr>ca_marked := True, ca_open := True, ca_content := Loading\<rparr>, True)"
    and "snd (category_click (fst (category_click (fst (category_click c)))))"
    and "ca_content (category_answer None (category_answer (Some (JInt 1, ts)) c)) = NoTags"
proof -
  show first: "category_click c = (c\<lparr>ca_marked := True, ca_open := True, ca_content := Loading\<rparr>, True)"
    using assms by (auto simp: category_click_def Let_def)
  show "snd (category_click (fst (category_click (fst (category_click c)))))"
    by (simp add: first) (simp add: category_click_def Let_def)
  show "ca_content (category_answer None (category_answer (Some (JInt 1, ts)) c)) = NoTags"
    by (simp add: category_answer_def)
qed

text \<open>An open category always shows something: its tags, that there are none, or that they are being
  loaded, for which an answer is then still to come.\<close>

lemma category_click_shown: "ca_open (fst (category_click c)) \<Longrightarrow> ca_content (fst (category_click c)) \<noteq> Empty"
  by (auto simp: category_click_def Let_def split: tag_content.splits if_splits)

end
