(* ===== verification/Auditing.thy ===== *)
theory Auditing
  imports MasterLists Lists
begin

text \<open>
  Auditing on the operators' site: the decision about a task (\<open>task/auditPage.js\<close>), the information
  behind a row of the lists of tasks (\<open>task/unauditList.js\<close>, \<open>task/task.priority.js\<close>), and the
  activation of an account from its page (\<open>account/accountDetail.js\<close>).
\<close>

subsection \<open>The decision\<close>

record audit_page = v_page +
  au_flag :: jstring
  au_suggestion :: jstring
  au_asked :: "jstring list"

definition audit_send :: "jstring \<Rightarrow> 'a audit_page_scheme \<Rightarrow> 'a audit_page_scheme" where
  "audit_send action s =
     (let s' = set_disabled (js ''#btn_no'') True (set_disabled (js ''#btn_yes'') True (show_el (js ''#prompt'') s))
      in s'\<lparr>m_posts := m_posts s' @ [(action, [(js ''flag'', au_flag s), (js ''suggestion'', au_suggestion s)] @ m_extra s)]\<rparr>)"

definition audit_confirmed ::
  "jstring \<Rightarrow> bool \<Rightarrow> jstring \<Rightarrow> 'a audit_page_scheme \<Rightarrow> 'a audit_page_scheme" where
  "audit_confirmed question yes action s =
     (let s = s\<lparr>au_asked := au_asked s @ [question]\<rparr> in if yes then audit_send action s else s)"

definition too_long :: "'a v_page_scheme \<Rightarrow> 'a v_page_scheme" where
  "too_long s = focus_el (js ''#suggestion'') (messagebox [0x4E0D, 0x80FD, 0x8D85, 0x8FC7, 0x36, 0x30, 0x4E2A, 0x5B57, 0x7B26] 0 2000 s)"

definition audit :: "jstring \<Rightarrow> bool \<Rightarrow> jstring \<Rightarrow> 'a audit_page_scheme \<Rightarrow> 'a audit_page_scheme" where
  "audit action yes flag s =
     (let s = s\<lparr>au_flag := flag\<rparr>
      in if flag = js ''no'' then
           if strip_ws (au_suggestion s) = []
           then focus_el (js ''#suggestion'') (messagebox [0x8BF7, 0x586B, 0x5199, 0x5BA1, 0x6838, 0x610F, 0x89C1] 0 2000 s)
           else if length (au_suggestion s) > 60 then too_long s
           else audit_confirmed [0x786E, 0x5B9A, 0x5BA1, 0x6838, 0x4E0D, 0x901A, 0x8FC7, 0x5417, 0xFF1F] yes action s
         else if length (au_suggestion s) > 60 then too_long s
         else audit_confirmed [0x786E, 0x5B9A, 0x5BA1, 0x6838, 0x901A, 0x8FC7, 0x5417, 0xFF1F] yes action s)"

definition audit_answered :: "m_answer \<Rightarrow> 'a audit_page_scheme \<Rightarrow> 'a audit_page_scheme" where
  "audit_answered data s =
     (case data of
        NoData \<Rightarrow> s
      | Answer res mess \<Rightarrow>
          if res = Some (js ''success'') then delay (js ''timingClose()'') 2000 (messagebox (shown_msg mess) 1 2000 s)
          else messagebox (case mess of None \<Rightarrow> [0x65E0, 0x6CD5, 0x83B7, 0x53D6, 0x54CD, 0x5E94, 0xFF0C, 0x6709, 0x53EF, 0x80FD, 0x8D26, 0x53F7, 0x5DF2, 0x5728, 0x522B, 0x5904, 0x767B, 0x5F55] | Some m \<Rightarrow> m) 0 3000
                 (set_disabled (js ''#btn_no'') False (set_disabled (js ''#btn_yes'') False (hide_el (js ''#prompt'') s))))"

definition timingClose :: "'a v_page_scheme \<Rightarrow> 'a v_page_scheme" where
  "timingClose s = closeWin s"

subsection \<open>Lists of tasks\<close>

definition unaudit_tip :: "(jstring \<times> task_info) list \<Rightarrow> jstring option \<Rightarrow> jstring" where
  "unaudit_tip taskData i = row_tip (task_html [0x6392, 0x9664, 0x9000, 0x8BA2, 0xFF1A]) taskData i"

definition unaudit_refusal_tip :: "jstring \<Rightarrow> jstring" where
  "unaudit_refusal_tip p = [0x3C, 0x64, 0x69, 0x76, 0x20, 0x73, 0x74, 0x79, 0x6C, 0x65, 0x3D, 0x27, 0x70, 0x61, 0x64, 0x64, 0x69, 0x6E, 0x67, 0x3A, 0x30, 0x20, 0x31, 0x30, 0x70, 0x78, 0x3B, 0x6D, 0x61, 0x78, 0x2D, 0x77, 0x69, 0x64, 0x74, 0x68, 0x3A, 0x32, 0x30, 0x30, 0x70, 0x78, 0x27, 0x3E] @ p @ js ''</div>''"

definition priority_tip :: "(jstring \<times> task_info) list \<Rightarrow> jstring option \<Rightarrow> jstring" where
  "priority_tip taskData i = row_tip (task_html [0x6392, 0x9664, 0x9000, 0x8BA2, 0xFF1A]) taskData i"

text \<open>\<open>prompt\<close> of the list: a message of the kind of an error.\<close>

definition unaudit_prompt :: "jstring \<Rightarrow> 'a robot_page_scheme \<Rightarrow> 'a robot_page_scheme" where
  "unaudit_prompt msg s = (if msg \<noteq> [] then messagebox msg 0 2000 s else s)"

subsection \<open>Activation\<close>

definition detail_activate :: "bool \<Rightarrow> jstring \<Rightarrow> 'a v_page_scheme \<Rightarrow> 'a v_page_scheme" where
  "detail_activate yes url s = (if yes then send_form (js ''#btn_submit'') url s else s)"

definition detail_answered :: "m_answer \<Rightarrow> 'a v_page_scheme \<Rightarrow> 'a v_page_scheme" where
  "detail_answered data s =
     (case data of
        NoData \<Rightarrow> s
      | Answer res mess \<Rightarrow>
          if res = Some (js ''success'') then delay (js ''success()'') 2000 (messagebox (shown_msg mess) 1 2000 s)
          else messagebox (shown_msg mess) 0 3000 (set_disabled (js ''#btn_submit'') False (hide_el (js ''#prompt'') s)))"

subsection \<open>Properties\<close>

text \<open>C16: A decision about a task is sent exactly if the operator confirms it, the opinion has at most 60
  characters and, for a refusal, is not blank: then once, with the decision and the opinion, and with
  both buttons disabled. Otherwise nothing is sent, and no question is asked unless the opinion is
  acceptable.\<close>

theorem audit_sent_iff:
  "m_posts (audit action yes flag s) = m_posts s @
     (if yes \<and> length (au_suggestion s) \<le> 60 \<and> (flag = js ''no'' \<longrightarrow> strip_ws (au_suggestion s) \<noteq> [])
      then [(action, [(js ''flag'', flag), (js ''suggestion'', au_suggestion s)] @ m_extra s)] else [])
   \<and> length (au_asked (audit action yes flag s)) = length (au_asked s) +
     (if length (au_suggestion s) \<le> 60 \<and> (flag = js ''no'' \<longrightarrow> strip_ws (au_suggestion s) \<noteq> []) then 1 else 0)
   \<and> (m_posts (audit action yes flag s) \<noteq> m_posts s \<longrightarrow>
        m_disabled (audit action yes flag s) (js ''#btn_yes'') \<and> m_disabled (audit action yes flag s) (js ''#btn_no''))"
  by (auto simp: audit_def audit_confirmed_def audit_send_def too_long_def messagebox_def focus_el_def Let_def
      set_disabled_def show_el_def)

definition audit_page0 :: audit_page where
  "audit_page0 = ui.extend page0 \<lparr>robots = [], mbox = [], v_fields = [], v_submitted = [], v_last_el = None,
     v_last_active = None, v_eq = [], v_clear = [], v_error = (\<lambda>i. False), m_disabled = (\<lambda>i. False), m_extra = [],
     m_posts = [], m_later = [], m_alerts = [], m_closed = False, au_flag = [], au_suggestion = js ''ok'', au_asked = []\<rparr>"

theorem audit_sent_iff_witness:
  "m_posts (audit (js ''/task/audit'') True (js ''no'') audit_page0) =
     [(js ''/task/audit'', [(js ''flag'', js ''no''), (js ''suggestion'', js ''ok'')])]"
proof -
  have "au_suggestion audit_page0 = js ''ok''" "m_posts audit_page0 = []" "m_extra audit_page0 = []"
    by (simp_all add: audit_page0_def page0_def ui.defs)
  moreover have "strip_ws (js ''ok'') \<noteq> []" by (simp add: strip_ws_def js_def is_ws_def)
  ultimately show ?thesis
    using audit_sent_iff [of "js ''/task/audit''" True "js ''no''" audit_page0] by simp
qed

text \<open>After a refusal by the server the form can be used again, and its message stands.\<close>

lemma audit_refused_again:
  assumes "res \<noteq> Some (js ''success'')"
  shows "\<not> m_disabled (audit_answered (Answer res mess) s) (js ''#btn_yes'')
    \<and> \<not> m_disabled (audit_answered (Answer res mess) s) (js ''#btn_no'')
    \<and> \<not> shown (audit_answered (Answer res mess) s) (js ''#prompt'')
    \<and> m_posts (audit_answered (Answer res mess) s) = m_posts s"
  using assms by (simp add: audit_answered_def messagebox_def set_disabled_def hide_el_def)

text \<open>Without an answer of the server, or without one it can read, the buttons stay disabled.\<close>

lemma audit_no_data: "audit_answered NoData s = s"
  by (simp add: audit_answered_def)

text \<open>The two sites show a task in the same way but for one label.\<close>

lemma tips_agree:
  "unaudit_tip taskData i = priority_tip taskData i" "mailing_task_tip taskData i = mailing_audit_tip taskData i"
  by (simp_all add: unaudit_tip_def priority_tip_def mailing_task_tip_def mailing_audit_tip_def)

end
