(* ===== verification/Menu.thy ===== *)
theory Menu
  imports JsValue
begin

text \<open>
  The menus of the operators' site: the folding menu of \<open>home/menu/sdmenu.js\<close>, whose submenus open
  and close step by step and which remembers them in a cookie, and, of \<open>common/common.js\<close>, the side
  bar and the boxes that tick the rows of a list.

  All intervals of the folding menu have the same period. A new one is due a period from now, when no
  other is due later, and so is one that goes on: they fire in the order of a queue.
\<close>

subsection \<open>The folding menu\<close>

abbreviation collapsed :: jstring where "collapsed \<equiv> js ''collapsed''"

text \<open>A submenu: the heights of its title and its links, the height the style sheet gives it when
  collapsed, its class and the height of its style, if one is set.\<close>

record submenu =
  sm_span :: int
  sm_links :: "int list"
  sm_small :: int
  sm_class :: jstring
  sm_height :: "int option"

record interval =
  iv_sub :: nat
  iv_expand :: bool
  iv_limit :: int      \<comment> \<open>\<open>fullHeight\<close> or \<open>minHeight\<close>\<close>
  iv_move :: int

record sd_menu =
  sd_id :: jstring
  submenus :: "submenu list"
  sd_links :: "jstring list"      \<comment> \<open>the classes of the links of the menu, and of the others\<close>
  sd_others :: "jstring list"
  remember :: bool
  speed :: int
  markCurrent :: bool
  oneSmOnly :: bool
  intervals :: "interval list"
  jar :: "(jstring \<times> jstring) list"

definition SDMenu ::
  "jstring \<Rightarrow> submenu list \<Rightarrow> jstring list \<Rightarrow> jstring list \<Rightarrow> (jstring \<times> jstring) list \<Rightarrow> sd_menu" where
  "SDMenu i sms links others cookies =
     \<lparr>sd_id = i, submenus = sms, sd_links = links, sd_others = others, remember = True, speed = 5,
      markCurrent = True, oneSmOnly = True, intervals = [], jar = cookies\<rparr>"

abbreviation is_open :: "submenu \<Rightarrow> bool" where
  "is_open sm \<equiv> sm_class sm \<noteq> collapsed"

definition fullHeight :: "submenu \<Rightarrow> int" where
  "fullHeight sm = sm_span sm + sum_list (sm_links sm)"

definition offsetHeight :: "submenu \<Rightarrow> int" where
  "offsetHeight sm =
     (case sm_height sm of Some h \<Rightarrow> h | None \<Rightarrow> if is_open sm then fullHeight sm else sm_small sm)"

text \<open>\<open>document.cookie\<close>: what is read, and what an assignment does to the cookies of the site.\<close>

definition cookie_text :: "(jstring \<times> jstring) list \<Rightarrow> jstring" where
  "cookie_text cs = join (js ''; '') (map (\<lambda>(k, v). k @ js ''='' @ v) cs)"

fun set_cookie :: "jstring \<Rightarrow> jstring \<Rightarrow> (jstring \<times> jstring) list \<Rightarrow> (jstring \<times> jstring) list" where
  "set_cookie k v [] = [(k, v)]"
| "set_cookie k v (c # cs) = (if fst c = k then (k, v) # cs else c # set_cookie k v cs)"

text \<open>The name of the cookie. The menu's id consists of letters, digits and underscores, so that
  \<open>encodeURIComponent\<close> leaves it and a pattern made of it matches itself.\<close>

definition sd_key :: "'a sd_menu_scheme \<Rightarrow> jstring" where
  "sd_key m = js ''sdmenu_'' @ sd_id m"

definition is_bit :: "nat \<Rightarrow> bool" where
  "is_bit c \<longleftrightarrow> c = 48 \<or> c = 49"

text \<open>The pattern \<open>key([01]+)\<close> with its group.\<close>

fun cookie_match :: "jstring \<Rightarrow> jstring \<Rightarrow> jstring option" where
  "cookie_match k [] = None"
| "cookie_match k (c # s) =
     (if prefix k (c # s) \<and> takeWhile is_bit (drop (length k) (c # s)) \<noteq> []
      then Some (takeWhile is_bit (drop (length k) (c # s)))
      else cookie_match k s)"

definition set_sub :: "nat \<Rightarrow> submenu \<Rightarrow> 'a sd_menu_scheme \<Rightarrow> 'a sd_menu_scheme" where
  "set_sub i sm m = m\<lparr>submenus := (submenus m)[i := sm]\<rparr>"

definition memorize :: "'a sd_menu_scheme \<Rightarrow> 'a sd_menu_scheme" where
  "memorize m =
     (if remember m
      then m\<lparr>jar := set_cookie (sd_key m) (map (\<lambda>sm. if sm_class sm = collapsed then 48 else 49) (submenus m)) (jar m)\<rparr>
      else m)"

definition interval_of :: "int \<Rightarrow> nat \<Rightarrow> submenu \<Rightarrow> bool \<Rightarrow> interval" where
  "interval_of v i sm e =
     \<lparr>iv_sub = i, iv_expand = e, iv_limit = (if e then fullHeight sm else sm_span sm), iv_move = v * int (length (sm_links sm))\<rparr>"

definition start_interval :: "bool \<Rightarrow> nat \<Rightarrow> 'a sd_menu_scheme \<Rightarrow> 'a sd_menu_scheme" where
  "start_interval e i m = m\<lparr>intervals := intervals m @ [interval_of (speed m) i (submenus m ! i) e]\<rparr>"

definition collapseMenu :: "nat \<Rightarrow> 'a sd_menu_scheme \<Rightarrow> 'a sd_menu_scheme" where
  "collapseMenu i m = start_interval False i m"

definition collapseOthers :: "nat \<Rightarrow> 'a sd_menu_scheme \<Rightarrow> 'a sd_menu_scheme" where
  "collapseOthers i m =
     (if oneSmOnly m
      then fold (\<lambda>j m. if j \<noteq> i \<and> sm_class (submenus m ! j) \<noteq> collapsed then collapseMenu j m else m) [0..<length (submenus m)] m
      else m)"

definition expandMenu :: "nat \<Rightarrow> 'a sd_menu_scheme \<Rightarrow> 'a sd_menu_scheme" where
  "expandMenu i m = collapseOthers i (start_interval True i m)"

definition toggleMenu :: "nat \<Rightarrow> 'a sd_menu_scheme \<Rightarrow> 'a sd_menu_scheme" where
  "toggleMenu i m = (if sm_class (submenus m ! i) = collapsed then expandMenu i m else collapseMenu i m)"

definition expandAll :: "'a sd_menu_scheme \<Rightarrow> 'a sd_menu_scheme" where
  "expandAll m =
     (let m' = fold (\<lambda>j m. if sm_class (submenus m ! j) = collapsed then expandMenu j m else m)
                 [0..<length (submenus m)] (m\<lparr>oneSmOnly := True\<rparr>)
      in m'\<lparr>oneSmOnly := oneSmOnly m\<rparr>)"

definition collapseAll :: "'a sd_menu_scheme \<Rightarrow> 'a sd_menu_scheme" where
  "collapseAll m =
     fold (\<lambda>j m. if sm_class (submenus m ! j) \<noteq> collapsed then collapseMenu j m else m) [0..<length (submenus m)] m"

text \<open>The function of an interval: the submenu after it, and whether the interval goes on.\<close>

definition move_sub :: "interval \<Rightarrow> submenu \<Rightarrow> submenu \<times> bool" where
  "move_sub iv sm =
     (if iv_expand iv
      then (let newHeight = offsetHeight sm + iv_move iv
            in if newHeight < iv_limit iv then (sm\<lparr>sm_height := Some newHeight\<rparr>, True)
               else (sm\<lparr>sm_height := None, sm_class := []\<rparr>, False))
      else (let newHeight = offsetHeight sm - iv_move iv
            in if newHeight > iv_limit iv then (sm\<lparr>sm_height := Some newHeight\<rparr>, True)
               else (sm\<lparr>sm_height := None, sm_class := collapsed\<rparr>, False)))"

definition menu_tick :: "'a sd_menu_scheme \<Rightarrow> 'a sd_menu_scheme" where
  "menu_tick m =
     (case intervals m of
        [] \<Rightarrow> m
      | iv # rest \<Rightarrow>
          (let (sm, again) = move_sub iv (submenus m ! iv_sub iv); m' = set_sub (iv_sub iv) sm m
           in if again then m'\<lparr>intervals := rest @ [iv]\<rparr> else memorize (m'\<lparr>intervals := rest\<rparr>)))"

text \<open>Links: the first one is current, a click makes another one current.\<close>

definition link_click :: "nat \<Rightarrow> 'a sd_menu_scheme \<Rightarrow> 'a sd_menu_scheme" where
  "link_click i m =
     (let clear = map (\<lambda>c. if c = js ''current'' then [] else c)
      in m\<lparr>sd_links := (clear (sd_links m))[i := js ''current''], sd_others := clear (sd_others m)\<rparr>)"

text \<open>\<open>init\<close>, with whether it raised: a cookie of more submenus than there are does so.\<close>

fun set_states :: "jstring \<Rightarrow> submenu list \<Rightarrow> submenu list \<times> bool" where
  "set_states [] sms = (sms, False)"
| "set_states (b # bs) [] = ([], True)"
| "set_states (b # bs) (sm # sms) =
     (let (r, raised) = set_states bs sms in (sm\<lparr>sm_class := (if b = 48 then collapsed else [])\<rparr> # r, raised))"

definition sd_init :: "'a sd_menu_scheme \<Rightarrow> 'a sd_menu_scheme \<times> bool" where
  "sd_init m =
     (let m = (if markCurrent m \<and> sd_links m \<noteq> [] then m\<lparr>sd_links := (sd_links m)[0 := js ''current'']\<rparr> else m)
      in if remember m
         then (case cookie_match (sd_key m @ js ''='') (cookie_text (jar m)) of
                 None \<Rightarrow> (m, False)
               | Some states \<Rightarrow> (let (sms, raised) = set_states states (submenus m) in (m\<lparr>submenus := sms\<rparr>, raised)))
         else (m, False))"

subsection \<open>What the intervals come to\<close>

text \<open>The intervals of a submenu, by what they do, and whether it is to be open when all have ended.\<close>

definition queue_of :: "'a sd_menu_scheme \<Rightarrow> nat \<Rightarrow> bool list" where
  "queue_of m i = map iv_expand (filter (\<lambda>iv. iv_sub iv = i) (intervals m))"

definition wanted_by :: "bool list \<Rightarrow> submenu \<Rightarrow> bool" where
  "wanted_by q sm = (if q = [] then is_open sm else last q)"

definition wanted :: "'a sd_menu_scheme \<Rightarrow> nat \<Rightarrow> bool" where
  "wanted m i = wanted_by (queue_of m i) (submenus m ! i)"

text \<open>The sizes: a submenu has links, and the style sheet's height of a collapsed one is not above
  that of its title by more than a step.\<close>

definition sized :: "int \<Rightarrow> submenu \<Rightarrow> bool" where
  "sized v sm \<longleftrightarrow> sm_links sm \<noteq> [] \<and> sm_small sm \<le> sm_span sm + v * int (length (sm_links sm))"

text \<open>Intervals that have nothing left to do come first, and then no height is set.\<close>

definition queue_ok :: "bool list \<Rightarrow> submenu \<Rightarrow> bool" where
  "queue_ok q sm \<longleftrightarrow>
     (\<exists>k n. q = replicate k (is_open sm) @ replicate n (\<not> is_open sm) \<and> (0 < k \<longrightarrow> sm_height sm = None))"

definition menu_ok :: "'a sd_menu_scheme \<Rightarrow> bool" where
  "menu_ok m \<longleftrightarrow>
     0 < speed m \<and> (\<forall>sm \<in> set (submenus m). sized (speed m) sm)
     \<and> (\<forall>iv \<in> set (intervals m). iv_sub iv < length (submenus m)
          \<and> iv = interval_of (speed m) (iv_sub iv) (submenus m ! iv_sub iv) (iv_expand iv))
     \<and> (\<forall>i < length (submenus m). queue_ok (queue_of m i) (submenus m ! i))"

text \<open>How far a submenu still has to move.\<close>

definition way :: "submenu \<Rightarrow> nat" where
  "way sm = nat (if is_open sm then offsetHeight sm - sm_span sm else fullHeight sm - offsetHeight sm)"

lemma wanted_by_append [simp]: "wanted_by (q @ [e]) sm = e"
  by (simp add: wanted_by_def)

lemma interval_of_sel [simp]:
  "iv_sub (interval_of v i sm e) = i" "iv_expand (interval_of v i sm e) = e"
  "iv_limit (interval_of v i sm e) = (if e then fullHeight sm else sm_span sm)"
  "iv_move (interval_of v i sm e) = v * int (length (sm_links sm))"
  by (simp_all add: interval_of_def)

lemma same_size:
  assumes "move_sub iv sm = (sm', again)"
  shows "sm_span sm' = sm_span sm" "sm_links sm' = sm_links sm" "sm_small sm' = sm_small sm"
    "fullHeight sm' = fullHeight sm" "interval_of v i sm' e = interval_of v i sm e" "sized v sm' = sized v sm"
  using assms by (auto simp: move_sub_def fullHeight_def interval_of_def sized_def Let_def split: if_splits)

text \<open>An interval with nothing to do ends and changes nothing; another one moves its submenu or
  ends by turning it.\<close>

lemma stale_ends:
  assumes "0 < v" "sized v sm" "sm_height sm = None" "e = is_open sm"
    and "move_sub (interval_of v i sm e) sm = (sm', again)"
  shows "\<not> again" "sm_height sm' = None" "is_open sm' = is_open sm"
proof -
  have "0 < v * int (length (sm_links sm))" using assms(1,2) by (simp add: sized_def)
  with assms(2-) show "\<not> again" "sm_height sm' = None" "is_open sm' = is_open sm"
    by (auto simp: move_sub_def offsetHeight_def sized_def Let_def split: if_splits)
qed

lemma live_moves:
  assumes "0 < v" "sized v sm" "e = (\<not> is_open sm)"
    and "move_sub (interval_of v i sm e) sm = (sm', again)"
  shows "if again then is_open sm' = is_open sm \<and> way sm' < way sm
         else sm_height sm' = None \<and> is_open sm' = (\<not> is_open sm)"
proof -
  have "0 < v * int (length (sm_links sm))" using assms(1,2) by (simp add: sized_def)
  then show ?thesis
    using assms(3,4) by (auto simp: move_sub_def way_def offsetHeight_def fullHeight_def Let_def split: if_splits)
qed

text \<open>One step of the queue of a submenu.\<close>

lemma queue_step:
  assumes "0 < v" "sized v sm" "queue_ok (e # q) sm"
    and "move_sub (interval_of v i sm e) sm = (sm', again)"
  shows "queue_ok (if again then q @ [e] else q) sm'"
    and "wanted_by (if again then q @ [e] else q) sm' = wanted_by (e # q) sm"
    and "again \<longrightarrow> way sm' < way sm"
proof -
  obtain k n where q: "e # q = replicate k (is_open sm) @ replicate n (\<not> is_open sm)" and h: "0 < k \<longrightarrow> sm_height sm = None"
    using assms(3) by (auto simp: queue_ok_def)
  have "queue_ok (if again then q @ [e] else q) sm' \<and> wanted_by (if again then q @ [e] else q) sm' = wanted_by (e # q) sm
    \<and> (again \<longrightarrow> way sm' < way sm)"
  proof (cases k)
    case (Suc k')
    with q h have e: "e = is_open sm" "q = replicate k' (is_open sm) @ replicate n (\<not> is_open sm)" "sm_height sm = None" by auto
    note s = stale_ends [OF assms(1,2) e(3,1) assms(4)]
    then show ?thesis
      using e by (auto simp: queue_ok_def wanted_by_def)
  next
    case 0
    then obtain n' where "n = Suc n'" using q by (cases n) auto
    with 0 q have e: "e = (\<not> is_open sm)" "q = replicate n' (\<not> is_open sm)" by auto
    note l = live_moves [OF assms(1,2) e(1) assms(4)]
    show ?thesis
    proof (cases again)
      case True
      with l have "is_open sm' = is_open sm" "way sm' < way sm" by auto
      moreover from this have "q @ [e] = replicate 0 (is_open sm') @ replicate (Suc n') (\<not> is_open sm')"
        using e by (simp add: replicate_append_same)
      then have "queue_ok (q @ [e]) sm'" unfolding queue_ok_def by blast
      ultimately show ?thesis using True e by (auto simp: wanted_by_def)
    next
      case False
      with l have o: "is_open sm' = (\<not> is_open sm)" "sm_height sm' = None" by auto
      have "q = replicate n' (is_open sm') @ replicate 0 (\<not> is_open sm')" using e o by simp
      then have "queue_ok q sm'" using o(2) unfolding queue_ok_def by blast
      then show ?thesis using False e o by (auto simp: wanted_by_def)
    qed
  qed
  then show "queue_ok (if again then q @ [e] else q) sm'"
    and "wanted_by (if again then q @ [e] else q) sm' = wanted_by (e # q) sm" and "again \<longrightarrow> way sm' < way sm"
    by auto
qed

lemma memorize_sel [simp]:
  "submenus (memorize m) = submenus m" "intervals (memorize m) = intervals m" "speed (memorize m) = speed m"
  "oneSmOnly (memorize m) = oneSmOnly m" "remember (memorize m) = remember m" "sd_id (memorize m) = sd_id m"
  by (simp_all add: memorize_def)

lemma set_sub_sel [simp]:
  "submenus (set_sub i sm m) = (submenus m)[i := sm]" "intervals (set_sub i sm m) = intervals m"
  "speed (set_sub i sm m) = speed m" "oneSmOnly (set_sub i sm m) = oneSmOnly m"
  "remember (set_sub i sm m) = remember m" "sd_id (set_sub i sm m) = sd_id m" "jar (set_sub i sm m) = jar m"
  by (simp_all add: set_sub_def)

lemma tick_sel [simp]:
  "speed (menu_tick m) = speed m" "length (submenus (menu_tick m)) = length (submenus m)"
  "remember (menu_tick m) = remember m" "sd_id (menu_tick m) = sd_id m" "oneSmOnly (menu_tick m) = oneSmOnly m"
  by (simp_all add: menu_tick_def Let_def split_beta split: list.split)

lemma tick_idle [simp]: "intervals m = [] \<Longrightarrow> menu_tick m = m"
  by (simp add: menu_tick_def)

text \<open>The step of the first interval, taken apart.\<close>

lemma tick_parts:
  assumes "intervals m = iv # rest" and "move_sub iv (submenus m ! iv_sub iv) = (sm, again)"
  shows "submenus (menu_tick m) = (submenus m)[iv_sub iv := sm]"
    "intervals (menu_tick m) = (if again then rest @ [iv] else rest)"
    "queue_of (menu_tick m) j =
       (if j = iv_sub iv then (if again then tl (queue_of m j) @ [iv_expand iv] else tl (queue_of m j)) else queue_of m j)"
  using assms by (simp_all add: menu_tick_def queue_of_def Let_def)

definition ways :: "'a sd_menu_scheme \<Rightarrow> nat" where
  "ways m = sum_list (map way (submenus m))"

lemma sum_list_update_less:
  fixes f :: "'a \<Rightarrow> nat"
  assumes "i < length xs" "f y < f (xs ! i)"
  shows "sum_list (map f (xs[i := y])) < sum_list (map f xs)"
  using assms
proof (induction xs arbitrary: i)
  case (Cons x xs)
  then show ?case by (cases i) auto
qed simp

lemma tick_ok:
  assumes "menu_ok m" "intervals m \<noteq> []"
  shows "menu_ok (menu_tick m)" and "\<And>j. j < length (submenus m) \<Longrightarrow> wanted (menu_tick m) j = wanted m j"
    and "(menu_tick m, m) \<in> measures [\<lambda>m. length (intervals m), ways]"
proof -
  obtain iv rest where ivs: "intervals m = iv # rest" using assms(2) by (cases "intervals m") auto
  let ?i = "iv_sub iv" and ?e = "iv_expand iv"
  let ?sm = "submenus m ! ?i"
  obtain sm again where mv: "move_sub iv ?sm = (sm, again)" by fastforce
  note p = tick_parts [OF ivs mv]
  have i: "?i < length (submenus m)" and iv: "iv = interval_of (speed m) ?i ?sm ?e"
    and v: "0 < speed m" and sz: "sized (speed m) ?sm" and q: "queue_ok (queue_of m ?i) ?sm"
    using assms(1) ivs by (auto simp: menu_ok_def)
  obtain qr where qe: "queue_of m ?i = ?e # qr" using ivs by (simp add: queue_of_def)
  have mv': "move_sub (interval_of (speed m) ?i ?sm ?e) ?sm = (sm, again)" using mv iv by metis
  note st = queue_step [OF v sz q [unfolded qe] mv'] and size = same_size [OF mv]
  show "menu_ok (menu_tick m)"
    unfolding menu_ok_def
  proof (intro conjI ballI allI impI)
    show "0 < speed (menu_tick m)" using v by simp
  next
    fix s assume "s \<in> set (submenus (menu_tick m))"
    then have "s = sm \<or> s \<in> set (submenus m)" using set_update_subset_insert [of "submenus m" ?i sm] by (auto simp: p)
    then show "sized (speed (menu_tick m)) s" using sz size assms(1) by (auto simp: menu_ok_def)
  next
    fix x assume "x \<in> set (intervals (menu_tick m))"
    then have "x \<in> set (intervals m)" using ivs by (auto simp: p split: if_splits)
    with assms(1) have x: "iv_sub x < length (submenus m)"
      "x = interval_of (speed m) (iv_sub x) (submenus m ! iv_sub x) (iv_expand x)"
      unfolding menu_ok_def by blast+
    then show "iv_sub x < length (submenus (menu_tick m))" by simp
    show "x = interval_of (speed (menu_tick m)) (iv_sub x) (submenus (menu_tick m) ! iv_sub x) (iv_expand x)"
      using x size(5) by (cases "iv_sub x = ?i") (simp_all add: p)
  next
    fix j assume "j < length (submenus (menu_tick m))"
    then have j: "j < length (submenus m)" by simp
    show "queue_ok (queue_of (menu_tick m) j) (submenus (menu_tick m) ! j)"
    proof (cases "j = ?i")
      case True
      then show ?thesis using st(1) i qe by (simp add: p split: if_splits)
    next
      case False
      then show ?thesis using assms(1) j by (simp add: p menu_ok_def)
    qed
  qed
  show "wanted (menu_tick m) j = wanted m j" if "j < length (submenus m)" for j
    using st(2) qe i by (cases "j = ?i") (simp_all add: wanted_def p split: if_splits)
  show "(menu_tick m, m) \<in> measures [\<lambda>m. length (intervals m), ways]"
    using st(3) i ivs sum_list_update_less [of ?i "submenus m" way sm]
    by (cases again) (simp_all add: p ways_def)
qed

text \<open>All intervals end, and then every submenu is as it was to be.\<close>

lemma menu_settles:
  assumes "menu_ok m"
  shows "\<exists>n. intervals ((menu_tick ^^ n) m) = [] \<and> menu_ok ((menu_tick ^^ n) m)
    \<and> (\<forall>j < length (submenus m). is_open (submenus ((menu_tick ^^ n) m) ! j) = wanted m j)"
  using assms
proof (induction m rule: wf_induct_rule [OF wf_measures [of "[\<lambda>m. length (intervals m), ways]"]])
  case (1 m)
  show ?case
  proof (cases "intervals m = []")
    case True
    then show ?thesis
      using "1.prems" by (intro exI [of _ 0]) (simp add: wanted_def wanted_by_def queue_of_def)
  next
    case False
    note t = tick_ok [OF "1.prems" False]
    from "1.IH" [OF t(3) t(1)] obtain n where
      "intervals ((menu_tick ^^ n) (menu_tick m)) = []" "menu_ok ((menu_tick ^^ n) (menu_tick m))"
      "\<forall>j < length (submenus m). is_open (submenus ((menu_tick ^^ n) (menu_tick m)) ! j) = wanted (menu_tick m) j"
      by auto
    then show ?thesis
      using t(2) by (intro exI [of _ "Suc n"]) (simp add: funpow_swap1 del: funpow.simps add: funpow_Suc_right)
  qed
qed

subsection \<open>Clicks\<close>

lemma start_sel [simp]:
  "submenus (start_interval e i m) = submenus m" "speed (start_interval e i m) = speed m"
  "oneSmOnly (start_interval e i m) = oneSmOnly m" "remember (start_interval e i m) = remember m"
  "sd_id (start_interval e i m) = sd_id m" "jar (start_interval e i m) = jar m"
  "queue_of (start_interval e i m) j = (if j = i then queue_of m j @ [e] else queue_of m j)"
  by (simp_all add: start_interval_def queue_of_def)

lemma queue_ok_append:
  assumes "queue_ok q sm" "e = (\<not> is_open sm)"
  shows "queue_ok (q @ [e]) sm"
proof -
  obtain k n where "q = replicate k (is_open sm) @ replicate n (\<not> is_open sm)" "0 < k \<longrightarrow> sm_height sm = None"
    using assms(1) by (auto simp: queue_ok_def)
  then have "q @ [e] = replicate k (is_open sm) @ replicate (Suc n) (\<not> is_open sm)" "0 < k \<longrightarrow> sm_height sm = None"
    using assms(2) by (simp_all add: replicate_append_same)
  then show ?thesis unfolding queue_ok_def by blast
qed

lemma start_ok:
  assumes "menu_ok m" "i < length (submenus m)" "queue_ok (queue_of m i @ [e]) (submenus m ! i)"
  shows "menu_ok (start_interval e i m)"
  using assms unfolding menu_ok_def by (auto simp: start_interval_def queue_of_def)

text \<open>A loop that collapses what is open.\<close>

lemma collapse_loop:
  fixes m :: "'a sd_menu_scheme"
  assumes "menu_ok m" "distinct ks" "\<forall>j \<in> set ks. j < length (submenus m)"
    and "m' = fold (\<lambda>j m. if P j \<and> sm_class (submenus m ! j) \<noteq> collapsed then collapseMenu j m else m) ks m"
  shows "menu_ok m' \<and> submenus m' = submenus m \<and> oneSmOnly m' = oneSmOnly m \<and> jar m' = jar m
    \<and> (\<forall>j. queue_of m' j = (if j \<in> set ks \<and> P j \<and> is_open (submenus m ! j) then queue_of m j @ [False] else queue_of m j))"
  using assms
proof (induction ks arbitrary: m)
  case (Cons i ks)
  let ?m = "if P i \<and> sm_class (submenus m ! i) \<noteq> collapsed then collapseMenu i m else m"
  have s: "submenus ?m = submenus m" "oneSmOnly ?m = oneSmOnly m" "jar ?m = jar m"
    "queue_of ?m j = (if j = i \<and> P i \<and> is_open (submenus m ! i) then queue_of m j @ [False] else queue_of m j)" for j
    by (simp_all add: collapseMenu_def)
  have "menu_ok ?m"
    using Cons.prems(1,3) by (auto simp: collapseMenu_def menu_ok_def [of m] intro!: start_ok [OF Cons.prems(1)] queue_ok_append)
  from Cons.IH [OF this, of] Cons.prems(2-4) s show ?case by (auto split: if_splits)
qed simp

lemma expandMenu_ok:
  fixes m :: "'a sd_menu_scheme"
  assumes "menu_ok m" "i < length (submenus m)" "queue_ok (queue_of m i @ [True]) (submenus m ! i)"
  shows "menu_ok (expandMenu i m)" "submenus (expandMenu i m) = submenus m" "oneSmOnly (expandMenu i m) = oneSmOnly m"
    "jar (expandMenu i m) = jar m"
    "queue_of (expandMenu i m) j =
      (if j = i then queue_of m j @ [True]
       else if oneSmOnly m \<and> j < length (submenus m) \<and> is_open (submenus m ! j) then queue_of m j @ [False]
       else queue_of m j)"
proof -
  let ?m = "start_interval True i m"
  have ok: "menu_ok ?m" by (rule start_ok [OF assms])
  note l = collapse_loop [OF ok, of "[0..<length (submenus m)]" _ "\<lambda>j. j \<noteq> i", OF _ _ refl]
  have "menu_ok (expandMenu i m) \<and> submenus (expandMenu i m) = submenus m \<and> oneSmOnly (expandMenu i m) = oneSmOnly m
    \<and> jar (expandMenu i m) = jar m
    \<and> (\<forall>j. queue_of (expandMenu i m) j =
      (if j = i then queue_of m j @ [True]
       else if oneSmOnly m \<and> j < length (submenus m) \<and> is_open (submenus m ! j) then queue_of m j @ [False]
       else queue_of m j))"
  proof (cases "oneSmOnly m")
    case True
    then have "expandMenu i m = fold (\<lambda>j m. if j \<noteq> i \<and> sm_class (submenus m ! j) \<noteq> collapsed then collapseMenu j m else m)
        [0..<length (submenus m)] ?m"
      by (simp add: expandMenu_def collapseOthers_def)
    with l True show ?thesis by auto
  next
    case False
    with ok show ?thesis by (simp add: expandMenu_def collapseOthers_def)
  qed
  then show "menu_ok (expandMenu i m)" "submenus (expandMenu i m) = submenus m" "oneSmOnly (expandMenu i m) = oneSmOnly m"
    "jar (expandMenu i m) = jar m"
    "queue_of (expandMenu i m) j =
      (if j = i then queue_of m j @ [True]
       else if oneSmOnly m \<and> j < length (submenus m) \<and> is_open (submenus m ! j) then queue_of m j @ [False]
       else queue_of m j)"
    by blast+
qed

lemma toggleMenu_ok:
  assumes "menu_ok m" "i < length (submenus m)"
  shows "menu_ok (toggleMenu i m)" "submenus (toggleMenu i m) = submenus m" "oneSmOnly (toggleMenu i m) = oneSmOnly m"
    "wanted (toggleMenu i m) j =
      (if j = i then \<not> is_open (submenus m ! i)
       else if oneSmOnly m \<and> j < length (submenus m) \<and> is_open (submenus m ! j) \<and> \<not> is_open (submenus m ! i) then False
       else wanted m j)"
proof -
  have q: "queue_ok (queue_of m i @ [\<not> is_open (submenus m ! i)]) (submenus m ! i)"
    using assms by (intro queue_ok_append) (auto simp: menu_ok_def)
  show "menu_ok (toggleMenu i m)" "submenus (toggleMenu i m) = submenus m" "oneSmOnly (toggleMenu i m) = oneSmOnly m"
    "wanted (toggleMenu i m) j =
      (if j = i then \<not> is_open (submenus m ! i)
       else if oneSmOnly m \<and> j < length (submenus m) \<and> is_open (submenus m ! j) \<and> \<not> is_open (submenus m ! i) then False
       else wanted m j)"
    using expandMenu_ok [OF assms] start_ok [OF assms] q
    by (auto simp: toggleMenu_def collapseMenu_def wanted_def)
qed

lemma oneSmOnly_frame [simp]:
  "menu_ok (m\<lparr>oneSmOnly := b\<rparr>) = menu_ok m" "wanted (m\<lparr>oneSmOnly := b\<rparr>) j = wanted m j"
  by (simp_all add: menu_ok_def wanted_def queue_of_def)

lemma expand_loop:
  fixes m :: "'a sd_menu_scheme"
  assumes "menu_ok m" "\<forall>k \<in> set ks. k < length (submenus m)" "oneSmOnly m"
    and "m' = fold (\<lambda>j m. if sm_class (submenus m ! j) = collapsed then expandMenu j m else m) ks m"
  shows "menu_ok m' \<and> submenus m' = submenus m \<and> oneSmOnly m' = oneSmOnly m
    \<and> (\<forall>j < length (submenus m). wanted m' j =
         (if is_open (submenus m ! j) then wanted m j \<and> (\<forall>k \<in> set ks. is_open (submenus m ! k)) else j \<in> set ks \<or> wanted m j))"
  using assms
proof (induction ks arbitrary: m)
  case (Cons k ks)
  let ?m = "if sm_class (submenus m ! k) = collapsed then expandMenu k m else m"
  have q: "queue_ok (queue_of m k @ [True]) (submenus m ! k)" if "\<not> is_open (submenus m ! k)"
    using Cons.prems(1,2) that by (intro queue_ok_append) (auto simp: menu_ok_def)
  have k: "k < length (submenus m)" using Cons.prems(2) by simp
  note e = expandMenu_ok [OF Cons.prems(1) k]
  have m: "menu_ok ?m" "submenus ?m = submenus m" "oneSmOnly ?m = oneSmOnly m"
    using q e Cons.prems(1) by auto
  have "wanted ?m j = (if is_open (submenus m ! j) then wanted m j \<and> is_open (submenus m ! k) else j = k \<or> wanted m j)"
    if "j < length (submenus m)" for j
    using q e(2,5) Cons.prems(3) that by (auto simp: wanted_def)
  with Cons.IH [OF m(1)] m Cons.prems(2-4) show ?case by auto
qed simp

text \<open>\<open>expandAll\<close> opens what is closed and, as it allows one submenu at a time, closes what is open.\<close>

lemma expandAll_ok:
  assumes "menu_ok m"
  shows "menu_ok (expandAll m)" "submenus (expandAll m) = submenus m" "oneSmOnly (expandAll m) = oneSmOnly m"
    "j < length (submenus m) \<Longrightarrow> wanted (expandAll m) j =
       (is_open (submenus m ! j) \<longrightarrow> wanted m j \<and> (\<forall>sm \<in> set (submenus m). is_open sm))"
proof -
  let ?m = "m\<lparr>oneSmOnly := True\<rparr>"
  have "menu_ok ?m" using assms by simp
  note l = expand_loop [OF this, of "[0..<length (submenus m)]", OF _ _ refl]
  then show "menu_ok (expandAll m)" "submenus (expandAll m) = submenus m" "oneSmOnly (expandAll m) = oneSmOnly m"
    "j < length (submenus m) \<Longrightarrow> wanted (expandAll m) j =
       (is_open (submenus m ! j) \<longrightarrow> wanted m j \<and> (\<forall>sm \<in> set (submenus m). is_open sm))"
    by (auto simp: expandAll_def Let_def all_set_conv_all_nth)
qed

lemma collapseAll_ok:
  assumes "menu_ok m"
  shows "menu_ok (collapseAll m)" "submenus (collapseAll m) = submenus m" "oneSmOnly (collapseAll m) = oneSmOnly m"
    "j < length (submenus m) \<Longrightarrow> wanted (collapseAll m) j = (\<not> is_open (submenus m ! j) \<and> wanted m j)"
  using collapse_loop [OF assms, of "[0..<length (submenus m)]" _ "\<lambda>j. True", OF _ _ refl]
  by (auto simp: collapseAll_def wanted_def)

lemma link_click_frame [simp]:
  "submenus (link_click i m) = submenus m" "oneSmOnly (link_click i m) = oneSmOnly m"
  "menu_ok (link_click i m) = menu_ok m" "wanted (link_click i m) = wanted m"
  "intervals (link_click i m) = intervals m"
  by (simp_all add: link_click_def Let_def menu_ok_def wanted_def [abs_def] queue_of_def [abs_def])

subsection \<open>The menu on its page\<close>

text \<open>The page opens the first submenu after \<open>init\<close>; then come clicks and ticks in any order.\<close>

datatype menu_event = Toggle nat | ExpandAll | CollapseAll | Tick | Link nat

definition menu_step :: "menu_event \<Rightarrow> 'a sd_menu_scheme \<Rightarrow> 'a sd_menu_scheme" where
  "menu_step ev m =
     (case ev of
        Toggle i \<Rightarrow> if i < length (submenus m) then toggleMenu i m else m
      | ExpandAll \<Rightarrow> expandAll m
      | CollapseAll \<Rightarrow> collapseAll m
      | Tick \<Rightarrow> menu_tick m
      | Link i \<Rightarrow> if i < length (sd_links m) then link_click i m else m)"

definition menu_load :: "'a sd_menu_scheme \<Rightarrow> 'a sd_menu_scheme" where
  "menu_load m = (let (m, raised) = sd_init m in if raised then m else expandMenu 0 m)"

definition fresh :: "int \<Rightarrow> submenu list \<Rightarrow> bool" where
  "fresh v sms \<longleftrightarrow> sms \<noteq> [] \<and> (\<forall>sm \<in> set sms. sized v sm \<and> sm_height sm = None)"

lemma sized_class [simp]: "sized v (sm\<lparr>sm_class := c\<rparr>) = sized v sm"
  by (simp add: sized_def)

lemma set_states_length [simp]: "length (fst (set_states bs sms)) = length sms"
  by (induction bs sms rule: set_states.induct) (simp_all add: split_beta)

lemma set_states_fresh: "fresh v sms \<Longrightarrow> fresh v (fst (set_states bs sms))"
proof -
  have "list_all (\<lambda>sm. sized v sm \<and> sm_height sm = None) sms \<Longrightarrow>
      list_all (\<lambda>sm. sized v sm \<and> sm_height sm = None) (fst (set_states bs sms))"
    by (induction bs sms rule: set_states.induct) (simp_all add: split_beta)
  then show "fresh v sms \<Longrightarrow> fresh v (fst (set_states bs sms))"
    using set_states_length [of bs sms] by (auto simp: fresh_def list_all_iff simp del: set_states_length)
qed

lemma init_frame:
  assumes "fresh v (submenus m)"
  shows "fresh v (submenus (fst (sd_init m)))" "intervals (fst (sd_init m)) = intervals m" "speed (fst (sd_init m)) = speed m"
    "oneSmOnly (fst (sd_init m)) = oneSmOnly m" "length (submenus (fst (sd_init m))) = length (submenus m)"
  using assms by (simp_all add: sd_init_def Let_def set_states_fresh split_beta split: option.split)

lemma menu_load_ok:
  assumes "fresh (speed m) (submenus m)" "intervals m = []" "0 < speed m"
  shows "menu_ok (menu_load m)" "oneSmOnly (menu_load m) = oneSmOnly m" "length (submenus (menu_load m)) = length (submenus m)"
proof -
  let ?m = "fst (sd_init m)"
  note i = init_frame [OF assms(1)]
  have q: "queue_of ?m j = []" for j using i(2) assms(2) by (simp add: queue_of_def)
  have "queue_ok [] sm" for sm unfolding queue_ok_def by (rule exI [of _ 0]) simp
  with i q assms have ok: "menu_ok ?m" by (simp add: menu_ok_def fresh_def)
  have z: "0 < length (submenus ?m)" "sm_height (submenus ?m ! 0) = None" using i(1) by (auto simp: fresh_def)
  have "queue_ok [True] sm" if "sm_height sm = None" for sm
    unfolding queue_ok_def using that
    by (rule_tac x = "if is_open sm then 1 else 0" in exI, rule_tac x = "if is_open sm then 0 else 1" in exI) simp
  then have "queue_ok (queue_of ?m 0 @ [True]) (submenus ?m ! 0)" using z q by simp
  note e = expandMenu_ok [OF ok z(1) this]
  show "menu_ok (menu_load m)" "oneSmOnly (menu_load m) = oneSmOnly m" "length (submenus (menu_load m)) = length (submenus m)"
    using ok e(1-3) i(4,5) by (simp_all add: menu_load_def split_beta)
qed

lemma menu_step_ok:
  assumes "menu_ok m"
  shows "menu_ok (menu_step ev m)" "oneSmOnly (menu_step ev m) = oneSmOnly m"
    "length (submenus (menu_step ev m)) = length (submenus m)"
  using assms toggleMenu_ok [OF assms] expandAll_ok [OF assms] collapseAll_ok [OF assms] tick_ok(1) [OF assms]
  by (cases ev; cases "intervals m = []"; simp add: menu_step_def)+

lemma menu_run_ok:
  "menu_ok m \<Longrightarrow> menu_ok (fold menu_step evs m) \<and> oneSmOnly (fold menu_step evs m) = oneSmOnly m
     \<and> length (submenus (fold menu_step evs m)) = length (submenus m)"
  by (induction evs arbitrary: m) (simp_all add: menu_step_ok)

subsection \<open>The cookie\<close>

definition word_id :: "jstring \<Rightarrow> bool" where
  "word_id i \<longleftrightarrow> list_all (\<lambda>c. 48 \<le> c \<and> c \<le> 57 \<or> 65 \<le> c \<and> c \<le> 90 \<or> c = 95 \<or> 97 \<le> c \<and> c \<le> 122) i"

text \<open>The name is the one the code computes.\<close>

lemma word_id_encoded: "word_id i \<Longrightarrow> encodeURIComponent i = Some i"
  by (induction i rule: encodeURIComponent.induct) (auto simp: word_id_def uri_unreserved_def)

text \<open>No other cookie has the menu's name in its text.\<close>

definition others_ok :: "jstring \<Rightarrow> (jstring \<times> jstring) list \<Rightarrow> bool" where
  "others_ok k cs \<longleftrightarrow> list_all (\<lambda>(a, b). a \<noteq> k \<longrightarrow> \<not> sublist (k @ js ''='') (a @ js ''='' @ b)) cs"

lemma others_ok_set [simp]: "others_ok k (set_cookie k v cs) = others_ok k cs"
  by (induction k v cs rule: set_cookie.induct) (auto simp: others_ok_def)

lemma prefix_before: "prefix k (x @ c # y) \<Longrightarrow> c \<notin> set k \<Longrightarrow> prefix k x"
  by (induction k arbitrary: x) (auto simp: prefix_def Cons_eq_append_conv append_eq_Cons_conv)

lemma cookie_skip:
  assumes "k \<noteq> []" "59 \<notin> set k" "32 \<notin> set k" "\<not> sublist k a"
  shows "cookie_match k (a @ 59 # 32 # b) = cookie_match k b"
  using assms(4)
proof (induction a)
  case Nil
  have "\<not> prefix k (59 # r)" "\<not> prefix k (32 # r)" for r
    using assms(1-3) by (cases k; auto)+
  then show ?case by simp
next
  case (Cons c a)
  then have "\<not> prefix k ((c # a) @ 59 # 32 # b)"
    using prefix_before [of k "c # a" 59] assms(2) by (auto dest: prefix_imp_sublist)
  with Cons show ?case by (auto simp: sublist_Cons_right)
qed

lemma cookie_hit:
  assumes "k \<noteq> []" "v \<noteq> []" "list_all is_bit v" "r = [] \<or> \<not> is_bit (hd r)"
  shows "cookie_match k (k @ v @ r) = Some v"
proof -
  have "takeWhile is_bit (v @ r) = v"
    using assms(3,4) by (cases r) (auto simp: list_all_iff takeWhile_append)
  then show ?thesis using assms(1,2) by (cases k) auto
qed

lemma set_cookie_ne [simp]: "set_cookie k v cs \<noteq> []"
  by (induction k v cs rule: set_cookie.induct) auto

lemma cookie_read:
  assumes "59 \<notin> set k" "32 \<notin> set k" "v \<noteq> []" "list_all is_bit v" "others_ok k cs"
  shows "cookie_match (k @ js ''='') (cookie_text (set_cookie k v cs)) = Some v"
  using assms(5)
proof (induction cs)
  case Nil
  then show ?case using cookie_hit [of "k @ js ''=''" v "[]"] assms by (simp add: cookie_text_def js_def)
next
  case (Cons c cs)
  let ?k = "k @ js ''=''"
  have n: "?k \<noteq> []" "59 \<notin> set ?k" "32 \<notin> set ?k" using assms by (auto simp: js_def)
  have sep: "js ''; '' = [59, 32]" by (simp add: js_def)
  show ?case
  proof (cases "fst c = k")
    case True
    then show ?thesis
      using cookie_hit [OF n(1) assms(3,4), of "[]"] cookie_hit [OF n(1) assms(3,4), of "59 # r" for r]
      by (cases cs) (simp_all add: cookie_text_def sep is_bit_def)
  next
    case False
    then have "\<not> sublist ?k (fst c @ js ''='' @ snd c)" using Cons.prems by (auto simp: others_ok_def split_beta)
    note s = cookie_skip [OF n this]
    have "cookie_text (c # set_cookie k v cs) = (fst c @ js ''='' @ snd c) @ 59 # 32 # cookie_text (set_cookie k v cs)"
      by (simp add: cookie_text_def join_Cons sep split_beta)
    then show ?thesis using Cons False s by (simp add: others_ok_def)
  qed
qed

definition states :: "submenu list \<Rightarrow> jstring" where
  "states sms = map (\<lambda>sm. if sm_class sm = collapsed then 48 else 49) sms"

lemma states_bits: "list_all is_bit (states sms)"
  by (auto simp: states_def list_all_iff is_bit_def)

lemma set_states_opens:
  "length sms = length old \<Longrightarrow> map is_open (fst (set_states (states old) sms)) = map is_open old
     \<and> \<not> snd (set_states (states old) sms)"
  by (induction old sms rule: list_induct2') (auto simp: states_def split_beta)

definition remembered :: "'a sd_menu_scheme \<Rightarrow> bool" where
  "remembered m \<longleftrightarrow> cookie_match (sd_key m @ js ''='') (cookie_text (jar m)) = Some (states (submenus m))"

lemma memorize_remembered:
  assumes "remember m" "word_id (sd_id m)" "others_ok (sd_key m) (jar m)" "submenus m \<noteq> []"
  shows "remembered (memorize m)"
proof -
  have "59 \<notin> set (sd_key m)" "32 \<notin> set (sd_key m)"
    using assms(2) by (auto simp: sd_key_def js_def word_id_def list_all_iff)
  then show ?thesis
    using assms states_bits [of "submenus m"] cookie_read [of "sd_key m" "states (submenus m)" "jar m"]
    by (simp add: remembered_def memorize_def states_def sd_key_def)
qed

text \<open>Only the end of an interval writes the cookie.\<close>

definition same_cookies :: "'a sd_menu_scheme \<Rightarrow> 'a sd_menu_scheme \<Rightarrow> bool" where
  "same_cookies m' m \<longleftrightarrow> sd_id m' = sd_id m \<and> remember m' = remember m \<and> jar m' = jar m"

lemma same_cookies_refl [simp]: "same_cookies m m"
  by (simp add: same_cookies_def)

lemma same_cookies_fold: "(\<And>j m. same_cookies (f j m) m) \<Longrightarrow> same_cookies (fold f ks m) m"
  by (induction ks arbitrary: m) (simp_all add: same_cookies_def)

lemma same_cookies_clicks:
  "same_cookies (collapseMenu i m) m" "same_cookies (expandMenu i m) m" "same_cookies (toggleMenu i m) m"
  "same_cookies (expandAll m) m" "same_cookies (collapseAll m) m" "same_cookies (link_click i m) m"
proof -
  have c: "same_cookies (collapseMenu i m) m" for i and m :: "'a sd_menu_scheme"
    by (simp add: collapseMenu_def same_cookies_def)
  have o: "same_cookies (collapseOthers i m) m" for i and m :: "'a sd_menu_scheme"
    by (simp add: collapseOthers_def same_cookies_fold c)
  have e: "same_cookies (expandMenu i m) m" for i and m :: "'a sd_menu_scheme"
    using o [of i "start_interval True i m"] by (simp add: expandMenu_def same_cookies_def)
  show "same_cookies (collapseMenu i m) m" "same_cookies (expandMenu i m) m" "same_cookies (toggleMenu i m) m"
    using c e by (simp_all add: toggleMenu_def)
  show "same_cookies (expandAll m) m"
  proof -
    have "same_cookies (fold (\<lambda>j m. if sm_class (submenus m ! j) = collapsed then expandMenu j m else m)
        [0..<length (submenus m)] (m\<lparr>oneSmOnly := True\<rparr>)) (m\<lparr>oneSmOnly := True\<rparr>)"
      by (rule same_cookies_fold) (simp add: e)
    then show ?thesis by (simp add: expandAll_def Let_def same_cookies_def)
  qed
  show "same_cookies (collapseAll m) m"
    unfolding collapseAll_def by (rule same_cookies_fold) (simp add: c)
  show "same_cookies (link_click i m) m"
    by (simp add: link_click_def Let_def same_cookies_def)
qed

definition cookies_ok :: "'a sd_menu_scheme \<Rightarrow> bool" where
  "cookies_ok m \<longleftrightarrow> remember m \<and> word_id (sd_id m) \<and> others_ok (sd_key m) (jar m)"

lemma cookies_ok_same: "same_cookies m' m \<Longrightarrow> cookies_ok m' = cookies_ok m"
  by (simp add: same_cookies_def cookies_ok_def sd_key_def)

lemma memorize_cookies [simp]: "cookies_ok (memorize m) = cookies_ok m"
  by (auto simp: memorize_def cookies_ok_def sd_key_def)

lemma tick_cookies [simp]: "cookies_ok (menu_tick m) = cookies_ok m"
proof -
  have "cookies_ok (set_sub i sm m\<lparr>intervals := r\<rparr>) = cookies_ok m" for i sm r
    by (simp add: cookies_ok_def sd_key_def)
  then show ?thesis by (auto simp: menu_tick_def Let_def split_beta split: list.split)
qed

lemma menu_run_cookies: "cookies_ok (fold menu_step evs m) = cookies_ok m"
proof (induction evs arbitrary: m)
  case (Cons ev evs)
  have "cookies_ok (menu_step ev m) = cookies_ok m"
    by (cases ev) (simp_all add: menu_step_def same_cookies_clicks [THEN cookies_ok_same])
  with Cons show ?case by simp
qed simp

lemma menu_load_cookies: "cookies_ok (menu_load m) = cookies_ok m"
proof -
  have "same_cookies (fst (sd_init m)) m"
    by (simp add: sd_init_def Let_def same_cookies_def split_beta split: option.split)
  moreover from this have "same_cookies (menu_load m) m"
    using same_cookies_clicks(2) [of 0 "fst (sd_init m)"] by (simp add: menu_load_def split_beta same_cookies_def)
  ultimately show ?thesis by (simp add: cookies_ok_same)
qed

text \<open>When the last interval ends, the cookie holds the menu.\<close>

lemma settled_remembered:
  assumes "cookies_ok m" "submenus m \<noteq> []" "intervals m \<noteq> []" "intervals ((menu_tick ^^ n) m) = []"
  shows "remembered ((menu_tick ^^ n) m)"
  using assms
proof (induction n arbitrary: m)
  case (Suc n)
  obtain iv rest where ivs: "intervals m = iv # rest" using Suc.prems(3) by (cases "intervals m") auto
  let ?t = "menu_tick m"
  have t: "cookies_ok ?t" "submenus ?t \<noteq> []"
    using Suc.prems(1,2) tick_sel(2) [of m] by (auto simp del: tick_sel)
  show ?case
  proof (cases "intervals ?t = []")
    case True
    obtain sm again where mv: "move_sub iv (submenus m ! iv_sub iv) = (sm, again)" by fastforce
    with True tick_parts(2) [OF ivs mv] have "\<not> again" by auto
    with mv have "?t = memorize (set_sub (iv_sub iv) sm m\<lparr>intervals := rest\<rparr>)"
      by (simp add: menu_tick_def ivs)
    then have "remembered ?t"
      using Suc.prems(1,2) by (auto simp: cookies_ok_def sd_key_def intro!: memorize_remembered)
    moreover have "(menu_tick ^^ n) ?t = ?t" using True by (induction n) simp_all
    ultimately show ?thesis by (simp add: funpow_swap1)
  next
    case False
    with Suc.IH [OF t] Suc.prems(4) show ?thesis by (simp add: funpow_swap1)
  qed
qed simp

subsection \<open>Properties\<close>

abbreviation menu_session ::
  "jstring \<Rightarrow> submenu list \<Rightarrow> jstring list \<Rightarrow> jstring list \<Rightarrow> (jstring \<times> jstring) list \<Rightarrow> menu_event list \<Rightarrow> sd_menu" where
  "menu_session i sms links others cookies evs \<equiv>
     fold menu_step evs (menu_load (SDMenu i sms links others cookies))"

lemma session_ok:
  assumes "fresh 5 sms" "m = menu_session i sms links others cookies evs"
  shows "menu_ok m" "oneSmOnly m" "length (submenus m) = length sms"
  using menu_load_ok [of "SDMenu i sms links others cookies"] assms
    menu_run_ok [of "menu_load (SDMenu i sms links others cookies)" evs]
  by (simp_all add: SDMenu_def)

text \<open>C22: However the menu is clicked while submenus are moving, the intervals all end. Then a submenu is
  open exactly if the last interval started for it was one that opens it, or, if none was running,
  exactly if it was open.\<close>

theorem menu_comes_to_rest:
  assumes "fresh 5 sms" "m = menu_session i sms links others cookies evs"
  shows "\<exists>n. intervals ((menu_tick ^^ n) m) = []
    \<and> (\<forall>j < length sms. is_open (submenus ((menu_tick ^^ n) m) ! j) =
         (case filter (\<lambda>iv. iv_sub iv = j) (intervals m) of
            [] \<Rightarrow> is_open (submenus m ! j) | iv # ivs \<Rightarrow> iv_expand (last (iv # ivs))))"
proof -
  note ok = session_ok [OF assms]
  have "wanted m j = (case filter (\<lambda>iv. iv_sub iv = j) (intervals m) of
      [] \<Rightarrow> is_open (submenus m ! j) | iv # ivs \<Rightarrow> iv_expand (last (iv # ivs)))" for j
    by (auto simp: wanted_def wanted_by_def queue_of_def last_map split: list.split)
  then show ?thesis using menu_settles [OF ok(1)] ok(3) by auto
qed

text \<open>A click as it is meant: an open submenu closes; a closed one opens and all others close.\<close>

definition click_spec :: "nat \<Rightarrow> bool list \<Rightarrow> bool list" where
  "click_spec i os = (if os ! i then os[i := False] else map (\<lambda>j. j = i) [0..<length os])"

abbreviation opens :: "'a sd_menu_scheme \<Rightarrow> bool list" where
  "opens m \<equiv> map is_open (submenus m)"

lemma click_settles:
  assumes "menu_ok m" "intervals m = []" "oneSmOnly m" "i < length (submenus m)"
  shows "\<exists>n. intervals ((menu_tick ^^ n) (toggleMenu i m)) = []
    \<and> opens ((menu_tick ^^ n) (toggleMenu i m)) = click_spec i (opens m)"
proof -
  note t = toggleMenu_ok [OF assms(1,4)]
  have len: "length (submenus ((menu_tick ^^ n) x)) = length (submenus x)" for n and x :: "'a sd_menu_scheme"
    by (induction n) simp_all
  have w: "wanted m j = is_open (submenus m ! j)" for j
    using assms(2) by (simp add: wanted_def wanted_by_def queue_of_def)
  have "map (wanted (toggleMenu i m)) [0..<length (submenus m)] = click_spec i (opens m)"
  proof (rule nth_equalityI)
    show "length (map (wanted (toggleMenu i m)) [0..<length (submenus m)]) = length (click_spec i (opens m))"
      by (simp add: click_spec_def)
  next
    fix j assume "j < length (map (wanted (toggleMenu i m)) [0..<length (submenus m)])"
    then show "map (wanted (toggleMenu i m)) [0..<length (submenus m)] ! j = click_spec i (opens m) ! j"
      using assms(3,4) by (simp add: click_spec_def t(4) w nth_list_update)
  qed
  moreover obtain n where "intervals ((menu_tick ^^ n) (toggleMenu i m)) = []"
    "\<forall>j < length (submenus m). is_open (submenus ((menu_tick ^^ n) (toggleMenu i m)) ! j) = wanted (toggleMenu i m) j"
    using menu_settles [OF t(1)] t(2) by auto
  moreover from this have "opens ((menu_tick ^^ n) (toggleMenu i m)) = map (wanted (toggleMenu i m)) [0..<length (submenus m)]"
    by (intro nth_equalityI) (simp_all add: len t(2))
  ultimately show ?thesis by metis
qed

text \<open>C14: At rest, a click on a submenu and the intervals it starts come to what is meant: an open submenu
  closes, a closed one opens and all the others close. From a menu with one submenu open at most this
  leaves one open at most.\<close>

theorem menu_click_refines:
  assumes "fresh 5 sms" "m = menu_session d sms links others cookies evs" "intervals m = []" "i < length sms"
  shows "\<exists>n. intervals ((menu_tick ^^ n) (toggleMenu i m)) = []
    \<and> opens ((menu_tick ^^ n) (toggleMenu i m)) = click_spec i (opens m)
    \<and> (length (filter id (opens m)) \<le> 1 \<longrightarrow> length (filter id (opens ((menu_tick ^^ n) (toggleMenu i m)))) \<le> 1)"
proof -
  note ok = session_ok [OF assms(1,2)]
  have "length (filter id (os[i := False])) \<le> length (filter id os)" for os
    by (induction os arbitrary: i) (auto split: nat.split)
  moreover have "length (filter (\<lambda>j. j = i) [0..<k]) \<le> 1" for k
    by (induction k) auto
  ultimately have "length (filter id (click_spec i os)) \<le> 1" if "length (filter id os) \<le> 1" for os
    using that by (auto simp: click_spec_def filter_map comp_def intro: order_trans)
  then show ?thesis using click_settles [OF ok(1) assms(3) ok(2)] ok(3) assms(4) by fastforce
qed

text \<open>C34: After any clicks on the menu, once the intervals have ended, the page can be loaded again: \<open>init\<close>
  finds the submenus in the cookie and opens exactly those that were open, whatever the page's own
  classes are, as long as no other cookie has the menu's name in its text.\<close>

theorem menu_remembers:
  assumes "fresh 5 sms" "m = menu_session i sms links others cookies evs" "intervals m \<noteq> []"
    and "word_id i" "others_ok (js ''sdmenu_'' @ i) cookies"
    and "length sms' = length sms"
  shows "\<exists>n. intervals ((menu_tick ^^ n) m) = []
    \<and> (let s = (menu_tick ^^ n) m; (m', raised) = sd_init (SDMenu i sms' links' others' (jar s))
       in \<not> raised \<and> opens m' = opens s)"
proof -
  note ok = session_ok [OF assms(1,2)]
  obtain n where n: "intervals ((menu_tick ^^ n) m) = []" using menu_settles [OF ok(1)] by auto
  let ?s = "(menu_tick ^^ n) m"
  have "cookies_ok m"
    using assms(4,5) unfolding assms(2) menu_run_cookies menu_load_cookies by (simp add: cookies_ok_def SDMenu_def sd_key_def)
  moreover have "submenus m \<noteq> []" using ok(3) assms(1) by (auto simp: fresh_def)
  ultimately have r: "remembered ?s" by (rule settled_remembered [OF _ _ assms(3) n])
  have len: "length (submenus ((menu_tick ^^ k) m)) = length (submenus m) \<and> sd_id ((menu_tick ^^ k) m) = sd_id m" for k
    by (induction k) simp_all
  have step: "sd_id (menu_step ev x) = sd_id x" for ev and x :: sd_menu
    using same_cookies_clicks [where m = x] by (cases ev) (auto simp: menu_step_def same_cookies_def)
  have "sd_id (menu_session i sms links others cookies es) = i" for es
  proof -
    have "sd_id (fold menu_step es x) = sd_id x" for x :: sd_menu
      by (induction es arbitrary: x) (simp_all add: step)
    moreover have "sd_id (menu_load (SDMenu i sms links others cookies)) = i"
      using same_cookies_clicks(2) [of 0 "fst (sd_init (SDMenu i sms links others cookies))"]
      by (auto simp: menu_load_def sd_init_def SDMenu_def Let_def same_cookies_def split_beta split: option.split)
    ultimately show ?thesis by simp
  qed
  then have id: "sd_key ?s = js ''sdmenu_'' @ i" using len assms(2) by (simp add: sd_key_def)
  have "length sms' = length (submenus ?s)" using assms(6) ok(3) len by simp
  note o = set_states_opens [OF this]
  show ?thesis
    using n r id o
    by (intro exI [of _ n]) (simp add: sd_init_def SDMenu_def remembered_def sd_key_def Let_def split_beta)
qed

text \<open>Two submenus of two links each, the second one closed.\<close>

definition sub_example :: "jstring \<Rightarrow> submenu" where
  "sub_example c = \<lparr>sm_span = 32, sm_links = [29, 29], sm_small = 32, sm_class = c, sm_height = None\<rparr>"

lemma sub_example_fresh: "fresh 5 [sub_example [], sub_example collapsed]"
  by (simp add: fresh_def sized_def sub_example_def)

lemma example_loaded:
  "sd_init (SDMenu (js ''m'') [sub_example [], sub_example collapsed] [] [] []) =
     (SDMenu (js ''m'') [sub_example [], sub_example collapsed] [] [] [], False)"
  by (simp add: sd_init_def SDMenu_def cookie_text_def)

lemma example_started:
  "intervals (menu_load (SDMenu (js ''m'') [sub_example [], sub_example collapsed] [] [] [])) =
     [interval_of 5 0 (sub_example []) True]"
  by (simp add: menu_load_def example_loaded) (simp add: expandMenu_def collapseOthers_def SDMenu_def start_interval_def sub_example_def)

theorem menu_comes_to_rest_witness:
  "\<exists>n. intervals ((menu_tick ^^ n)
     (menu_session (js ''m'') [sub_example [], sub_example collapsed] [] [] [] [Toggle 1, Toggle 0, Toggle 1])) = []"
  using menu_comes_to_rest [OF sub_example_fresh refl, where i = "js ''m''" and links = "[]" and others = "[]" and cookies = "[]" and evs = "[Toggle 1, Toggle 0, Toggle 1]"] by blast

theorem menu_remembers_witness:
  "\<exists>n. let s = (menu_tick ^^ n) (menu_session (js ''m'') [sub_example [], sub_example collapsed] [] [] [] [])
     in intervals s = [] \<and> opens (fst (sd_init (SDMenu (js ''m'') [sub_example [], sub_example []] [] [] (jar s)))) = opens s"
proof -
  have "intervals (menu_session (js ''m'') [sub_example [], sub_example collapsed] [] [] [] []) \<noteq> []"
    by (simp add: example_started)
  moreover have "word_id (js ''m'')" by (simp add: word_id_def js_def)
  ultimately show ?thesis
    using menu_remembers [OF sub_example_fresh refl, where i = "js ''m''" and links = "[]" and others = "[]" and cookies = "[]" and evs = "[]"
        and sms' = "[sub_example [], sub_example []]" and links' = "[]" and others' = "[]"]
    by (auto simp: others_ok_def Let_def split_beta)
qed

theorem menu_click_refines_witness:
  "\<exists>n. let m = menu_session (js ''m'') [sub_example [], sub_example collapsed] [] [] [] [Tick];
          s = (menu_tick ^^ n) (toggleMenu 1 m)
     in opens m = [True, False] \<and> intervals s = [] \<and> opens s = [False, True]"
proof -
  let ?m = "menu_session (js ''m'') [sub_example [], sub_example collapsed] [] [] [] [Tick]"
  have s: "submenus (menu_load (SDMenu (js ''m'') [sub_example [], sub_example collapsed] [] [] [])) = [sub_example [], sub_example collapsed]"
    by (simp add: menu_load_def example_loaded) (simp add: expandMenu_def collapseOthers_def SDMenu_def start_interval_def sub_example_def)
  have mv: "move_sub (interval_of 5 0 (sub_example []) True) (sub_example []) = (sub_example [], False)"
    by (simp add: move_sub_def sub_example_def offsetHeight_def fullHeight_def)
  have t: "intervals ?m = []" "submenus ?m = [sub_example [], sub_example collapsed]"
    using tick_parts [OF example_started, of "sub_example []" False] s mv by (simp_all add: menu_step_def)
  then have o: "opens ?m = [True, False]" by (simp add: sub_example_def)
  then have "click_spec 1 (opens ?m) = [False, True]" by (simp add: click_spec_def)
  then show ?thesis
    using menu_click_refines [OF sub_example_fresh refl t(1), of 1] o by (auto simp: Let_def)
qed

text \<open>Clicks on two closed submenus that come before the first has opened leave both open: the class
  of a submenu that is opening is still the one of a closed one.\<close>

lemma quick_clicks_open_both:
  assumes "menu_ok m" "intervals m = []" "i < length (submenus m)" "j < length (submenus m)" "i \<noteq> j"
    and "\<not> is_open (submenus m ! i)" "\<not> is_open (submenus m ! j)"
  shows "wanted (toggleMenu j (toggleMenu i m)) i \<and> wanted (toggleMenu j (toggleMenu i m)) j"
  using assms toggleMenu_ok [OF assms(1,3)] toggleMenu_ok(4) [OF toggleMenu_ok(1) [OF assms(1,3)], of j]
  by simp

text \<open>One link is current after a click.\<close>

lemma one_current:
  "i < length (sd_links m) \<Longrightarrow>
    filter (\<lambda>j. sd_links (link_click i m) ! j = js ''current'') [0..<length (sd_links m)] = [i]
    \<and> js ''current'' \<notin> set (sd_others (link_click i m))"
proof -
  assume i: "i < length (sd_links m)"
  have "sd_links (link_click i m) ! j = js ''current'' \<longleftrightarrow> j = i" if "j < length (sd_links m)" for j
    using that i by (auto simp: link_click_def Let_def nth_list_update js_def)
  then have "filter (\<lambda>j. sd_links (link_click i m) ! j = js ''current'') [0..<length (sd_links m)] =
      filter (\<lambda>j. j = i) [0..<length (sd_links m)]"
    by (intro filter_cong) auto
  moreover have "filter (\<lambda>j. j = i) [0..<n] = (if i < n then [i] else [])" for n
    by (induction n) auto
  ultimately show ?thesis using i by (auto simp: link_click_def Let_def js_def)
qed

subsection \<open>The side bar\<close>

text \<open>An entry of the bar: whether it has a list of its own, whether its arrow points down and its list
  is shown, and the mark of the current entry, for itself and for the entries of its list. Sliding is
  taken at its end: the animations of an element follow each other, so each finds the state the one
  before has left.\<close>

record nav_item =
  nv_subwrap :: bool
  nv_down :: bool
  nv_shown :: bool
  nv_now :: bool
  nv_kids :: "bool list"

definition nav_fold :: "nav_item \<Rightarrow> nav_item" where
  "nav_fold x = (if nv_subwrap x then x\<lparr>nv_down := False, nv_shown := False\<rparr> else x)"

definition nav_unmark :: "nav_item \<Rightarrow> nav_item" where
  "nav_unmark x = x\<lparr>nv_now := False, nv_kids := map (\<lambda>b. False) (nv_kids x)\<rparr>"

text \<open>A click on an entry, or on one of the entries of its list; it goes no further.\<close>

definition nav_click :: "nat \<Rightarrow> nat option \<Rightarrow> nav_item list \<Rightarrow> nav_item list" where
  "nav_click i kid xs =
     (let x = xs ! i
      in case kid of
           None \<Rightarrow>
             if nv_subwrap x
             then (map nav_fold xs)[i := x\<lparr>nv_down := \<not> nv_down x, nv_shown := \<not> nv_shown x\<rparr>]
             else (map (nav_unmark \<circ> nav_fold) xs)[i := (nav_unmark x)\<lparr>nv_now := True\<rparr>]
         | Some k \<Rightarrow> (map nav_unmark xs)[i := (nav_unmark x)\<lparr>nv_kids := (nv_kids (nav_unmark x))[k := True]\<rparr>])"

text \<open>Arrows and lists agree, one list is shown at most, and one entry is current at most.\<close>

definition nav_marks :: "nav_item list \<Rightarrow> nat" where
  "nav_marks xs = length (filter (\<lambda>b. b) (concat (map (\<lambda>x. nv_now x # nv_kids x) xs)))"

definition nav_ok :: "nav_item list \<Rightarrow> bool" where
  "nav_ok xs \<longleftrightarrow>
     (\<forall>x \<in> set xs. nv_down x = nv_shown x \<and> (nv_shown x \<longrightarrow> nv_subwrap x))
     \<and> length (filter nv_shown xs) \<le> 1 \<and> nav_marks xs \<le> 1"

lemma filter_upd_none: "filter P xs = [] \<Longrightarrow> length (filter P (xs[i := y])) \<le> 1"
proof (induction xs arbitrary: i)
  case (Cons x xs)
  then show ?case by (cases i) (auto split: if_splits)
qed simp

lemma marks_upd:
  "nav_marks xs = 0 \<Longrightarrow> length (filter (\<lambda>b. b) (nv_now y # nv_kids y)) \<le> 1 \<Longrightarrow> nav_marks (xs[i := y]) \<le> 1"
proof (induction xs arbitrary: i)
  case (Cons x xs)
  then show ?case by (cases i) (auto simp: nav_marks_def split: if_splits)
qed (simp add: nav_marks_def)

lemma unmarked: "nav_marks (map (nav_unmark \<circ> f) xs) = 0" "nav_marks (map nav_unmark xs) = 0"
  by (auto simp: nav_marks_def nav_unmark_def filter_empty_conv)

lemma one_kid: "length (filter (\<lambda>b. b) ((map (\<lambda>b. False) bs)[k := True])) \<le> 1"
  by (rule filter_upd_none) (simp add: filter_empty_conv)

lemma marks_fold: "nav_marks (map nav_fold xs) = nav_marks xs"
proof -
  have "(\<lambda>x. nv_now x # nv_kids x) \<circ> nav_fold = (\<lambda>x. nv_now x # nv_kids x)" by (auto simp: nav_fold_def)
  then show ?thesis by (simp add: nav_marks_def)
qed

lemma marks_same: "i < length xs \<Longrightarrow> nv_now y = nv_now (xs ! i) \<Longrightarrow> nv_kids y = nv_kids (xs ! i) \<Longrightarrow> nav_marks (xs[i := y]) = nav_marks xs"
proof (induction xs arbitrary: i)
  case (Cons x xs)
  then show ?case by (cases i) (auto simp: nav_marks_def)
qed simp

lemma shown_same: "i < length xs \<Longrightarrow> nv_shown y = nv_shown (xs ! i) \<Longrightarrow> length (filter nv_shown (xs[i := y])) = length (filter nv_shown xs)"
proof (induction xs arbitrary: i)
  case (Cons x xs)
  then show ?case by (cases i) auto
qed simp

lemma nav_click_ok:
  assumes "nav_ok xs" "i < length xs"
  shows "nav_ok (nav_click i kid xs)"
proof -
  let ?x = "xs ! i"
  have x: "nv_down ?x = nv_shown ?x" "nv_shown ?x \<longrightarrow> nv_subwrap ?x" using assms by (auto simp: nav_ok_def)
  have sub: "y = z \<or> y \<in> set ys" if "y \<in> set (ys[i := z])" for y z and ys :: "nav_item list"
    using that set_update_subset_insert [of ys i z] by auto
  have folded: "filter nv_shown (map nav_fold xs) = []"
    using assms(1) by (auto simp: nav_ok_def nav_fold_def filter_empty_conv)
  consider (list) "kid = None" "nv_subwrap ?x" | (plain) "kid = None" "\<not> nv_subwrap ?x" | (inner) k where "kid = Some k"
    by (cases kid) auto
  then show ?thesis
  proof cases
    case list
    let ?y = "?x\<lparr>nv_down := \<not> nv_down ?x, nv_shown := \<not> nv_shown ?x\<rparr>"
    have "nav_marks ((map nav_fold xs)[i := ?y]) = nav_marks (map nav_fold xs)"
      using assms(2) by (intro marks_same) (auto simp: nav_fold_def)
    with list x assms(1) filter_upd_none [OF folded, of i ?y] show ?thesis
      by (auto simp: nav_click_def Let_def nav_ok_def nav_fold_def marks_fold dest!: sub)
  next
    case plain
    let ?y = "(nav_unmark ?x)\<lparr>nv_now := True\<rparr>"
    have f: "filter nv_shown (map (nav_unmark \<circ> nav_fold) xs) = []"
      using assms(1) by (auto simp: nav_ok_def nav_fold_def nav_unmark_def filter_empty_conv)
    have "nav_marks ((map (nav_unmark \<circ> nav_fold) xs)[i := ?y]) \<le> 1"
      by (rule marks_upd [OF unmarked(1)]) (simp add: nav_unmark_def filter_empty_conv)
    with plain x assms(1) filter_upd_none [OF f, of i ?y] show ?thesis
      by (auto simp: nav_click_def Let_def nav_ok_def nav_fold_def nav_unmark_def split: if_splits dest!: sub)
  next
    case inner
    let ?y = "(nav_unmark ?x)\<lparr>nv_kids := (nv_kids (nav_unmark ?x))[k := True]\<rparr>"
    have "length (filter nv_shown ((map nav_unmark xs)[i := ?y])) = length (filter nv_shown (map nav_unmark xs))"
      using assms(2) by (intro shown_same) (simp_all add: nav_unmark_def)
    moreover have "length (filter nv_shown (map nav_unmark xs)) \<le> 1"
      using assms(1) by (simp add: nav_ok_def filter_map comp_def nav_unmark_def)
    moreover have "nav_marks ((map nav_unmark xs)[i := ?y]) \<le> 1"
      by (rule marks_upd [OF unmarked(2)]) (use one_kid [of "nv_kids ?x" k] in \<open>simp add: nav_unmark_def\<close>)
    ultimately show ?thesis
      using inner x assms(1) by (auto simp: nav_click_def Let_def nav_ok_def nav_unmark_def dest!: sub)
  qed
qed

subsection \<open>The rows of a list\<close>

text \<open>A row with its box \<open>checkedIds\<close>, the class \<open>tr_hover\<close>, and whether the mouse is over it.\<close>

record tick_row =
  tk_checked :: bool
  tk_hover :: bool
  tk_under :: bool

datatype row_event = All bool | Box nat | Over nat | Out nat

definition row_step :: "row_event \<Rightarrow> tick_row list \<Rightarrow> tick_row list" where
  "row_step ev rs =
     (case ev of
        All b \<Rightarrow> map (\<lambda>r. r\<lparr>tk_checked := b, tk_hover := b\<rparr>) rs
      | Box i \<Rightarrow> rs[i := (rs ! i)\<lparr>tk_checked := \<not> tk_checked (rs ! i), tk_hover := \<not> tk_checked (rs ! i)\<rparr>]
      | Over i \<Rightarrow> rs[i := (rs ! i)\<lparr>tk_hover := True, tk_under := True\<rparr>]
      | Out i \<Rightarrow> rs[i := (rs ! i)\<lparr>tk_hover := tk_hover (rs ! i) \<and> tk_checked (rs ! i), tk_under := False\<rparr>])"

definition row_ok :: "tick_row \<Rightarrow> bool" where
  "row_ok r \<longleftrightarrow> (tk_checked r \<longrightarrow> tk_hover r) \<and> (tk_hover r \<longrightarrow> tk_checked r \<or> tk_under r)"

text \<open>A ticked row is always highlighted, and another one only under the mouse.\<close>

lemma rows_highlighted:
  assumes "list_all row_ok rs"
  shows "list_all row_ok (fold row_step evs rs)"
proof -
  have u: "list_all row_ok (ys[i := f (ys ! i)])" if "list_all row_ok ys" "\<And>r. row_ok r \<Longrightarrow> row_ok (f r)" for ys i f
  proof (cases "i < length ys")
    case True
    then show ?thesis using that by (auto simp: list_all_length nth_list_update)
  qed (use that in \<open>simp add: list_update_beyond\<close>)
  have "list_all row_ok (row_step ev rs)" if rs: "list_all row_ok rs" for ev rs
  proof (cases ev)
    case (All b)
    then show ?thesis using rs by (auto simp: row_step_def list_all_iff row_ok_def)
  next
    case (Box i)
    show ?thesis
      using u [OF rs, of "\<lambda>r. r\<lparr>tk_checked := \<not> tk_checked r, tk_hover := \<not> tk_checked r\<rparr>" i] by (simp add: Box row_step_def row_ok_def)
  next
    case (Over i)
    show ?thesis
      using u [OF rs, of "\<lambda>r. r\<lparr>tk_hover := True, tk_under := True\<rparr>" i] by (simp add: Over row_step_def row_ok_def)
  next
    case (Out i)
    show ?thesis
      using u [OF rs, of "\<lambda>r. r\<lparr>tk_hover := tk_hover r \<and> tk_checked r, tk_under := False\<rparr>" i]
      by (simp add: Out row_step_def row_ok_def)
  qed
  with assms show ?thesis by (induction evs arbitrary: rs) simp_all
qed

end
