(* ===== verification/Pages.thy ===== *)
theory Pages
  imports Url Ui Regex Menu Selection "HOL-Library.AList"
begin

text \<open>
  Handlers of single pages of the customers' site: the page numbers of a list (\<open>common/pagination.js\<close>),
  the tabs of the template page (\<open>mailing.template.add.js\<close>), the tags of the task page
  (\<open>refreshTag\<close> and the orders of its lists in \<open>mailing.task.add.js\<close>), and the side bar of
  \<open>common/base.js\<close>.
\<close>

subsection \<open>Page numbers\<close>

text \<open>A list has the field for the page above and below; \<open>pageNo_fun\<close> reads the first one.\<close>

record paged = ui +
  pg_nos :: "jstring list"
  pg_size :: jstring
  pg_cookies :: "(jstring \<times> jstring) list"

definition re_page :: re where
  "re_page = whole (Seq (Chr (\<lambda>c. 49 \<le> c \<and> c \<le> 57)) (Star digit))"

definition pageNo_keyup :: "nat \<Rightarrow> 'a paged_scheme \<Rightarrow> 'a paged_scheme" where
  "pageNo_keyup i s = s\<lparr>pg_nos := map (\<lambda>v. pg_nos s ! i) (pg_nos s)\<rparr>"

definition pageNo_field :: "nat \<Rightarrow> jstring" where
  "pageNo_field i = js ''pageNo'' @ nat_to_str i"

definition go_click :: "browser \<Rightarrow> jstring \<Rightarrow> jstring \<Rightarrow> jstring \<Rightarrow> nat \<Rightarrow> 'a paged_scheme \<Rightarrow> 'a paged_scheme" where
  "go_click b host pathname search i s =
     (let num = pg_nos s ! i
      in if \<not> re_test re_page num
         then focus_el (pageNo_field i) ((fail_message b [0x8F93, 0x5165, 0x7684, 0x9875, 0x7801, 0x6709, 0x8BEF] s)\<lparr>pg_nos := (pg_nos s)[i := []]\<rparr>)
         else go_to (pageNo_fun host pathname search (hd (pg_nos s))) s)"

text \<open>The key Enter in a field clicks every such link; the handler of the first leaves the page.\<close>

definition pageNo_keydown ::
  "browser \<Rightarrow> jstring \<Rightarrow> jstring \<Rightarrow> jstring \<Rightarrow> nat \<Rightarrow> 'a paged_scheme \<Rightarrow> 'a paged_scheme" where
  "pageNo_keydown b host pathname search keyCode s =
     (if keyCode = 13 then fold (go_click b host pathname search) [0..<length (pg_nos s)] s else s)"

definition pageSize_fun :: "jstring \<Rightarrow> 'a paged_scheme \<Rightarrow> 'a paged_scheme" where
  "pageSize_fun href s = go_to href (s\<lparr>pg_cookies := set_cookie (js ''PSC'') (pg_size s) (pg_cookies s)\<rparr>)"

subsection \<open>Tabs of the template page\<close>

text \<open>The three tabs are the page for computers, for phones and the short message. Which of them can be
  chosen (class \<open>show\<close>), which is marked (\<open>now\<close>), whose content is shown.\<close>

record tabs =
  tb_cur :: nat
  tb_content :: "bool list"
  tb_now :: "bool list"
  tb_show :: "bool list"
  tb_wrap :: bool         \<comment> \<open>\<open>#tab-main-wrap\<close>\<close>
  tb_choice :: bool       \<comment> \<open>\<open>#tb-wrap\<close>\<close>
  tb_phone :: bool        \<comment> \<open>the boxes \<open>#ph_cb\<close>, \<open>#dx_cb\<close>\<close>
  tb_sms :: bool
  tb_disabled :: bool
  tb_joinPhone :: jstring
  tb_joinSms :: jstring

definition tabs_edit :: "tabs \<Rightarrow> tabs" where
  "tabs_edit t =
     t\<lparr>tb_show := [True, tb_show t ! 1 \<or> js_eq (JStr (tb_joinPhone t)) (JInt 1), tb_show t ! 2 \<or> js_eq (JStr (tb_joinSms t)) (JInt 1)],
       tb_content := (tb_content t)[0 := True], tb_wrap := True, tb_choice := False\<rparr>"

text \<open>Loading the page: twice for an address that names the template, once for a stored one.\<close>

definition tabs_load :: "bool \<Rightarrow> jstring \<Rightarrow> tabs \<Rightarrow> tabs" where
  "tabs_load refers templateId t =
     (let t = (if refers then tabs_edit t else t) in if templateId \<noteq> [] then tabs_edit t else t)"

definition jbj_click :: "tabs \<Rightarrow> tabs" where
  "jbj_click t =
     t\<lparr>tb_disabled := True, tb_show := [True, tb_phone t, tb_sms t], tb_content := (tb_content t)[0 := True],
       tb_wrap := True, tb_choice := False\<rparr>"

definition tab_click :: "nat \<Rightarrow> tabs \<Rightarrow> tabs" where
  "tab_click i t =
     t\<lparr>tb_content := ((tb_content t)[tb_cur t := False])[i := True], tb_now := (map (\<lambda>b. False) (tb_now t))[i := True], tb_cur := i\<rparr>"

definition ph_cb_click :: "tabs \<Rightarrow> tabs" where
  "ph_cb_click t = (let c = \<not> tb_phone t in t\<lparr>tb_phone := c, tb_joinPhone := (if c then js ''1'' else js ''0'')\<rparr>)"

definition dx_cb_click :: "tabs \<Rightarrow> tabs" where
  "dx_cb_click t = (let c = \<not> tb_sms t in t\<lparr>tb_sms := c, tb_joinSms := (if c then js ''1'' else js ''0'')\<rparr>)"

text \<open>What can be clicked: what is shown and not disabled.\<close>

datatype tab_event = Jbj | Tab nat | PhoneBox | SmsBox

definition tab_step :: "tab_event \<Rightarrow> tabs \<Rightarrow> tabs" where
  "tab_step ev t =
     (case ev of
        Jbj \<Rightarrow> if tb_choice t then jbj_click t else t
      | Tab i \<Rightarrow> if i < 3 \<and> tb_show t ! i then tab_click i t else t
      | PhoneBox \<Rightarrow> if tb_disabled t then t else ph_cb_click t
      | SmsBox \<Rightarrow> if tb_disabled t then t else dx_cb_click t)"

text \<open>The page as it is made: what is stored is in the fields and the boxes; these are disabled for a
  stored template.\<close>

definition tabs_page :: "bool \<Rightarrow> bool \<Rightarrow> bool \<Rightarrow> tabs" where
  "tabs_page stored phone sms =
     \<lparr>tb_cur = 0, tb_content = [False, False, False], tb_now = [True, False, False], tb_show = [False, False, False],
      tb_wrap = False, tb_choice = True, tb_phone = phone, tb_sms = sms, tb_disabled = stored,
      tb_joinPhone = (if phone then js ''1'' else js ''0''), tb_joinSms = (if sms then js ''1'' else js ''0'')\<rparr>"

subsection \<open>Tags of the task page\<close>

text \<open>The lists are objects: from a category to its items, in the order in which the keys came.\<close>

record 'i tag_data =
  td_catedata :: "(jstring \<times> 'i) list"
  td_files :: "(jstring \<times> 'i) list"
  td_include :: "(jstring \<times> 'i) list"      \<comment> \<open>what the two choices and the one of unsubscription offer\<close>
  td_exclude :: "(jstring \<times> 'i) list"
  td_unsubscribe :: "'i option"
  td_opened :: bool
  td_exclude_off :: bool      \<comment> \<open>the choice of excluded tags is disabled\<close>

text \<open>\<open>$.extend({}, a, b)\<close>\<close>

definition js_extend :: "(jstring \<times> 'i) list \<Rightarrow> (jstring \<times> 'i) list \<Rightarrow> (jstring \<times> 'i) list" where
  "js_extend a b = fold (\<lambda>(k, v) m. AList.update k v m) b a"

definition unsub_key :: jstring where
  "unsub_key = [0x9000, 0x8BA2]"

definition refresh_success ::
  "(jstring \<times> 'i) list \<Rightarrow> (jstring \<times> 'i) list \<Rightarrow> ('i tag_data \<Rightarrow> 'i tag_data) option \<Rightarrow> 'i tag_data \<Rightarrow> 'i tag_data" where
  "refresh_success cates files callFn d =
     (let d = d\<lparr>td_catedata := cates, td_files := files\<rparr>; all_tags = js_extend cates files
      in case callFn of
           Some f \<Rightarrow> f d
         | None \<Rightarrow> d\<lparr>td_include := all_tags, td_exclude := cates, td_unsubscribe := map_of cates unsub_key, td_opened := True\<rparr>)"

definition initTag :: "row list \<Rightarrow> 'i tag_data \<Rightarrow> 'i tag_data" where
  "initTag included d =
     d\<lparr>td_include := js_extend (td_catedata d) (td_files d), td_exclude := td_catedata d,
       td_unsubscribe := map_of (td_catedata d) unsub_key,
       td_exclude_off := (findArrItem included 2 (JStr (js ''file'')) > -1 \<or> td_exclude_off d)\<rparr>"

text \<open>The order of the lists shown: a list is its category, its items with their ids, and what is
  hidden. The loop goes over the lists as they were and puts each of the files before all others.\<close>

record shown_list =
  sl_cate :: jstring
  sl_items :: "(jstring \<times> bool) list"      \<comment> \<open>id and whether it is hidden\<close>
  sl_hidden :: bool

definition is_file_cate :: "jstring \<Rightarrow> bool" where
  "is_file_cate k \<longleftrightarrow> k = [0x7B5B, 0x9009, 0x6587, 0x4EF6] \<or> k = [0x4E34, 0x65F6, 0x6587, 0x4EF6]"

fun sort_loop :: "shown_list list \<Rightarrow> shown_list list \<Rightarrow> shown_list list" where
  "sort_loop [] ls = ls"
| "sort_loop (l # todo) ls = sort_loop todo (if is_file_cate (sl_cate l) then l # remove1 l ls else ls)"

definition hide_all_unsubscribed :: "shown_list \<Rightarrow> shown_list" where
  "hide_all_unsubscribed l = l\<lparr>sl_items := map (\<lambda>(i, h). (i, h \<or> i = js ''-1'')) (sl_items l)\<rparr>"

definition include_sortFn :: "shown_list list \<Rightarrow> shown_list list" where
  "include_sortFn ls = map hide_all_unsubscribed (sort_loop ls ls)"

definition exclude_sortFn :: "shown_list list \<Rightarrow> shown_list list" where
  "exclude_sortFn ls = map (\<lambda>l. if sl_cate l = [0x4E34, 0x65F6, 0x6587, 0x4EF6] then l\<lparr>sl_hidden := True\<rparr> else l) ls"

definition unsubscribe_sortFn :: "shown_list list \<Rightarrow> shown_list list" where
  "unsubscribe_sortFn ls = map hide_all_unsubscribed ls"

subsection \<open>The side bar\<close>

text \<open>\<open>$this.has("ul")\<close> is a jQuery object and holds always: an entry without a list gets the arrow
  as well. \<open>bar_kids\<close> are the arrows of the entries of the list.\<close>

record bar_item =
  bar_title :: jstring
  bar_sub :: "(jstring \<times> (jstring \<times> bool \<times> bool) list) option"  \<comment> \<open>\<open>data-cate\<close>; entries with arrow and mark\<close>
  bar_down :: bool
  bar_shown :: bool
  bar_now :: bool

definition bar_fold :: "bar_item \<Rightarrow> bar_item" where
  "bar_fold x = (if bar_sub x \<noteq> None then x\<lparr>bar_down := False, bar_shown := False\<rparr> else x)"

definition bar_click :: "nat \<Rightarrow> bar_item list \<Rightarrow> bar_item list" where
  "bar_click i xs =
     (let x = xs ! i
      in (map bar_fold xs)[i := x\<lparr>bar_down := \<not> bar_down x, bar_shown := (bar_sub x \<noteq> None \<and> \<not> bar_shown x)\<rparr>])"

definition bar_kid_click :: "nat \<Rightarrow> nat \<Rightarrow> bar_item list \<Rightarrow> bar_item list" where
  "bar_kid_click i k xs =
     (let x = xs ! i
      in xs[i := x\<lparr>bar_sub := map_option (\<lambda>(c, ks). (c, ks[k := (\<lambda>(t, d, n). (t, \<not> d, n)) (ks ! k)])) (bar_sub x)\<rparr>])"

text \<open>The entry with the name in the title of the page; one of a list only if the address has the
  category of the list.\<close>

definition bar_mark :: "jstring \<Rightarrow> jstring \<Rightarrow> bar_item \<Rightarrow> bar_item" where
  "bar_mark name href x =
     (let x = (if bar_title x = name then x\<lparr>bar_down := True, bar_now := True\<rparr> else x)
      in case bar_sub x of
           None \<Rightarrow> x
         | Some (cate, ks) \<Rightarrow>
             if indexOf href cate > 0 \<and> (\<exists>k \<in> set ks. fst k = name)
             then x\<lparr>bar_shown := True, bar_down := True, bar_sub := Some (cate, map (\<lambda>(t, d, n). (t, d, n \<or> t = name)) ks)\<rparr>
             else x)"

subsection \<open>Properties\<close>

lemma re_page_iff: "re_test re_page v \<longleftrightarrow> (\<exists>c w. v = c # w \<and> 49 \<le> c \<and> c \<le> 57 \<and> list_all is_digit w)"
proof -
  have "denotes (Seq (Chr (\<lambda>c. 49 \<le> c \<and> c \<le> 57)) (Star digit))
      (lang_seq (\<lambda>p. \<exists>c. p = [c] \<and> 49 \<le> c \<and> c \<le> 57) (lang_star (\<lambda>p. \<exists>c. p = [c] \<and> 48 \<le> c \<and> c \<le> 57)))"
    unfolding digit_def by blast
  note re_test_whole [OF this, of v, folded re_page_def]
  then show ?thesis unfolding lang_seq_chr lang_star_chr by (auto simp: is_digit_def [abs_def])
qed

lemma keyup_same: "i < length (pg_nos s) \<Longrightarrow> pg_nos (pageNo_keyup i s) = replicate (length (pg_nos s)) (pg_nos s ! i)"
  by (simp add: pageNo_keyup_def map_replicate_const)

text \<open>C20: After a key in one of the fields for the page, the link beside any of them goes to the address of
  the list with that page set and the other parameters kept, exactly if a positive number without
  leading zeros was given. Otherwise the page is not left and one message is shown.\<close>

theorem page_link_goes:
  assumes "ui_ok s" "i < length (pg_nos s)" "j < length (pg_nos s)" "s' = go_click b host pathname search j (pageNo_keyup i s)"
    and "v = pg_nos s ! i"
  shows "if \<exists>c w. v = c # w \<and> 49 \<le> c \<and> c \<le> 57 \<and> list_all is_digit w
    then \<exists>q. navs s' = navs s @ [url_base host pathname @ q] \<and> parse_query q = set_page v (parse_query (drop 1 search))
    else navs s' = navs s \<and> length (err_boxes s') = 1 \<and> pg_nos s' ! j = []"
proof -
  note k = keyup_same [OF assms(2), folded assms(5)]
  have h: "hd (replicate (length (pg_nos s)) v) = v" using assms(2) by (cases "pg_nos s") auto
  have n: "navs (pageNo_keyup i s) = navs s" "ui_ok (pageNo_keyup i s)"
    using assms(1) by (simp_all add: pageNo_keyup_def ui_ok_def)
  show ?thesis
  proof (cases "re_test re_page v")
    case True
    then have "38 \<notin> set v" by (fastforce simp: re_page_iff list_all_iff is_digit_def)
    moreover have "navs s' = navs s @ [pageNo_fun host pathname search v]"
      using True assms(2-4) n k by (simp add: go_click_def Let_def go_to_def h)
    ultimately show ?thesis
      using True pageNo_fun_refines [of v host pathname search] by (auto simp: re_page_iff)
  next
    case False
    then have s': "s' = focus_el (pageNo_field j) ((fail_message b [0x8F93, 0x5165, 0x7684, 0x9875, 0x7801, 0x6709, 0x8BEF] (pageNo_keyup i s))\<lparr>pg_nos := (pg_nos (pageNo_keyup i s))[j := []]\<rparr>)"
      using assms(2-4) k by (simp add: go_click_def Let_def)
    then have "navs s' = navs s" "pg_nos s' ! j = []" "length (err_boxes s') = 1"
      using n assms(3) k by (simp_all add: focus_el_def error_message_boxes)
    with False show ?thesis by (auto simp: re_page_iff)
  qed
qed

text \<open>Without a key, as by pasting, the fields may differ: then one is tested and another one is used.\<close>

lemma page_link_other_field:
  "pg_nos s = [v, w] \<Longrightarrow> re_test re_page w \<Longrightarrow> navs (go_click b host pathname search 1 s) = navs s @ [pageNo_fun host pathname search v]"
  by (simp add: go_click_def go_to_def)

text \<open>Tabs: until they are opened nothing is shown; then the marked one is, and only it, and a tab can be
  chosen exactly if the field says so.\<close>

definition only :: "nat \<Rightarrow> bool list" where
  "only i = [i = 0, i = 1, i = 2]"

definition tabs_ok :: "tabs \<Rightarrow> bool" where
  "tabs_ok t \<longleftrightarrow>
     tb_cur t < 3 \<and> tb_now t = only (tb_cur t)
     \<and> tb_joinPhone t = (if tb_phone t then js ''1'' else js ''0'') \<and> tb_joinSms t = (if tb_sms t then js ''1'' else js ''0'')
     \<and> tb_choice t = (\<not> tb_wrap t)
     \<and> (if tb_wrap t
        then tb_content t = only (tb_cur t) \<and> tb_disabled t \<and> tb_show t = [True, tb_phone t, tb_sms t]
        else tb_content t = [False, False, False] \<and> tb_cur t = 0 \<and> tb_show t = [False, False, False])"

lemma tab_step_ok: "tabs_ok t \<Longrightarrow> tabs_ok (tab_step ev t)"
proof -
  assume t: "tabs_ok t"
  have three: "i < 3 \<longleftrightarrow> i = 0 \<or> i = 1 \<or> i = 2" for i :: nat by auto
  show "tabs_ok (tab_step ev t)"
  proof (cases ev)
    case (Tab i)
    show ?thesis
    proof (cases "i < 3 \<and> tb_show t ! i")
      case True
      with t have "tb_wrap t" by (auto simp: tabs_ok_def three split: if_splits)
      with t True show ?thesis by (auto simp: Tab tab_step_def tab_click_def tabs_ok_def only_def three)
    qed (use t in \<open>auto simp: Tab tab_step_def\<close>)
  qed (use t in \<open>auto simp: tab_step_def jbj_click_def ph_cb_click_def dx_cb_click_def tabs_ok_def only_def Let_def split: if_splits\<close>)
qed

lemma js_flags [simp]: "js_eq (JStr (js ''1'')) (JInt 1)" "\<not> js_eq (JStr (js ''0'')) (JInt 1)"
  using to_number_digits [of "js ''1''"] to_number_digits [of "js ''0''"]
  by (simp_all add: js_eq_sym [of "JStr v" for v] js_eq_int_str js_def is_digit_def digits_val_def)

lemma tabs_load_ok: "(refers \<longrightarrow> i \<noteq> []) \<Longrightarrow> tabs_ok (tabs_load refers i (tabs_page (i \<noteq> []) phone sms))"
  by (simp add: tabs_load_def tabs_edit_def tabs_page_def tabs_ok_def only_def Let_def)

lemma tabs_reachable_ok:
  "(refers \<longrightarrow> i \<noteq> []) \<Longrightarrow> tabs_ok (fold tab_step evs (tabs_load refers i (tabs_page (i \<noteq> []) phone sms)))"
proof -
  have "tabs_ok t \<Longrightarrow> tabs_ok (fold tab_step evs t)" for t
    by (induction evs arbitrary: t) (simp_all add: tab_step_ok)
  then show "(refers \<longrightarrow> i \<noteq> []) \<Longrightarrow> tabs_ok (fold tab_step evs (tabs_load refers i (tabs_page (i \<noteq> []) phone sms)))"
    using tabs_load_ok by blast
qed

text \<open>The lists offered for inclusion: the files come first, all lists are still there, and of the
  others the order is kept.\<close>

lemma sort_loop_eq:
  assumes "distinct ls" "set todo \<subseteq> set ls" "distinct todo"
    and "ls = filter (\<lambda>l. is_file_cate (sl_cate l) \<and> l \<notin> set todo) ls @ filter (\<lambda>l. \<not> is_file_cate (sl_cate l) \<or> l \<in> set todo) ls"
  shows "mset (sort_loop todo ls) = mset ls
    \<and> sort_loop todo ls = filter (\<lambda>l. is_file_cate (sl_cate l)) (sort_loop todo ls) @ filter (\<lambda>l. \<not> is_file_cate (sl_cate l)) ls"
  using assms
proof (induction todo arbitrary: ls)
  case Nil
  then show ?case by simp
next
  case (Cons l todo)
  show ?case
  proof (cases "is_file_cate (sl_cate l)")
    case True
    let ?ls = "l # remove1 l ls"
    have r: "remove1 l ls = filter (\<lambda>x. x \<noteq> l) ls" using Cons.prems(1) by (simp add: distinct_remove1_removeAll removeAll_filter_not_eq) (metis (no_types))
    have m: "mset ?ls = mset ls" using Cons.prems(2) by simp
    have d: "distinct ?ls" using Cons.prems(1) by (simp add: r)
    have s: "set todo \<subseteq> set ?ls" "distinct todo" "l \<notin> set todo" using Cons.prems(2,3) by (auto simp: r)
    have f: "filter (\<lambda>l. \<not> is_file_cate (sl_cate l)) ?ls = filter (\<lambda>l. \<not> is_file_cate (sl_cate l)) ls"
      using True by (auto simp: r intro: filter_cong)
    have "remove1 l ls = filter (\<lambda>x. is_file_cate (sl_cate x) \<and> x \<notin> set todo) (remove1 l ls)
        @ filter (\<lambda>x. \<not> is_file_cate (sl_cate x) \<or> x \<in> set todo) (remove1 l ls)"
    proof -
      let ?A = "\<lambda>x. is_file_cate (sl_cate x) \<and> x \<notin> set (l # todo)" and ?B = "\<lambda>x. \<not> is_file_cate (sl_cate x) \<or> x \<in> set (l # todo)"
      have "filter (\<lambda>x. x \<noteq> l) ls = filter (\<lambda>x. x \<noteq> l) (filter ?A ls) @ filter (\<lambda>x. x \<noteq> l) (filter ?B ls)"
        using arg_cong [OF Cons.prems(4), of "filter (\<lambda>x. x \<noteq> l)"] by simp
      also have "filter (\<lambda>x. x \<noteq> l) (filter ?A ls) = filter (\<lambda>x. is_file_cate (sl_cate x) \<and> x \<notin> set todo) (remove1 l ls)"
        by (auto simp: r intro: filter_cong)
      also have "filter (\<lambda>x. x \<noteq> l) (filter ?B ls) = filter (\<lambda>x. \<not> is_file_cate (sl_cate x) \<or> x \<in> set todo) (remove1 l ls)"
        by (auto simp: r intro: filter_cong)
      finally show ?thesis by (simp add: r)
    qed
    then have q: "?ls = filter (\<lambda>x. is_file_cate (sl_cate x) \<and> x \<notin> set todo) ?ls @ filter (\<lambda>x. \<not> is_file_cate (sl_cate x) \<or> x \<in> set todo) ?ls"
      using True s(3) by simp
    have e: "sort_loop (l # todo) ls = sort_loop todo ?ls" using True by simp
    from Cons.IH [OF d s(1,2) q] show ?thesis unfolding e m f .
  next
    case False
    have "filter (\<lambda>x. is_file_cate (sl_cate x) \<and> x \<notin> set (l # todo)) ls = filter (\<lambda>x. is_file_cate (sl_cate x) \<and> x \<notin> set todo) ls"
      "filter (\<lambda>x. \<not> is_file_cate (sl_cate x) \<or> x \<in> set (l # todo)) ls = filter (\<lambda>x. \<not> is_file_cate (sl_cate x) \<or> x \<in> set todo) ls"
      using False by (auto intro: filter_cong)
    with Cons False show ?thesis by simp
  qed
qed

lemma include_sorted:
  assumes "distinct ls"
  shows "mset (sort_loop ls ls) = mset ls
    \<and> sort_loop ls ls = filter (\<lambda>l. is_file_cate (sl_cate l)) (sort_loop ls ls) @ filter (\<lambda>l. \<not> is_file_cate (sl_cate l)) ls"
proof -
  have "filter (\<lambda>l. is_file_cate (sl_cate l) \<and> l \<notin> set ls) ls = []"
    "filter (\<lambda>l. \<not> is_file_cate (sl_cate l) \<or> l \<in> set ls) ls = ls"
    by (auto simp: filter_empty_conv filter_id_conv)
  then show ?thesis by (intro sort_loop_eq assms) simp_all
qed

text \<open>After the tags are loaded again the choices offer what a page just opened would.\<close>

lemma refresh_as_init:
  "refresh_success cates files None d =
     (refresh_success cates files (Some (initTag rows)) d)\<lparr>td_opened := True, td_exclude_off := td_exclude_off d\<rparr>"
  by (simp add: refresh_success_def initTag_def Let_def)

text \<open>One list of the bar is open at most.\<close>

lemma bar_one_open:
  assumes "length (filter bar_shown xs) \<le> 1" "\<forall>x \<in> set xs. bar_shown x \<longrightarrow> bar_sub x \<noteq> None" "i < length xs"
  shows "length (filter bar_shown (bar_click i xs)) \<le> 1 \<and> (\<forall>x \<in> set (bar_click i xs). bar_shown x \<longrightarrow> bar_sub x \<noteq> None)"
proof -
  have "filter bar_shown (map bar_fold xs) = []" using assms(2) by (auto simp: filter_empty_conv bar_fold_def)
  from filter_upd_none [OF this] show ?thesis
    using assms(2,3) set_update_subset_insert [of "map bar_fold xs" i]
    by (fastforce simp: bar_click_def Let_def bar_fold_def split: if_splits)
qed

definition paged_example :: paged where
  "paged_example = ui.extend page0 \<lparr>pg_nos = [[], js ''12''], pg_size = js ''20'', pg_cookies = []\<rparr>"

theorem page_link_goes_witness:
  "\<exists>q. navs (go_click browser0 (js ''h'') (js ''/l'') (js ''?a=1'') 0 (pageNo_keyup 1 paged_example)) = [url_base (js ''h'') (js ''/l'') @ q]
     \<and> parse_query q = set_page (js ''12'') (parse_query (js ''a=1''))"
proof -
  let ?s = "go_click browser0 (js ''h'') (js ''/l'') (js ''?a=1'') 0 (pageNo_keyup 1 paged_example)"
  have p: "pg_nos paged_example = [[], js ''12'']" "navs paged_example = []" "ui_ok paged_example"
    using page0_ok by (simp_all add: paged_example_def page0_def ui.defs ui_ok_def)
  have "\<exists>c w. js ''12'' = c # w \<and> 49 \<le> c \<and> c \<le> 57 \<and> list_all is_digit w" by (simp add: js_def is_digit_def)
  moreover have "drop 1 (js ''?a=1'') = js ''a=1''" by (simp add: js_def)
  moreover have "if \<exists>c w. js ''12'' = c # w \<and> 49 \<le> c \<and> c \<le> 57 \<and> list_all is_digit w
    then \<exists>q. navs ?s = navs paged_example @ [url_base (js ''h'') (js ''/l'') @ q]
      \<and> parse_query q = set_page (js ''12'') (parse_query (drop 1 (js ''?a=1'')))
    else navs ?s = navs paged_example \<and> length (err_boxes ?s) = 1 \<and> pg_nos ?s ! 0 = []"
    by (rule page_link_goes [where i = 1 and j = 0, OF p(3) _ _ refl]) (simp_all add: p(1))
  ultimately show ?thesis by (simp add: p(2))
qed

end
