(* ===== verification/Numbers.thy ===== *)
theory Numbers
  imports JsValue "HOL-Library.Log_Nat"
begin

text \<open>
  Numbers with a fraction, as the charts and the percentages of the reports use them: the result of
  a division is rounded to a double (53 binary digits, to the nearest, ties to the even one; the
  exponents stay far from the ends of their range), \<open>toFixed\<close> writes the exact value of a double
  with so many decimals, and \<open>numberFormat\<close> of Highcharts puts commas between the thousands.
\<close>

subsection \<open>Rounding to a double\<close>

definition round_even :: "rat \<Rightarrow> int" where
  "round_even x = (let f = \<lfloor>x\<rfloor>; d = x - of_int f in if d < 1/2 \<or> d = 1/2 \<and> even f then f else f + 1)"

text \<open>The exponent of a positive number: the largest \<open>k\<close> with \<open>2\<^sup>k \<le> x\<close>.\<close>

definition mag :: "rat \<Rightarrow> int" where
  "mag x = (let (p, q) = quotient_of x; k = bitlen p - bitlen q in if 2 powi k \<le> x then k else k - 1)"

definition dbl :: "rat \<Rightarrow> rat" where
  "dbl x =
     (if x = 0 then 0
      else let e = mag \<bar>x\<bar> - 52 in sgn x * of_int (round_even (\<bar>x\<bar> / 2 powi e)) * 2 powi e)"

lemma round_even_error: "\<bar>of_int (round_even x) - x\<bar> \<le> 1 / 2"
proof -
  have "of_int \<lfloor>x\<rfloor> \<le> x" "x < of_int \<lfloor>x\<rfloor> + 1" by linarith+
  then show ?thesis by (auto simp: round_even_def Let_def)
qed

lemma bitlen_powi: "p > 0 \<Longrightarrow> 2 powi (bitlen p - 1) \<le> (of_int p :: rat) \<and> of_int p < (2 :: rat) powi bitlen p"
proof -
  assume p: "p > 0"
  then have "bitlen p \<ge> 1" using bitlen_nonneg [of p] bitlen_eq_zero_iff [of p] by linarith
  moreover have "2 ^ nat (bitlen p - 1) \<le> p" "p < 2 ^ nat (bitlen p)" using bitlen_bounds [OF p] by auto
  then have "(2 :: rat) ^ nat (bitlen p - 1) \<le> of_int p" "of_int p < (2 :: rat) ^ nat (bitlen p)"
    by (metis of_int_le_iff of_int_numeral of_int_power, metis of_int_less_iff of_int_numeral of_int_power)
  ultimately show ?thesis by (simp add: power_int_def)
qed

lemma mag_le: "x > 0 \<Longrightarrow> 2 powi mag x \<le> x"
proof -
  assume x: "x > 0"
  obtain p q where pq: "quotient_of x = (p, q)" by fastforce
  then have q: "q > 0" and v: "x = of_int p / of_int q"
    by (simp_all add: quotient_of_denom_pos quotient_of_div)
  with x have p: "p > 0" by (simp add: zero_less_divide_iff)
  let ?k = "bitlen p - bitlen q"
  have "2 powi (bitlen p - 1) \<le> x * 2 powi bitlen q"
  proof -
    have "2 powi (bitlen p - 1) \<le> x * of_int q" using bitlen_powi [OF p] v q by simp
    also have "\<dots> \<le> x * 2 powi bitlen q" using bitlen_powi [OF q] x by (intro mult_left_mono) auto
    finally show ?thesis .
  qed
  then have "2 powi (?k - 1) \<le> x"
    by (simp add: power_int_diff power_int_add field_simps)
  then show ?thesis by (simp add: mag_def pq Let_def)
qed

lemma dbl_error: "\<bar>dbl x - x\<bar> \<le> \<bar>x\<bar> / 2 ^ 53"
proof (cases "x = 0")
  case False
  define e where "e = mag \<bar>x\<bar> - 52"
  let ?r = "of_int (round_even (\<bar>x\<bar> / 2 powi e)) :: rat"
  have "dbl x - x = sgn x * (?r * 2 powi e - \<bar>x\<bar>)"
    using False by (simp add: dbl_def e_def Let_def algebra_simps abs_sgn [of x] mult_sgn_abs)
  then have "\<bar>dbl x - x\<bar> = \<bar>?r * 2 powi e - \<bar>x\<bar>\<bar>" using False by (simp add: abs_mult abs_sgn_eq)
  also have "\<dots> = \<bar>?r - \<bar>x\<bar> / 2 powi e\<bar> * 2 powi e" by (simp add: abs_mult_pos' [symmetric] abs_mult field_simps)
  also have "\<dots> \<le> 1 / 2 * 2 powi e" by (intro mult_right_mono round_even_error) simp
  also have "\<dots> \<le> \<bar>x\<bar> / 2 ^ 53"
    using mag_le [of "\<bar>x\<bar>"] False by (simp add: e_def power_int_diff)
  finally show ?thesis .
qed (simp add: dbl_def)

subsection \<open>\<open>toFixed\<close>\<close>

definition round_up :: "rat \<Rightarrow> int" where
  "round_up x = \<lfloor>x + 1 / 2\<rfloor>"

text \<open>So many digits, with zeros in front.\<close>

definition zero_pad :: "nat \<Rightarrow> jstring \<Rightarrow> jstring" where
  "zero_pad k s = replicate (k - length s) 48 @ s"

text \<open>\<open>toFixed\<close> for a number below \<open>10\<^sup>2\<^sup>1\<close>.\<close>

definition toFixed :: "nat \<Rightarrow> rat \<Rightarrow> jstring" where
  "toFixed f x =
     (let m = zero_pad (Suc f) (nat_to_str (nat (round_up (\<bar>x\<bar> * 10 ^ f))))
      in (if x < 0 then [45] else []) @ take (length m - f) m @ (if f = 0 then [] else [46]) @ drop (length m - f) m)"

text \<open>\<open>NaN\<close> is \<open>None\<close>.\<close>

definition num_toFixed :: "nat \<Rightarrow> rat option \<Rightarrow> jstring" where
  "num_toFixed f x = (case x of None \<Rightarrow> js ''NaN'' | Some x \<Rightarrow> toFixed f x)"

lemma round_up_error: "\<bar>of_int (round_up x) - x\<bar> \<le> 1 / 2"
  unfolding round_up_def by linarith

lemma round_up_near: "\<bar>x - of_int n\<bar> < 1 / 2 \<Longrightarrow> round_up x = n"
  unfolding round_up_def by linarith

lemma round_up_nonneg: "0 \<le> x \<Longrightarrow> 0 \<le> round_up x"
  unfolding round_up_def by linarith

text \<open>The digits before and after the point.\<close>

lemma digits_val_append: "digits_val (s @ t) = digits_val s * 10 ^ length t + digits_val t"
proof (induction t rule: rev_induct)
  case (snoc c t)
  have "digits_val (r @ [c]) = 10 * digits_val r + (c - 48)" for r by (simp add: digits_val_def)
  from this [of "s @ t"] this [of t] snoc show ?case by (simp add: algebra_simps)
qed (simp add: digits_val_def)

lemma digits_val_zeros: "digits_val (replicate k 48) = 0"
  by (induction k) (auto simp: digits_val_append [of "[48]", simplified] digits_val_def)

lemma zero_pad_val: "digits_val (zero_pad k s) = digits_val s"
  by (simp add: zero_pad_def digits_val_append digits_val_zeros)

lemma zero_pad_digits: "list_all is_digit s \<Longrightarrow> list_all is_digit (zero_pad k s)"
  by (auto simp: zero_pad_def list_all_iff is_digit_def)

lemma digits_val_less: "list_all is_digit s \<Longrightarrow> digits_val s < 10 ^ length s"
proof (induction s rule: rev_induct)
  case (snoc c s)
  then have "digits_val s < 10 ^ length s" "c - 48 < 10" by (auto simp: is_digit_def)
  then show ?case by (simp add: digits_val_append digits_val_def [of "[c]"])
qed (simp add: digits_val_def)

lemma nat_to_str_length: "n < 10 ^ Suc k \<Longrightarrow> length (nat_to_str n) \<le> Suc k"
proof (induction k arbitrary: n)
  case (Suc k)
  then have "n div 10 < 10 ^ Suc k" by (simp add: less_mult_imp_div_less mult.commute)
  with Suc.IH show ?case by (subst nat_to_str.simps) (auto simp: nat_to_str.simps [of n])
qed (subst nat_to_str.simps, simp)

text \<open>A number in digits: the integral part, and so many decimals.\<close>

lemma toFixed_parts:
  assumes "n = nat (round_up (\<bar>x\<bar> * 10 ^ f))" and "f > 0"
  obtains ip fp where "toFixed f x = (if x < 0 then [45] else []) @ ip @ [46] @ fp" "list_all is_digit ip" "ip \<noteq> []"
    "list_all is_digit fp" "length fp = f" "digits_val ip = n div 10 ^ f" "digits_val fp = n mod 10 ^ f"
    "n div 10 ^ f = 0 \<longrightarrow> ip = [48]"
proof -
  define m where "m = zero_pad (Suc f) (nat_to_str n)"
  let ?ip = "take (length m - f) m" and ?fp = "drop (length m - f) m"
  have len: "length m \<ge> Suc f" by (simp add: m_def zero_pad_def)
  have dig: "list_all is_digit m" using nat_to_str_digits [of n] unfolding m_def by (intro zero_pad_digits) (simp add: list_all_iff)
  have ip: "list_all is_digit ?ip" and fp: "list_all is_digit ?fp"
    using dig by (auto simp: list_all_iff dest: in_set_takeD in_set_dropD)
  have lf: "length ?fp = f" using len by simp
  have "n = digits_val (?ip @ ?fp)" by (simp only: append_take_drop_id) (simp add: m_def zero_pad_val)
  then have v: "n = digits_val ?ip * 10 ^ f + digits_val ?fp" by (simp only: digits_val_append lf)
  moreover have "digits_val ?fp < 10 ^ f" using digits_val_less [OF fp] lf by simp
  ultimately have d: "digits_val ?ip = n div 10 ^ f" "digits_val ?fp = n mod 10 ^ f" by simp_all
  have z: "?ip = [48]" if n: "n div 10 ^ f = 0"
  proof -
    from n have "n < 10 ^ Suc f" by (auto simp: div_eq_0_iff)
    then have "length m = Suc f" using nat_to_str_length [of n f] by (simp add: m_def zero_pad_def)
    then obtain c where c: "?ip = [c]" by (auto simp: length_Suc_conv)
    with d(1) n ip show ?thesis by (auto simp: digits_val_def is_digit_def)
  qed
  show ?thesis
  proof (rule that [of ?ip ?fp])
    show "toFixed f x = (if x < 0 then [45] else []) @ ?ip @ [46] @ ?fp"
      using assms(2) by (simp add: toFixed_def Let_def m_def assms(1))
  qed (use ip fp lf d len z in auto)
qed

subsection \<open>\<open>numberFormat\<close>\<close>

text \<open>The replacement of \<open>(\d{3})(?=\d)\<close>, everywhere.\<close>

fun group3 :: "jstring \<Rightarrow> jstring \<Rightarrow> jstring" where
  "group3 t (a # b # c # d # s) =
     (if list_all is_digit [a, b, c, d] then [a, b, c] @ t @ group3 t (d # s) else a # group3 t (b # c # d # s))"
| "group3 t s = s"

definition sep_thousands :: "jstring \<Rightarrow> jstring \<Rightarrow> jstring" where
  "sep_thousands t i =
     (let j = (if length i > 3 then length i mod 3 else 0) in (if j \<noteq> 0 then take j i @ t else []) @ group3 t (drop j i))"

text \<open>The number a string converts to, as a double.\<close>

definition str_dbl :: "jstring \<Rightarrow> rat" where
  "str_dbl s = (case to_number s of Fin r \<Rightarrow> dbl r | _ \<Rightarrow> 0)"

text \<open>\<open>numberFormat\<close> with the point and the comma of its default language; \<open>NaN\<close> is taken as 0.\<close>

definition numberFormat :: "rat option \<Rightarrow> nat \<Rightarrow> jstring" where
  "numberFormat number c =
     (let s = (case number of Some x \<Rightarrow> if x < 0 then [45] else [] | None \<Rightarrow> []);
          n = toFixed c \<bar>case number of Some x \<Rightarrow> x | None \<Rightarrow> 0\<bar>;
          i = (case parse_int n of Some k \<Rightarrow> int_to_str k | None \<Rightarrow> js ''NaN'')
      in s @ sep_thousands [44] i @ (if c \<noteq> 0 then [46] @ drop 2 (toFixed c \<bar>dbl (str_dbl n - str_dbl i)\<bar>) else []))"

text \<open>What it means: the groups of three digits of an integer.\<close>

fun thousands :: "nat \<Rightarrow> jstring" where
  "thousands n = (if n < 1000 then nat_to_str n else thousands (n div 1000) @ [44] @ zero_pad 3 (nat_to_str (n mod 1000)))"

declare thousands.simps [simp del]

subsection \<open>Lemmas: digits\<close>

lemma digits_unique:
  "length s = length t \<Longrightarrow> list_all is_digit s \<Longrightarrow> list_all is_digit t \<Longrightarrow> digits_val s = digits_val t \<Longrightarrow> s = t"
proof (induction s arbitrary: t rule: rev_induct)
  case (snoc c s)
  then obtain u d where t: "t = u @ [d]" by (cases t rule: rev_cases) auto
  have "digits_val s * 10 + (c - 48) = digits_val u * 10 + (d - 48)"
    using snoc.prems(4) by (simp add: t digits_val_append digits_val_def [of "[_]"])
  moreover have "c - 48 < 10" "d - 48 < 10" using snoc.prems(2,3) t by (auto simp: is_digit_def)
  moreover have "p = q \<and> a = b" if "p * 10 + a = q * 10 + b" "a < 10" "b < 10" for p q a b :: nat
    using that by presburger
  ultimately have "digits_val s = digits_val u" "c - 48 = d - 48" by blast+
  moreover have "s = u" using snoc.IH [of u] snoc.prems t calculation by simp
  ultimately show ?case using snoc.prems(2,3) t by (auto simp: is_digit_def)
qed simp

lemma zero_pad_length: "n < 10 ^ Suc k \<Longrightarrow> length (zero_pad (Suc k) (nat_to_str n)) = Suc k"
  using nat_to_str_length [of n k] by (simp add: zero_pad_def)

lemma digits_pad:
  assumes "list_all is_digit s" and "digits_val s = n" and "length s = Suc k"
  shows "s = zero_pad (Suc k) (nat_to_str n)"
proof (rule digits_unique)
  have "n < 10 ^ Suc k" using digits_val_less [OF assms(1)] assms(2,3) by simp
  then show "length s = length (zero_pad (Suc k) (nat_to_str n))" using zero_pad_length [of n k] assms(3) by simp
  show "list_all is_digit (zero_pad (Suc k) (nat_to_str n))"
    using nat_to_str_digits [of n] by (intro zero_pad_digits) (simp add: list_all_iff)
qed (use assms in \<open>simp_all add: zero_pad_val\<close>)

lemma nat_to_str_split:
  "n \<ge> 10 ^ k \<Longrightarrow> \<exists>s. nat_to_str n = nat_to_str (n div 10 ^ k) @ s \<and> length s = k"
proof (induction k arbitrary: n)
  case (Suc k)
  have "10 ^ k \<le> n div 10" using Suc.prems by (simp add: less_eq_div_iff_mult_less_eq mult.commute)
  then obtain s where "nat_to_str (n div 10) = nat_to_str (n div 10 div 10 ^ k) @ s" "length s = k"
    using Suc.IH by blast
  moreover have "\<not> n < 10" using Suc.prems one_le_power [of "10 :: nat" k] unfolding power_Suc by linarith
  ultimately show ?case by (subst nat_to_str.simps) (auto simp: div_mult2_eq)
qed simp

lemma nat_to_str_1000:
  assumes "n \<ge> 1000"
  shows "nat_to_str n = nat_to_str (n div 1000) @ zero_pad 3 (nat_to_str (n mod 1000))"
proof -
  obtain s where s: "nat_to_str n = nat_to_str (n div 1000) @ s" "length s = Suc 2"
    using nat_to_str_split [of 3 n] assms by auto
  have d: "list_all is_digit s" using nat_to_str_digits [of n] s(1) by (simp add: list_all_iff)
  have "digits_val (nat_to_str n) = digits_val (nat_to_str (n div 1000)) * 10 ^ length s + digits_val s"
    by (simp only: s(1) digits_val_append)
  then have "n = (n div 1000) * 1000 + digits_val s" by (simp add: s(2))
  then have "digits_val s = n mod 1000" using div_mult_mod_eq [of n 1000] by linarith
  from digits_pad [OF d this s(2)] show ?thesis by (simp add: s(1))
qed

lemma group3_append:
  "list_all is_digit s \<Longrightarrow> list_all is_digit b \<Longrightarrow> length b = 3 \<Longrightarrow> s \<noteq> [] \<Longrightarrow> 3 dvd length s
     \<Longrightarrow> group3 t (s @ b) = group3 t s @ t @ b"
proof (induction t s rule: group3.induct)
  case (1 t x y z d s)
  have "3 dvd length (d # s)" using "1.prems"(5) by (simp add: dvd_def) presburger
  with 1 show ?case by simp
qed (auto simp: length_Suc_conv numeral_3_eq_3 dest: dvd_imp_le)

lemma sep_thousands_eq: "sep_thousands [44] (nat_to_str n) = thousands n"
proof (induction n rule: thousands.induct)
  case (1 n)
  show ?case
  proof (cases "n < 1000")
    case True
    then have "length (nat_to_str n) \<le> 3" using nat_to_str_length [of n 2] by simp
    moreover from this have "group3 [44] (nat_to_str n) = nat_to_str n"
      by (cases "([44] :: jstring, nat_to_str n)" rule: group3.cases) auto
    ultimately show ?thesis using True by (simp add: sep_thousands_def thousands.simps [of n])
  next
    case False
    let ?a = "nat_to_str (n div 1000)" and ?b = "zero_pad 3 (nat_to_str (n mod 1000))"
    have n: "nat_to_str n = ?a @ ?b" using nat_to_str_1000 [of n] False by simp
    have b: "length ?b = 3" using zero_pad_length [of "n mod 1000" 2] by simp
    have dig: "list_all is_digit (?a @ ?b)" using nat_to_str_digits [of n] unfolding n [symmetric] by (simp add: list_all_iff)
    have gb: "group3 [44] ?b = ?b" using b by (cases "([44] :: jstring, ?b)" rule: group3.cases) auto
    have ga: "group3 [44] ?a = ?a" if "length ?a \<le> 3"
      using that by (cases "([44] :: jstring, ?a)" rule: group3.cases) auto
    have app: "group3 [44] (drop j ?a @ ?b) = group3 [44] (drop j ?a) @ [44] @ ?b" if "j < length ?a" "3 dvd length ?a - j" for j
      using that dig b group3_append [of "drop j ?a" ?b "[44]"] by (auto simp: list_all_iff dest: in_set_dropD)
    have "sep_thousands [44] (?a @ ?b) = sep_thousands [44] ?a @ [44] @ ?b"
    proof (cases "length ?a > 3")
      case True
      let ?j = "length ?a mod 3"
      have "?j < length ?a" "3 dvd length ?a - ?j" using True by (simp_all add: dvd_minus_mod order.strict_trans2 [OF mod_less_divisor])
      with True b app [of ?j] show ?thesis by (simp add: sep_thousands_def Let_def)
    next
      case short: False
      then have "length ?a = 3 \<or> length ?a < 3 \<and> length ?a mod 3 = length ?a" by auto
      then show ?thesis using short b gb ga app [of 0] by (auto simp: sep_thousands_def Let_def)
    qed
    then show ?thesis using 1 False by (simp add: n thousands.simps [of n])
  qed
qed

subsection \<open>Lemmas: what is written reads back\<close>

lemma fixed_reads:
  assumes "list_all is_digit ip" "ip \<noteq> []" "list_all is_digit fp" "length fp = f"
  shows "to_number (ip @ [46] @ fp) = Fin (of_nat (digits_val ip) + of_nat (digits_val fp) / 10 ^ f)"
    and "to_number (45 # ip @ [46] @ fp) = Fin (- (of_nat (digits_val ip) + of_nat (digits_val fp) / 10 ^ f))"
    and "parse_int (ip @ [46] @ fp) = Some (int (digits_val ip))"
proof -
  let ?s = "ip @ [46] @ fp"
  obtain c r where c: "ip = c # r" "is_digit c" using assms(1,2) by (cases ip) auto
  have tw: "takeWhile is_digit (ip @ 46 # fp) = ip" "dropWhile is_digit (ip @ 46 # fp) = 46 # fp"
    using assms(1) by (simp_all add: takeWhile_append dropWhile_append is_digit_def list_all_iff)
  have fw: "takeWhile is_digit fp = fp" "dropWhile is_digit fp = []" using assms(3) takeWhile_all [of fp is_digit] by (auto simp: list_all_iff)
  have "?s \<noteq> js ''Infinity''" using c by (auto simp: js_def is_digit_def)
  then have u: "unsigned_decimal ?s = Fin (of_nat (digits_val ip) + of_nat (digits_val fp) / 10 ^ f)"
    using assms(2,4) by (simp add: unsigned_decimal_def Let_def tw fw exponent_def)
  have l: "is_digit (last ?s) \<or> last ?s = 46" using assms(3) by (cases fp rule: rev_cases) auto
  have t: "trim ?s = ?s" "trim (45 # ?s) = 45 # ?s"
    using c l by (auto intro!: trim_idle simp: is_ws_digit is_ws_def [of 46] is_ws_def [of 45])
  have x: "?s ! 1 \<noteq> 120 \<and> ?s ! 1 \<noteq> 88"
  proof -
    have "?s ! 1 \<in> set ?s" using c by (intro nth_mem) simp
    then show ?thesis using assms(1,3) by (auto simp: list_all_iff is_digit_def)
  qed
  then have h: "\<not> is_hex_literal ?s" by (auto simp: is_hex_literal_def)
  show "to_number ?s = Fin (of_nat (digits_val ip) + of_nat (digits_val fp) / 10 ^ f)"
    using c u h t(1) by (auto simp: to_number_def Let_def is_digit_def)
  show "to_number (45 # ?s) = Fin (- (of_nat (digits_val ip) + of_nat (digits_val fp) / 10 ^ f))"
    using u t(2) by (simp add: to_number_def Let_def is_hex_literal_def neg_num_def)
  have "trim_left ?s = ?s" using c by (simp add: trim_left_def is_ws_digit)
  then show "parse_int ?s = Some (int (digits_val ip))"
    using c x tw assms(2) by (auto simp: parse_int_def Let_def is_digit_def)
qed

lemma div_mod_decimal: "(of_nat (n div 10 ^ f) + of_nat (n mod 10 ^ f) / 10 ^ f :: rat) = of_nat n / 10 ^ f"
proof -
  have "of_nat (n div 10 ^ f * 10 ^ f + n mod 10 ^ f) = (of_nat (n div 10 ^ f) * 10 ^ f + of_nat (n mod 10 ^ f) :: rat)"
    by (simp only: of_nat_add of_nat_mult of_nat_power of_nat_numeral)
  then have "(of_nat n :: rat) = of_nat (n div 10 ^ f) * 10 ^ f + of_nat (n mod 10 ^ f)" by (simp only: div_mult_mod_eq)
  then show ?thesis by (simp add: field_simps)
qed

text \<open>The text of \<open>toFixed\<close> denotes the nearest number with so many decimals.\<close>

lemma toFixed_reads:
  assumes "f > 0"
  shows "to_number (toFixed f x) = Fin ((if x < 0 then - 1 else 1) * of_int (round_up (\<bar>x\<bar> * 10 ^ f)) / 10 ^ f)"
proof -
  let ?n = "nat (round_up (\<bar>x\<bar> * 10 ^ f))"
  have n: "of_nat ?n = (of_int (round_up (\<bar>x\<bar> * 10 ^ f)) :: rat)" by (simp add: round_up_nonneg)
  have v: "(of_nat (?n div 10 ^ f) + of_nat (?n mod 10 ^ f) / 10 ^ f :: rat) = of_nat ?n / 10 ^ f"
    by (rule div_mod_decimal)
  obtain ip fp where p: "toFixed f x = (if x < 0 then [45] else []) @ ip @ [46] @ fp" "list_all is_digit ip" "ip \<noteq> []"
    "list_all is_digit fp" "length fp = f" "digits_val ip = ?n div 10 ^ f" "digits_val fp = ?n mod 10 ^ f"
    using toFixed_parts [OF refl assms, of x] by blast
  note r = fixed_reads [OF p(2-5), unfolded p(6,7) v n]
  show ?thesis using r by (cases "x < 0") (simp_all add: p(1))
qed

text \<open>What the format means: the number is rounded to hundredths, half a hundredth away from zero.\<close>

definition hundredths :: "rat \<Rightarrow> nat" where
  "hundredths x = nat (round_up (\<bar>x\<bar> * 100))"

lemma hundredths_error: "\<bar>of_nat (hundredths x) / 100 - \<bar>x\<bar>\<bar> \<le> 1 / 200"
proof -
  have "(of_nat (hundredths x) :: rat) = of_int (round_up (\<bar>x\<bar> * 100))"
    by (simp add: hundredths_def round_up_nonneg)
  then show ?thesis using round_up_error [of "\<bar>x\<bar> * 100"] by linarith
qed

text \<open>The fraction is cut off by a subtraction of doubles, which is near enough below \<open>10\<^sup>1\<^sup>2\<close>.\<close>

lemma dbl_fraction:
  assumes "n \<le> 10 ^ 15"
  shows "nat (round_up (\<bar>\<bar>dbl (dbl (of_nat n / 100) - dbl (of_nat (n div 100)))\<bar>\<bar> * 10 ^ 2)) = n mod 100"
proof -
  let ?a = "of_nat n / 100 :: rat" and ?i = "of_nat (n div 100) :: rat"
  define y where "y = dbl ?a - dbl ?i"
  have n: "(of_nat n :: rat) \<le> 10 ^ 15" using assms by (metis of_nat_le_iff of_nat_numeral of_nat_power)
  have i: "?i \<le> ?a" "0 \<le> ?i" using div_mod_decimal [of n 2] by simp_all
  have f: "?a - ?i = of_nat (n mod 100) / 100" using div_mod_decimal [of n 2] by simp
  have "\<bar>dbl ?a - ?a\<bar> \<le> 1 / 800" "\<bar>dbl ?i - ?i\<bar> \<le> 1 / 800"
    using dbl_error [of ?a] dbl_error [of ?i] i n by (simp_all add: field_simps)
  then have y: "\<bar>y - of_nat (n mod 100) / 100\<bar> \<le> 1 / 400" using f unfolding y_def by linarith
  moreover have "(of_nat (n mod 100) :: rat) \<le> 99"
    using mod_less_divisor [of 100 n] of_nat_mono [of "n mod 100" 99, where ?'a = rat] by simp
  ultimately have "\<bar>y\<bar> \<le> 2" using of_nat_0_le_iff [of "n mod 100", where ?'a = rat] by linarith
  then have "\<bar>dbl y - y\<bar> \<le> 1 / 1000" using dbl_error [of y] by simp
  moreover have "(0 :: rat) \<le> of_nat (n mod 100)" by simp
  ultimately have "\<bar>\<bar>dbl y\<bar> * 100 - of_nat (n mod 100)\<bar> < 1 / 2" using y by linarith
  then have "round_up (\<bar>dbl y\<bar> * 100) = int (n mod 100)" by (intro round_up_near) simp
  then show ?thesis by (simp add: y_def)
qed

text \<open>The format, for numbers of a size that a report can have: a sign, groups of three digits
  separated by commas, a point and two digits, of the number rounded to hundredths.\<close>

lemma numberFormat_eq:
  assumes "\<bar>x\<bar> \<le> 10 ^ 12"
  shows "numberFormat (Some x) 2 =
    (if x < 0 then [45] else []) @ thousands (hundredths x div 100) @ [46] @ zero_pad 2 (nat_to_str (hundredths x mod 100))"
proof -
  let ?n = "hundredths x"
  have n2: "nat (round_up (\<bar>\<bar>x\<bar>\<bar> * 10 ^ 2)) = ?n" by (simp add: hundredths_def)
  obtain ip fp where p: "toFixed 2 \<bar>x\<bar> = (if \<bar>x\<bar> < 0 then [45] else []) @ ip @ [46] @ fp" "list_all is_digit ip" "ip \<noteq> []"
    "list_all is_digit fp" "length fp = 2" "digits_val ip = ?n div 10 ^ 2" "digits_val fp = ?n mod 10 ^ 2"
    by (rule toFixed_parts [OF n2 [symmetric] pos2]) blast
  have t: "toFixed 2 \<bar>x\<bar> = ip @ [46] @ fp" using p(1) by simp
  note r = fixed_reads [OF p(2-5), unfolded p(6,7) div_mod_decimal]
  have i: "(case parse_int (ip @ [46] @ fp) of Some k \<Rightarrow> int_to_str k | None \<Rightarrow> js ''NaN'') = nat_to_str (?n div 100)"
    by (simp only: r) (simp add: int_to_str_def)
  have "to_number (nat_to_str (?n div 100)) = Fin (of_nat (?n div 100))"
    using to_number_int_to_str [of "int (?n div 100)"] by (simp add: int_to_str_def)
  then have s: "str_dbl (ip @ [46] @ fp) = dbl (of_nat ?n / 100)" "str_dbl (nat_to_str (?n div 100)) = dbl (of_nat (?n div 100))"
    by (simp_all only: str_dbl_def r) simp_all
  have "?n \<le> 10 ^ 15"
  proof -
    have "\<bar>x\<bar> \<le> 1000000000000" using assms by simp
    then have "(of_nat ?n :: rat) \<le> 1000000000000000" using hundredths_error [of x] by linarith
    then have "(of_nat ?n :: rat) \<le> of_nat (10 ^ 15)" by simp
    then show ?thesis by (simp only: of_nat_le_iff)
  qed
  note f = dbl_fraction [OF this]
  let ?d = "\<bar>dbl (dbl (of_nat ?n / 100) - dbl (of_nat (?n div 100)))\<bar>"
  obtain ip' fp' where q: "toFixed 2 ?d = (if ?d < 0 then [45] else []) @ ip' @ [46] @ fp'"
    "list_all is_digit ip'" "ip' \<noteq> []" "list_all is_digit fp'" "length fp' = 2" "digits_val ip' = ?n mod 100 div 10 ^ 2"
    "digits_val fp' = ?n mod 100 mod 10 ^ 2" "?n mod 100 div 10 ^ 2 = 0 \<longrightarrow> ip' = [48]"
    by (rule toFixed_parts [OF f [symmetric] pos2])
  have "drop 2 (toFixed 2 ?d) = fp'" using q(1,8) by simp
  moreover have "fp' = zero_pad 2 (nat_to_str (?n mod 100))" using digits_pad [OF q(4,7), of 1] q(5) by (simp add: numeral_2_eq_2)
  ultimately show ?thesis by (simp add: numberFormat_def Let_def t i [simplified] s [simplified] sep_thousands_eq)
qed

end
