(* ===== verification/Charts.thy ===== *)
theory Charts
  imports Numbers Lists MasterLists
begin

text \<open>
  The charts of the reports of both sites, as the options the pages hand to Highcharts: where, which
  kind, the categories and data, and the texts of tips and labels as functions of the point under the
  mouse; the rates the pages compute from the counts; the list of openings and the pies of the
  property library, which are filled by requests. The counts are whole numbers, quotients are doubles.
  Fonts, margins and the look of legends are left out.
\<close>

subsection \<open>Charts\<close>

record point =
  pt_name :: jsval
  pt_y :: "rat option"
  pt_num :: jsval

datatype series_data =
    Values "jsval list"                       \<comment> \<open>\<open>series: [{data: datas}]\<close>\<close>
  | Pairs "(jstring \<times> jsval) list"           \<comment> \<open>pairs of a name and a value\<close>
  | XY "(nat \<times> rat) list"                    \<comment> \<open>pairs of a position and a value\<close>
  | Points "point list"                       \<comment> \<open>objects\<close>
  | Series "(jstring \<times> jsval list) list"     \<comment> \<open>\<open>series: datas\<close>, with their names\<close>

text \<open>What \<open>this\<close> gives the texts: the point, its share, its series, and the text of its value.\<close>

record hovered =
  h_x :: nat
  h_point :: point
  h_percentage :: "rat option"
  h_series :: jstring
  h_ytext :: jstring

record chart =
  ch_at :: jstring
  ch_type :: jstring
  ch_title :: jstring
  ch_colors :: "jstring list"
  ch_categories :: "jsval list"
  ch_data :: series_data
  ch_tip :: "hovered \<Rightarrow> jstring option"         \<comment> \<open>\<open>None\<close>: the function throws\<close>
  ch_label :: "hovered \<Rightarrow> jstring option"

record chart_page = list_page +
  drawn :: "jstring \<rightharpoonup> chart"
  log_rows :: "(jstring \<times> jsval list) list"  \<comment> \<open>rows of a table: id and cells\<close>

definition draw :: "chart \<Rightarrow> 'a chart_page_scheme \<Rightarrow> 'a chart_page_scheme" where
  "draw c s = s\<lparr>drawn := (drawn s)(ch_at c \<mapsto> c)\<rparr>"

text \<open>A text put together from constant parts and entries of one row of \<open>names\<close>; \<open>names[i][k]\<close> throws if
  there is no \<open>names[i]\<close>.\<close>

definition row_text :: "jsval list list \<Rightarrow> (jstring + nat) list \<Rightarrow> nat \<Rightarrow> jstring option" where
  "row_text a ps i =
     (if i < length a then Some (concat (map (\<lambda>p. case p of Inl s \<Rightarrow> s | Inr k \<Rightarrow> to_str (cell (a ! i) k)) ps)) else None)"

abbreviation no_label :: "hovered \<Rightarrow> jstring option" where "no_label \<equiv> \<lambda>h. None"

definition colors4 :: "jstring list" where
  "colors4 = [js ''#72429A'', js ''#846FA5'', js ''#9F8EBC'', js ''#BBB9D0'']"

definition color_list4 :: "jstring list" where
  "color_list4 = [js ''#72429A'', js ''#846FA5'', js ''#9F8EBC'', js ''#A595C5'']"

definition color_list6 :: "jstring list" where
  "color_list6 = [js ''#603787'', js ''#72429A'', js ''#846FAB'', js ''#9F8EBC'', js ''#A595C5'', js ''#BBB9D0'']"

definition hours :: "jsval list" where
  "hours = map (\<lambda>n. JInt (int n)) [0..<24]"

text \<open>Columns with one value each: the tip is the name and the value.\<close>

definition column_chart :: "jstring \<Rightarrow> jstring list \<Rightarrow> jsval list \<Rightarrow> jsval list \<Rightarrow> chart" where
  "column_chart k cs names datas =
     \<lparr>ch_at = k, ch_type = js ''column'', ch_title = [], ch_colors = cs, ch_categories = names, ch_data = Values datas,
      ch_tip = (\<lambda>h. Some (to_str (cell names (h_x h)) @ js '': '' @ to_str (cell datas (h_x h)))), ch_label = no_label\<rparr>"

definition line_chart :: "jstring \<Rightarrow> jstring \<Rightarrow> jstring list \<Rightarrow> jsval list \<Rightarrow> chart" where
  "line_chart k t cs datas =
     \<lparr>ch_at = k, ch_type = js ''line'', ch_title = t, ch_colors = cs, ch_categories = hours, ch_data = Values datas,
      ch_tip = (\<lambda>h. Some (to_str (cell hours (h_x h)) @ js '':00 '' @ to_str (cell datas (h_x h)) @ [0x4EBA])), ch_label = no_label\<rparr>"

definition group_chart :: "jstring \<Rightarrow> jstring list \<Rightarrow> jsval list \<Rightarrow> (jstring \<times> jsval list) list \<Rightarrow> chart" where
  "group_chart k cs names datas =
     \<lparr>ch_at = k, ch_type = js ''column'', ch_title = [], ch_colors = cs, ch_categories = names, ch_data = Series datas,
      ch_tip = (\<lambda>h. Some (to_str (cell names (h_x h)) @ js ''<br />'' @ h_series h @ js '': '' @ h_ytext h)), ch_label = no_label\<rparr>"

definition bar_chart :: "jstring \<Rightarrow> jstring list \<Rightarrow> jsval list \<Rightarrow> (jstring \<times> jsval list) list \<Rightarrow> chart" where
  "bar_chart k cs names datas =
     \<lparr>ch_at = k, ch_type = js ''bar'', ch_title = [], ch_colors = cs, ch_categories = names, ch_data = Series datas,
      ch_tip = (\<lambda>h. Some (h_series h @ js ''<br />'' @ to_str (cell names (h_x h)) @ js '': '' @ h_ytext h)), ch_label = no_label\<rparr>"

text \<open>The funnel: four stages; \<open>ks\<close> are the positions of their counts.\<close>

definition funnel_chart :: "jstring \<Rightarrow> jstring \<Rightarrow> jstring list \<Rightarrow> nat list \<Rightarrow> jsval list \<Rightarrow> jsval list list \<Rightarrow> chart" where
  "funnel_chart k colon cs ks datas percents =
     \<lparr>ch_at = k, ch_type = js ''funnel'', ch_title = js ''<b>'' @ [0x57FA, 0x4E8E, 0x72EC, 0x7ACB, 0x6536, 0x4EF6, 0x4EBA, 0x884C, 0x4E3A, 0x7EDF, 0x8BA1] @ js ''</b>'', ch_colors = cs,
      ch_categories = [],
      ch_data = Pairs (zip [[0x53D1, 0x9001, 0x603B, 0x6570], [0x6210, 0x529F, 0x603B, 0x6570], [0x6253, 0x5F00, 0x4EBA, 0x6570], [0x70B9, 0x51FB, 0x4EBA, 0x6570]] (map (cell datas) ks)),
      ch_tip = (\<lambda>h. row_text percents [Inr 0, Inl colon, Inr 1, Inl (js ''%'')] (h_x h)), ch_label = no_label\<rparr>"

text \<open>Pies whose texts come from rows of \<open>names\<close>.\<close>

definition rows_pie :: "jstring \<Rightarrow> jstring \<Rightarrow> jstring list \<Rightarrow> (jstring + nat) list \<Rightarrow> jstring \<times> jstring \<Rightarrow> jsval list list \<Rightarrow> (nat \<times> rat) list \<Rightarrow> chart" where
  "rows_pie k t cs ps bold names datas =
     \<lparr>ch_at = k, ch_type = js ''pie'', ch_title = t, ch_colors = cs, ch_categories = [], ch_data = XY datas,
      ch_tip = (\<lambda>h. row_text names ps (h_x h)),
      ch_label = (\<lambda>h. map_option (\<lambda>n. n @ num_toFixed 2 (h_percentage h) @ js '' %'')
                    (row_text names [Inl (fst bold), Inr 1, Inl (snd bold @ [0xFF1A])] (h_x h)))\<rparr>"

text \<open>Pies whose points are objects.\<close>

definition share_label :: "hovered \<Rightarrow> jstring option" where
  "share_label h = Some (js ''<b>'' @ to_str (pt_name (h_point h)) @ js ''</b>: '' @ numberFormat (h_percentage h) 2 @ js ''%'')"

definition count_tip :: "jstring \<Rightarrow> hovered \<Rightarrow> jstring option" where
  "count_tip what h =
     Some (js ''<b>'' @ to_str (pt_name (h_point h)) @ js ''</b><br/><b>'' @ what @ [0xFF1A] @ to_str (pt_num (h_point h))
       @ js ''</b><br/><b>'' @ [0x5360, 0x6BD4, 0xFF1A] @ numberFormat (pt_y (h_point h)) 2 @ js ''%</b>'')"

definition points_pie :: "jstring \<Rightarrow> jstring list \<Rightarrow> jstring \<Rightarrow> point list \<Rightarrow> chart" where
  "points_pie k cs what ps =
     \<lparr>ch_at = k, ch_type = js ''pie'', ch_title = [], ch_colors = cs, ch_categories = [], ch_data = Points ps,
      ch_tip = count_tip what, ch_label = share_label\<rparr>"

subsection \<open>The share of a point, as Highcharts computes it\<close>

definition pie_total :: "rat list \<Rightarrow> rat" where
  "pie_total ys = foldl (\<lambda>t y. dbl (t + y)) 0 ys"

definition pie_percentage :: "rat list \<Rightarrow> nat \<Rightarrow> rat" where
  "pie_percentage ys i = (let t = pie_total ys; f = (if t \<noteq> 0 then dbl (ys ! i / t) else 0) in dbl (f * 100))"

subsection \<open>Rates\<close>

text \<open>\<open>d == 0 ? 0 : n * 100 / d\<close>.\<close>

definition rate :: "int \<Rightarrow> int \<Rightarrow> rat" where
  "rate n d = (if d = 0 then 0 else dbl (dbl (of_int (n * 100)) / of_int d))"

text \<open>The rates of the overview on the operators' site, from the counts by position.\<close>

definition m_rates :: "int list \<Rightarrow> int list \<Rightarrow> rat list" where
  "m_rates datas nones =
     [if datas ! 0 = 0 then 0 else 100, rate (datas ! 1) (datas ! 0 - nones ! 1), rate (datas ! 3) (datas ! 1), rate (datas ! 5) (datas ! 3)]"

text \<open>On the customers' site, addresses found invalid before the delivery are taken away as well.\<close>

definition w_rates :: "int list \<Rightarrow> int list \<Rightarrow> rat list" where
  "w_rates datas nones =
     [if datas ! 0 = 0 then 0 else 100, rate (datas ! 1) (datas ! 0 - nones ! 0 - nones ! 1), rate (datas ! 3) (datas ! 1),
      rate (datas ! 5) (datas ! 3)]"

definition stage_names :: "jstring list" where
  "stage_names = [[0x53D1, 0x9001, 0x603B, 0x6570], [0x6210, 0x529F, 0x603B, 0x6570], [0x6253, 0x5F00, 0x4EBA, 0x6570], [0x70B9, 0x51FB, 0x4EBA, 0x6570]]"

definition percents_of :: "rat list \<Rightarrow> jsval list list" where
  "percents_of rs = map (\<lambda>(n, r). [JStr n, JStr (toFixed 2 r)]) (zip stage_names rs)"

text \<open>The bounces by reason: invalid, unknown domain, taken for spam, and the rest.\<close>

definition response_datas :: "int list \<Rightarrow> point list" where
  "response_datas back =
     (let all = back ! 0 + back ! 1; other = all - back ! 2 - back ! 3 - back ! 4
      in map (\<lambda>(n, k). \<lparr>pt_name = JStr n, pt_y = Some (rate k all), pt_num = JInt k\<rparr>)
           [([0x90AE, 0x7BB1, 0x65E0, 0x6548], back ! 2), ([0x57DF, 0x540D, 0x65E0, 0x6548], back ! 3), ([0x5224, 0x5B9A, 0x5783, 0x573E], back ! 4), ([0x5176, 0x4ED6], other)])"

definition nums :: "int list \<Rightarrow> jsval list" where
  "nums = map JInt"

subsection \<open>Reports of the operators' site\<close>

datatype stat_event = Ready | Choose jstring | Export jstring

definition export_stat :: "jstring \<Rightarrow> jstring \<Rightarrow> 'a chart_page_scheme \<Rightarrow> 'a chart_page_scheme" where
  "export_stat f url s = submit_list f (set_action f url s)"

definition m_overview_names :: "jsval list" where
  "m_overview_names = map JStr [[0x53D1, 0x9001, 0x603B, 0x6570], [0x6210, 0x529F, 0x6570], [0x5F39, 0x56DE, 0x6570], [0x6253, 0x5F00, 0x4EBA, 0x6570], [0x6253, 0x5F00, 0x6B21, 0x6570], [0x70B9, 0x51FB, 0x4EBA, 0x6570], [0x70B9, 0x51FB, 0x6B21, 0x6570], [0x9000, 0x8BA2, 0x4EBA, 0x6570], [0x8F6C, 0x53D1, 0x4EBA, 0x6570], [0x65E0, 0x6548, 0x4EBA, 0x6570]]"

definition m_column :: "jsval list \<Rightarrow> 'a chart_page_scheme \<Rightarrow> 'a chart_page_scheme" where
  "m_column datas s = draw (column_chart (js ''#stat_column'') colors4 m_overview_names datas) s"

definition m_funnel :: "jsval list \<Rightarrow> jsval list list \<Rightarrow> 'a chart_page_scheme \<Rightarrow> 'a chart_page_scheme" where
  "m_funnel datas percents s = draw (funnel_chart (js ''#stat_funnel'') [0xFF1A] colors4 [0, 1, 3, 5] datas percents) s"

definition m_cover :: "jsval list \<Rightarrow> jsval list list \<Rightarrow> jstring \<Rightarrow> 'a chart_page_scheme \<Rightarrow> 'a chart_page_scheme" where
  "m_cover datas percents kind s =
     (if kind = js ''column'' then m_column datas (show_el (js ''#stat_column'') (hide_el (js ''#stat_funnel'') s))
      else m_funnel datas percents (show_el (js ''#stat_funnel'') (hide_el (js ''#stat_column'') s)))"

definition report_stat_overview ::
  "jsval list \<Rightarrow> jsval list list \<Rightarrow> stat_event \<Rightarrow> 'a chart_page_scheme \<Rightarrow> 'a chart_page_scheme" where
  "report_stat_overview datas percents e s =
     (case e of Ready \<Rightarrow> m_column datas s | Choose kind \<Rightarrow> m_cover datas percents kind s | Export url \<Rightarrow> export_stat list_form url s)"

definition plan_report_collect ::
  "jsval list \<Rightarrow> jsval list list \<Rightarrow> stat_event \<Rightarrow> 'a chart_page_scheme \<Rightarrow> 'a chart_page_scheme" where
  "plan_report_collect datas percents e s =
     (case e of Ready \<Rightarrow> m_column datas s | Choose kind \<Rightarrow> m_cover datas percents kind s | Export url \<Rightarrow> export_stat (js ''#ListForm1'') url s)"

definition plan_report_view ::
  "jsval list \<Rightarrow> jsval list list \<Rightarrow> stat_event \<Rightarrow> 'a chart_page_scheme \<Rightarrow> 'a chart_page_scheme" where
  "plan_report_view datas percents e s =
     (case e of Ready \<Rightarrow> m_column datas s | Choose kind \<Rightarrow> m_cover datas percents kind s | Export url \<Rightarrow> go_to url s)"

text \<open>The overview of a campaign also writes the rates beside the chart.\<close>

definition campaign_stat_overview ::
  "jsval list \<Rightarrow> jsval list list \<Rightarrow> rat list \<Rightarrow> stat_event \<Rightarrow> 'a chart_page_scheme \<Rightarrow> 'a chart_page_scheme" where
  "campaign_stat_overview datas percents rates e s =
     (case e of
        Ready \<Rightarrow>
          (let s = m_column datas s;
               s = set_html (js ''#span_success'') (toFixed 2 (rates ! 1) @ js ''%'') s;
               s = set_html (js ''#span_open'') (toFixed 2 (rates ! 2) @ js ''%'') s
           in set_html (js ''#span_click'') (toFixed 2 (rates ! 3) @ js ''%'') s)
      | Choose kind \<Rightarrow> m_cover datas percents kind s
      | Export url \<Rightarrow> export_stat (js ''#ListForm1'') url s)"

text \<open>Sums over a time: a funnel of four counts.\<close>

definition report_stat_sum :: "jsval list \<Rightarrow> jsval list list \<Rightarrow> 'a chart_page_scheme \<Rightarrow> 'a chart_page_scheme" where
  "report_stat_sum datas percents s = draw (funnel_chart (js ''#stat_funnel'') (js '': '') colors4 [0, 1, 2, 3] datas percents) s"

text \<open>Links: the names are cut after 15 characters, the tip has them in full.\<close>

definition short_name :: "jstring \<Rightarrow> jstring" where
  "short_name t = (if length t > 15 then take 15 t @ js ''...'' else t)"

definition click_chart :: "jstring list \<Rightarrow> jsval list \<Rightarrow> chart" where
  "click_chart titles datas =
     (column_chart (js ''#stat_column'') colors4 (map (\<lambda>t. JStr (short_name t)) titles) datas)
       \<lparr>ch_tip := (\<lambda>h. Some ([0x94FE, 0x63A5, 0xFF1A] @ to_str (cell (map JStr titles) (h_x h)) @ [0x20, 0x70B9, 0x51FB, 0x6B21, 0x6570, 0xFF1A] @ to_str (cell datas (h_x h))))\<rparr>"

definition report_stat_click :: "jstring list \<Rightarrow> jsval list \<Rightarrow> stat_event \<Rightarrow> 'a chart_page_scheme \<Rightarrow> 'a chart_page_scheme" where
  "report_stat_click titles datas e s =
     (case e of Ready \<Rightarrow> draw (click_chart titles datas) s | Choose kind \<Rightarrow> s | Export url \<Rightarrow> export_stat list_form url s)"

definition campaign_stat_click :: "jstring list \<Rightarrow> jsval list \<Rightarrow> stat_event \<Rightarrow> 'a chart_page_scheme \<Rightarrow> 'a chart_page_scheme" where
  "campaign_stat_click titles datas e s =
     (case e of Ready \<Rightarrow> draw (click_chart titles datas) s | Choose kind \<Rightarrow> s | Export url \<Rightarrow> export_stat list_form url s)"

text \<open>Domains: shares of the mails sent.\<close>

definition m_domain_pie :: "point list \<Rightarrow> chart" where
  "m_domain_pie datas =
     (points_pie (js ''#stat_domain_pie'') colors4 [] datas)
       \<lparr>ch_title := [0x57DF, 0x540D, 0x53D1, 0x9001, 0x6570, 0x767E, 0x5206, 0x6BD4, 0x28, 0x53D1, 0x9001, 0x6570, 0x2F, 0x53D1, 0x9001, 0x603B, 0x6570, 0x29],
        ch_tip := (\<lambda>h. Some (to_str (pt_name (h_point h)) @ js '':<b>'' @ numberFormat (h_percentage h) 2 @ js ''%</b>''))\<rparr>"

definition report_stat_domain :: "point list \<Rightarrow> stat_event \<Rightarrow> 'a chart_page_scheme \<Rightarrow> 'a chart_page_scheme" where
  "report_stat_domain datas e s =
     (case e of Ready \<Rightarrow> draw (m_domain_pie datas) s | Choose kind \<Rightarrow> s | Export url \<Rightarrow> export_stat list_form url s)"

definition campaign_stat_domain :: "point list \<Rightarrow> stat_event \<Rightarrow> 'a chart_page_scheme \<Rightarrow> 'a chart_page_scheme" where
  "campaign_stat_domain datas e s =
     (case e of Ready \<Rightarrow> draw (m_domain_pie datas) s | Choose kind \<Rightarrow> s | Export url \<Rightarrow> export_stat list_form url s)"

text \<open>Regions: drawn only if there are any; for a campaign always.\<close>

definition m_region_chart :: "jsval list \<Rightarrow> (jstring \<times> jsval list) list \<Rightarrow> chart" where
  "m_region_chart names datas = group_chart (js ''#stat_region_column'') [js ''#72429A'', js ''#BBB9D0''] names datas"

definition report_stat_region ::
  "jsval list \<Rightarrow> (jstring \<times> jsval list) list \<Rightarrow> stat_event \<Rightarrow> 'a chart_page_scheme \<Rightarrow> 'a chart_page_scheme" where
  "report_stat_region names datas e s =
     (case e of Ready \<Rightarrow> if length names > 0 then draw (m_region_chart names datas) s else s
      | Choose kind \<Rightarrow> s | Export url \<Rightarrow> export_stat list_form url s)"

definition campaign_stat_region ::
  "jsval list \<Rightarrow> (jstring \<times> jsval list) list \<Rightarrow> stat_event \<Rightarrow> 'a chart_page_scheme \<Rightarrow> 'a chart_page_scheme" where
  "campaign_stat_region names datas e s =
     (case e of Ready \<Rightarrow> draw (m_region_chart names datas) s | Choose kind \<Rightarrow> s | Export url \<Rightarrow> export_stat list_form url s)"

text \<open>Deliveries: the counts, and the bounces by reason if there are any.\<close>

definition m_send_ready :: "jsval list \<Rightarrow> int list \<Rightarrow> 'a chart_page_scheme \<Rightarrow> 'a chart_page_scheme" where
  "m_send_ready datas back s =
     (let s = draw (column_chart (js ''#stat_column'') colors4 (map JStr [[0x53D1, 0x9001, 0x603B, 0x6570], [0x6210, 0x529F, 0x6570], [0x5F39, 0x56DE, 0x6570]]) datas) s
      in if back ! 0 + back ! 1 > 0 then draw (points_pie (js ''#stat_response_pie'') colors4 [0x5F39, 0x56DE, 0x6570] (response_datas back)) s else s)"

definition report_stat_send :: "jsval list \<Rightarrow> int list \<Rightarrow> stat_event \<Rightarrow> 'a chart_page_scheme \<Rightarrow> 'a chart_page_scheme" where
  "report_stat_send datas back e s =
     (case e of Ready \<Rightarrow> m_send_ready datas back s | Choose kind \<Rightarrow> s | Export url \<Rightarrow> export_stat list_form url s)"

definition campaign_stat_send :: "jsval list \<Rightarrow> int list \<Rightarrow> stat_event \<Rightarrow> 'a chart_page_scheme \<Rightarrow> 'a chart_page_scheme" where
  "campaign_stat_send datas back e s =
     (case e of Ready \<Rightarrow> m_send_ready datas back s | Choose kind \<Rightarrow> s | Export url \<Rightarrow> export_stat list_form url s)"

definition plan_report_history :: "jsval list \<Rightarrow> int list \<Rightarrow> stat_event \<Rightarrow> 'a chart_page_scheme \<Rightarrow> 'a chart_page_scheme" where
  "plan_report_history datas back e s =
     (case e of Ready \<Rightarrow> m_send_ready datas back s | Choose kind \<Rightarrow> s | Export url \<Rightarrow> go_to url s)"

text \<open>The comparison, with the colours of the squares beside the table: the last row has the first colour.\<close>

definition grid_color :: "jstring list \<Rightarrow> nat \<Rightarrow> nat \<Rightarrow> jstring option" where
  "grid_color cs n i = (if n - (i + 1) < length cs then Some (cs ! (n - (i + 1))) else None)"

definition compare_colors :: "jstring list" where
  "compare_colors = [js ''#8B5BB3'', js ''#1AADCE'', js ''#8BBC21'', js ''#2F7ED8'', js ''#910000'']"

definition report_stat_compare ::
  "jsval list \<Rightarrow> (jstring \<times> jsval list) list \<Rightarrow> nat \<Rightarrow> 'a chart_page_scheme \<Rightarrow> 'a chart_page_scheme \<times> jstring option list" where
  "report_stat_compare names datas grids s =
     (draw (bar_chart (js ''#stat_compare_column'') compare_colors names datas) s, map (grid_color compare_colors grids) [0..<grids])"

definition campaign_compare_chart ::
  "jsval list \<Rightarrow> (jstring \<times> jsval list) list \<Rightarrow> nat \<Rightarrow> 'a chart_page_scheme \<Rightarrow> 'a chart_page_scheme \<times> jstring option list" where
  "campaign_compare_chart names datas grids s =
     (draw (bar_chart (js ''#bar'') compare_colors names datas) s, map (grid_color compare_colors grids) [0..<grids])"

subsection \<open>The list of openings\<close>

text \<open>\<open>$("#id").after(...)\<close>: after the first element with the id, if there is one.\<close>

fun insert_after :: "jstring \<Rightarrow> 'r \<Rightarrow> (jstring \<times> 'r) list \<Rightarrow> jstring \<Rightarrow> (jstring \<times> 'r) list" where
  "insert_after k r [] i = []"
| "insert_after k r (x # xs) i = (if fst x = i then x # (k, r) # xs else x # insert_after k r xs i)"

definition logger_id :: "nat \<Rightarrow> jstring" where
  "logger_id k = js ''logger_'' @ nat_to_str k"

fun open_rows :: "nat \<Rightarrow> jsval list list \<Rightarrow> (jstring \<times> jsval list) list \<Rightarrow> (jstring \<times> jsval list) list" where
  "open_rows k [] rows = rows"
| "open_rows k (v # vs) rows = open_rows (Suc k) vs (insert_after (logger_id (k + 1)) v rows (logger_id k))"

definition open_answer :: "jsval list list \<Rightarrow> 'a chart_page_scheme \<Rightarrow> 'a chart_page_scheme" where
  "open_answer openList s = s\<lparr>log_rows := open_rows 0 openList (log_rows s)\<rparr>"

definition m_open_chart :: "jsval list \<Rightarrow> chart" where
  "m_open_chart datas = line_chart (js ''#stat_line'') [0x90AE, 0x4EF6, 0x6253, 0x5F00, 0x60C5, 0x51B5, 0x7EDF, 0x8BA1] colors4 datas"

definition report_stat_open :: "jsval list \<Rightarrow> jsval list list option \<Rightarrow> stat_event \<Rightarrow> 'a chart_page_scheme \<Rightarrow> 'a chart_page_scheme" where
  "report_stat_open datas answer e s =
     (case e of
        Ready \<Rightarrow> (let s = draw (m_open_chart datas) s in case answer of Some l \<Rightarrow> open_answer l s | None \<Rightarrow> s)
      | Choose kind \<Rightarrow> s | Export url \<Rightarrow> export_stat list_form url s)"

definition campaign_stat_open :: "jsval list \<Rightarrow> stat_event \<Rightarrow> 'a chart_page_scheme \<Rightarrow> 'a chart_page_scheme" where
  "campaign_stat_open datas e s =
     (case e of Ready \<Rightarrow> draw (m_open_chart datas) s | Choose kind \<Rightarrow> s | Export url \<Rightarrow> export_stat list_form url s)"

subsection \<open>The pies of the property library\<close>

definition property_pie :: "point list \<Rightarrow> point list \<Rightarrow> point list \<Rightarrow> point list \<Rightarrow> 'a chart_page_scheme \<Rightarrow> 'a chart_page_scheme" where
  "property_pie industry society age gender s =
     fold (\<lambda>(k, ps). draw (points_pie k [] [0x6536, 0x4EF6, 0x4EBA, 0x6570] ps))
       [(js ''#stat_industry_pie'', industry), (js ''#stat_society_pie'', society), (js ''#stat_age_pie'', age), (js ''#stat_gender_pie'', gender)] s"

record prop_stat =
  st_labelNum :: jsval
  st_emailNum :: jsval
  st_list :: "(jsval \<times> rat option \<times> jsval) list"

definition pie_keys :: "jstring list" where
  "pie_keys = [js ''industry'', js ''society'', js ''age'', js ''gender'']"

abbreviation pie_id :: "jstring \<Rightarrow> jstring" where "pie_id k \<equiv> js ''#stat_'' @ k @ js ''_pie''"
abbreviation pie_div :: "jstring \<Rightarrow> jstring" where "pie_div k \<equiv> js ''#'' @ k @ js ''Div''"

definition pies_ready :: "'a chart_page_scheme \<Rightarrow> 'a chart_page_scheme" where
  "pies_ready s = fold (\<lambda>k. draw (points_pie (pie_id k) [] [0x6536, 0x4EF6, 0x4EBA, 0x6570] [])) pie_keys s"

text \<open>What the answer does to one of the four, \<open>setData\<close> included.\<close>

definition setData :: "jstring \<Rightarrow> point list \<Rightarrow> 'a chart_page_scheme \<Rightarrow> 'a chart_page_scheme" where
  "setData k ps s = s\<lparr>drawn := (drawn s)(k := map_option (\<lambda>c. c\<lparr>ch_data := Points ps\<rparr>) (drawn s k))\<rparr>"

definition pie_answer :: "jstring \<Rightarrow> prop_stat \<Rightarrow> 'a chart_page_scheme \<Rightarrow> 'a chart_page_scheme" where
  "pie_answer k st s =
     (let s = set_html (js ''#'' @ k @ js ''LabelsNum'') (to_str (st_labelNum st)) s;
          s = set_html (js ''#'' @ k @ js ''EmailsNum'') (to_str (st_emailNum st)) s
      in if js_eq (st_emailNum st) (JInt 0)
         then hide_el (pie_id k) (show_el (pie_div k) (set_html (pie_div k) [0x6682, 0x65E0, 0x6570, 0x636E, 0x2E, 0x2E, 0x2E] s))
         else let ps = map (\<lambda>(n, y, num). \<lparr>pt_name = n, pt_y = y, pt_num = num\<rparr>) (st_list st)
              in setData (pie_id k) ps (show_el (pie_id k) (hide_el (pie_div k) (set_html (pie_div k) [] s))))"

definition pies_answered :: "jsval \<Rightarrow> (jstring \<Rightarrow> prop_stat) \<Rightarrow> 'a chart_page_scheme \<Rightarrow> 'a chart_page_scheme" where
  "pies_answered all st s =
     fold (\<lambda>k. pie_answer k (st k)) pie_keys (set_html (js ''#totalEmails'') (js ''<font color='' @ [39] @ js ''blue'' @ [39] @ js ''>'' @ to_str all @ js ''</font>'') s)"

definition pies_failed :: "'a chart_page_scheme \<Rightarrow> 'a chart_page_scheme" where
  "pies_failed s = set_html (js ''.pie_tips'') [0x52A0, 0x8F7D, 0x5931, 0x8D25, 0xFF01] s"

subsection \<open>Reports of the customers' site\<close>

definition w_column :: "jsval list \<Rightarrow> jsval list \<Rightarrow> 'a chart_page_scheme \<Rightarrow> 'a chart_page_scheme" where
  "w_column names datas s = (if \<not> isEmptyArr datas then draw (column_chart (js ''#column'') color_list4 names datas) s else s)"

definition w_funnel :: "jsval list \<Rightarrow> jsval list list \<Rightarrow> 'a chart_page_scheme \<Rightarrow> 'a chart_page_scheme" where
  "w_funnel datas percents s =
     (if \<not> isEmptyArr datas then draw (funnel_chart (js ''#funnel'') [0xFF1A] color_list4 [0, 1, 3, 5] datas percents) s else s)"

definition w_cover :: "jsval list \<Rightarrow> jsval list \<Rightarrow> jsval list list \<Rightarrow> jstring \<Rightarrow> 'a chart_page_scheme \<Rightarrow> 'a chart_page_scheme" where
  "w_cover names datas percents kind s =
     (let s = fst (cover kind s) in if kind = js ''column'' then w_column names datas s else w_funnel datas percents s)"

definition report_sum_ready :: "jsval list \<Rightarrow> jsval list list \<Rightarrow> 'a chart_page_scheme \<Rightarrow> 'a chart_page_scheme" where
  "report_sum_ready datas percents s =
     (if \<not> isEmptyArr datas then draw (funnel_chart (js ''#task_funnel'') [0xFF1A] color_list4 [0, 1, 2, 3] datas percents) s else s)"

definition detail_click_ready :: "jsval list \<Rightarrow> 'a chart_page_scheme \<Rightarrow> 'a chart_page_scheme" where
  "detail_click_ready datas s = (if \<not> isEmptyArr datas then draw (line_chart (js ''#line'') [] color_list4 datas) s else s)"

definition detail_open_ready :: "jsval list \<Rightarrow> 'a chart_page_scheme \<Rightarrow> 'a chart_page_scheme" where
  "detail_open_ready datas s = (if \<not> isEmptyArr datas then draw (line_chart (js ''#line'') [] color_list4 datas) s else s)"

definition detail_region_ready :: "jsval list \<Rightarrow> (jstring \<times> jsval list) list \<Rightarrow> 'a chart_page_scheme \<Rightarrow> 'a chart_page_scheme" where
  "detail_region_ready names datas s =
     (if \<not> isEmptyArr names then draw (group_chart (js ''#column'') color_list4 names datas) s else s)"

abbreviation pie_bold :: "jstring \<times> jstring" where "pie_bold \<equiv> (js ''<b>'', js ''</b>'')"

definition detail_send_ready :: "jsval list \<Rightarrow> jsval list list \<Rightarrow> (nat \<times> rat) list \<Rightarrow> 'a chart_page_scheme \<Rightarrow> 'a chart_page_scheme" where
  "detail_send_ready column_datas pie_names pie_datas s =
     (let s = (if \<not> isEmptyArr column_datas
               then draw (column_chart (js ''#column'') color_list4 (map JStr [[0x53D1, 0x9001, 0x603B, 0x6570], [0x6210, 0x529F, 0x6570], [0x5F39, 0x56DE, 0x6570]]) column_datas) s else s)
      in if length pie_names > 0 \<and> length pie_datas > 0
         then draw (rows_pie (js ''#pie'') [] color_list6 [Inr 1, Inl [0xFF1A], Inr 2] ([], []) pie_names pie_datas) s else s)"

definition client_pie :: "jstring \<Rightarrow> jstring \<Rightarrow> jstring list \<Rightarrow> jsval list list \<Rightarrow> (nat \<times> rat) list \<Rightarrow> chart" where
  "client_pie k t cs names datas =
     rows_pie k t cs [Inr 1, Inl (js ''<br />'' @ [0x4EBA, 0x6570, 0xFF1A]), Inr 2, Inl (js ''<br />'' @ [0x5360, 0x6BD4, 0xFF1A]), Inr 3, Inl (js '' %'')] pie_bold names datas"

definition detail_client_ready ::
  "(jsval list list \<times> (nat \<times> rat) list) \<Rightarrow> (jsval list list \<times> (nat \<times> rat) list) \<Rightarrow> (jsval list list \<times> (nat \<times> rat) list)
     \<Rightarrow> 'a chart_page_scheme \<Rightarrow> 'a chart_page_scheme" where
  "detail_client_ready br sys lang s =
     draw (client_pie (js ''#language_pie'') [] color_list6 (fst lang) (snd lang))
       (draw (client_pie (js ''#system_pie'') [] color_list6 (fst sys) (snd sys))
         (draw (client_pie (js ''#open_pie'') [] color_list6 (fst br) (snd br)) s))"

definition campaign_stat_client ::
  "(jsval list list \<times> (nat \<times> rat) list) \<Rightarrow> (jsval list list \<times> (nat \<times> rat) list) \<Rightarrow> (jsval list list \<times> (nat \<times> rat) list)
     \<Rightarrow> stat_event \<Rightarrow> 'a chart_page_scheme \<Rightarrow> 'a chart_page_scheme" where
  "campaign_stat_client br sys lang e s =
     (case e of
        Ready \<Rightarrow>
          draw (client_pie (js ''#language_pie'') (js ''<b>'' @ [0x8BED, 0x8A00, 0x73AF, 0x5883] @ js ''</b>'') [] (fst lang) (snd lang))
            (draw (client_pie (js ''#system_pie'') (js ''<b>'' @ [0x64CD, 0x4F5C, 0x7CFB, 0x7EDF] @ js ''</b>'') [] (fst sys) (snd sys))
              (draw (client_pie (js ''#open_pie'') (js ''<b>'' @ [0x6D4F, 0x89C8, 0x5668] @ js ''</b>'') [] (fst br) (snd br)) s))
      | Choose kind \<Rightarrow> s | Export url \<Rightarrow> export_stat list_form url s)"

text \<open>Pies drawn only if there are names and data.\<close>

definition pie_if :: "chart \<Rightarrow> jsval list list \<Rightarrow> (nat \<times> rat) list \<Rightarrow> 'a chart_page_scheme \<Rightarrow> 'a chart_page_scheme" where
  "pie_if c names datas s = (if length names > 0 \<and> length datas > 0 then draw c s else s)"

definition domain_pie :: "jstring \<Rightarrow> jstring \<Rightarrow> jstring \<Rightarrow> jsval list list \<Rightarrow> (nat \<times> rat) list \<Rightarrow> chart" where
  "domain_pie k t what names datas =
     rows_pie k (js ''<b>'' @ t @ js ''</b>'') color_list6
       [Inr 1, Inl (js ''<br />'' @ [0x53D1, 0x9001, 0x603B, 0x6570, 0xFF1A]), Inr 2, Inl (js ''<br />'' @ what @ [0xFF1A]), Inr 3] pie_bold names datas"

definition detail_domain_ready ::
  "jsval list list \<times> (nat \<times> rat) list \<Rightarrow> jsval list list \<times> (nat \<times> rat) list \<Rightarrow> 'a chart_page_scheme \<Rightarrow> 'a chart_page_scheme" where
  "detail_domain_ready opens clicks s =
     pie_if (domain_pie (js ''#click_pie'') [0x70B9, 0x51FB, 0x4EBA, 0x6570, 0x767E, 0x5206, 0x6BD4, 0x20, 0x57FA, 0x4E8E, 0x540C, 0x57DF, 0x540D, 0xFF08, 0x70B9, 0x51FB, 0x4EBA, 0x6570, 0x2F, 0x53D1, 0x9001, 0x603B, 0x6570, 0xFF09] [0x70B9, 0x51FB, 0x4EBA, 0x6570] (fst clicks) (snd clicks)) (fst clicks) (snd clicks)
       (pie_if (domain_pie (js ''#open_pie'') [0x6253, 0x5F00, 0x4EBA, 0x6570, 0x767E, 0x5206, 0x6BD4, 0x20, 0x57FA, 0x4E8E, 0x540C, 0x57DF, 0x540D, 0xFF08, 0x6253, 0x5F00, 0x4EBA, 0x6570, 0x2F, 0x53D1, 0x9001, 0x603B, 0x6570, 0xFF09] [0x6253, 0x5F00, 0x4EBA, 0x6570] (fst opens) (snd opens)) (fst opens) (snd opens) s)"

definition touch_pie :: "jstring \<Rightarrow> jstring \<Rightarrow> jstring \<Rightarrow> jsval list list \<Rightarrow> (nat \<times> rat) list \<Rightarrow> chart" where
  "touch_pie k t what names datas =
     rows_pie k (js ''<b>'' @ t @ js ''</b>'') color_list6 [Inr 1, Inl (js ''<br/>'' @ what @ [0xFF1A]), Inr 2] pie_bold names datas"

definition touch_detail_ready ::
  "jsval list list \<times> (nat \<times> rat) list \<Rightarrow> jsval list list \<times> (nat \<times> rat) list \<Rightarrow> 'a chart_page_scheme \<Rightarrow> 'a chart_page_scheme" where
  "touch_detail_ready opens clicks s =
     pie_if (touch_pie (js ''#click_pie'') [0x5404, 0x4EFB, 0x52A1, 0x7684, 0x6253, 0x5F00, 0x603B, 0x4EBA, 0x6570, 0x5360, 0x6BD4] [0x6253, 0x5F00, 0x4EBA, 0x6570] (fst clicks) (snd clicks)) (fst clicks) (snd clicks)
       (pie_if (touch_pie (js ''#open_pie'') [0x5404, 0x4EFB, 0x52A1, 0x7684, 0x89E6, 0x53D1, 0x603B, 0x4EBA, 0x6570, 0x5360, 0x6BD4] [0x89E6, 0x53D1, 0x4EBA, 0x6570] (fst opens) (snd opens)) (fst opens) (snd opens) s)"

text \<open>Comparisons: \<open>isEmptyArr\<close> of a list of objects says whether there are any.\<close>

definition task_compare_colors :: "jstring list" where
  "task_compare_colors = [js ''#BBB9D0'', js ''#A595C5'', js ''#9F8EBC'', js ''#846FA5'', js ''#72429A'', js ''#603787'']"

definition task_compare_ready ::
  "jsval list \<Rightarrow> (jstring \<times> jsval list) list \<Rightarrow> nat \<Rightarrow> 'a chart_page_scheme \<Rightarrow> 'a chart_page_scheme \<times> jstring option list" where
  "task_compare_ready names datas grids s =
     (if datas \<noteq> [] then draw (bar_chart (js ''#task_bar'') task_compare_colors names datas) s else s,
      map (grid_color task_compare_colors grids) [0..<grids])"

definition detail_compare_chart ::
  "jsval list \<Rightarrow> (jstring \<times> jsval list) list \<Rightarrow> nat \<Rightarrow> 'a chart_page_scheme \<Rightarrow> 'a chart_page_scheme \<times> jstring option list" where
  "detail_compare_chart names datas grids s =
     (let cs = [js ''#72429A'', js ''#846FAB'', js ''#9F8EBC'', js ''#A595C5'']
      in (if datas \<noteq> [] then draw (bar_chart (js ''#bar'') cs names datas) s else s, map (grid_color cs grids) [0..<grids]))"

text \<open>The exports of sums.\<close>

definition task_total_exports :: "browser \<Rightarrow> jstring \<Rightarrow> 'a ui_scheme \<Rightarrow> 'a ui_scheme" where
  "task_total_exports b ids u = export_or_refuse b [0x6CA1, 0x6709, 0x9700, 0x8981, 0x5BFC, 0x51FA, 0x7684, 0x6C47, 0x603B] (js ''/report/export/task/total?checkedIds='') ids [] u"

definition plan_total_exports :: "browser \<Rightarrow> jstring \<Rightarrow> 'a ui_scheme \<Rightarrow> 'a ui_scheme" where
  "plan_total_exports b ids u = export_or_refuse b [0x6CA1, 0x6709, 0x9700, 0x8981, 0x5BFC, 0x51FA, 0x7684, 0x6C47, 0x603B] (js ''/report/export/plan/total?checkedIds='') ids [] u"

subsection \<open>Lemmas: rates\<close>

text \<open>A rate as it is meant.\<close>

definition true_rate :: "int \<Rightarrow> int \<Rightarrow> rat" where
  "true_rate n d = (if d = 0 then 0 else of_int (n * 100) / of_int d)"

lemma rate_error:
  assumes "0 \<le> n" "n \<le> d"
  shows "\<bar>rate n d - true_rate n d\<bar> \<le> 1 / 10000000000"
proof (cases "d = 0")
  case False
  with assms have d: "d > 0" by simp
  let ?p = "of_int (n * 100) :: rat" and ?q = "of_int d :: rat"
  have q: "?q > 0" "0 \<le> ?p" "?p \<le> 100 * ?q" using d assms by simp_all
  have p: "\<bar>dbl ?p - ?p\<bar> \<le> ?p / 2 ^ 53" using dbl_error [of ?p] q(2) by simp
  have a: "\<bar>dbl ?p / ?q - ?p / ?q\<bar> \<le> 1 / 10000000000000"
  proof -
    have "\<bar>dbl ?p / ?q - ?p / ?q\<bar> = \<bar>dbl ?p - ?p\<bar> / ?q" using q(1) by (simp add: diff_divide_distrib [symmetric])
    also have "\<dots> \<le> (?p / 2 ^ 53) / ?q" using p q(1) by (intro divide_right_mono) auto
    also have "\<dots> \<le> 1 / 10000000000000" using q by (simp add: field_simps)
    finally show ?thesis .
  qed
  have "0 \<le> ?p / ?q" "?p / ?q \<le> 100" using q by (simp_all add: field_simps)
  then have b: "\<bar>dbl ?p / ?q\<bar> \<le> 101" using a by linarith
  have "\<bar>dbl (dbl ?p / ?q) - dbl ?p / ?q\<bar> \<le> \<bar>dbl ?p / ?q\<bar> / 9007199254740992"
    using dbl_error [of "dbl ?p / ?q"] by simp
  moreover have "\<bar>u - w\<bar> \<le> 1 / 10000000000"
    if "\<bar>u - v\<bar> \<le> \<bar>v\<bar> / 9007199254740992" "\<bar>v - w\<bar> \<le> 1 / 10000000000000" "\<bar>v\<bar> \<le> 101" for u v w :: rat
    using that by linarith
  ultimately have "\<bar>dbl (dbl ?p / ?q) - ?p / ?q\<bar> \<le> 1 / 10000000000" using a b by blast
  then show ?thesis using False by (simp add: rate_def true_rate_def)
qed (simp add: rate_def true_rate_def)

text \<open>Two decimals of a rate.\<close>

lemma rate_shown:
  assumes "\<bar>r - x\<bar> \<le> 1 / 10000000000" and "0 \<le> x" "x \<le> 100"
  shows "\<exists>v. to_number (toFixed 2 r) = Fin v \<and> 0 \<le> v \<and> v \<le> 100 \<and> \<bar>v - x\<bar> \<le> 1 / 200 + 1 / 10000000000"
proof -
  let ?n = "round_up (\<bar>r\<bar> * 100)" and ?s = "if r < 0 then - 1 else 1 :: rat"
  have t: "to_number (toFixed 2 r) = Fin (?s * of_int ?n / 100)" using toFixed_reads [of 2 r] by simp
  have e: "\<bar>of_int ?n - \<bar>r\<bar> * 100\<bar> \<le> 1 / 2" by (rule round_up_error)
  have r: "- (1 / 10000000000) \<le> r" "r \<le> 100 + 1 / 10000000000" using assms by linarith+
  have n: "0 \<le> ?n" by (rule round_up_nonneg) simp
  have "(of_int ?n :: rat) < 10001" using e r by linarith
  then have n': "?n \<le> 10000" by simp
  have neg: "?n = 0" if "r < 0"
  proof -
    have "(of_int ?n :: rat) < 1" using e r that by linarith
    with n show ?thesis by simp
  qed
  show ?thesis
  proof (cases "r < 0")
    case True
    then show ?thesis using t neg assms r by (intro exI [of _ 0]) auto
  next
    case False
    have "\<bar>of_int ?n / 100 - x\<bar> \<le> 1 / 200 + 1 / 10000000000" using e assms(1) False by linarith
    then show ?thesis using t n n' False by (intro exI [of _ "of_int ?n / 100"]) simp
  qed
qed

text \<open>A number below 1000 in the format of Highcharts reads back, to the nearest hundredth.\<close>

lemma numberFormat_reads:
  assumes "0 \<le> x" "x \<le> 200"
  shows "to_number (numberFormat (Some x) 2) = Fin (of_nat (hundredths x) / 100)"
proof -
  have "(of_nat (hundredths x) :: rat) < 20100" using hundredths_error [of x] assms by linarith
  then have n: "hundredths x div 100 < 1000" by simp
  let ?ip = "nat_to_str (hundredths x div 100)" and ?fp = "zero_pad 2 (nat_to_str (hundredths x mod 100))"
  have dig: "list_all is_digit (nat_to_str n)" for n using nat_to_str_digits [of n] by (simp add: list_all_iff)
  have "list_all is_digit ?ip" "list_all is_digit ?fp" by (rule dig, rule zero_pad_digits [OF dig])
  moreover have "length ?fp = 2" using zero_pad_length [of "hundredths x mod 100" 1] by (simp add: numeral_2_eq_2)
  ultimately have "to_number (?ip @ [46] @ ?fp) = Fin (of_nat (digits_val ?ip) + of_nat (digits_val ?fp) / 10 ^ 2)"
    by (intro fixed_reads) auto
  then show ?thesis
    using assms n numberFormat_eq [of x] div_mod_decimal [of "hundredths x" 2] by (simp add: zero_pad_val thousands.simps [of "hundredths x div 100"])
qed

lemma numberFormat_share:
  assumes "\<bar>r - x\<bar> \<le> 1 / 10000000000" and "0 \<le> r" "0 \<le> x" "x \<le> 100"
  shows "\<exists>v. to_number (numberFormat (Some r) 2) = Fin v \<and> \<bar>v - x\<bar> \<le> 1 / 200 + 1 / 10000000000"
proof -
  have "r \<le> 200" using assms by linarith
  with numberFormat_reads [of r] hundredths_error [of r] assms show ?thesis by (intro exI [of _ "of_nat (hundredths r) / 100"]) linarith
qed

lemma true_rate_bounds: "0 \<le> n \<Longrightarrow> n \<le> d \<Longrightarrow> 0 \<le> true_rate n d \<and> true_rate n d \<le> 100"
proof (cases "d = 0")
  case False
  moreover assume "0 \<le> n" "n \<le> d"
  ultimately have "(0 :: rat) < of_int d" "(0 :: rat) \<le> of_int n" "(of_int n :: rat) \<le> of_int d" by simp_all
  then show ?thesis by (simp add: true_rate_def divide_le_eq)
qed (simp add: true_rate_def)

lemma dbl_nonneg: "0 \<le> x \<Longrightarrow> 0 \<le> dbl x"
proof -
  assume x: "0 \<le> x"
  then have "\<bar>dbl x - x\<bar> \<le> x / 9007199254740992" using dbl_error [of x] by simp
  with x show ?thesis by linarith
qed

lemma rate_nonneg: "0 \<le> n \<Longrightarrow> 0 \<le> d \<Longrightarrow> 0 \<le> rate n d"
  by (simp add: rate_def dbl_nonneg)

text \<open>The text of a rate that is not near the middle between two hundredths.\<close>

lemma rate_text:
  assumes "0 \<le> n" "n \<le> d" and "\<bar>true_rate n d - of_nat m / 100\<bar> \<le> 1 / 250"
  shows "toFixed 2 (rate n d) = (let s = zero_pad 3 (nat_to_str m) in take (length s - 2) s @ [46] @ drop (length s - 2) s)"
proof -
  have nn: "0 \<le> rate n d" using assms(1,2) by (simp add: rate_nonneg)
  have "\<bar>rate n d * 100 - of_nat m\<bar> < 1 / 2" using rate_error [OF assms(1,2)] assms(3) by linarith
  then have "round_up (rate n d * 100) = int m" by (intro round_up_near) simp
  then show ?thesis using nn by (simp add: toFixed_def zero_pad_def Let_def)
qed

subsection \<open>Lemmas: charts\<close>

lemma draw_simps [simp]:
  "drawn (draw c s) = (drawn s)(ch_at c \<mapsto> c)" "shown (draw c s) = shown s" "html (draw c s) = html s" "log_rows (draw c s) = log_rows s"
  by (simp_all add: draw_def)

lemma ch_at_simps [simp]:
  "ch_at (column_chart k cs ns ds) = k" "ch_at (funnel_chart k t cs ks ds ps) = k" "ch_at (points_pie k cs w xs) = k"
  "ch_at (line_chart k t cs ds) = k"
  by (simp_all add: column_chart_def funnel_chart_def points_pie_def line_chart_def)

lemma drawn_el [simp]:
  "drawn (show_el k s) = drawn s" "drawn (hide_el k s) = drawn s" "drawn (set_html k h s) = drawn s"
  by (simp_all add: show_el_def hide_el_def set_html_def)

text \<open>Ids of rows.\<close>

lemma logger_id_inject [simp]: "logger_id i = logger_id j \<longleftrightarrow> i = j"
  by (simp add: logger_id_def)

lemma insert_after_append:
  "i \<notin> fst ` set pre \<Longrightarrow> insert_after k r (pre @ (i, x) # rest) i = pre @ (i, x) # (k, r) # rest"
  by (induction pre) auto

lemma open_rows_append:
  "(\<And>j. k \<le> j \<Longrightarrow> logger_id j \<notin> fst ` set pre) \<Longrightarrow>
     open_rows k vs (pre @ (logger_id k, x) # rest) =
       pre @ (logger_id k, x) # map (\<lambda>(j, v). (logger_id (Suc j), v)) (enumerate k vs) @ rest"
proof (induction vs arbitrary: k pre x)
  case (Cons v vs)
  have "open_rows (Suc k) vs ((pre @ [(logger_id k, x)]) @ (logger_id (Suc k), v) # rest) =
      (pre @ [(logger_id k, x)]) @ (logger_id (Suc k), v) # map (\<lambda>(j, v). (logger_id (Suc j), v)) (enumerate (Suc k) vs) @ rest"
    using Cons.prems by (intro Cons.IH) auto
  then show ?case using Cons.prems [of k] by (simp add: insert_after_append)
qed simp

text \<open>One of two domains with the rates 20 and 60: the label under the title of rates is the share among
  the rates.\<close>

lemma domain_label_not_the_rate:
  "ch_label (domain_pie k t w [[JInt 0, JStr n, JInt 100, JInt 20], [JInt 1, JStr m, JInt 100, JInt 60]] [(0, 20), (1, 60)])
     \<lparr>h_x = 0, h_point = p, h_percentage = Some (pie_percentage [20, 60] 0), h_series = [], h_ytext = []\<rparr>
   = Some (js ''<b>'' @ n @ js ''</b>'' @ [0xFF1A] @ js ''25.00 %'')"
proof -
  have "toFixed 2 (pie_percentage [20, 60] 0) = js ''25.00''" by code_simp
  then show ?thesis by (simp add: domain_pie_def rows_pie_def row_text_def num_toFixed_def to_str_def js_def)
qed

text \<open>The success rates of the two sites differ for the same counts.\<close>

lemma success_rates_differ:
  "percents_of (m_rates [1000, 700, 0, 0, 0, 0, 0, 0, 0, 100] [200, 100]) ! 1 ! 1 = JStr (js ''77.78'')"
  "percents_of (w_rates [1000, 700, 0, 0, 0, 0, 0, 0, 0, 100] [200, 100]) ! 1 ! 1 = JStr (js ''100.00'')"
proof -
  have "toFixed 2 (rate 700 900) = js ''77.78''" "toFixed 2 (rate 700 700) = js ''100.00''"
    by (subst rate_text [where m = 7778], simp_all add: true_rate_def zero_pad_def nat_to_str.simps js_def,
        subst rate_text [where m = 10000], simp_all add: true_rate_def zero_pad_def nat_to_str.simps js_def)
  then show "percents_of (m_rates [1000, 700, 0, 0, 0, 0, 0, 0, 0, 100] [200, 100]) ! 1 ! 1 = JStr (js ''77.78'')"
    "percents_of (w_rates [1000, 700, 0, 0, 0, 0, 0, 0, 0, 100] [200, 100]) ! 1 ! 1 = JStr (js ''100.00'')"
    by (simp_all add: percents_of_def stage_names_def m_rates_def w_rates_def)
qed

subsection \<open>Properties\<close>

text \<open>The rates of the stages as they are meant.\<close>

definition stage_rates :: "int list \<Rightarrow> int list \<Rightarrow> rat list" where
  "stage_rates datas nones =
     [if datas ! 0 = 0 then 0 else 100, true_rate (datas ! 1) (datas ! 0 - nones ! 1), true_rate (datas ! 3) (datas ! 1),
      true_rate (datas ! 5) (datas ! 3)]"

lemma less_4: "(k :: nat) < 4 \<longleftrightarrow> k = 0 \<or> k = 1 \<or> k = 2 \<or> k = 3"
  by presburger

lemma m_rates_near:
  assumes "0 \<le> datas ! 5" "datas ! 5 \<le> datas ! 3" "datas ! 3 \<le> datas ! 1" "datas ! 1 \<le> datas ! 0 - nones ! 1" and "k < 4"
  shows "\<bar>m_rates datas nones ! k - stage_rates datas nones ! k\<bar> \<le> 1 / 10000000000"
    and "0 \<le> stage_rates datas nones ! k" "stage_rates datas nones ! k \<le> 100"
proof -
  note le = assms(1-4) order_trans [OF assms(1,2)] order_trans [OF order_trans [OF assms(1,2)] assms(3)]
  note e = rate_error [OF assms(1,2)] rate_error [OF le(5,3)] rate_error [OF le(6,4)]
  note b = true_rate_bounds [OF assms(1,2)] true_rate_bounds [OF le(5,3)] true_rate_bounds [OF le(6,4)]
  show "\<bar>m_rates datas nones ! k - stage_rates datas nones ! k\<bar> \<le> 1 / 10000000000"
    using assms(5) e by (auto simp: less_4 m_rates_def stage_rates_def)
  show "0 \<le> stage_rates datas nones ! k" "stage_rates datas nones ! k \<le> 100"
    using assms(5) b by (auto simp: less_4 stage_rates_def)
qed

text \<open>C12: When the funnel is chosen on the overview of a task, it is shown and the columns are hidden, and
  where the counts are consistent (clicks, openings, successes and valid addresses in order) the tip of
  each stage names the stage and shows a number between 0 and 100 that is the rate of the stage up to
  half a hundredth (and the error of the doubles).\<close>

theorem overview_tips_right:
  assumes "0 \<le> datas ! 5" "datas ! 5 \<le> datas ! 3" "datas ! 3 \<le> datas ! 1" "datas ! 1 \<le> datas ! 0 - nones ! 1"
    and "s' = report_stat_overview (map JInt datas) (percents_of (m_rates datas nones)) (Choose (js ''funnel'')) s"
  shows "shown s' (js ''#stat_funnel'') \<and> \<not> shown s' (js ''#stat_column'') \<and>
    (\<exists>c. drawn s' (js ''#stat_funnel'') = Some c \<and> (\<forall>k < 4. \<forall>h. h_x h = k \<longrightarrow>
       (\<exists>t v. ch_tip c h = Some (stage_names ! k @ [0xFF1A] @ t @ js ''%'') \<and> to_number t = Fin v
          \<and> 0 \<le> v \<and> v \<le> 100 \<and> \<bar>v - stage_rates datas nones ! k\<bar> \<le> 1 / 200 + 1 / 10000000000)))"
proof -
  have "js ''funnel'' \<noteq> js ''column''" by (simp add: js_def)
  then have s': "s' = m_funnel (map JInt datas) (percents_of (m_rates datas nones)) (show_el (js ''#stat_funnel'') (hide_el (js ''#stat_column'') s))"
    by (simp add: assms(5) report_stat_overview_def m_cover_def)
  let ?c = "funnel_chart (js ''#stat_funnel'') [0xFF1A] colors4 [0, 1, 3, 5] (map JInt datas) (percents_of (m_rates datas nones))"
  have tip: "\<exists>t v. ch_tip ?c h = Some (stage_names ! k @ [0xFF1A] @ t @ js ''%'') \<and> to_number t = Fin v
      \<and> 0 \<le> v \<and> v \<le> 100 \<and> \<bar>v - stage_rates datas nones ! k\<bar> \<le> 1 / 200 + 1 / 10000000000" if "k < 4" "h_x h = k" for k h
  proof -
    have "ch_tip ?c h = Some (stage_names ! k @ [0xFF1A] @ toFixed 2 (m_rates datas nones ! k) @ js ''%'')"
      using that by (auto simp: less_4 funnel_chart_def row_text_def percents_of_def m_rates_def stage_names_def to_str_def)
    then show ?thesis using rate_shown [OF m_rates_near [OF assms(1-4) that(1)]] by blast
  qed
  have "js ''#stat_funnel'' \<noteq> js ''#stat_column''" by (simp add: js_def)
  then show ?thesis using tip by (auto simp: s' m_funnel_def show_el_def hide_el_def)
qed

theorem overview_tips_right_witness:
  "\<forall>s :: chart_page. shown (report_stat_overview (map JInt [100, 80, 15, 40, 50, 10, 12, 0, 0, 5])
     (percents_of (m_rates [100, 80, 15, 40, 50, 10, 12, 0, 0, 5] [0, 5])) (Choose (js ''funnel'')) s) (js ''#stat_funnel'')"
proof
  fix s :: chart_page
  show "shown (report_stat_overview (map JInt [100, 80, 15, 40, 50, 10, 12, 0, 0, 5])
     (percents_of (m_rates [100, 80, 15, 40, 50, 10, 12, 0, 0, 5] [0, 5])) (Choose (js ''funnel'')) s) (js ''#stat_funnel'')"
    by (rule overview_tips_right [THEN conjunct1, OF _ _ _ _ refl]) simp_all
qed

text \<open>C40: The rows of the openings are put into the table in the order of the answer, right under the
  head, in front of what else the table has.\<close>

theorem openings_in_order:
  assumes "log_rows s = (logger_id 0, head) # rest"
  shows "log_rows (report_stat_open datas (Some openList) Ready s) =
    (logger_id 0, head) # map (\<lambda>(k, v). (logger_id (Suc k), v)) (enumerate 0 openList) @ rest"
  using open_rows_append [of 0 "[]" openList head rest] assms by (simp add: report_stat_open_def open_answer_def Let_def)

theorem openings_in_order_witness:
  "\<forall>s :: chart_page. log_rows (report_stat_open [] (Some [[JInt 1], [JInt 2]]) Ready (s\<lparr>log_rows := [(js ''logger_0'', [])]\<rparr>)) =
     [(js ''logger_0'', []), (js ''logger_1'', [JInt 1]), (js ''logger_2'', [JInt 2])]"
proof
  fix s :: chart_page
  show "log_rows (report_stat_open [] (Some [[JInt 1], [JInt 2]]) Ready (s\<lparr>log_rows := [(js ''logger_0'', [])]\<rparr>)) =
     [(js ''logger_0'', []), (js ''logger_1'', [JInt 1]), (js ''logger_2'', [JInt 2])]"
    using openings_in_order [of "s\<lparr>log_rows := [(js ''logger_0'', [])]\<rparr>" "[]" "[]" "[]" "[[JInt 1], [JInt 2]]"]
    by (simp add: logger_id_def js_def nat_to_str.simps)
qed

text \<open>C13: The pie of the bounces, drawn if there are any, has four parts that add up to all bounces, none
  negative, and the tip of each part has its number and its share, up to half a hundredth of a percent (and
  the error of the doubles).\<close>

theorem bounces_add_up:
  assumes "0 \<le> back ! 2" "0 \<le> back ! 3" "0 \<le> back ! 4" "back ! 2 + back ! 3 + back ! 4 \<le> back ! 0 + back ! 1" "0 < back ! 0 + back ! 1"
  shows "\<exists>c ps ms. drawn (m_send_ready datas back s) (js ''#stat_response_pie'') = Some c \<and> ch_data c = Points ps
    \<and> map pt_num ps = map JInt ms \<and> sum_list ms = back ! 0 + back ! 1 \<and> length ms = 4 \<and> (\<forall>m \<in> set ms. 0 \<le> m)
    \<and> (\<forall>i < 4. \<forall>h. h_point h = ps ! i \<longrightarrow>
         (\<exists>n t v. ch_tip c h = Some (js ''<b>'' @ n @ js ''</b><br/><b>'' @ [0x5F39, 0x56DE, 0x6570, 0xFF1A] @ int_to_str (ms ! i) @ js ''</b><br/><b>'' @ [0x5360, 0x6BD4, 0xFF1A] @ t @ js ''%</b>'')
            \<and> to_number t = Fin v \<and> \<bar>v - true_rate (ms ! i) (back ! 0 + back ! 1)\<bar> \<le> 1 / 200 + 1 / 10000000000))"
proof -
  let ?all = "back ! 0 + back ! 1"
  define ms where "ms = [back ! 2, back ! 3, back ! 4, ?all - back ! 2 - back ! 3 - back ! 4]"
  let ?c = "points_pie (js ''#stat_response_pie'') colors4 [0x5F39, 0x56DE, 0x6570] (response_datas back)"
  have m: "0 \<le> ms ! i \<and> ms ! i \<le> ?all" if "i < 4" for i
    using that assms by (auto simp: less_4 ms_def)
  have p: "pt_num (response_datas back ! i) = JInt (ms ! i)" "pt_y (response_datas back ! i) = Some (rate (ms ! i) ?all)" if "i < 4" for i
    using that by (auto simp: less_4 ms_def response_datas_def Let_def)
  have "\<exists>n t v. ch_tip ?c h = Some (js ''<b>'' @ n @ js ''</b><br/><b>'' @ [0x5F39, 0x56DE, 0x6570, 0xFF1A] @ int_to_str (ms ! i) @ js ''</b><br/><b>'' @ [0x5360, 0x6BD4, 0xFF1A] @ t @ js ''%</b>'')
      \<and> to_number t = Fin v \<and> \<bar>v - true_rate (ms ! i) ?all\<bar> \<le> 1 / 200 + 1 / 10000000000" if "i < 4" "h_point h = response_datas back ! i" for i h
  proof -
    have "ch_tip ?c h = Some (js ''<b>'' @ to_str (pt_name (response_datas back ! i)) @ js ''</b><br/><b>'' @ [0x5F39, 0x56DE, 0x6570, 0xFF1A] @ int_to_str (ms ! i)
        @ js ''</b><br/><b>'' @ [0x5360, 0x6BD4, 0xFF1A] @ numberFormat (Some (rate (ms ! i) ?all)) 2 @ js ''%</b>'')"
      using that p by (simp add: points_pie_def count_tip_def to_str_def)
    moreover have "0 \<le> rate (ms ! i) ?all" using m [OF that(1)] assms(5) by (simp add: rate_nonneg)
    ultimately show ?thesis
      using numberFormat_share [OF rate_error] true_rate_bounds m [OF that(1)] by blast
  qed
  moreover have "drawn (m_send_ready datas back s) (js ''#stat_response_pie'') = Some ?c"
    using assms(5) by (simp add: m_send_ready_def Let_def)
  moreover have "ch_data ?c = Points (response_datas back)" by (simp add: points_pie_def)
  moreover have "map pt_num (response_datas back) = map JInt ms" by (simp add: response_datas_def ms_def Let_def)
  moreover have "sum_list ms = ?all" "length ms = 4" by (simp_all add: ms_def)
  moreover have "\<forall>m \<in> set ms. 0 \<le> m" using assms by (auto simp: ms_def)
  ultimately show ?thesis by blast
qed

theorem bounces_add_up_witness:
  "\<forall>s :: chart_page. \<exists>c. drawn (m_send_ready [] [6, 4, 1, 2, 3] s) (js ''#stat_response_pie'') = Some c"
proof
  fix s :: chart_page
  show "\<exists>c. drawn (m_send_ready [] [6, 4, 1, 2, 3] s) (js ''#stat_response_pie'') = Some c"
    using bounces_add_up [of "[6, 4, 1, 2, 3]" "[]" s] by auto
qed

end
