(* ===== verification/Prefill.thy ===== *)
theory Prefill
  imports JsValue
begin

text \<open>
  The values of the last task: the server keeps them in cookies (\<open>Cookies.add\<close> with
  \<open>URLEncoder.encode\<close>), writes them into the page as they are, and the page of a new task decodes them with
  \<open>decodeURIComponent\<close> and puts them into its fields (\<open>mailing.task.common.js\<close>).
\<close>

subsection \<open>\<open>decodeURIComponent\<close>\<close>

text \<open>One escape: two hexadecimal digits.\<close>

definition pct_byte :: "jstring \<Rightarrow> (nat \<times> jstring) option" where
  "pct_byte s =
     (case s of
        p # a # b # r \<Rightarrow>
          if p = 37 then (case (hex_val a, hex_val b) of (Some x, Some y) \<Rightarrow> Some (16 * x + y, r) | _ \<Rightarrow> None) else None
      | _ \<Rightarrow> None)"

text \<open>So many bytes that continue a character.\<close>

fun pct_bytes :: "nat \<Rightarrow> jstring \<Rightarrow> (nat list \<times> jstring) option" where
  "pct_bytes 0 s = Some ([], s)"
| "pct_bytes (Suc n) s =
     (case pct_byte s of
        None \<Rightarrow> None
      | Some (b, r) \<Rightarrow>
          if 0x80 \<le> b \<and> b < 0xC0 then map_option (\<lambda>(bs, r). (b # bs, r)) (pct_bytes n r) else None)"

text \<open>How many bytes follow the first; \<open>None\<close> for a byte that cannot be the first.\<close>

definition utf8_tail :: "nat \<Rightarrow> nat option" where
  "utf8_tail b =
     (if b < 0x80 then Some 0 else if b < 0xC0 then None else if b < 0xE0 then Some 1
      else if b < 0xF0 then Some 2 else if b < 0xF8 then Some 3 else None)"

definition utf8_val :: "nat list \<Rightarrow> nat" where
  "utf8_val bs =
     (case bs of
        [] \<Rightarrow> 0
      | b # r \<Rightarrow> foldl (\<lambda>v c. 64 * v + (c - 0x80))
           (case length r of 0 \<Rightarrow> b | Suc 0 \<Rightarrow> b - 0xC0 | Suc (Suc 0) \<Rightarrow> b - 0xE0 | _ \<Rightarrow> b - 0xF0) r)"

definition surrogate :: "nat \<Rightarrow> bool" where
  "surrogate c \<longleftrightarrow> 0xD800 \<le> c \<and> c < 0xE000"

text \<open>Bytes are valid if they are the encoding of what they denote.\<close>

definition utf8_valid :: "nat list \<Rightarrow> bool" where
  "utf8_valid bs \<longleftrightarrow> (let v = utf8_val bs in v < 0x110000 \<and> \<not> surrogate v \<and> utf8 v = bs)"

definition utf16 :: "nat \<Rightarrow> jstring" where
  "utf16 v = (if v < 0x10000 then [v] else [0xD800 + (v - 0x10000) div 0x400, 0xDC00 + (v - 0x10000) mod 0x400])"

lemma pct_byte_length: "pct_byte s = Some (b, r) \<Longrightarrow> length r < length s"
  by (auto simp: pct_byte_def split: list.splits if_splits option.splits)

lemma pct_bytes_length: "pct_bytes n s = Some (bs, r) \<Longrightarrow> length r \<le> length s"
  by (induction n s arbitrary: bs r rule: pct_bytes.induct)
    (fastforce dest: pct_byte_length split: option.splits prod.splits if_splits)+

definition pct_char :: "jstring \<Rightarrow> (nat \<times> jstring) option" where
  "pct_char s =
     (case pct_byte s of
        None \<Rightarrow> None
      | Some (b, r) \<Rightarrow>
          (case utf8_tail b of
             None \<Rightarrow> None
           | Some n \<Rightarrow>
               (case pct_bytes n r of
                  None \<Rightarrow> None
                | Some (bs, r) \<Rightarrow> if utf8_valid (b # bs) then Some (utf8_val (b # bs), r) else None)))"

lemma pct_char_length: "pct_char s = Some (v, r) \<Longrightarrow> length r < length s"
  by (auto simp: pct_char_def dest!: pct_byte_length pct_bytes_length split: option.splits if_splits)

text \<open>\<open>None\<close>: it raises \<open>URIError\<close>.\<close>

function decodeURIComponent :: "jstring \<Rightarrow> jstring option" where
  "decodeURIComponent [] = Some []"
| "decodeURIComponent (c # s) =
     (if c \<noteq> 37 then map_option ((#) c) (decodeURIComponent s)
      else (case pct_char (c # s) of
              None \<Rightarrow> None
            | Some (v, r) \<Rightarrow> map_option ((@) (utf16 v)) (decodeURIComponent r)))"
  by pat_completeness auto

termination
  by (relation "measure length") (auto dest: pct_char_length)

subsection \<open>What the server stores\<close>

text \<open>\<open>URLEncoder.encode\<close> of the Java library, with UTF-8: a blank becomes a plus, a lone surrogate a
  question mark.\<close>

definition form_plain :: "nat \<Rightarrow> bool" where
  "form_plain c \<longleftrightarrow> (48 \<le> c \<and> c \<le> 57) \<or> (65 \<le> c \<and> c \<le> 90) \<or> (97 \<le> c \<and> c \<le> 122) \<or> c \<in> {45, 95, 46, 42}"

definition pcts :: "nat \<Rightarrow> jstring" where
  "pcts v = concat (map pct (utf8 v))"

fun URLEncoder_encode :: "jstring \<Rightarrow> jstring" where
  "URLEncoder_encode [] = []"
| "URLEncoder_encode (c # s) =
     (if form_plain c then c # URLEncoder_encode s
      else if c = 32 then 43 # URLEncoder_encode s
      else if \<not> surrogate c then pcts c @ URLEncoder_encode s
      else (case s of
              d # s' \<Rightarrow>
                if c < 0xDC00 \<and> 0xDC00 \<le> d \<and> d < 0xE000
                then pcts ((c - 0xD800) * 0x400 + (d - 0xDC00) + 0x10000) @ URLEncoder_encode s'
                else pcts 63 @ URLEncoder_encode s
            | [] \<Rightarrow> pcts 63))"

subsection \<open>The page of a new task\<close>

text \<open>The loop over the values: a value that cannot be decoded stops it with an exception.\<close>

fun put_values :: "(jstring \<times> jstring) list \<Rightarrow> (jstring \<Rightarrow> jstring) \<Rightarrow> bool \<times> (jstring \<Rightarrow> jstring)" where
  "put_values [] fields = (True, fields)"
| "put_values ((k, v) # vs) fields =
     (if v \<noteq> []
      then (case decodeURIComponent v of None \<Rightarrow> (False, fields) | Some d \<Rightarrow> put_values vs (fields(k := d)))
      else put_values vs fields)"

definition prefill :: "jstring \<Rightarrow> jstring \<Rightarrow> (jstring \<times> jstring) list \<Rightarrow> (jstring \<Rightarrow> jstring) \<Rightarrow> bool \<times> (jstring \<Rightarrow> jstring)" where
  "prefill taskId href cookieArr fields =
     (if taskId = []
      then let isTemplateRefer = includes_str href (js ''templateId='');
               cs = (if isTemplateRefer then filter (\<lambda>(k, v). k \<noteq> js ''templateId'' \<and> k \<noteq> js ''subject'') cookieArr else cookieArr)
           in put_values cs fields
      else (True, fields))"

subsection \<open>Lemmas\<close>

text \<open>A text of which every surrogate has its partner.\<close>

fun well_formed :: "jstring \<Rightarrow> bool" where
  "well_formed [] = True"
| "well_formed (c # s) =
     (if surrogate c
      then (case s of d # s' \<Rightarrow> c < 0xDC00 \<and> 0xDC00 \<le> d \<and> d < 0xE000 \<and> well_formed s' | [] \<Rightarrow> False)
      else c < 0x10000 \<and> well_formed s)"

lemma hex_val_digit: "n < 16 \<Longrightarrow> hex_val (hex_digit n) = Some n"
  by (auto simp: hex_val_def hex_digit_def is_digit_def)

lemma pct_byte_pct: "b < 256 \<Longrightarrow> pct_byte (pct b @ r) = Some (b, r)"
  by (simp add: pct_byte_def pct_def hex_val_digit)

lemma pct_bytes_pct:
  "\<forall>b \<in> set bs. 0x80 \<le> b \<and> b < 0xC0 \<Longrightarrow> pct_bytes (length bs) (concat (map pct bs) @ r) = Some (bs, r)"
  by (induction bs) (simp_all add: pct_byte_pct)

lemma utf8_val_utf8: "v < 0x110000 \<Longrightarrow> utf8_val (utf8 v) = v"
proof -
  assume v: "v < 0x110000"
  have "v div 4096 * 64 + v div 64 mod 64 = v div 64"
    using div_mult_mod_eq [of "v div 64" 64] by (simp add: div_mult2_eq [symmetric])
  moreover have "v div 262144 * 64 + v div 4096 mod 64 = v div 4096"
    using div_mult_mod_eq [of "v div 4096" 64] by (simp add: div_mult2_eq [symmetric])
  moreover have "v div 64 * 64 + v mod 64 = v" by simp
  ultimately show ?thesis by (auto simp: utf8_def utf8_val_def mult.commute)
qed

lemma utf8_shape:
  assumes "v < 0x110000"
  obtains b bs where "utf8 v = b # bs" "b < 256" "utf8_tail b = Some (length bs)" "\<forall>c \<in> set bs. 0x80 \<le> c \<and> c < 0xC0"
proof -
  consider "v < 0x80" | "0x80 \<le> v" "v < 0x800" | "0x800 \<le> v" "v < 0x10000" | "0x10000 \<le> v" by linarith
  then show thesis
  proof cases
    case 1
    then show thesis by (intro that [of v "[]"]) (simp_all add: utf8_def utf8_tail_def)
  next
    case 2
    moreover have "v div 64 < 32" using 2 by simp
    ultimately show thesis by (intro that [of "0xC0 + v div 64" "[0x80 + v mod 64]"]) (simp_all add: utf8_def utf8_tail_def)
  next
    case 3
    moreover have "v div 4096 < 16" using 3 by simp
    ultimately show thesis
      by (intro that [of "0xE0 + v div 4096" "[0x80 + v div 64 mod 64, 0x80 + v mod 64]"]) (simp_all add: utf8_def utf8_tail_def)
  next
    case 4
    moreover have "v div 262144 < 8" using assms by simp
    ultimately show thesis
      by (intro that [of "0xF0 + v div 262144" "[0x80 + v div 4096 mod 64, 0x80 + v div 64 mod 64, 0x80 + v mod 64]"])
        (simp_all add: utf8_def utf8_tail_def)
  qed
qed

text \<open>The escapes of a character read back as the character.\<close>

lemma decode_pcts:
  assumes "v < 0x110000" "\<not> surrogate v"
  shows "decodeURIComponent (pcts v @ r) = map_option ((@) (utf16 v)) (decodeURIComponent r)"
proof -
  obtain b bs where u: "utf8 v = b # bs" "b < 256" "utf8_tail b = Some (length bs)" "\<forall>c \<in> set bs. 0x80 \<le> c \<and> c < 0xC0"
    by (rule utf8_shape [OF assms(1)])
  have val: "utf8_val (b # bs) = v" "utf8_valid (b # bs)"
    using utf8_val_utf8 [OF assms(1)] assms u(1) by (simp_all add: utf8_valid_def)
  have "pct_char (pct b @ concat (map pct bs) @ r) = Some (v, r)"
    using u val by (simp add: pct_char_def pct_byte_pct pct_bytes_pct)
  moreover obtain a c where "pct b = 37 # [a, c]" by (simp add: pct_def)
  ultimately show ?thesis by (simp add: pcts_def u(1))
qed

lemma utf16_pair:
  assumes "0xD800 \<le> c" "c < 0xDC00" "0xDC00 \<le> d" "d < 0xE000"
  defines "v \<equiv> (c - 0xD800) * 0x400 + (d - 0xDC00) + 0x10000"
  shows "utf16 v = [c, d]" "v < 0x110000" "\<not> surrogate v"
proof -
  define a b where "a = c - 0xD800" and "b = d - 0xDC00"
  then have "c = 0xD800 + a" "a < 0x400" "d = 0xDC00 + b" "b < 0x400" using assms by simp_all
  then show "utf16 v = [c, d]" "v < 0x110000" "\<not> surrogate v"
    by (simp_all add: utf16_def surrogate_def v_def)
qed

lemma plain_decode: "c \<noteq> 37 \<Longrightarrow> decodeURIComponent (c # s) = map_option ((#) c) (decodeURIComponent s)"
  by simp

declare decodeURIComponent.simps(2) [simp del]

text \<open>What \<open>encodeURIComponent\<close> writes reads back.\<close>

lemma decode_encode: "well_formed s \<Longrightarrow> \<exists>e. encodeURIComponent s = Some e \<and> decodeURIComponent e = Some s"
proof (induction s rule: well_formed.induct)
  case (2 c s)
  show ?case
  proof (cases "surrogate c")
    case True
    with "2.prems" obtain d s' where s: "s = d # s'" "c < 0xDC00" "0xDC00 \<le> d" "d < 0xE000" "well_formed s'"
      by (auto split: list.splits)
    with "2.IH"(1) [OF True s(1)] obtain e where e: "encodeURIComponent s' = Some e" "decodeURIComponent e = Some s'" by auto
    have c: "0xD800 \<le> c" using True by (simp add: surrogate_def)
    note p = utf16_pair [OF c s(2-4)]
    have "\<not> uri_unreserved c" using c by (auto simp: uri_unreserved_def)
    with c s e show ?thesis using decode_pcts [OF p(2,3), of e] p(1) by (simp add: pcts_def)
  next
    case False
    with 2 obtain e where e: "encodeURIComponent s = Some e" "decodeURIComponent e = Some s" and c: "c < 0x10000" by auto
    show ?thesis
    proof (cases "uri_unreserved c")
      case True
      then have "c \<noteq> 37" by (auto simp: uri_unreserved_def)
      with True e show ?thesis by (simp add: plain_decode)
    next
      case plain: False
      with False e show ?thesis using decode_pcts [of c e] c by (auto simp: pcts_def surrogate_def utf16_def)
    qed
  qed
qed simp

text \<open>What the server stores reads back with a plus for every blank.\<close>

definition plus_for_blank :: "jstring \<Rightarrow> jstring" where
  "plus_for_blank s = map (\<lambda>c. if c = 32 then 43 else c) s"

lemma plus_simps [simp]: "plus_for_blank [] = []" "plus_for_blank (c # s) = (if c = 32 then 43 else c) # plus_for_blank s"
  by (simp_all add: plus_for_blank_def)

lemma decode_form: "well_formed s \<Longrightarrow> decodeURIComponent (URLEncoder_encode s) = Some (plus_for_blank s)"
proof (induction s rule: well_formed.induct)
  case (2 c s)
  show ?case
  proof (cases "surrogate c")
    case True
    with "2.prems" obtain d s' where s: "s = d # s'" "c < 0xDC00" "0xDC00 \<le> d" "d < 0xE000" "well_formed s'"
      by (auto split: list.splits)
    have c: "0xD800 \<le> c" using True by (simp add: surrogate_def)
    note p = utf16_pair [OF c s(2-4)]
    have "\<not> form_plain c" "c \<noteq> 32" "d \<noteq> 32" using c s(3) by (auto simp: form_plain_def)
    with True s "2.IH"(1) [OF True s(1)] show ?thesis using decode_pcts [OF p(2,3)] p(1) by simp
  next
    case False
    with 2 have e: "decodeURIComponent (URLEncoder_encode s) = Some (plus_for_blank s)" and c: "c < 0x10000" by auto
    have "form_plain c \<Longrightarrow> c \<noteq> 37 \<and> c \<noteq> 32" by (auto simp: form_plain_def)
    with False e c show ?thesis using decode_pcts [of c] by (auto simp: plain_decode utf16_def)
  qed
qed simp

lemma form_empty: "URLEncoder_encode s = [] \<longleftrightarrow> s = []"
proof -
  have "utf8 v \<noteq> []" for v by (simp add: utf8_def)
  then have p: "pcts v \<noteq> []" for v by (cases "utf8 v") (auto simp: pcts_def pct_def)
  have "URLEncoder_encode (c # r) \<noteq> []" for c r
    by (subst URLEncoder_encode.simps) (simp add: p del: URLEncoder_encode.simps split: list.split)
  then show ?thesis by (cases s) simp_all
qed

abbreviation stored :: "(jstring \<times> jstring) list \<Rightarrow> (jstring \<times> jstring) list" where
  "stored vs \<equiv> map (\<lambda>(k, s). (k, URLEncoder_encode s)) vs"

lemma put_stored:
  "distinct (map fst vs) \<Longrightarrow> \<forall>(k, s) \<in> set vs. well_formed s \<Longrightarrow>
     put_values (stored vs) fields =
       (True, \<lambda>k. case map_of vs k of Some s \<Rightarrow> if s = [] then fields k else plus_for_blank s | None \<Rightarrow> fields k)"
proof (induction vs arbitrary: fields)
  case (Cons p vs)
  obtain k s where p: "p = (k, s)" by fastforce
  then have k: "map_of vs k = None" and s: "well_formed s" using Cons.prems by (auto simp: map_of_eq_None_iff)
  have IH: "put_values (stored vs) g =
      (True, \<lambda>k. case map_of vs k of Some s \<Rightarrow> if s = [] then g k else plus_for_blank s | None \<Rightarrow> g k)" for g
    using Cons by simp
  show ?case
    by (cases "s = []") (simp_all add: p IH form_empty decode_form [OF s] fun_eq_iff k split: option.split)
qed simp

lemma stored_filter: "filter (\<lambda>(k, v). P k) (stored vs) = stored (filter (\<lambda>(k, s). P k) vs)"
  by (induction vs) auto

lemma map_of_keys: "map_of (filter (\<lambda>(k, s). P k) vs) k = (if P k then map_of vs k else None)"
  by (induction vs) auto

subsection \<open>Properties\<close>

text \<open>C24: On the page of a new task every field gets the value the last task had there, but with a plus for
  every blank; fields whose value was empty keep theirs, and if the page was opened for a template, the
  fields for the template and the subject keep theirs too. Nothing is raised.\<close>

theorem prefill_restores:
  assumes "distinct (map fst vs)" and "\<forall>(k, s) \<in> set vs. well_formed s"
  shows "prefill [] href (map (\<lambda>(k, s). (k, URLEncoder_encode s)) vs) fields =
    (True, \<lambda>k. case map_of vs k of
        Some s \<Rightarrow> if s = [] \<or> includes_str href (js ''templateId='') \<and> (k = js ''templateId'' \<or> k = js ''subject'')
                  then fields k else plus_for_blank s
      | None \<Rightarrow> fields k)"
proof -
  let ?P = "\<lambda>k. k \<noteq> js ''templateId'' \<and> k \<noteq> js ''subject''"
  have d: "distinct (map fst (filter (\<lambda>(k, s). ?P k) vs))" using assms(1) by (simp add: distinct_map_filter)
  have w: "\<forall>(k, s) \<in> set (filter (\<lambda>(k, s). ?P k) vs). well_formed s" using assms(2) by auto
  show ?thesis
  proof (cases "includes_str href (js ''templateId='')")
    case True
    then have "prefill [] href (stored vs) fields = put_values (stored (filter (\<lambda>(k, s). ?P k) vs)) fields"
      by (simp add: prefill_def stored_filter del: put_values.simps)
    also have "\<dots> = (True, \<lambda>k. case map_of vs k of
        Some s \<Rightarrow> if s = [] \<or> k = js ''templateId'' \<or> k = js ''subject'' then fields k else plus_for_blank s | None \<Rightarrow> fields k)"
      unfolding put_stored [OF d w] by (rule arg_cong [of _ _ "Pair True"], rule ext) (simp add: map_of_keys split: option.split)
    finally show ?thesis by (simp only: True simp_thms)
  next
    case False
    then have "prefill [] href (stored vs) fields = put_values (stored vs) fields" by (simp add: prefill_def)
    also note put_stored [OF assms]
    finally show ?thesis by (simp only: False simp_thms)
  qed
qed

theorem prefill_restores_witness:
  "prefill [] [] [(js ''subject'', js ''a+%E4%BD%A0'')] (\<lambda>k. []) = (True, (\<lambda>k. [])(js ''subject'' := [97, 43, 0x4F60]))"
proof -
  have "URLEncoder_encode [97, 32, 0x4F60] = js ''a+%E4%BD%A0''"
    by (simp add: form_plain_def surrogate_def pcts_def utf8_def pct_def hex_digit_def js_def)
  then show ?thesis
    using prefill_restores [of "[(js ''subject'', [97, 32, 0x4F60])]" "[]" "\<lambda>k. []"]
    by (auto simp: surrogate_def includes_str_def js_def fun_eq_iff)
qed

end
