(* ===== verification/MasterSelect.thy ===== *)
theory MasterSelect
  imports Select Search Master
begin

text \<open>
  The drop-down lists and choosers of the operators' site (\<open>resources/script/common/select.js\<close>,
  \<open>jquery.edm.search.js\<close>), where they differ from those of the customers' site. The list, its place and
  the press of the mouse are the same code (theory \<open>Select\<close>). A click hides the frame first if its trigger
  was clicked before (\<open>$boxId\<close> is not null) and does not raise it; a stored value that names nothing
  is kept.
\<close>

subsection \<open>Drop-down lists\<close>

record m_sel_page = sel_page +
  sel_boxed :: "jstring list"  \<comment> \<open>the triggers whose \<open>$boxId\<close> is not null\<close>

definition m_sel_click ::
  "browser \<Rightarrow> sel_opts \<Rightarrow> jstring \<Rightarrow> jstring \<Rightarrow> (bool \<times> jstring) list \<Rightarrow> (jstring \<Rightarrow> jstring option) \<Rightarrow> sel_geo
     \<Rightarrow> 'a m_sel_page_scheme \<Rightarrow> 'a m_sel_page_scheme" where
  "m_sel_click b p i val boxes answer g s =
     (let s = (if i \<in> set (sel_boxed s) then hide_el frame s else s);
          s = (set_html frame [] s)\<lparr>frame_place := None\<rparr>;
          old_id = select_id s;
          s = s\<lparr>select_id := js ''se_'' @ i\<rparr>
      in case sel_url p boxes of
           None \<Rightarrow> m_error_message b (so_url_error p) 1 0 0 [] s
         | Some opn_url \<Rightarrow>
             (let s = (case so_arrdata p of None \<Rightarrow> s | Some rs \<Rightarrow> set_html frame (sel_list p i val rs) s);
                  s = (if so_html p \<noteq> [] then set_html frame (so_html p) s else s);
                  s = (if so_url p \<noteq> [] then (case answer opn_url of Some m \<Rightarrow> set_html frame m s | None \<Rightarrow> s) else s);
                  s = s\<lparr>frame_place := Some (sel_position b p g)\<rparr>;
                  s = (if old_id = js ''se_'' @ i then hide_el frame (s\<lparr>select_id := []\<rparr>) else show_el frame s);
                  s = s\<lparr>sel_boxed := i # sel_boxed s\<rparr>
              in s\<lparr>sel_bound := sel_bound s @ [i]\<rparr>))"

definition m_sel_press ::
  "browser \<Rightarrow> sel_opts \<Rightarrow> jstring \<Rightarrow> jstring \<Rightarrow> (bool \<times> jstring) list \<Rightarrow> (jstring \<Rightarrow> jstring option) \<Rightarrow> sel_geo
     \<Rightarrow> 'a m_sel_page_scheme \<Rightarrow> 'a m_sel_page_scheme" where
  "m_sel_press b p i val boxes answer g s = m_sel_click b p i val boxes answer g (sel_mousedown False i s)"

subsection \<open>The field of a stored value\<close>

text \<open>\<open>subArr\<close> is collected only if it is an array.\<close>

fun m_init_items :: "bool \<Rightarrow> jstring \<Rightarrow> item list \<Rightarrow> jstring list \<times> picker \<Rightarrow> jstring list \<times> picker" where
  "m_init_items arr i [] acc = acc"
| "m_init_items arr i (it # its) (textArr, p) =
     (if chosen i it
      then (let textArr = textArr @ [it_title it];
                p = p\<lparr>pk_text := (if length textArr = 1 then textArr ! 0 else join (js '', '') textArr)\<rparr>;
                p = (if arr then p\<lparr>pk_sub := pk_sub p @ [item_row it]\<rparr> else p)
            in m_init_items arr i its (textArr, p))
      else m_init_items arr i its (textArr, p))"

fun m_init_cats :: "bool \<Rightarrow> jstring \<Rightarrow> (jstring \<times> item list) list \<Rightarrow> jstring list \<times> picker \<Rightarrow> jstring list \<times> picker" where
  "m_init_cats arr i [] acc = acc"
| "m_init_cats arr i ((key, obj) # r) acc = m_init_cats arr i r (m_init_items arr i obj acc)"

definition m_initInput :: "bool \<Rightarrow> json \<Rightarrow> picker \<Rightarrow> picker" where
  "m_initInput arr json p =
     (let i = pk_value p
      in if i = [] then p
         else snd (case json of Flat obj \<Rightarrow> m_init_items arr i obj ([], p) | Cats cs \<Rightarrow> m_init_cats arr i cs ([], p)))"

subsection \<open>Lemmas\<close>

lemma sel_handlers_boxed [simp]: "sel_boxed (sel_handlers inside target ws s) = sel_boxed s"
  by (induction ws arbitrary: s) (simp_all add: hide_el_def)

text \<open>A click that is not refused does what it does on the customers' site, but for the place of the frame
  above or below others.\<close>

lemma m_sel_click_same:
  assumes "sel_url p boxes = Some url"
  shows "m_sel_click b p i val boxes answer g s =
    (sel_click b p i val boxes answer g s)\<lparr>max_index := max_index s, z_index := z_index s, sel_boxed := i # sel_boxed s\<rparr>"
  by (simp add: m_sel_click_def sel_click_def assms Let_def set_html_def show_el_def hide_el_def setMaxIndex_single fun_eq_iff
      split: option.split)

lemma m_init_items_eq:
  "m_init_items arr i its (ts, p) = (let (ts', q, f) = init_items i its (ts, p, False)
     in (ts', if arr then q else q\<lparr>pk_sub := pk_sub p\<rparr>))"
proof (induction its arbitrary: ts p)
  case (Cons it its)
  then show ?case by (simp add: init_items_eq Let_def)
qed (simp add: init_items_eq)

lemma m_init_cats_eq: "m_init_cats arr i cs acc = m_init_items arr i (concat (map snd cs)) acc"
proof (induction cs arbitrary: acc)
  case (Cons c cs)
  obtain key obj where "c = (key, obj)" by (cases c)
  moreover have "m_init_items arr i (xs @ ys) acc = m_init_items arr i ys (m_init_items arr i xs acc)" for xs ys
    by (induction xs arbitrary: acc) (auto simp: Let_def)
  ultimately show ?case using Cons by simp
qed simp

text \<open>The two sites fill a chooser alike, unless the stored value names nothing that is offered: the
  operators' site then keeps the value, which is sent although nothing is shown.\<close>

lemma m_initInput_eq:
  "m_initInput arr json p =
     (if pk_value p \<noteq> [] \<and> (\<exists>it \<in> set (offered json None). chosen (pk_value p) it)
      then (initInput json p)\<lparr>pk_sub := if arr then pk_sub (initInput json p) else pk_sub p\<rparr>
      else p)"
proof -
  have "m_initInput arr json p = (if pk_value p = [] then p else snd (m_init_items arr (pk_value p) (offered json None) ([], p)))"
    by (simp add: m_initInput_def m_init_cats_eq offered_def Let_def split: json.split)
  then show ?thesis
    by (auto simp: m_init_items_eq init_items_eq initInput_eq Let_def filter_empty_conv)
qed

lemma m_error_message_kept [simp]:
  "shown (m_error_message b m bg t d url u) = shown u" "select_id (m_error_message b m bg t d url u) = select_id u"
  by (simp_all add: m_error_message_def Let_def setTimeout_def clearTimeout_def)

lemma frame_ok_place: "frame_ok (s\<lparr>max_index := m, z_index := z, sel_boxed := bs\<rparr>) = frame_ok s"
  by (simp add: frame_ok_def)

text \<open>Pressing a trigger closes its list or opens it, whatever was open before, and leaves the frame where
  it is in the stack.\<close>

lemma m_select_press_toggles:
  assumes "frame_ok s" and "sel_url p boxes = Some url" and "s' = m_sel_press b p i val boxes answer g s"
  shows "frame_ok s'"
    and "if select_id s = js ''se_'' @ i then \<not> shown s' frame \<and> select_id s' = []
      else shown s' frame \<and> select_id s' = js ''se_'' @ i \<and> html s' frame = sel_content p i val answer url"
    and "z_index s' = z_index (sel_mousedown False i s)"
proof -
  let ?m = "sel_mousedown False i s"
  have m: "set (sel_bound ?m) \<subseteq> {i}" "select_id ?m = js ''se_'' @ i \<longleftrightarrow> select_id s = js ''se_'' @ i"
    using mousedown_trigger [OF assms(1), of i] by auto
  have s': "s' = (sel_click b p i val boxes answer g ?m)\<lparr>max_index := max_index ?m, z_index := z_index ?m, sel_boxed := i # sel_boxed ?m\<rparr>"
    by (simp add: assms(3) m_sel_press_def m_sel_click_same [OF assms(2)])
  note f = sel_click_fields [OF assms(2), of b i val answer g ?m]
  show "frame_ok s'" unfolding s' frame_ok_place using f m by (auto simp: frame_ok_def intro!: exI [of _ i])
  show "if select_id s = js ''se_'' @ i then \<not> shown s' frame \<and> select_id s' = []
      else shown s' frame \<and> select_id s' = js ''se_'' @ i \<and> html s' frame = sel_content p i val answer url"
    using f m(2) by (simp add: s')
  show "z_index s' = z_index ?m" by (simp add: s')
qed

text \<open>A press that is refused hides a frame that its trigger opened, but the frame keeps the id of the
  trigger: the next press does not open it.\<close>

lemma m_press_refused:
  assumes "frame_ok s" and "i \<in> set (sel_boxed s)" and "sel_url p none = None" and "sel_url p boxes = Some url"
    and "r = m_sel_press b p i val none answer g s" and "r2 = m_sel_press b p i val boxes answer g r"
  shows "\<not> shown r frame \<and> select_id r = js ''se_'' @ i \<and> \<not> shown r2 frame"
proof -
  let ?m = "sel_mousedown False i s"
  have msg: "ui.more (m_error_message b m bg t d url u) = ui.more u" for m bg t d url and u :: "'a m_sel_page_scheme"
    by (rule m_error_message_fields)
  have bound: "sel_bound (m_error_message b m bg t d url u) = sel_bound u" for m bg t d url and u :: "'a m_sel_page_scheme"
    using msg by (rule sel_more)
  have r: "\<not> shown r frame" "select_id r = js ''se_'' @ i" "sel_bound r = sel_bound ?m"
    using assms(2) by (simp_all add: assms(5) m_sel_press_def m_sel_click_def assms(3) Let_def sel_mousedown_def hide_el_def set_html_def bound)
  have "set (sel_bound ?m) \<subseteq> {i}" using mousedown_trigger [OF assms(1), of i] by auto
  then have "sel_mousedown False i r = r" using r(3) by (simp add: sel_mousedown_def sel_handlers_none)
  then have "\<not> shown r2 frame"
    using r(2) sel_click_fields(2) [OF assms(4), of b i val answer g r] by (simp add: assms(6) m_sel_press_def m_sel_click_same [OF assms(4)])
  with r show ?thesis by simp
qed

end
