(* ===== verification/MessageBox.thy ===== *)
theory MessageBox
  imports JsString
begin

text \<open>
  The messages of the operators' site (\<open>messagebox\<close> in \<open>Messagebox/Scripts/Jquery.L.Message.js\<close>): a box that
  fades in for a second, and from then on waits for its delay before it fades out or the page goes
  to an address. The callback of a fade comes a second after its start, also if the box was removed
  meanwhile (jQuery keeps the animation of a removed element running). Times are in milliseconds.
\<close>

record msg_box =
  mb_text :: jstring
  mb_style :: int       \<comment> \<open>1: good news, 0: an error, else a warning\<close>
  mb_since :: int       \<comment> \<open>when it was put up\<close>
  mb_delay :: int

record msg_page =
  mb_clock :: int
  mb_box :: "msg_box option"             \<comment> \<open>\<open>#msgprint\<close>, while it is not fading out\<close>
  mb_fades :: "(int \<times> int) list"         \<comment> \<open>the fades under way: their end, and the delay to wait then\<close>
  mb_waits :: "(nat \<times> int) list"         \<comment> \<open>the timers: handle and due time\<close>
  mb_timer :: "nat option"               \<comment> \<open>\<open>messagebox_timer\<close>\<close>
  mb_next :: nat
  mb_url :: jstring                      \<comment> \<open>\<open>returnurl\<close>\<close>
  mb_outs :: "(int \<times> msg_box) list"      \<comment> \<open>what has faded out, and when\<close>
  mb_gone :: "jstring list"              \<comment> \<open>where the page was sent\<close>

definition mb_clear :: "nat option \<Rightarrow> msg_page \<Rightarrow> msg_page" where
  "mb_clear h s = s\<lparr>mb_waits := filter (\<lambda>(k, t). Some k \<noteq> h) (mb_waits s)\<rparr>"

definition messagebox_show :: "jstring \<Rightarrow> jstring \<Rightarrow> int \<Rightarrow> int option \<Rightarrow> msg_page \<Rightarrow> msg_page" where
  "messagebox_show text url type delay s =
     (let s = mb_clear (mb_timer s) s;
          s = s\<lparr>mb_box := None\<rparr>;
          d = (case delay of None \<Rightarrow> 5000 | Some d \<Rightarrow> d);
          s = s\<lparr>mb_url := url\<rparr>;
          s = s\<lparr>mb_box := Some \<lparr>mb_text = text, mb_style = type, mb_since = mb_clock s, mb_delay = d\<rparr>\<rparr>
      in s\<lparr>mb_fades := mb_fades s @ [(mb_clock s + 1000, d)]\<rparr>)"

text \<open>The end of a fade: the timer is set.\<close>

definition fade_done :: "int \<times> int \<Rightarrow> msg_page \<Rightarrow> msg_page" where
  "fade_done f s =
     (case f of (t, d) \<Rightarrow>
        s\<lparr>mb_clock := t, mb_fades := remove1 f (mb_fades s), mb_waits := mb_waits s @ [(mb_next s, t + d)],
          mb_timer := Some (mb_next s), mb_next := Suc (mb_next s)\<rparr>)"

definition messagebox_out :: "msg_page \<Rightarrow> msg_page" where
  "messagebox_out s =
     (let s = (if mb_url s = []
               then (case mb_box s of Some m \<Rightarrow> s\<lparr>mb_outs := mb_outs s @ [(mb_clock s, m)], mb_box := None\<rparr> | None \<Rightarrow> s) else s)
      in if mb_url s = js ''back'' then s\<lparr>mb_gone := mb_gone s @ [js ''back'']\<rparr>
         else if mb_url s \<noteq> [] then s\<lparr>mb_gone := mb_gone s @ [mb_url s]\<rparr> else s)"

definition wait_done :: "nat \<times> int \<Rightarrow> msg_page \<Rightarrow> msg_page" where
  "wait_done w s = messagebox_out (s\<lparr>mb_clock := snd w, mb_waits := remove1 w (mb_waits s)\<rparr>)"

text \<open>What comes next: nothing that is due is passed over.\<close>

definition mb_due :: "msg_page \<Rightarrow> int list" where
  "mb_due s = map fst (mb_fades s) @ map snd (mb_waits s)"

text \<open>\<open>calm\<close> says that messages come only when no box is fading in.\<close>

inductive mb_step :: "bool \<Rightarrow> msg_page \<Rightarrow> msg_page \<Rightarrow> bool" for calm where
  show_msg: "(calm \<Longrightarrow> mb_fades s = []) \<Longrightarrow> mb_step calm s (messagebox_show text url type delay s)"
| fade: "f \<in> set (mb_fades s) \<Longrightarrow> \<forall>t \<in> set (mb_due s). fst f \<le> t \<Longrightarrow> mb_step calm s (fade_done f s)"
| out: "w \<in> set (mb_waits s) \<Longrightarrow> \<forall>t \<in> set (mb_due s). snd w \<le> t \<Longrightarrow> mb_step calm s (wait_done w s)"
| time: "mb_clock s \<le> t \<Longrightarrow> \<forall>u \<in> set (mb_due s). t \<le> u \<Longrightarrow> mb_step calm s (s\<lparr>mb_clock := t\<rparr>)"

definition mb_start :: "int \<Rightarrow> msg_page" where
  "mb_start t = \<lparr>mb_clock = t, mb_box = None, mb_fades = [], mb_waits = [], mb_timer = None, mb_next = 0, mb_url = [],
     mb_outs = [], mb_gone = []\<rparr>"

subsection \<open>Lemmas\<close>

text \<open>In calm: either the box is fading in, or its timer is the only one and the one that is remembered,
  or nothing is under way.\<close>

definition mb_ok :: "msg_page \<Rightarrow> bool" where
  "mb_ok s \<longleftrightarrow>
     ((\<exists>m. mb_box s = Some m \<and> mb_fades s = [(mb_since m + 1000, mb_delay m)] \<and> mb_waits s = [])
      \<or> (\<exists>m h. mb_box s = Some m \<and> mb_fades s = [] \<and> mb_waits s = [(h, mb_since m + 1000 + mb_delay m)] \<and> mb_timer s = Some h)
      \<or> (mb_fades s = [] \<and> mb_waits s = []))
     \<and> (\<forall>(t, m) \<in> set (mb_outs s). t = mb_since m + 1000 + mb_delay m)"

lemma mb_step_ok: "mb_step True s s' \<Longrightarrow> mb_ok s \<Longrightarrow> mb_ok s'"
proof (induction rule: mb_step.induct)
  case (show_msg s m u ty d)
  then show ?case by (auto simp: mb_ok_def messagebox_show_def mb_clear_def Let_def)
next
  case (fade f s)
  then show ?case by (auto simp: mb_ok_def fade_done_def)
next
  case (out w s)
  then show ?case by (auto simp: mb_ok_def wait_done_def messagebox_out_def Let_def split: option.splits)
next
  case (time s t)
  then show ?case by (auto simp: mb_ok_def)
qed

lemma mb_steps_ok: "(mb_step True)\<^sup>*\<^sup>* s s' \<Longrightarrow> mb_ok s \<Longrightarrow> mb_ok s'"
  by (induction rule: rtranclp_induct) (auto intro: mb_step_ok)

subsection \<open>How long a message stands\<close>

text \<open>C32: If every message comes when no other one is fading in, then whatever comes in whatever order,
  each box that fades out has stood for its second and its delay, and there is never more than one timer
  and it is the one the page remembers.\<close>

theorem messages_full_time:
  assumes "(mb_step True)\<^sup>*\<^sup>* (mb_start t) s"
  shows "(\<forall>(u, m) \<in> set (mb_outs s). u = mb_since m + 1000 + mb_delay m) \<and> length (mb_waits s) \<le> 1
    \<and> (\<forall>h \<in> fst ` set (mb_waits s). mb_timer s = Some h)"
proof -
  have "mb_ok (mb_start t)" by (simp add: mb_ok_def mb_start_def)
  with assms have "mb_ok s" by (rule mb_steps_ok)
  then show ?thesis by (auto simp: mb_ok_def)
qed

theorem messages_full_time_witness:
  "length (mb_waits (messagebox_show (js ''b'') [] 0 None (fade_done (1000, 2000) (messagebox_show (js ''a'') [] 1 (Some 2000) (mb_start 0))))) \<le> 1"
proof -
  let ?s1 = "messagebox_show (js ''a'') [] 1 (Some 2000) (mb_start 0)"
  have "mb_step True (mb_start 0) ?s1" by (rule mb_step.show_msg) (simp add: mb_start_def)
  moreover have "mb_step True ?s1 (fade_done (1000, 2000) ?s1)"
    by (rule mb_step.fade) (simp_all add: messagebox_show_def mb_clear_def mb_start_def mb_due_def Let_def)
  moreover have "mb_step True (fade_done (1000, 2000) ?s1) (messagebox_show (js ''b'') [] 0 None (fade_done (1000, 2000) ?s1))"
    by (rule mb_step.show_msg) (simp add: fade_done_def messagebox_show_def mb_clear_def mb_start_def Let_def)
  ultimately have "(mb_step True)\<^sup>*\<^sup>* (mb_start 0) (messagebox_show (js ''b'') [] 0 None (fade_done (1000, 2000) ?s1))"
    by (blast intro: converse_rtranclp_into_rtranclp)
  from messages_full_time [OF this] show ?thesis by blast
qed

text \<open>A message that comes while another one fades in: the timer of the first one is set after the second
  one looked for it, so nothing clears it, and it takes the second one away. Here the second message,
  shown half a second after the first, is to stand for five seconds and goes after one and a half.\<close>

definition mb_race :: "msg_page list" where
  "mb_race =
     (let s1 = messagebox_show (js ''a'') [] 1 (Some 2000) (mb_start 0);
          s2 = s1\<lparr>mb_clock := 500\<rparr>;
          s3 = messagebox_show (js ''b'') [] 0 (Some 5000) s2;
          s4 = fade_done (1000, 2000) s3;
          s5 = fade_done (1500, 5000) s4
      in [mb_start 0, s1, s2, s3, s4, s5, wait_done (0, 3000) s5])"

lemma message_cut_short:
  "\<exists>s. (mb_step False)\<^sup>*\<^sup>* (mb_start 0) s \<and> (\<exists>(u, m) \<in> set (mb_outs s). u = 3000 \<and> mb_since m + 1000 + mb_delay m = 6500)"
proof -
  let ?s = "\<lambda>i. mb_race ! i"
  note d = mb_race_def Let_def messagebox_show_def mb_clear_def fade_done_def mb_start_def mb_due_def
  have a: "mb_step False (?s 0) (?s 1)" unfolding mb_race_def Let_def by simp (rule mb_step.show_msg, simp)
  have b: "mb_step False (?s 1) (?s 2)" unfolding mb_race_def Let_def by simp (rule mb_step.time; simp add: d)
  have c: "mb_step False (?s 2) (?s 3)" unfolding mb_race_def Let_def by simp (rule mb_step.show_msg, simp)
  have d': "mb_step False (?s 3) (?s 4)" unfolding mb_race_def Let_def by simp (rule mb_step.fade; simp add: d)
  have e: "mb_step False (?s 4) (?s 5)" unfolding mb_race_def Let_def by simp (rule mb_step.fade; simp add: d)
  have f: "mb_step False (?s 5) (?s 6)" unfolding mb_race_def Let_def by simp (rule mb_step.out; simp add: d)
  have "(mb_step False)\<^sup>*\<^sup>* (?s 0) (?s 6)"
    by (rule converse_rtranclp_into_rtranclp [OF a converse_rtranclp_into_rtranclp [OF b converse_rtranclp_into_rtranclp [OF c
        converse_rtranclp_into_rtranclp [OF d' converse_rtranclp_into_rtranclp [OF e r_into_rtranclp [of "mb_step False", OF f]]]]]])
  moreover have "?s 0 = mb_start 0" by (simp add: mb_race_def Let_def)
  moreover have "mb_outs (?s 6) = [(3000, \<lparr>mb_text = js ''b'', mb_style = 0, mb_since = 500, mb_delay = 5000\<rparr>)]"
    by (simp add: d wait_done_def messagebox_out_def js_def)
  ultimately show ?thesis by (intro exI [of _ "?s 6"]) simp
qed

end
