(* ===== verification/Spec2Isabelle.thy ===== *)
theory Spec2Isabelle
  imports Task Trigger Layout Import Campaign Account
    Roles Delivery DeliveryRules Select Tips Steps Export Reports ZTree Auditing Menu Pages Charts Prefill MasterSelect MessageBox
begin

text \<open>
  Verification of the browser side of the EDM mailing system.

  \<^bold>\<open>The program.\<close> Two web applications send mass mail: \<open>src/webadmin\<close>, the site of the customers, and
  \<open>src/webmaster\<close>, the site of the operators. Their logic in JavaScript is in
  \<open>webadmin/A001/WebRoot/static/js\<close> and \<open>webmaster/A001/WebRoot/resources/script\<close>. A page is a set of
  handlers over the state of one document: fields with hidden values, boxes that are shown and
  hidden, timers, and requests whose answers come back as objects with a code and a message. The
  helpers in \<open>common/\<close> are shared by all pages: messages, masks and pop-ups (\<open>base.js\<close>), the
  drop-down lists (\<open>select.js\<close>), the search boxes and tips (\<open>jquery.edm.search.js\<close>), the multiple
  choice of links (\<open>Mselect.js\<close>) and the links of a list (\<open>pagination.js\<close>).

  \<^bold>\<open>How it is modelled.\<close> The state of a page is a record that extends \<open>ui\<close> of the theory \<open>Ui\<close>; a
  handler is a function from the state to the state, whole, with its early returns as branches. An
  exception is \<open>None\<close>, or \<open>False\<close> beside the state where the page goes on after it; a check that
  returns \<open>false\<close> is \<open>Inl\<close>. What the browser, the server and the user contribute is an argument:
  sizes and the clock (\<open>browser\<close>), geometry, answers (\<open>reply\<close>), confirmations, positions of the
  cursor. Strings are lists of UTF-16 code units; comparison and conversion follow the language
  (\<open>JsValue\<close>). Sequences of events are step relations with their reachable states. All functions
  are total and are accepted with a termination proof. The only fuel is that of \<open>appendNodes\<close>, which walks
  over objects that were linked by assignments: the number of nodes, which \<open>tree_loaded\<close> shows to be enough.
  Counts are integers; where the code divides, the result is rounded to a double (\<open>Numbers\<close>). Third-party code is a record of
  functions (\<open>editor_api\<close> for KindEditor, \<open>frame_api\<close> for the document in its frame, \<open>anchors\<close> for
  the HTML parser), with what is relied on as a hypothesis of the lemmas; of zTree and of the
  validation plugin, whose sources are in the repository, what the pages use is modelled.

  \<^bold>\<open>The theories.\<close>

  \<^item> \<open>Prelude\<close>, \<open>JsString\<close>, \<open>JsValue\<close>, \<open>Regex\<close>: arrays with the loop that splices while it walks,
    strings, values with \<open>==\<close>, the backtracking matcher and the languages its patterns denote.
  \<^item> \<open>Url\<close>: \<open>getEncode\<close>, \<open>suff\<close>, \<open>getFilePath\<close> of \<open>common/base.js\<close> and \<open>pageNo_fun\<close> of
    \<open>common/pagination.js\<close>. The address of another page refines an update of a parameter list.
  \<^item> \<open>Ui\<close>: messages, timers, masks, pop-ups, windows, stacking, dragging of \<open>common/base.js\<close>. Every
    reachable page is well formed, a new message replaces the old one and its timer, and the
    timers run to an end with no message left.
  \<^item> \<open>Selection\<close>: multiple choice fields of \<open>common/base.js\<close>; rows, text and hidden value stay in step, the
    backspace removes the entry at the cursor, the number of recipients is the sum it should be.
    Locale \<open>keyed_choice\<close>, interpreted on \<open>filterArr\<close>.
  \<^item> \<open>Forms\<close>: checks as lists of rules. Locale \<open>form_check\<close> has what every form promises (the first
    failing rule's message, no mask left); it is interpreted for every form modelled.
  \<^item> \<open>Layout\<close>: \<open>posfix\<close>, \<open>openSlideBox\<close>, \<open>openTips\<close>. Locale \<open>dropdown\<close>, interpreted on the two
    search boxes: inside the window where there is room.
  \<^item> \<open>Search\<close>, \<open>Select\<close>, \<open>Tips\<close>: the search boxes, the drop-down lists and the tips of \<open>common/\<close>. A search
    shows the hits, a stored value is restored, a press opens and closes, no tip outlives its cause.
  \<^item> \<open>Task\<close>: \<open>mailing.task.common.js\<close>, \<open>mailing.task.add.js\<close>. Send mode, files and campaign stay
    compatible; associated properties keep their limits; the count is asked for only after the checks.
  \<^item> \<open>Prefill\<close>: the values remembered from the last task in \<open>mailing.task.common.js\<close>, with \<open>decodeURIComponent\<close> and the
    encoding the server uses (\<open>URLEncoder\<close>, documented behaviour). They come back with a plus for every blank.
  \<^item> \<open>Markup\<close>, \<open>Template\<close>, \<open>Trigger\<close>: \<open>mailing.template.common.js\<close>, \<open>mailing.template.add.js\<close>, \<open>common/Mselect.js\<close>.
    Header and footer go in and come out again; no handler calls a missing editor; the pattern
    for variables means what it should; a template is submitted exactly when its links and
    trigger settings are right.
  \<^item> \<open>Import\<close>, \<open>Export\<close>, \<open>Steps\<close>: \<open>datasource.selection.import.js\<close>, \<open>step.2.import.js\<close>, \<open>step.2.js\<close>,
    \<open>datasource.recipient.add.js\<close>, \<open>datasource.selection.export.js\<close>, \<open>step.2.export.js\<close>, \<open>step.1.js\<close>, \<open>step.3.js\<close>,
    \<open>datasource.filter.js\<close>. The pool of properties is conserved; the number of recipients follows the
    choice; a draft is checked like the task.
  \<^item> \<open>FormPages\<close>: \<open>datasource.form.add.js\<close>, \<open>datasource.form.1.js\<close> to \<open>4.js\<close>. What page 1 inserts passes
    page 1; accepted answers lead through the pages the form calls for to the last.
  \<^item> \<open>Campaign\<close>, \<open>Account\<close>, \<open>Reports\<close>: \<open>mailing.campaign.import.js\<close>, \<open>account.user.add.js\<close>, \<open>login.js\<close>,
    \<open>report.detail.compare.js\<close> and \<open>campaign.stat.compare.js\<close>. Tasks and hidden field agree; quota is
    moved, not made; a refused login leaves the form ready; the lists of months and quarters are complete.
  \<^item> \<open>Master\<close>, \<open>Roles\<close>, \<open>Delivery\<close>, \<open>DeliveryRules\<close>, \<open>Corp\<close>: the operators' site, \<open>common/common.js\<close>,
    \<open>account/accountOperateEdit.js\<close>, \<open>role/roleEdit.js\<close>, \<open>delivery/\<close> and \<open>corp/corpList.js\<close>. Patterns for addresses
    against their meaning; roles closed under what their functions need; the table of rules refines a table of
    domains; the tree of institutions keeps six levels at most.
  \<^item> \<open>ZTree\<close>: how zTree makes the tree from the list of institutions (\<open>transformTozTreeFormat\<close>, \<open>appendNodes\<close>). The
    tree has every institution whose chain of upper ones ends, exactly once and in its place.

  \<^item> \<open>Validate\<close>: \<open>common/jquery.validate.js\<close> with the placement of messages the site gives it: rules, methods,
    messages, the events that check a field. A form is accepted exactly if no rule fails, each failing
    field shows its first failing rule, and a message goes only by a change of its own field.
  \<^item> \<open>MasterForms\<close>: \<open>account/accountEdit.js\<close>, \<open>accountOperateEdit.js\<close>, \<open>accountReadonlyEdit.js\<close>,
    \<open>cos/custom.js\<close>, \<open>system/passwordEdit.js\<close>, \<open>subUserAdd.js\<close>, \<open>subUserEdit.js\<close>, \<open>customEnterpriseAdd.js\<close>. What each form
    accepts, in terms of its values.
  \<^item> \<open>MasterProps\<close>: \<open>addAssProp\<close> and its companions of \<open>common/common.js\<close>, \<open>property/\<close>. One property of a category,
    ten at most; the ids of tasks that are imported.
  \<^item> \<open>MasterLists\<close>: the lists of \<open>account/\<close>, \<open>system/\<close>, \<open>cos/\<close>, \<open>res/\<close>, \<open>campaign/\<close>, \<open>report/\<close>, \<open>role/\<close>, \<open>task/\<close>,
    \<open>delivery/delivery.monitor.js\<close> and \<open>common/pagination.js\<close>, each a function from a command to the page. They ask
    before they change anything, a search goes to the list's own address, pages stay in range.
  \<^item> \<open>Menu\<close>: \<open>WEB-INF/jsp/home/menu/sdmenu.js\<close>, the side bar and the ticks of rows of \<open>common/common.js\<close>. The intervals
    of the folding menu are a queue; they all end, a click comes to what it means, and the cookie brings the
    open submenus back.
  \<^item> \<open>Auditing\<close>: \<open>task/auditPage.js\<close>, the tips of \<open>unauditList.js\<close> and \<open>task.priority.js\<close>, \<open>account/accountDetail.js\<close>.
    A decision is sent exactly if confirmed and explained.
  \<^item> \<open>Lists\<close>: on the customers' site \<open>mailing.task.js\<close>, \<open>mailing.audit.js\<close>, \<open>datasource.file.js\<close>,
    \<open>datasource.recipient.js\<close>, \<open>datasource.category.js\<close>, \<open>account.password.js\<close>, \<open>account.profile.js\<close>, \<open>settings.js\<close>, and
    the commands of \<open>report.*.js\<close>. The forms are interpretations of \<open>form_check\<close>.
  \<^item> \<open>Pages\<close>: the links of \<open>common/pagination.js\<close>, the tabs of \<open>mailing.template.add.js\<close>, the tags of
    \<open>mailing.task.add.js\<close>, the side bar of \<open>common/base.js\<close>. A link goes to the page that was typed; one tab is shown.

  \<^item> \<open>MessageBox\<close>: \<open>resources/Messagebox/Scripts/Jquery.L.Message.js\<close>, the messages of the operators' site with their fades
    and timers. Messages that do not overlap stand for their time; one that comes during a fade may not.
  \<^item> \<open>Numbers\<close>, \<open>Charts\<close>: the charts of the reports of both sites (\<open>report.detail.*.js\<close>, \<open>report.sum.js\<close>,
    \<open>report.task.compare.js\<close>, \<open>report/report.stat.*.js\<close>, \<open>report/plan/\<close>, \<open>campaign/campaign.stat.*.js\<close>,
    \<open>property/property.pie.js\<close>, \<open>property.pie2.js\<close>) as data, the rates computed in their pages, \<open>toFixed\<close> and
    \<open>numberFormat\<close> over doubles. The tips show the rates they mean, the parts of the bounces add up, the rows of
    the openings are in order.

  \<^bold>\<open>Not modelled.\<close> The set-up of widgets by jQuery and the binding of events (which handler runs when
  is given by the step relations); hover styles, fading and scrolling; the drawing of charts by
  Highcharts, with fonts, margins and legends; of the validation plugin remote rules, groups and the methods no form
  uses; jQuery, its plugins (ajax forms, date picker), KindEditor, artDialog, which are
  third-party code; the Java servers and the C++ mail services, which the pages see only through the
  answers that are arguments here; \<open>delivery.ruleCustom.js\<close>, a copy of \<open>delivery.rule.js\<close>, backups, and the functions the operators' site
  repeats word for word from \<open>base.js\<close>, \<open>select.js\<close> and \<open>jquery.edm.search.js\<close> (in its \<open>common/\<close>).
\<close>

end
